(* ===== verification/Prelude.thy ===== *)
theory Prelude
  imports "HOL-Library.Word" "HOL-Library.Monad_Syntax"
begin

text \<open>
  Shared vocabulary of the development: the fixed-width integers of
  include/mtp_datatype.h, the little-endian byte images the packers produce
  with memcpy, memory blocks whose cells may be uninitialised, and the list
  and option facts the component theories use.  Throughout the development a
  result None stands for behaviour that C leaves undefined (a read or write
  outside a block, a read of a cell never written, a signed overflow), so a
  theorem that some operation returns Some is a memory-safety statement.
\<close>

unbundle bit_operations_syntax

type_synonym u8 = "8 word"
type_synonym u16 = "16 word"
type_synonym u32 = "32 word"
type_synonym u64 = "64 word"

named_theorems kept_rules \<open>what the services and handlers leave unchanged\<close>
named_theorems handler_defs \<open>definitions of the command handlers\<close>

section \<open>Machine integers\<close>

lemma unat_less_pow: "unat (w :: 'a::len word) < 2 ^ LENGTH('a)"
  by (rule unsigned_less)

lemma unat_u8_less: "unat (w :: u8) < 256"
  using unat_less_pow[of w] by simp

lemma unat_u16_less: "unat (w :: u16) < 65536"
  using unat_less_pow[of w] by simp

lemma unat_u32_less: "unat (w :: u32) < 4294967296"
  using unat_less_pow[of w] by simp

lemma unat_ucast_up:
  assumes "LENGTH('a::len) \<le> LENGTH('b::len)"
  shows "unat (ucast (w :: 'a word) :: 'b word) = unat w"
proof -
  have "unat w < 2 ^ LENGTH('b)"
    by (rule order_less_le_trans[OF unat_less_pow power_increasing[OF assms]]) simp
  then show ?thesis by (simp add: unsigned_ucast_eq take_bit_nat_eq_self)
qed

lemma unat_ucast_small:
  "unat w < 2 ^ LENGTH('b::len) \<Longrightarrow> unat (ucast w :: 'b word) = unat w"
  by (simp add: unsigned_ucast_eq take_bit_nat_eq_self)

lemma ucast_ucast_up [simp]:
  assumes "LENGTH('a::len) \<le> LENGTH('b::len)"
  shows "ucast (ucast (w :: 'a word) :: 'b word) = w"
  using assms by (intro bit_word_eqI) (simp add: bit_simps)

lemma ucast_up_inject:
  assumes "LENGTH('a::len) \<le> LENGTH('b::len)"
  shows "(ucast (v :: 'a word) :: 'b word) = ucast w \<longleftrightarrow> v = w"
  using ucast_ucast_up[OF assms] by metis

lemma unat_of_nat_eq_small: "n < 2 ^ LENGTH('a) \<Longrightarrow> unat (of_nat n :: 'a::len word) = n"
  by (simp add: unat_of_nat)

lemma of_nat_unat_word: "of_nat (unat w) = (w :: 'a::len word)"
  by simp

lemma unat_Suc_word: "(w :: 'a::len word) < v \<Longrightarrow> unat (w + 1) = Suc (unat w)"
proof -
  assume "w < v"
  then have "Suc (unat w) < 2 ^ LENGTH('a)"
    using unat_less_pow[of v] by (simp only: word_less_nat_alt)
  then show ?thesis by (simp add: unat_plus_if')
qed

section \<open>Little-endian images\<close>

fun le_bytes :: "nat \<Rightarrow> 'a::len word \<Rightarrow> u8 list" where
  "le_bytes 0 w = []"
| "le_bytes (Suc n) w = ucast w # le_bytes n (drop_bit 8 w)"

fun le_word :: "u8 list \<Rightarrow> 'a::len word" where
  "le_word [] = 0"
| "le_word (b # bs) = ucast b OR push_bit 8 (le_word bs)"

lemma length_le_bytes [simp]: "length (le_bytes n w) = n"
  by (induction n arbitrary: w) simp_all

lemma le_bytes_unfold: "le_bytes (numeral k) w = ucast w # le_bytes (pred_numeral k) (drop_bit 8 w)"
  by (simp add: numeral_eq_Suc)

lemma le_word_le_bytes_take_bit:
  "le_word (le_bytes n w) = (take_bit (8 * n) w :: 'a::len word)"
proof (induction n arbitrary: w)
  case 0
  then show ?case by simp
next
  case (Suc n)
  have "ucast (ucast w :: u8) OR push_bit 8 (take_bit (8 * n) (drop_bit 8 w))
      = (take_bit (8 * Suc n) w :: 'a word)"
  proof (rule bit_word_eqI)
    fix k assume k: "k < LENGTH('a)"
    show "bit (ucast (ucast w :: u8) OR push_bit 8 (take_bit (8 * n) (drop_bit 8 w))) k
        = bit (take_bit (8 * Suc n) w :: 'a word) k"
      using k by (cases "k < 8") (auto simp: bit_simps)
  qed
  with Suc show ?case by simp
qed

lemma le_word_le_bytes [simp]:
  assumes "LENGTH('a::len) \<le> 8 * n"
  shows "le_word (le_bytes n (w :: 'a word)) = w"
  using assms by (simp add: le_word_le_bytes_take_bit take_bit_word_eq_self)

lemma le_bytes_le_word:
  assumes "8 * length bs \<le> LENGTH('a::len)"
  shows "le_bytes (length bs) (le_word bs :: 'a word) = bs"
  using assms
proof (induction bs)
  case Nil
  then show ?case by simp
next
  case (Cons b bs)
  let ?w = "le_word bs :: 'a word"
  have hd: "ucast (ucast b OR push_bit 8 ?w) = b"
  proof (rule bit_word_eqI)
    fix k assume "k < LENGTH(8)"
    then show "bit (ucast (ucast b OR push_bit 8 ?w) :: u8) k = bit b k"
      using Cons.prems by (auto simp: bit_simps)
  qed
  have small: "?w = take_bit (8 * length bs) ?w"
    using Cons.IH Cons.prems le_word_le_bytes_take_bit[of "length bs" ?w] by simp
  have tl: "drop_bit 8 (ucast b OR push_bit 8 ?w) = ?w"
  proof (rule bit_word_eqI)
    fix k assume k: "k < LENGTH('a)"
    have b: "\<not> bit b (8 + k)"
      using bit_imp_le_length[of b "8 + k"] by auto
    have "\<not> bit ?w k" if "LENGTH('a) \<le> 8 + k"
    proof -
      have "8 * length bs \<le> k" using that Cons.prems by simp
      then show ?thesis using small by (metis bit_take_bit_iff not_less)
    qed
    then show "bit (drop_bit 8 (ucast b OR push_bit 8 ?w)) k = bit ?w k"
      using k b by (cases "8 + k < LENGTH('a)") (auto simp: bit_simps)
  qed
  from hd tl Cons show ?case by simp
qed

lemma le_bytes_inject:
  assumes "LENGTH('a::len) \<le> 8 * n"
  shows "le_bytes n (v :: 'a word) = le_bytes n w \<longleftrightarrow> v = w"
  using assms le_word_le_bytes by metis

section \<open>Memory blocks\<close>

text \<open>
  A block returned by the allocator: one cell per byte, None while the cell
  has not been written.
\<close>

type_synonym block = "u8 option list"

definition block_read :: "block \<Rightarrow> nat \<Rightarrow> nat \<Rightarrow> u8 list option" where
  "block_read m off n =
     (if off + n \<le> length m then those (take n (drop off m)) else None)"

definition block_write :: "block \<Rightarrow> nat \<Rightarrow> u8 list \<Rightarrow> block option" where
  "block_write m off bs =
     (if off + length bs \<le> length m
      then Some (take off m @ map Some bs @ drop (off + length bs) m) else None)"

lemma those_map_Some [simp]: "those (map Some xs) = Some xs"
  by (induction xs) simp_all

lemma those_Some_iff: "those os = Some xs \<longleftrightarrow> os = map Some xs"
proof (induction os arbitrary: xs)
  case Nil
  then show ?case by auto
next
  case (Cons c cs)
  then show ?case by (cases c; cases xs) auto
qed

lemma block_read_Some_iff:
  "block_read m off n = Some bs \<longleftrightarrow> off + n \<le> length m \<and> take n (drop off m) = map Some bs"
  by (simp add: block_read_def those_Some_iff)

lemma block_read_length: "block_read m off n = Some bs \<Longrightarrow> length bs = n"
  by (auto simp: block_read_Some_iff dest: arg_cong[where f = length])

lemma block_write_length: "block_write m off bs = Some m' \<Longrightarrow> length m' = length m"
  by (auto simp: block_write_def split: if_splits)

lemma block_read_write_same:
  assumes "block_write m off bs = Some m'"
  shows "block_read m' off (length bs) = Some bs"
  using assms by (auto simp: block_write_def block_read_Some_iff split: if_splits)

lemma block_read_write_other:
  assumes "block_write m off bs = Some m'" "i + n \<le> off \<or> off + length bs \<le> i"
  shows "block_read m' i n = block_read m i n"
proof -
  from assms(1) have len: "off + length bs \<le> length m"
    and m': "m' = take off m @ map Some bs @ drop (off + length bs) m"
    by (auto simp: block_write_def split: if_splits)
  from assms(2) show ?thesis
  proof
    assume "i + n \<le> off"
    then have "take n (drop i m') = take n (drop i m)" if "i + n \<le> length m"
      using that len by (simp add: m' drop_take)
    with len m' show ?thesis by (simp add: block_read_def)
  next
    assume "off + length bs \<le> i"
    then have "drop i m' = drop i m" using len by (simp add: m')
    with len m' show ?thesis by (simp add: block_read_def)
  qed
qed

lemma block_read_append [simp]:
  "off + n \<le> length m \<Longrightarrow> block_read (m @ cs) off n = block_read m off n"
  by (simp add: block_read_def)

section \<open>Lists\<close>

lemma take_list_update_last:
  "0 < n \<Longrightarrow> n \<le> length d \<Longrightarrow> take n (d[n - 1 := x]) = take (n - 1) d @ [x]"
  by (cases n) (auto simp: take_Suc_conv_app_nth)

section \<open>Loops that may be undefined\<close>

fun foldM :: "('a \<Rightarrow> 's \<Rightarrow> 's option) \<Rightarrow> 'a list \<Rightarrow> 's \<Rightarrow> 's option" where
  "foldM f [] s = Some s"
| "foldM f (x # xs) s = Option.bind (f x s) (foldM f xs)"

lemma foldM_append: "foldM f (xs @ ys) s = Option.bind (foldM f xs s) (foldM f ys)"
  by (induction xs arbitrary: s) (auto split: Option.bind_splits)

text \<open>An invariant of the body, with a progress function, is one of the loop.\<close>

text \<open>
  Two readings of a run in the option monad: what holds of a result if there
  is one, and that there is a result for which something holds.
\<close>

definition ensures :: "'a option \<Rightarrow> ('a \<Rightarrow> bool) \<Rightarrow> bool" where
  "ensures m Q \<longleftrightarrow> (\<forall>r. m = Some r \<longrightarrow> Q r)"

definition returns :: "'a option \<Rightarrow> ('a \<Rightarrow> bool) \<Rightarrow> bool" where
  "returns m Q \<longleftrightarrow> (\<exists>r. m = Some r \<and> Q r)"

lemma ensures_simps [simp]:
  "ensures None Q" "ensures (Some r) Q \<longleftrightarrow> Q r"
  "ensures (Option.bind m f) Q \<longleftrightarrow> ensures m (\<lambda>x. ensures (f x) Q)" "ensures (map_option g m) Q \<longleftrightarrow> ensures m (\<lambda>x. Q (g x))"
  by (cases m; auto simp: ensures_def)+

lemma ensuresI: "(\<And>r. m = Some r \<Longrightarrow> Q r) \<Longrightarrow> ensures m Q"
  by (simp add: ensures_def)

lemma ensuresD: "ensures m Q \<Longrightarrow> m = Some r \<Longrightarrow> Q r"
  by (simp add: ensures_def)

lemma ensures_mono: "ensures m P \<Longrightarrow> (\<And>r. P r \<Longrightarrow> Q r) \<Longrightarrow> ensures m Q"
  by (simp add: ensures_def)

lemma returns_simps [simp]:
  "\<not> returns None Q" "returns (Some r) Q \<longleftrightarrow> Q r"
  "returns (Option.bind m f) Q \<longleftrightarrow> returns m (\<lambda>x. returns (f x) Q)"
  "returns (map_option g m) Q \<longleftrightarrow> returns m (\<lambda>x. Q (g x))"
  by (cases m; auto simp: returns_def)+

lemma returnsI: "m = Some r \<Longrightarrow> Q r \<Longrightarrow> returns m Q"
  by (auto simp: returns_def)

lemma returns_mono: "returns m P \<Longrightarrow> (\<And>r. P r \<Longrightarrow> Q r) \<Longrightarrow> returns m Q"
  by (auto simp: returns_def)

lemma returns_ensures: "returns m P \<Longrightarrow> ensures m Q \<Longrightarrow> returns m (\<lambda>r. P r \<and> Q r)"
  by (auto simp: returns_def ensures_def)

lemma foldM_kept:
  assumes "foldM f xs s = Some s'" "I s" "\<And>x s s'. x \<in> set xs \<Longrightarrow> I s \<Longrightarrow> f x s = Some s' \<Longrightarrow> I s'"
  shows "I s'"
  using assms
proof (induction xs arbitrary: s)
  case (Cons x xs)
  then obtain t where "f x s = Some t" "foldM f xs t = Some s'" by (auto simp: Option.bind_eq_Some_conv)
  with Cons.IH[of t] Cons.prems(2,3) show ?case by auto
qed simp

lemma foldM_invar:
  assumes "I xs s" "\<And>x xs s. I (x # xs) s \<Longrightarrow> \<exists>s'. f x s = Some s' \<and> I xs s'"
  shows "\<exists>s'. foldM f xs s = Some s' \<and> I [] s'"
  using assms(1)
proof (induction xs arbitrary: s)
  case (Cons x xs)
  then obtain s' where "f x s = Some s'" "I xs s'" using assms(2) by blast
  with Cons.IH[of s'] show ?case by auto
qed auto

section \<open>Sequential packers\<close>

text \<open>
  A packer writes its bytes one after the other behind a moving pointer and
  stops when a part reports another count than expected.  The result is the
  bytes in front of the pointer and whether all parts were written.
\<close>

type_synonym packer = "(u8 list \<times> bool) option"

definition pk_bytes :: "u8 list \<Rightarrow> packer" where
  "pk_bytes bs = Some (bs, True)"

definition pk_part :: "u32 \<Rightarrow> (u8 list \<times> u32) option \<Rightarrow> packer" where
  "pk_part expected r = map_option (\<lambda>(bs, n). if n = expected then (bs, True) else ([], False)) r"

definition pk_then :: "packer \<Rightarrow> packer \<Rightarrow> packer" where
  "pk_then p q = do {
     (bs, ok) \<leftarrow> p;
     if ok then do { (cs, ok') \<leftarrow> q; Some (bs @ cs, ok') } else Some (bs, False) }"

fun pk_seq :: "packer list \<Rightarrow> packer" where
  "pk_seq [] = pk_bytes []"
| "pk_seq (p # ps) = pk_then p (pk_seq ps)"

definition pk_run :: "packer \<Rightarrow> (u8 list \<times> u32) option" where
  "pk_run p = map_option (\<lambda>(bs, ok). (bs, of_nat (length bs))) p"

lemma pk_then_ok [simp]: "pk_then (Some (bs, True)) (Some (cs, ok)) = Some (bs @ cs, ok)"
  by (simp add: pk_then_def)

lemma pk_part_ok [simp]: "pk_part n (Some (bs, n)) = Some (bs, True)"
  by (simp add: pk_part_def)

lemma pk_seq_ok:
  "(\<And>p. p \<in> set ps \<Longrightarrow> \<exists>bs. p = Some (bs, True)) \<Longrightarrow>
   pk_seq ps = Some (concat (map (\<lambda>p. fst (the p)) ps), True)"
proof (induction ps)
  case Nil
  then show ?case by (simp add: pk_bytes_def)
next
  case (Cons p ps)
  from Cons.prems[of p] obtain bs where "p = Some (bs, True)" by auto
  with Cons show ?case by simp
qed

end
