(* ===== verification/Codes.thy ===== *)
theory Codes
  imports Prelude
begin

text \<open>
  Numeric codes of include/ptp_datacodes.h and the configuration constants of
  include/mtp_config.h, at the width the program uses them: responses,
  operations, formats, events and data types are 16 bits wide; handles,
  storage identifiers and the wildcard values are 32 bits wide.
\<close>

section \<open>Data types of property values\<close>

abbreviation (input) PTP_DATATYPE_UNDEFINED :: u16 where "PTP_DATATYPE_UNDEFINED \<equiv> 0x0000"
abbreviation (input) PTP_DATATYPE_INT8 :: u16 where "PTP_DATATYPE_INT8 \<equiv> 0x0001"
abbreviation (input) PTP_DATATYPE_UINT8 :: u16 where "PTP_DATATYPE_UINT8 \<equiv> 0x0002"
abbreviation (input) PTP_DATATYPE_INT16 :: u16 where "PTP_DATATYPE_INT16 \<equiv> 0x0003"
abbreviation (input) PTP_DATATYPE_UINT16 :: u16 where "PTP_DATATYPE_UINT16 \<equiv> 0x0004"
abbreviation (input) PTP_DATATYPE_INT32 :: u16 where "PTP_DATATYPE_INT32 \<equiv> 0x0005"
abbreviation (input) PTP_DATATYPE_UINT32 :: u16 where "PTP_DATATYPE_UINT32 \<equiv> 0x0006"
abbreviation (input) PTP_DATATYPE_INT64 :: u16 where "PTP_DATATYPE_INT64 \<equiv> 0x0007"
abbreviation (input) PTP_DATATYPE_UINT64 :: u16 where "PTP_DATATYPE_UINT64 \<equiv> 0x0008"
abbreviation (input) PTP_DATATYPE_INT128 :: u16 where "PTP_DATATYPE_INT128 \<equiv> 0x0009"
abbreviation (input) PTP_DATATYPE_UINT128 :: u16 where "PTP_DATATYPE_UINT128 \<equiv> 0x000A"
abbreviation (input) PTP_DATATYPE_AINT8 :: u16 where "PTP_DATATYPE_AINT8 \<equiv> 0x4001"
abbreviation (input) PTP_DATATYPE_AUINT8 :: u16 where "PTP_DATATYPE_AUINT8 \<equiv> 0x4002"
abbreviation (input) PTP_DATATYPE_AINT16 :: u16 where "PTP_DATATYPE_AINT16 \<equiv> 0x4003"
abbreviation (input) PTP_DATATYPE_AUINT16 :: u16 where "PTP_DATATYPE_AUINT16 \<equiv> 0x4004"
abbreviation (input) PTP_DATATYPE_AINT32 :: u16 where "PTP_DATATYPE_AINT32 \<equiv> 0x4005"
abbreviation (input) PTP_DATATYPE_AUINT32 :: u16 where "PTP_DATATYPE_AUINT32 \<equiv> 0x4006"
abbreviation (input) PTP_DATATYPE_AINT64 :: u16 where "PTP_DATATYPE_AINT64 \<equiv> 0x4007"
abbreviation (input) PTP_DATATYPE_AUINT64 :: u16 where "PTP_DATATYPE_AUINT64 \<equiv> 0x4008"
abbreviation (input) PTP_DATATYPE_AINT128 :: u16 where "PTP_DATATYPE_AINT128 \<equiv> 0x4009"
abbreviation (input) PTP_DATATYPE_AUINT128 :: u16 where "PTP_DATATYPE_AUINT128 \<equiv> 0x400A"
abbreviation (input) PTP_DATATYPE_STRING :: u16 where "PTP_DATATYPE_STRING \<equiv> 0xFFFF"
abbreviation (input) PTP_DATATYPE_ARRAYMASK :: u16 where "PTP_DATATYPE_ARRAYMASK \<equiv> 0x4FF0"
abbreviation (input) PTP_DATATYPE_ARRAY :: u16 where "PTP_DATATYPE_ARRAY \<equiv> 0x4000"
abbreviation (input) PTP_DATATYPE_VALUEMASK :: u16 where "PTP_DATATYPE_VALUEMASK \<equiv> 0xFFF0"
abbreviation (input) PTP_DATATYPE_VALUE :: u16 where "PTP_DATATYPE_VALUE \<equiv> 0x0000"

section \<open>Wildcards\<close>

abbreviation (input) PTP_OBJECTHANDLE_ALL :: u32 where "PTP_OBJECTHANDLE_ALL \<equiv> 0xFFFFFFFF"
abbreviation (input) PTP_OBJECTHANDLE_UNDEFINED :: u32 where "PTP_OBJECTHANDLE_UNDEFINED \<equiv> 0"
abbreviation (input) PTP_OBJECTHANDLE_ROOT :: u32 where "PTP_OBJECTHANDLE_ROOT \<equiv> 0"
abbreviation (input) PTP_PROPERTY_ALL :: u32 where "PTP_PROPERTY_ALL \<equiv> 0xFFFFFFFF"
abbreviation (input) PTP_PROPERTY_UNDEFINED :: u32 where "PTP_PROPERTY_UNDEFINED \<equiv> 0"
abbreviation (input) PTP_STORAGEID_ALL :: u32 where "PTP_STORAGEID_ALL \<equiv> 0xFFFFFFFF"
abbreviation (input) PTP_STORAGEID_DEFAULT :: u32 where "PTP_STORAGEID_DEFAULT \<equiv> 0"
abbreviation (input) PTP_STORAGEID_UNDEFINED :: u32 where "PTP_STORAGEID_UNDEFINED \<equiv> 0"
abbreviation (input) PTP_FORMATCODE_NOTUSED :: u32 where "PTP_FORMATCODE_NOTUSED \<equiv> 0"
abbreviation (input) PTP_FORMATCODE_ALL :: u32 where "PTP_FORMATCODE_ALL \<equiv> 0xFFFFFFFF"

section \<open>Operations\<close>

abbreviation (input) PTP_OPCODE_GETDEVICEINFO :: u16 where "PTP_OPCODE_GETDEVICEINFO \<equiv> 0x1001"
abbreviation (input) PTP_OPCODE_OPENSESSION :: u16 where "PTP_OPCODE_OPENSESSION \<equiv> 0x1002"
abbreviation (input) PTP_OPCODE_CLOSESESSION :: u16 where "PTP_OPCODE_CLOSESESSION \<equiv> 0x1003"
abbreviation (input) PTP_OPCODE_GETSTORAGEIDS :: u16 where "PTP_OPCODE_GETSTORAGEIDS \<equiv> 0x1004"
abbreviation (input) PTP_OPCODE_GETSTORAGEINFO :: u16 where "PTP_OPCODE_GETSTORAGEINFO \<equiv> 0x1005"
abbreviation (input) PTP_OPCODE_GETOBJECTHANDLES :: u16 where "PTP_OPCODE_GETOBJECTHANDLES \<equiv> 0x1007"
abbreviation (input) PTP_OPCODE_GETOBJECTINFO :: u16 where "PTP_OPCODE_GETOBJECTINFO \<equiv> 0x1008"
abbreviation (input) PTP_OPCODE_GETOBJECT :: u16 where "PTP_OPCODE_GETOBJECT \<equiv> 0x1009"
abbreviation (input) PTP_OPCODE_DELETEOBJECT :: u16 where "PTP_OPCODE_DELETEOBJECT \<equiv> 0x100B"
abbreviation (input) PTP_OPCODE_SENDOBJECTINFO :: u16 where "PTP_OPCODE_SENDOBJECTINFO \<equiv> 0x100C"
abbreviation (input) PTP_OPCODE_SENDOBJECT :: u16 where "PTP_OPCODE_SENDOBJECT \<equiv> 0x100D"
abbreviation (input) PTP_OPCODE_RESETDEVICE :: u16 where "PTP_OPCODE_RESETDEVICE \<equiv> 0x1010"
abbreviation (input) PTP_OPCODE_POWERDOWN :: u16 where "PTP_OPCODE_POWERDOWN \<equiv> 0x1013"
abbreviation (input) PTP_OPCODE_GETPARTIALOBJECT :: u16 where "PTP_OPCODE_GETPARTIALOBJECT \<equiv> 0x101B"
abbreviation (input) PTP_CODE_VENDOR_OP1 :: u16 where "PTP_CODE_VENDOR_OP1 \<equiv> 0x9001"
abbreviation (input) MTP_OPCODE_GETOBJECTPROPSUPPORTED :: u16 where "MTP_OPCODE_GETOBJECTPROPSUPPORTED \<equiv> 0x9801"
abbreviation (input) MTP_OPCODE_GETOBJECTPROPDESC :: u16 where "MTP_OPCODE_GETOBJECTPROPDESC \<equiv> 0x9802"
abbreviation (input) MTP_OPCODE_GETOBJECTPROPVALUE :: u16 where "MTP_OPCODE_GETOBJECTPROPVALUE \<equiv> 0x9803"
abbreviation (input) MTP_OPCODE_SETOBJECTPROPVALUE :: u16 where "MTP_OPCODE_SETOBJECTPROPVALUE \<equiv> 0x9804"
abbreviation (input) MTP_OPCODE_GETINTERDEPPROPDESC :: u16 where "MTP_OPCODE_GETINTERDEPPROPDESC \<equiv> 0x9807"
abbreviation (input) PTP_OC_ANDROID_BEGINEDITOBJECT :: u16 where "PTP_OC_ANDROID_BEGINEDITOBJECT \<equiv> 0x95C4"
abbreviation (input) PTP_OC_ANDROID_ENDEDITOBJECT :: u16 where "PTP_OC_ANDROID_ENDEDITOBJECT \<equiv> 0x95C5"
abbreviation (input) PTP_OC_ANDROID_GETPARTIALOBJECT :: u16 where "PTP_OC_ANDROID_GETPARTIALOBJECT \<equiv> 0x95C1"
abbreviation (input) PTP_OC_ANDROID_SENDPARTIALOBJECT :: u16 where "PTP_OC_ANDROID_SENDPARTIALOBJECT \<equiv> 0x95C2"

section \<open>Events\<close>

abbreviation (input) PTP_EVENTCODE_CANCELTRANSACTION :: u16 where "PTP_EVENTCODE_CANCELTRANSACTION \<equiv> 0x4001"
abbreviation (input) PTP_EVENTCODE_OBJECTADDED :: u16 where "PTP_EVENTCODE_OBJECTADDED \<equiv> 0x4002"
abbreviation (input) PTP_EVENTCODE_OBJECTREMOVED :: u16 where "PTP_EVENTCODE_OBJECTREMOVED \<equiv> 0x4003"
abbreviation (input) PTP_EVENTCODE_DEVICERESET :: u16 where "PTP_EVENTCODE_DEVICERESET \<equiv> 0x400B"

section \<open>Responses\<close>

abbreviation (input) PTP_RESPONSE_UNDEFINED :: u16 where "PTP_RESPONSE_UNDEFINED \<equiv> 0x2000"
abbreviation (input) PTP_RESPONSE_OK :: u16 where "PTP_RESPONSE_OK \<equiv> 0x2001"
abbreviation (input) PTP_RESPONSE_GEN_ERROR :: u16 where "PTP_RESPONSE_GEN_ERROR \<equiv> 0x2002"
abbreviation (input) PTP_RESPONSE_SESSIONNOTOPEN :: u16 where "PTP_RESPONSE_SESSIONNOTOPEN \<equiv> 0x2003"
abbreviation (input) PTP_RESPONSE_OP_NOT_SUPPORTED :: u16 where "PTP_RESPONSE_OP_NOT_SUPPORTED \<equiv> 0x2005"
abbreviation (input) PTP_RESPONSE_PARAM_NOTSUPPORTED :: u16 where "PTP_RESPONSE_PARAM_NOTSUPPORTED \<equiv> 0x2006"
abbreviation (input) PTP_RESPONSE_INCOMPLETETRANSFER :: u16 where "PTP_RESPONSE_INCOMPLETETRANSFER \<equiv> 0x2007"
abbreviation (input) PTP_RESPONSE_INVALID_STORE_ID :: u16 where "PTP_RESPONSE_INVALID_STORE_ID \<equiv> 0x2008"
abbreviation (input) PTP_RESPONSE_INVALID_OBJ_HANDLE :: u16 where "PTP_RESPONSE_INVALID_OBJ_HANDLE \<equiv> 0x2009"
abbreviation (input) PTP_RESPONSE_PROP_NOTSUPPORTED :: u16 where "PTP_RESPONSE_PROP_NOTSUPPORTED \<equiv> 0x200A"
abbreviation (input) PTP_RESPONSE_INVALID_OBJ_FMTCODE :: u16 where "PTP_RESPONSE_INVALID_OBJ_FMTCODE \<equiv> 0x200B"
abbreviation (input) PTP_RESPONSE_STOREFULL :: u16 where "PTP_RESPONSE_STOREFULL \<equiv> 0x200C"
abbreviation (input) PTP_RESPONSE_OBJ_WRITEPROTECTED :: u16 where "PTP_RESPONSE_OBJ_WRITEPROTECTED \<equiv> 0x200D"
abbreviation (input) PTP_RESPONSE_STORE_READONLY :: u16 where "PTP_RESPONSE_STORE_READONLY \<equiv> 0x200E"
abbreviation (input) PTP_RESPONSE_ACCESSDENIED :: u16 where "PTP_RESPONSE_ACCESSDENIED \<equiv> 0x200F"
abbreviation (input) PTP_RESPONSE_PARTIAL_DELETION :: u16 where "PTP_RESPONSE_PARTIAL_DELETION \<equiv> 0x2012"
abbreviation (input) PTP_RESPONSE_STORENOTAVAILABLE :: u16 where "PTP_RESPONSE_STORENOTAVAILABLE \<equiv> 0x2013"
abbreviation (input) PTP_RESPONSE_NOSPECIFICATIONBYFORMAT :: u16 where "PTP_RESPONSE_NOSPECIFICATIONBYFORMAT \<equiv> 0x2014"
abbreviation (input) PTP_RESPONSE_NOVALID_OBJINFO :: u16 where "PTP_RESPONSE_NOVALID_OBJINFO \<equiv> 0x2015"
abbreviation (input) PTP_RESPONSE_INVALIDCODEFORMAT :: u16 where "PTP_RESPONSE_INVALIDCODEFORMAT \<equiv> 0x2016"
abbreviation (input) PTP_RESPONSE_DEVICEBUSY :: u16 where "PTP_RESPONSE_DEVICEBUSY \<equiv> 0x2019"
abbreviation (input) PTP_RESPONSE_INVALIDPARENT :: u16 where "PTP_RESPONSE_INVALIDPARENT \<equiv> 0x201A"
abbreviation (input) PTP_RESPONSE_INVALIDPROPVALUE :: u16 where "PTP_RESPONSE_INVALIDPROPVALUE \<equiv> 0x201C"
abbreviation (input) PTP_RESPONSE_INVALIDPARAM :: u16 where "PTP_RESPONSE_INVALIDPARAM \<equiv> 0x201D"
abbreviation (input) PTP_RESPONSE_SESSIONALREADYOPENED :: u16 where "PTP_RESPONSE_SESSIONALREADYOPENED \<equiv> 0x201E"
abbreviation (input) PTP_RESPONSE_TRANSACTIONCANCELLED :: u16 where "PTP_RESPONSE_TRANSACTIONCANCELLED \<equiv> 0x201F"
abbreviation (input) MTP_RESPONSE_INVALIDOBJPROPCODE :: u16 where "MTP_RESPONSE_INVALIDOBJPROPCODE \<equiv> 0xA801"
abbreviation (input) MTP_RESPONSE_INVALIDOBJPROPFORMAT :: u16 where "MTP_RESPONSE_INVALIDOBJPROPFORMAT \<equiv> 0xA802"
abbreviation (input) MTP_RESPONSECODE_INVALIDDATASET :: u16 where "MTP_RESPONSECODE_INVALIDDATASET \<equiv> 0xA806"

section \<open>Formats and object properties\<close>

abbreviation (input) PTP_FMT_UNDEF :: u16 where "PTP_FMT_UNDEF \<equiv> 0x3000"
abbreviation (input) PTP_FMT_ASSOCIATION :: u16 where "PTP_FMT_ASSOCIATION \<equiv> 0x3001"

abbreviation (input) MTP_OBJ_PROPERTYCODE_OMADRMSTATUS :: u16 where "MTP_OBJ_PROPERTYCODE_OMADRMSTATUS \<equiv> 0xDB01"
abbreviation (input) MTP_OBJ_PROPERTYCODE_STORAGEID :: u16 where "MTP_OBJ_PROPERTYCODE_STORAGEID \<equiv> 0xDC01"
abbreviation (input) MTP_OBJ_PROPERTYCODE_OBJECTFORMAT :: u16 where "MTP_OBJ_PROPERTYCODE_OBJECTFORMAT \<equiv> 0xDC02"
abbreviation (input) MTP_OBJ_PROPERTYCODE_PROTECTIONSTATUS :: u16 where "MTP_OBJ_PROPERTYCODE_PROTECTIONSTATUS \<equiv> 0xDC03"
abbreviation (input) MTP_OBJ_PROPERTYCODE_OBJECTSIZE :: u16 where "MTP_OBJ_PROPERTYCODE_OBJECTSIZE \<equiv> 0xDC04"
abbreviation (input) MTP_OBJ_PROPERTYCODE_ASSOCIATIONTYPE :: u16 where "MTP_OBJ_PROPERTYCODE_ASSOCIATIONTYPE \<equiv> 0xDC05"
abbreviation (input) MTP_OBJ_PROPERTYCODE_OBJECTFILENAME :: u16 where "MTP_OBJ_PROPERTYCODE_OBJECTFILENAME \<equiv> 0xDC07"
abbreviation (input) MTP_OBJ_PROPERTYCODE_DATECREATED :: u16 where "MTP_OBJ_PROPERTYCODE_DATECREATED \<equiv> 0xDC08"
abbreviation (input) MTP_OBJ_PROPERTYCODE_DATEMODIFIED :: u16 where "MTP_OBJ_PROPERTYCODE_DATEMODIFIED \<equiv> 0xDC09"
abbreviation (input) MTP_OBJ_PROPERTYCODE_PARENT :: u16 where "MTP_OBJ_PROPERTYCODE_PARENT \<equiv> 0xDC0B"
abbreviation (input) MTP_OBJ_PROPERTYCODE_PERSISTENTGUID :: u16 where "MTP_OBJ_PROPERTYCODE_PERSISTENTGUID \<equiv> 0xDC41"
abbreviation (input) MTP_OBJ_PROPERTYCODE_NAME :: u16 where "MTP_OBJ_PROPERTYCODE_NAME \<equiv> 0xDC44"
abbreviation (input) MTP_OBJ_PROPERTYCODE_NONCONSUMABLE :: u16 where "MTP_OBJ_PROPERTYCODE_NONCONSUMABLE \<equiv> 0xDC4F"

section \<open>Error values of the handler utilities\<close>

datatype mtp_err =
    MTP_ERROR_NONE | MTP_ERROR_GENERAL | MTP_ERROR_INVALID_STORE
  | MTP_ERROR_STORE_READ_ONLY | MTP_ERROR_STORE_FULL | MTP_ERROR_INVALID_DATASET
  | MTP_ERROR_INVALID_OBJECTHANDLE | MTP_ERROR_INVALID_OBJ_PROP_CODE
  | MTP_ERROR_INVALID_OBJECT_PROP_FORMAT | MTP_ERROR_INVALID_OBJ_PROP_VALUE
  | MTP_ERROR_INVALID_PARENT | MTP_ERROR_ACCESS_DENIED | MTP_ERROR_STORE_NOT_AVAILABLE
  | MTP_ERROR_INVALID_PARAM | MTP_ERROR_INVALID_OBJECT_INFO
  | MTP_ERROR_OBJECT_WRITE_PROTECTED | MTP_ERROR_PARTIAL_DELETION
  | MTP_ERROR_NO_SPEC_BY_FORMAT | MTP_ERROR_OPERATION_NOT_SUPPORTED | MTP_ERROR_MAX

end
