(* ===== verification/Ptp_Array.thy ===== *)
theory Ptp_Array
  imports Codes
begin

text \<open>
  The growable PTP array of src/entity/mtp_property.c (ptp_array_t and the
  _prop_*_ptparray functions).  The entries are modelled as the block of bytes
  behind array_entry, read and written at the element width of the current
  type, because _prop_pack_ptparray copies raw bytes and _prop_copy_ptparray
  changes the type of an array that is already allocated.  None is undefined
  behaviour.  The function ptparray_elems is the abstraction to a list, and
  the locale elem_seq at the end is the contract the object and store
  components rely on.
\<close>

section \<open>Data and operations\<close>

datatype data_type = UINT8_TYPE | UINT16_TYPE | UINT32_TYPE | PTR_TYPE | UINT128_TYPE

record ptp_array =
  pa_type :: data_type
  arr_size :: u32
  num_ele :: u32
  array_entry :: "block option"

abbreviation (input) INITIAL_ARRAY_SIZE :: nat where "INITIAL_ARRAY_SIZE \<equiv> 100"
abbreviation (input) ELEMENT_NOT_FOUND :: int where "ELEMENT_NOT_FOUND \<equiv> - 1"

fun get_ptp_array_elem_size :: "data_type \<Rightarrow> nat" where
  "get_ptp_array_elem_size UINT8_TYPE = 1"
| "get_ptp_array_elem_size UINT16_TYPE = 2"
| "get_ptp_array_elem_size PTR_TYPE = 4"
| "get_ptp_array_elem_size UINT32_TYPE = 4"
| "get_ptp_array_elem_size UINT128_TYPE = 16"

text \<open>The block is zeroed by memset right after the allocation.\<close>

definition prop_init_ptparray :: "ptp_array \<Rightarrow> data_type \<Rightarrow> ptp_array" where
  "prop_init_ptparray a t =
     a\<lparr>pa_type := t, num_ele := 0, arr_size := of_nat INITIAL_ARRAY_SIZE,
       array_entry := Some (replicate (get_ptp_array_elem_size t * INITIAL_ARRAY_SIZE) (Some 0))\<rparr>"

definition prop_alloc_ptparray :: "data_type \<Rightarrow> ptp_array" where
  "prop_alloc_ptparray t =
     prop_init_ptparray \<lparr>pa_type = t, arr_size = 0, num_ele = 0, array_entry = None\<rparr> t"

definition prop_get_size_ptparray :: "ptp_array \<Rightarrow> u32" where
  "prop_get_size_ptparray a = 4 + of_nat (get_ptp_array_elem_size (pa_type a)) * num_ele a"

text \<open>g_realloc keeps the common prefix; the cells it adds are uninitialised.\<close>

definition g_realloc_block :: "block option \<Rightarrow> nat \<Rightarrow> block" where
  "g_realloc_block mo n =
     (let m = (case mo of None \<Rightarrow> [] | Some m \<Rightarrow> m)
      in take n m @ replicate (n - length m) None)"

definition prop_grow_ptparray :: "ptp_array \<Rightarrow> u32 \<Rightarrow> ptp_array \<times> bool" where
  "prop_grow_ptparray a new_size =
     (let a1 = (if arr_size a = 0 then prop_init_ptparray a (pa_type a) else a)
      in if new_size < arr_size a1 then (a1, True)
         else (let bytes = of_nat (get_ptp_array_elem_size (pa_type a1)) * new_size
               in if bytes = 0 then (a1\<lparr>array_entry := None, arr_size := 0\<rparr>, False)
                  else (a1\<lparr>array_entry := Some (g_realloc_block (array_entry a1) (unat bytes)),
                           arr_size := new_size\<rparr>, True)))"

text \<open>The conversion of the u32 argument to the element type.\<close>

fun conv_elem :: "data_type \<Rightarrow> u32 \<Rightarrow> u32" where
  "conv_elem UINT8_TYPE e = ucast (ucast e :: u8)"
| "conv_elem UINT16_TYPE e = ucast (ucast e :: u16)"
| "conv_elem _ e = e"

definition ld_elem :: "block \<Rightarrow> nat \<Rightarrow> nat \<Rightarrow> u32 option" where
  "ld_elem m es i = map_option le_word (block_read m (i * es) es)"

definition st_elem :: "block \<Rightarrow> nat \<Rightarrow> nat \<Rightarrow> u32 \<Rightarrow> block option" where
  "st_elem m es i v = block_write m (i * es) (le_bytes es v)"

text \<open>
  The search loop; the index is a signed 32-bit integer, so going past
  2147483647 is undefined.
\<close>

function find_ele_loop :: "block \<Rightarrow> nat \<Rightarrow> u32 \<Rightarrow> nat \<Rightarrow> nat \<Rightarrow> int option" where
  "find_ele_loop m es v i n =
     (if i < n then
        (if 2 ^ 31 \<le> i then None
         else (case ld_elem m es i of
                 None \<Rightarrow> None
               | Some x \<Rightarrow> if x = v then Some (int i) else find_ele_loop m es v (Suc i) n))
      else Some ELEMENT_NOT_FOUND)"
  by pat_completeness auto
termination by (relation "measure (\<lambda>(m, es, v, i, n). n - i)") auto

declare find_ele_loop.simps [simp del]

definition prop_find_ele_ptparray :: "ptp_array \<Rightarrow> u32 \<Rightarrow> int option" where
  "prop_find_ele_ptparray a e =
     (case array_entry a of
        None \<Rightarrow> Some ELEMENT_NOT_FOUND
      | Some m \<Rightarrow>
          (if pa_type a = UINT128_TYPE then Some ELEMENT_NOT_FOUND
           else find_ele_loop m (get_ptp_array_elem_size (pa_type a)) (conv_elem (pa_type a) e)
                  0 (unat (num_ele a))))"

text \<open>The switch at the end of the append: the entry is written at num_ele.\<close>

definition append_store :: "ptp_array \<Rightarrow> u32 \<Rightarrow> (ptp_array \<times> bool) option" where
  "append_store a e =
     (if pa_type a = UINT128_TYPE then Some (a, True)
      else do {
        m \<leftarrow> array_entry a;
        m' \<leftarrow> st_elem m (get_ptp_array_elem_size (pa_type a)) (unat (num_ele a)) e;
        Some (a\<lparr>array_entry := Some m', num_ele := num_ele a + 1\<rparr>, True)
      })"

definition prop_append_ele_ptparray :: "ptp_array \<Rightarrow> u32 \<Rightarrow> (ptp_array \<times> bool) option" where
  "prop_append_ele_ptparray a e =
     (if arr_size a \<le> num_ele a then
        (case prop_grow_ptparray a (drop_bit 1 (arr_size a * 3) + 2) of
           (a1, ok) \<Rightarrow> if ok then append_store a1 e else Some (a1, False))
      else append_store a e)"

text \<open>
  _prop_copy_ptparray appends the entries of the source one by one and drops
  the result of each append.
\<close>

function copy_ele_loop :: "ptp_array \<Rightarrow> block option \<Rightarrow> nat \<Rightarrow> nat \<Rightarrow> nat \<Rightarrow> ptp_array option" where
  "copy_ele_loop dst src es i n =
     (if i < n then do {
        m \<leftarrow> src;
        x \<leftarrow> ld_elem m es i;
        (dst', _) \<leftarrow> prop_append_ele_ptparray dst x;
        copy_ele_loop dst' src es (Suc i) n
      } else Some dst)"
  by pat_completeness auto
termination by (relation "measure (\<lambda>(dst, src, es, i, n). n - i)") auto

declare copy_ele_loop.simps [simp del]

definition prop_copy_ptparray :: "ptp_array \<Rightarrow> ptp_array \<Rightarrow> (ptp_array \<times> bool) option" where
  "prop_copy_ptparray dst src =
     (let dst1 = dst\<lparr>pa_type := pa_type src\<rparr>
      in if pa_type src = UINT128_TYPE then Some (dst1, False)
         else do {
           d \<leftarrow> copy_ele_loop dst1 (array_entry src) (get_ptp_array_elem_size (pa_type src))
                  0 (unat (num_ele src));
           Some (d, True)
         })"

text \<open>
  The packer writes its bytes from the start of the caller's buffer; its
  result is the list of bytes written and the returned count.  The product
  num_ele * size is computed modulo 2^32, the comparison in 64 bits.
\<close>

definition prop_pack_ptparray :: "ptp_array \<Rightarrow> u32 \<Rightarrow> (u8 list \<times> u32) option" where
  "prop_pack_ptparray a bufsize =
     (let es = get_ptp_array_elem_size (pa_type a);
          body = num_ele a * of_nat es
      in if unat bufsize < 4 + unat body then Some ([], 0)
         else if num_ele a = 0 then Some (le_bytes 4 (num_ele a), 4 + body)
         else do {
           m \<leftarrow> array_entry a;
           bs \<leftarrow> block_read m 0 (unat body);
           Some (le_bytes 4 (num_ele a) @ bs, 4 + body)
         })"

function shift_ele_loop :: "block \<Rightarrow> nat \<Rightarrow> nat \<Rightarrow> nat \<Rightarrow> block option" where
  "shift_ele_loop m es i n =
     (if i < n then do {
        x \<leftarrow> ld_elem m es (Suc i);
        m' \<leftarrow> st_elem m es i x;
        shift_ele_loop m' es (Suc i) n
      } else Some m)"
  by pat_completeness auto
termination by (relation "measure (\<lambda>(m, es, i, n). n - i)") auto

declare shift_ele_loop.simps [simp del]

definition prop_rem_elem_ptparray :: "ptp_array \<Rightarrow> u32 \<Rightarrow> (ptp_array \<times> bool) option" where
  "prop_rem_elem_ptparray a e = do {
     i \<leftarrow> prop_find_ele_ptparray a e;
     if i = ELEMENT_NOT_FOUND then Some (a, False)
     else do {
       m \<leftarrow> array_entry a;
       m' \<leftarrow> shift_ele_loop m (get_ptp_array_elem_size (pa_type a)) (nat i) (unat (num_ele a - 1));
       Some (a\<lparr>array_entry := Some m', num_ele := num_ele a - 1\<rparr>, True)
     }
   }"

definition prop_deinit_ptparray :: "ptp_array \<Rightarrow> ptp_array" where
  "prop_deinit_ptparray a = a\<lparr>num_ele := 0, arr_size := 0, array_entry := None\<rparr>"

section \<open>Abstraction and invariant\<close>

definition ptparray_elems :: "ptp_array \<Rightarrow> u32 list option" where
  "ptparray_elems a =
     (if num_ele a = 0 then Some []
      else (case array_entry a of
              None \<Rightarrow> None
            | Some m \<Rightarrow> those (map (ld_elem m (get_ptp_array_elem_size (pa_type a)))
                                  [0..<unat (num_ele a)])))"

definition ptparray_inv :: "ptp_array \<Rightarrow> bool" where
  "ptparray_inv a \<longleftrightarrow>
     num_ele a \<le> arr_size a
   \<and> (case array_entry a of
        None \<Rightarrow> arr_size a = 0
      | Some m \<Rightarrow> arr_size a \<noteq> 0
               \<and> unat (arr_size a) * get_ptp_array_elem_size (pa_type a) \<le> length m)
   \<and> ptparray_elems a \<noteq> None"

text \<open>Room for one more element without wrapping the byte size of the block.\<close>

definition ptparray_room :: "ptp_array \<Rightarrow> bool" where
  "ptparray_room a \<longleftrightarrow> unat (num_ele a) < 2 ^ 29"

section \<open>Element access\<close>

lemma those_map_upt_iff:
  "those (map f [0..<n]) = Some xs \<longleftrightarrow> length xs = n \<and> (\<forall>i<n. f i = Some (xs ! i))"
  unfolding those_Some_iff
  by (auto simp: list_eq_iff_nth_eq dest: arg_cong[where f = length])

lemma elem_size_bounds [simp]:
  "0 < get_ptp_array_elem_size t" "get_ptp_array_elem_size t \<le> 16"
  "t \<noteq> UINT128_TYPE \<Longrightarrow> get_ptp_array_elem_size t \<le> 4"
  by (cases t; simp)+

lemma conv_elem_take_bit:
  "t \<noteq> UINT128_TYPE \<Longrightarrow> conv_elem t e = take_bit (8 * get_ptp_array_elem_size t) e"
  by (cases t) (auto intro!: bit_word_eqI simp: bit_simps)

lemma st_elem_Some: "Suc i * es \<le> length m \<Longrightarrow> \<exists>m'. st_elem m es i v = Some m'"
  by (simp add: st_elem_def block_write_def add.commute)

lemma st_elem_length: "st_elem m es i v = Some m' \<Longrightarrow> length m' = length m"
  by (auto simp: st_elem_def dest: block_write_length)

lemma ld_st_same: "st_elem m es i v = Some m' \<Longrightarrow> ld_elem m' es i = Some (take_bit (8 * es) v)"
  using block_read_write_same[of m "i * es" "le_bytes es v" m']
  by (simp add: st_elem_def ld_elem_def le_word_le_bytes_take_bit)

lemma ld_st_other:
  assumes "st_elem m es i v = Some m'" "k \<noteq> i"
  shows "ld_elem m' es k = ld_elem m es k"
proof -
  have "k * es + es \<le> i * es \<or> i * es + es \<le> k * es"
  proof (cases "k < i")
    case True
    then have "Suc k * es \<le> i * es" by (intro mult_le_mono1) simp
    then show ?thesis by simp
  next
    case False
    with assms(2) have "Suc i * es \<le> k * es" by (intro mult_le_mono1) simp
    then show ?thesis by simp
  qed
  with assms(1) show ?thesis
    by (simp add: st_elem_def ld_elem_def block_read_write_other)
qed

lemma ld_elem_bound: "ld_elem m es i = Some x \<Longrightarrow> Suc i * es \<le> length m"
  by (auto simp: ld_elem_def block_read_Some_iff add.commute)

lemma ld_elem_canonical:
  assumes "ld_elem m es i = Some x" "es \<le> 4"
  shows "take_bit (8 * es) x = x"
proof -
  from assms(1) obtain bs where bs: "block_read m (i * es) es = Some bs" "x = le_word bs"
    by (auto simp: ld_elem_def)
  then have "length bs = es" by (simp add: block_read_length)
  with bs assms(2) have "le_bytes es x = bs"
    using le_bytes_le_word[where 'a = 32, of bs] by simp
  with bs show ?thesis using le_word_le_bytes_take_bit[of es x] by simp
qed

lemma ld_elem_append [simp]:
  "Suc i * es \<le> length m \<Longrightarrow> ld_elem (m @ cs) es i = ld_elem m es i"
  by (simp add: ld_elem_def add.commute)

lemma ptparray_elems_iff:
  assumes "array_entry a = Some m"
  shows "ptparray_elems a = Some xs \<longleftrightarrow>
     length xs = unat (num_ele a)
   \<and> (\<forall>i<unat (num_ele a). ld_elem m (get_ptp_array_elem_size (pa_type a)) i = Some (xs ! i))"
  using assms by (auto simp: ptparray_elems_def those_map_upt_iff unat_eq_0)

lemma ptparray_elems_length: "ptparray_elems a = Some xs \<Longrightarrow> length xs = unat (num_ele a)"
  by (auto simp: ptparray_elems_def those_map_upt_iff split: if_splits option.splits)

lemma ptparray_elems_canonical:
  assumes "ptparray_elems a = Some xs" "pa_type a \<noteq> UINT128_TYPE" "x \<in> set xs"
  shows "conv_elem (pa_type a) x = x"
proof -
  from assms(1,3) obtain m i where "array_entry a = Some m" "i < length xs" "x = xs ! i"
    by (auto simp: ptparray_elems_def in_set_conv_nth split: if_splits option.splits)
  with assms have "ld_elem m (get_ptp_array_elem_size (pa_type a)) i = Some x"
    by (simp add: ptparray_elems_iff)
  with assms(2) show ?thesis by (simp add: conv_elem_take_bit ld_elem_canonical)
qed

section \<open>Initialisation and growth\<close>

lemma init_ptparray_inv:
  "ptparray_inv (prop_init_ptparray a t)" "ptparray_elems (prop_init_ptparray a t) = Some []"
  by (simp_all add: ptparray_inv_def ptparray_elems_def prop_init_ptparray_def)

lemma deinit_ptparray_inv:
  "ptparray_inv (prop_deinit_ptparray a)" "ptparray_elems (prop_deinit_ptparray a) = Some []"
  by (simp_all add: ptparray_inv_def ptparray_elems_def prop_deinit_ptparray_def)

lemma grown_size:
  fixes n :: u32
  assumes "unat n < 2 ^ 29"
  shows "unat (drop_bit 1 (n * 3) + 2) = unat n * 3 div 2 + 2"
proof -
  have "unat (n * 3) = unat n * 3"
    using assms by (subst unat_mult_lem[THEN iffD1]) auto
  then have "unat (drop_bit 1 (n * 3)) = unat n * 3 div 2"
    by (simp add: drop_bit_eq_div unat_div)
  with assms show ?thesis by (subst unat_add_lem[THEN iffD1]) auto
qed

lemma grown_bytes:
  fixes n :: u32
  assumes "unat n < 2 ^ 29" "es \<le> 4"
  shows "unat (of_nat es * (drop_bit 1 (n * 3) + 2)) = es * (unat n * 3 div 2 + 2)"
proof -
  have "es * (unat n * 3 div 2 + 2) \<le> 4 * (unat n * 3 div 2 + 2)"
    using assms(2) by (rule mult_le_mono1)
  then have "es * (unat n * 3 div 2 + 2) < 2 ^ 32" using assms(1) by simp
  moreover have "unat (of_nat es :: u32) = es" using assms(2) by (simp add: unat_of_nat)
  ultimately show ?thesis
    using grown_size[OF assms(1)] by (subst unat_mult_lem[THEN iffD1]) simp_all
qed

lemma grow_ptparray_full:
  assumes inv: "ptparray_inv a" and room: "ptparray_room a" and t: "pa_type a \<noteq> UINT128_TYPE"
    and full: "arr_size a \<le> num_ele a" and xs: "ptparray_elems a = Some xs"
  obtains a' m where "prop_grow_ptparray a (drop_bit 1 (arr_size a * 3) + 2) = (a', True)"
    "array_entry a' = Some m" "pa_type a' = pa_type a" "num_ele a' = num_ele a"
    "num_ele a < arr_size a'"
    "unat (arr_size a') * get_ptp_array_elem_size (pa_type a) \<le> length m"
    "ptparray_elems a' = Some xs"
proof (cases "arr_size a = 0")
  case True
  with inv have n0: "num_ele a = 0" by (simp add: ptparray_inv_def)
  with xs have "xs = []" by (simp add: ptparray_elems_def)
  let ?a' = "prop_init_ptparray a (pa_type a)"
  have "prop_grow_ptparray a (drop_bit 1 (arr_size a * 3) + 2) = (?a', True)"
    using True by (simp add: prop_grow_ptparray_def prop_init_ptparray_def)
  then show thesis
    by (rule that[where m = "replicate (get_ptp_array_elem_size (pa_type a) * 100) (Some 0)"])
      (simp_all add: prop_init_ptparray_def ptparray_elems_def n0 \<open>xs = []\<close>)
next
  case False
  let ?es = "get_ptp_array_elem_size (pa_type a)"
  let ?new = "drop_bit 1 (arr_size a * 3) + 2 :: u32"
  let ?n = "unat (arr_size a)"
  from inv full have eq: "num_ele a = arr_size a" by (simp add: ptparray_inv_def)
  from inv False obtain m where m: "array_entry a = Some m" and len: "?n * ?es \<le> length m"
    by (auto simp: ptparray_inv_def split: option.splits)
  have n: "?n < 2 ^ 29" using room eq by (simp add: ptparray_room_def)
  note new = grown_size[OF n]
  have lt: "arr_size a < ?new" using new by (simp only: word_less_nat_alt)
  have es: "?es \<le> 4" using t by simp
  have bytes: "unat (of_nat ?es * ?new) = ?es * (?n * 3 div 2 + 2)"
    using grown_bytes[OF n es] by simp
  let ?m' = "g_realloc_block (Some m) (?es * (?n * 3 div 2 + 2))"
  let ?a' = "a\<lparr>array_entry := Some ?m', arr_size := ?new\<rparr>"
  have len': "length ?m' = ?es * (?n * 3 div 2 + 2)" by (simp add: g_realloc_block_def)
  have ld: "ld_elem ?m' ?es i = ld_elem m ?es i" if "i < ?n" for i
  proof -
    have "Suc i * ?es \<le> ?n * ?es" using that by (intro mult_le_mono1) simp
    moreover have "Suc i * ?es \<le> (?n * 3 div 2 + 2) * ?es" using that by (intro mult_le_mono1) simp
    ultimately show ?thesis using len
      by (simp add: g_realloc_block_def ld_elem_def block_read_def min_def mult.commute take_drop)
  qed
  have "of_nat ?es * ?new \<noteq> 0" using bytes by (metis add_is_0 elem_size_bounds(1) mult_is_0 not_less0 unat_0 zero_neq_numeral)
  then have "prop_grow_ptparray a ?new = (?a', True)"
    using False lt m bytes by (auto simp: prop_grow_ptparray_def Let_def)
  then show thesis
  proof (rule that[where m = ?m'])
    show "ptparray_elems ?a' = Some xs"
      using xs ld m eq by (simp add: ptparray_elems_iff)
  qed (use lt eq len' new in \<open>simp_all add: mult.commute\<close>)
qed

section \<open>Append\<close>

lemma append_store_spec:
  assumes m: "array_entry a = Some m" and t: "pa_type a \<noteq> UINT128_TYPE"
    and lt: "num_ele a < arr_size a"
    and len: "unat (arr_size a) * get_ptp_array_elem_size (pa_type a) \<le> length m"
    and xs: "ptparray_elems a = Some xs"
  shows "\<exists>a'. append_store a e = Some (a', True) \<and> ptparray_inv a'
     \<and> ptparray_elems a' = Some (xs @ [conv_elem (pa_type a) e])
     \<and> pa_type a' = pa_type a \<and> num_ele a' = num_ele a + 1"
proof -
  let ?es = "get_ptp_array_elem_size (pa_type a)" and ?n = "unat (num_ele a)"
  have n: "?n < unat (arr_size a)" using lt by (simp add: word_less_nat_alt)
  have sn: "unat (num_ele a + 1) = Suc ?n" using lt by (rule unat_Suc_word)
  have "Suc ?n * ?es \<le> unat (arr_size a) * ?es" using n by (intro mult_le_mono1) simp
  with len have "Suc ?n * ?es \<le> length m" by simp
  then obtain m' where m': "st_elem m ?es ?n e = Some m'" using st_elem_Some by blast
  let ?a' = "a\<lparr>array_entry := Some m', num_ele := num_ele a + 1\<rparr>"
  have elems: "ptparray_elems ?a' = Some (xs @ [conv_elem (pa_type a) e])"
  proof -
    have "ld_elem m' ?es i = Some ((xs @ [conv_elem (pa_type a) e]) ! i)" if "i < Suc ?n" for i
      using that m' xs m t ld_st_same[OF m'] ld_st_other[OF m', of i] ptparray_elems_length[OF xs]
      by (cases "i = ?n") (auto simp: ptparray_elems_iff nth_append conv_elem_take_bit)
    then show ?thesis
      using ptparray_elems_length[OF xs] sn by (simp add: ptparray_elems_iff)
  qed
  moreover have "num_ele a + 1 \<le> arr_size a" using n sn by (simp add: word_le_nat_alt)
  ultimately have "ptparray_inv ?a'"
    using len m' n by (auto simp: ptparray_inv_def st_elem_length)
  with elems m m' t show ?thesis by (intro exI[of _ ?a']) (simp add: append_store_def)
qed

lemma append_ele_spec:
  assumes inv: "ptparray_inv a" and room: "ptparray_room a"
    and t: "pa_type a \<noteq> UINT128_TYPE" and xs: "ptparray_elems a = Some xs"
  shows "\<exists>a'. prop_append_ele_ptparray a e = Some (a', True) \<and> ptparray_inv a'
     \<and> ptparray_elems a' = Some (xs @ [conv_elem (pa_type a) e])
     \<and> pa_type a' = pa_type a \<and> num_ele a' = num_ele a + 1"
proof (cases "arr_size a \<le> num_ele a")
  case True
  obtain a1 m where g: "prop_grow_ptparray a (drop_bit 1 (arr_size a * 3) + 2) = (a1, True)"
    and a1: "array_entry a1 = Some m" "pa_type a1 = pa_type a" "num_ele a1 = num_ele a"
      "num_ele a < arr_size a1"
      "unat (arr_size a1) * get_ptp_array_elem_size (pa_type a) \<le> length m"
      "ptparray_elems a1 = Some xs"
    using grow_ptparray_full[OF inv room t True xs] by metis
  have "prop_append_ele_ptparray a e = append_store a1 e"
    using True g by (simp only: prop_append_ele_ptparray_def if_True prod.case)
  with append_store_spec[of a1 m xs e] a1 t show ?thesis by simp
next
  case False
  with inv obtain m where "array_entry a = Some m"
    "unat (arr_size a) * get_ptp_array_elem_size (pa_type a) \<le> length m"
    by (auto simp: ptparray_inv_def split: option.splits)
  with append_store_spec[OF _ t _ _ xs, of m e] False show ?thesis
    by (simp add: prop_append_ele_ptparray_def)
qed

section \<open>Search and removal\<close>

lemma find_ele_loop_spec:
  assumes "\<And>k. i \<le> k \<Longrightarrow> k < n \<Longrightarrow> ld_elem m es k = Some (f k)" "n \<le> 2 ^ 31"
  shows "find_ele_loop m es v i n =
     Some (case find (\<lambda>k. f k = v) [i..<n] of None \<Rightarrow> - 1 | Some k \<Rightarrow> int k)"
  using assms
proof (induction m es v i n rule: find_ele_loop.induct)
  case (1 m es v i n)
  show ?case
  proof (cases "i < n")
    case True
    with 1 show ?thesis
      by (subst find_ele_loop.simps) (auto simp: upt_conv_Cons)
  qed (simp add: find_ele_loop.simps)
qed

definition index_of :: "'a \<Rightarrow> 'a list \<Rightarrow> int" where
  "index_of x xs = (case find (\<lambda>k. xs ! k = x) [0..<length xs] of None \<Rightarrow> - 1 | Some k \<Rightarrow> int k)"

lemma index_of_not_found [simp]: "index_of x xs = - 1 \<longleftrightarrow> x \<notin> set xs"
  by (auto simp: index_of_def find_None_iff find_Some_iff in_set_conv_nth split: option.splits)

lemma index_of_found:
  assumes "x \<in> set xs"
  obtains k where "index_of x xs = int k" "k < length xs" "xs ! k = x" "\<forall>j<k. xs ! j \<noteq> x"
proof -
  from assms obtain k where k: "find (\<lambda>k. xs ! k = x) [0..<length xs] = Some k"
    by (cases "find (\<lambda>k. xs ! k = x) [0..<length xs]") (auto simp: find_None_iff in_set_conv_nth)
  then obtain i where "i < length xs" "xs ! i = x" "k = i" "\<forall>j<i. xs ! j \<noteq> x"
    by (auto simp: find_Some_iff)
  with k show thesis by (intro that[of k]) (simp_all add: index_of_def)
qed

lemma find_ele_spec:
  assumes inv: "ptparray_inv a" and xs: "ptparray_elems a = Some xs"
    and t: "pa_type a \<noteq> UINT128_TYPE" and n: "length xs \<le> 2 ^ 31"
  shows "prop_find_ele_ptparray a e = Some (index_of (conv_elem (pa_type a) e) xs)"
proof (cases "array_entry a")
  case None
  with inv have "num_ele a = 0" by (auto simp: ptparray_inv_def)
  with xs None show ?thesis by (simp add: prop_find_ele_ptparray_def ptparray_elems_def index_of_def)
next
  case (Some m)
  with xs have "\<And>k. 0 \<le> k \<Longrightarrow> k < length xs \<Longrightarrow>
      ld_elem m (get_ptp_array_elem_size (pa_type a)) k = Some (xs ! k)"
    and "length xs = unat (num_ele a)"
    by (auto simp: ptparray_elems_iff)
  with find_ele_loop_spec[where f = "\<lambda>k. xs ! k", OF this(1) n] Some t show ?thesis
    by (simp add: prop_find_ele_ptparray_def index_of_def)
qed

lemma shift_ele_loop_spec:
  assumes "\<And>k. i \<le> k \<Longrightarrow> k \<le> n \<Longrightarrow> ld_elem m es k = Some (f k)" "i \<le> n" "es \<le> 4"
  shows "\<exists>m'. shift_ele_loop m es i n = Some m' \<and> length m' = length m
     \<and> (\<forall>k<i. ld_elem m' es k = ld_elem m es k)
     \<and> (\<forall>k. i \<le> k \<longrightarrow> k < n \<longrightarrow> ld_elem m' es k = Some (f (Suc k)))"
  using assms
proof (induction "n - i" arbitrary: m i)
  case 0
  then show ?case by (subst shift_ele_loop.simps) auto
next
  case (Suc d)
  from Suc.hyps(2) have i: "i < n" by simp
  from Suc.prems(1)[of i] i have li: "ld_elem m es i = Some (f i)" by simp
  from Suc.prems(1)[of "Suc i"] i have ls: "ld_elem m es (Suc i) = Some (f (Suc i))" by simp
  from ld_elem_bound[OF li] obtain m1 where m1: "st_elem m es i (f (Suc i)) = Some m1"
    using st_elem_Some by blast
  have "\<And>k. Suc i \<le> k \<Longrightarrow> k \<le> n \<Longrightarrow> ld_elem m1 es k = Some (f k)"
    using Suc.prems(1) ld_st_other[OF m1] by simp
  moreover have "d = n - Suc i" using Suc.hyps(2) by simp
  ultimately obtain m' where
    m': "shift_ele_loop m1 es (Suc i) n = Some m'" "length m' = length m1"
    "\<forall>k<Suc i. ld_elem m' es k = ld_elem m1 es k"
    "\<forall>k. Suc i \<le> k \<longrightarrow> k < n \<longrightarrow> ld_elem m' es k = Some (f (Suc k))"
    using Suc.hyps(1)[of "Suc i" m1] i Suc.prems(3) by auto
  have "ld_elem m' es i = Some (f (Suc i))"
    using m'(3) ld_st_same[OF m1] ld_elem_canonical[OF ls Suc.prems(3)] by simp
  with m'(4) have "\<forall>k. i \<le> k \<longrightarrow> k < n \<longrightarrow> ld_elem m' es k = Some (f (Suc k))"
    by (metis Suc_leI le_eq_less_or_eq)
  moreover have "\<forall>k<i. ld_elem m' es k = ld_elem m es k"
    using m'(3) ld_st_other[OF m1] by simp
  moreover have "shift_ele_loop m es i n = Some m'"
    using m'(1) m1 ls i by (subst shift_ele_loop.simps) simp
  ultimately show ?case using m'(2) st_elem_length[OF m1] by simp
qed

lemma remove1_nth_first:
  assumes "k < length xs" "xs ! k = x" "\<forall>j<k. xs ! j \<noteq> x"
  shows "remove1 x xs = take k xs @ drop (Suc k) xs"
  using assms
proof (induction xs arbitrary: k)
  case (Cons y ys)
  show ?case
  proof (cases k)
    case 0
    with Cons.prems show ?thesis by simp
  next
    case (Suc j)
    with Cons.prems have "y \<noteq> x" "\<forall>i<j. ys ! i \<noteq> x" by auto
    with Suc Cons.IH[of j] Cons.prems show ?thesis by simp
  qed
qed simp

lemma rem_elem_spec:
  assumes inv: "ptparray_inv a" and xs: "ptparray_elems a = Some xs"
    and t: "pa_type a \<noteq> UINT128_TYPE" and n: "length xs \<le> 2 ^ 31"
  shows "\<exists>a'. prop_rem_elem_ptparray a e = Some (a', conv_elem (pa_type a) e \<in> set xs)
     \<and> ptparray_inv a' \<and> ptparray_elems a' = Some (remove1 (conv_elem (pa_type a) e) xs)
     \<and> pa_type a' = pa_type a"
proof (cases "conv_elem (pa_type a) e \<in> set xs")
  case False
  with find_ele_spec[OF inv xs t n, of e] inv xs show ?thesis
    by (simp add: prop_rem_elem_ptparray_def remove1_idem index_of_not_found[THEN iffD2])
next
  case True
  let ?x = "conv_elem (pa_type a) e" and ?es = "get_ptp_array_elem_size (pa_type a)"
  obtain k where k: "index_of ?x xs = int k" "k < length xs" "xs ! k = ?x" "\<forall>j<k. xs ! j \<noteq> ?x"
    using index_of_found[OF True] .
  have len: "length xs = unat (num_ele a)" using xs by (rule ptparray_elems_length)
  with k have pos: "num_ele a \<noteq> 0" by auto
  with xs obtain m where m: "array_entry a = Some m"
    by (auto simp: ptparray_elems_def split: option.splits)
  have n1: "unat (num_ele a - 1) = unat (num_ele a) - 1" using pos by (simp add: unat_minus_one)
  have ld: "\<And>i. i < length xs \<Longrightarrow> ld_elem m ?es i = Some (xs ! i)"
    using xs m len by (simp add: ptparray_elems_iff)
  have "\<exists>m'. shift_ele_loop m ?es k (length xs - 1) = Some m' \<and> length m' = length m
     \<and> (\<forall>j<k. ld_elem m' ?es j = ld_elem m ?es j)
     \<and> (\<forall>j. k \<le> j \<longrightarrow> j < length xs - 1 \<longrightarrow> ld_elem m' ?es j = Some (xs ! Suc j))"
    using k(2) t by (intro shift_ele_loop_spec) (auto intro: ld)
  then obtain m' where m': "shift_ele_loop m ?es k (length xs - 1) = Some m'" "length m' = length m"
     "\<forall>j<k. ld_elem m' ?es j = ld_elem m ?es j"
     "\<forall>j. k \<le> j \<longrightarrow> j < length xs - 1 \<longrightarrow> ld_elem m' ?es j = Some (xs ! Suc j)"
    by blast
  let ?a' = "a\<lparr>array_entry := Some m', num_ele := num_ele a - 1\<rparr>"
  have run: "prop_rem_elem_ptparray a e = Some (?a', True)"
    using find_ele_spec[OF inv xs t n, of e] k(1) m m'(1) len n1
    by (simp add: prop_rem_elem_ptparray_def)
  have "ptparray_elems ?a' = Some (take k xs @ drop (Suc k) xs)"
    using k(2) m'(3,4) ld len n1
    by (auto simp: ptparray_elems_iff nth_append)
  moreover have "num_ele a - 1 \<le> arr_size a"
    using inv n1 by (auto simp: ptparray_inv_def word_le_nat_alt)
  ultimately have "ptparray_inv ?a'" and "ptparray_elems ?a' = Some (remove1 ?x xs)"
    using inv m m'(2) remove1_nth_first[OF k(2-4)] by (simp_all add: ptparray_inv_def)
  with run True show ?thesis by simp
qed

section \<open>Copy\<close>

lemma copy_ele_loop_spec:
  assumes "ptparray_inv dst" "ptparray_elems dst = Some ys" "pa_type dst = t" "t \<noteq> UINT128_TYPE"
    and "\<And>k. i \<le> k \<Longrightarrow> k < n \<Longrightarrow> ld_elem m es k = Some (f k)"
    and "\<And>k. i \<le> k \<Longrightarrow> k < n \<Longrightarrow> conv_elem t (f k) = f k"
    and "length ys + (n - i) \<le> 2 ^ 29"
  shows "\<exists>d. copy_ele_loop dst (Some m) es i n = Some d \<and> ptparray_inv d
     \<and> ptparray_elems d = Some (ys @ map f [i..<n]) \<and> pa_type d = t"
  using assms
proof (induction "n - i" arbitrary: dst ys i)
  case 0
  then show ?case by (subst copy_ele_loop.simps) auto
next
  case (Suc d)
  from Suc.hyps(2) have i: "i < n" and d: "d = n - Suc i" by auto
  have "length ys = unat (num_ele dst)" using Suc.prems(2) by (rule ptparray_elems_length)
  with Suc.prems(7) i have "ptparray_room dst" by (simp add: ptparray_room_def)
  then obtain dst' where a: "prop_append_ele_ptparray dst (f i) = Some (dst', True)"
    "ptparray_inv dst'" "ptparray_elems dst' = Some (ys @ [f i])" "pa_type dst' = t"
    using append_ele_spec[of dst ys "f i"] Suc.prems i by auto
  have "\<exists>d. copy_ele_loop dst' (Some m) es (Suc i) n = Some d \<and> ptparray_inv d
     \<and> ptparray_elems d = Some ((ys @ [f i]) @ map f [Suc i..<n]) \<and> pa_type d = t"
    using Suc.prems i a d by (intro Suc.hyps(1)) auto
  with a i Suc.prems(5)[of i] show ?case
    by (subst copy_ele_loop.simps) (auto simp: upt_conv_Cons)
qed

lemma copy_ptparray_spec:
  assumes d: "ptparray_inv dst" "ptparray_elems dst = Some ys" "pa_type dst = pa_type src"
    and s: "ptparray_inv src" "ptparray_elems src = Some xs" "pa_type src \<noteq> UINT128_TYPE"
    and "length ys + length xs \<le> 2 ^ 29"
  shows "\<exists>d. prop_copy_ptparray dst src = Some (d, True) \<and> ptparray_inv d
     \<and> ptparray_elems d = Some (ys @ xs) \<and> pa_type d = pa_type src"
proof (cases "array_entry src")
  case None
  with s have "num_ele src = 0" by (auto simp: ptparray_inv_def)
  with s None have "xs = []" by (simp add: ptparray_elems_def)
  have same: "dst\<lparr>pa_type := pa_type src\<rparr> = dst" using d(3)[symmetric] by simp
  show ?thesis
    using d s(3) \<open>num_ele src = 0\<close> \<open>xs = []\<close>
    by (simp only: prop_copy_ptparray_def Let_def same) (simp add: copy_ele_loop.simps)
next
  case (Some m)
  let ?es = "get_ptp_array_elem_size (pa_type src)"
  have len: "length xs = unat (num_ele src)" using s(2) by (rule ptparray_elems_length)
  have ld: "\<And>k. k < length xs \<Longrightarrow> ld_elem m ?es k = Some (xs ! k)"
    using s(2) Some len by (simp add: ptparray_elems_iff)
  have "\<exists>d. copy_ele_loop dst (Some m) ?es 0 (length xs) = Some d \<and> ptparray_inv d
     \<and> ptparray_elems d = Some (ys @ map ((!) xs) [0..<length xs]) \<and> pa_type d = pa_type src"
    using d s(3) ld assms(7) ptparray_elems_canonical[OF s(2,3)]
    by (intro copy_ele_loop_spec) auto
  moreover have same: "dst\<lparr>pa_type := pa_type src\<rparr> = dst" using d(3)[symmetric] by simp
  ultimately show ?thesis
    using Some s(3) by (simp only: prop_copy_ptparray_def Let_def same map_nth len[symmetric]) auto
qed

section \<open>Packing\<close>

lemma block_read_Suc:
  "block_read m 0 (n * es) = Some bs \<Longrightarrow> block_read m (n * es) es = Some cs \<Longrightarrow>
   block_read m 0 (Suc n * es) = Some (bs @ cs)"
  by (auto simp: block_read_Some_iff take_add add.commute[of es])

lemma block_read_elems:
  assumes "\<And>i. i < length xs \<Longrightarrow> ld_elem m es i = Some (xs ! i)" "es \<le> 4"
  shows "block_read m 0 (length xs * es) = Some (concat (map (le_bytes es) xs))"
  using assms(1)
proof (induction xs rule: rev_induct)
  case Nil
  then show ?case by (simp add: block_read_def)
next
  case (snoc x xs)
  from snoc.prems[of "length xs"] have ld: "ld_elem m es (length xs) = Some x" by simp
  then obtain bs where bs: "block_read m (length xs * es) es = Some bs" "x = le_word bs"
    by (auto simp: ld_elem_def)
  then have "le_bytes es x = bs"
    using le_bytes_le_word[where 'a = 32, of bs] assms(2) block_read_length[OF bs(1)] by simp
  moreover have "block_read m 0 (length xs * es) = Some (concat (map (le_bytes es) xs))"
    using snoc.prems by (intro snoc.IH) (metis length_append_singleton less_SucI nth_append)
  ultimately show ?case using block_read_Suc[of m "length xs" es] bs(1) by simp
qed

lemma pack_ptparray_spec:
  assumes s: "ptparray_inv a" "ptparray_elems a = Some xs" "pa_type a \<noteq> UINT128_TYPE"
    and small: "4 + length xs * get_ptp_array_elem_size (pa_type a) \<le> unat bufsize"
  shows "prop_pack_ptparray a bufsize =
     Some (le_bytes 4 (num_ele a) @ concat (map (le_bytes (get_ptp_array_elem_size (pa_type a))) xs),
           prop_get_size_ptparray a)"
proof -
  let ?es = "get_ptp_array_elem_size (pa_type a)"
  have len: "length xs = unat (num_ele a)" using s(2) by (rule ptparray_elems_length)
  have "unat (of_nat ?es :: u32) = ?es"
    using elem_size_bounds(2)[of "pa_type a"] by (cases "pa_type a") simp_all
  then have body: "unat (num_ele a * of_nat ?es) = length xs * ?es"
    using small len le_less_trans[OF _ unat_u32_less[of bufsize]]
    by (subst unat_mult_lem[THEN iffD1]) auto
  show ?thesis
  proof (cases "num_ele a = 0")
    case True
    with s small body len show ?thesis
      by (simp add: prop_pack_ptparray_def prop_get_size_ptparray_def)
  next
    case False
    with s(2) obtain m where m: "array_entry a = Some m"
      by (auto simp: ptparray_elems_def split: option.splits)
    with s have "block_read m 0 (length xs * ?es) = Some (concat (map (le_bytes ?es) xs))"
      by (intro block_read_elems) (auto simp: ptparray_elems_iff)
    with False m small body show ?thesis
      by (simp add: prop_pack_ptparray_def prop_get_size_ptparray_def Let_def mult.commute)
  qed
qed

lemma pack_ptparray_bounds:
  assumes "prop_pack_ptparray a bufsize = Some (bs, n)"
  shows "length bs \<le> unat bufsize"
  using assms
  by (auto simp: prop_pack_ptparray_def Let_def split: if_splits bind_splits dest: block_read_length)

section \<open>The contract of a handle array\<close>

text \<open>
  What the object component relies on when it keeps the handles of children
  and references: a sequence of 32-bit entries with append, removal of the
  first occurrence and search, safe as long as it holds fewer than cap entries.
\<close>

locale elem_seq =
  fixes empty :: 's
    and append :: "'s \<Rightarrow> u32 \<Rightarrow> ('s \<times> bool) option"
    and rem :: "'s \<Rightarrow> u32 \<Rightarrow> ('s \<times> bool) option"
    and find_pos :: "'s \<Rightarrow> u32 \<Rightarrow> int option"
    and elems :: "'s \<Rightarrow> u32 list"
    and invar :: "'s \<Rightarrow> bool"
    and cap :: nat
  assumes invar_empty: "invar empty"
    and elems_empty: "elems empty = []"
    and append_law: "invar s \<Longrightarrow> length (elems s) < cap \<Longrightarrow>
          \<exists>s'. append s x = Some (s', True) \<and> invar s' \<and> elems s' = elems s @ [x]"
    and rem_law: "invar s \<Longrightarrow>
          \<exists>s'. rem s x = Some (s', x \<in> set (elems s)) \<and> invar s' \<and> elems s' = remove1 x (elems s)"
    and find_law: "invar s \<Longrightarrow> find_pos s x = Some (index_of x (elems s))"
begin

fun append_all :: "'s \<Rightarrow> u32 list \<Rightarrow> 's option" where
  "append_all s [] = Some s"
| "append_all s (x # xs) = do { (s', _) \<leftarrow> append s x; append_all s' xs }"

definition add_unique :: "'s \<Rightarrow> u32 \<Rightarrow> ('s \<times> bool) option" where
  "add_unique s x = do {
     i \<leftarrow> find_pos s x;
     if i = - 1 then append s x else Some (s, True) }"

lemma append_all_spec:
  assumes "invar s" "length (elems s) + length xs \<le> cap"
  shows "\<exists>s'. append_all s xs = Some s' \<and> invar s' \<and> elems s' = elems s @ xs"
  using assms
proof (induction xs arbitrary: s)
  case Nil
  then show ?case by simp
next
  case (Cons x xs)
  from append_law[of s x] Cons.prems obtain s' where
    "append s x = Some (s', True)" "invar s'" "elems s' = elems s @ [x]" by auto
  with Cons.IH[of s'] Cons.prems show ?case by auto
qed

lemma add_unique_spec:
  assumes "invar s" "length (elems s) < cap"
  shows "\<exists>s'. add_unique s x = Some (s', True) \<and> invar s'
     \<and> set (elems s') = insert x (set (elems s))
     \<and> (distinct (elems s) \<longrightarrow> distinct (elems s'))"
proof (cases "x \<in> set (elems s)")
  case True
  with assms find_law[of s x] index_of_not_found[of x "elems s"] show ?thesis
    by (auto simp: add_unique_def)
next
  case False
  with assms append_law[of s x] find_law[of s x] index_of_not_found[of x "elems s"] show ?thesis
    by (auto simp: add_unique_def)
qed

lemma append_then_rem:
  assumes "invar s" "length (elems s) < cap" "x \<notin> set (elems s)"
  shows "\<exists>s' s''. append s x = Some (s', True) \<and> rem s' x = Some (s'', True)
     \<and> invar s'' \<and> elems s'' = elems s"
proof -
  from append_law[OF assms(1,2), of x] obtain s' where
    s': "append s x = Some (s', True)" "invar s'" "elems s' = elems s @ [x]" by auto
  from rem_law[OF s'(2), of x] s'(3) assms(3) obtain s'' where
    "rem s' x = Some (s'', True)" "invar s''" "elems s'' = elems s"
    by (auto simp: remove1_append)
  with s' show ?thesis by blast
qed

lemma rem_absent_after:
  assumes "invar s" "distinct (elems s)"
  shows "\<exists>s'. rem s x = Some (s', x \<in> set (elems s)) \<and> invar s'
     \<and> distinct (elems s') \<and> set (elems s') = set (elems s) - {x}"
  using rem_law[OF assms(1), of x] assms(2) by (auto simp: distinct_remove1)

end

definition handle_array_inv :: "ptp_array \<Rightarrow> bool" where
  "handle_array_inv a \<longleftrightarrow> ptparray_inv a \<and> pa_type a = UINT32_TYPE \<and> unat (num_ele a) \<le> 2 ^ 29"

definition handle_list :: "ptp_array \<Rightarrow> u32 list" where
  "handle_list a = (case ptparray_elems a of None \<Rightarrow> [] | Some xs \<Rightarrow> xs)"

lemma handle_array_elems:
  assumes "handle_array_inv a"
  shows "ptparray_elems a = Some (handle_list a)" "length (handle_list a) = unat (num_ele a)"
  using assms ptparray_elems_length[of a]
  by (auto simp: handle_array_inv_def handle_list_def ptparray_inv_def)

interpretation handles: elem_seq "prop_alloc_ptparray UINT32_TYPE" prop_append_ele_ptparray
  prop_rem_elem_ptparray prop_find_ele_ptparray handle_list handle_array_inv "2 ^ 29"
proof (unfold_locales, goal_cases)
  case 1
  then show ?case
    by (simp add: handle_array_inv_def prop_alloc_ptparray_def init_ptparray_inv)
      (simp add: prop_init_ptparray_def)
next
  case 2
  then show ?case by (simp add: handle_list_def prop_alloc_ptparray_def init_ptparray_inv)
next
  case (3 a x)
  note e = handle_array_elems[OF 3(1)]
  from 3 e have "ptparray_room a" by (simp add: ptparray_room_def)
  with append_ele_spec[OF _ this _ e(1), of x] 3 e obtain a' where
    "prop_append_ele_ptparray a x = Some (a', True)" "ptparray_inv a'"
    "ptparray_elems a' = Some (handle_list a @ [x])" "pa_type a' = UINT32_TYPE"
    "num_ele a' = num_ele a + 1"
    by (auto simp: handle_array_inv_def)
  moreover from this(3) have "unat (num_ele a') = Suc (length (handle_list a))"
    by (auto dest: ptparray_elems_length)
  ultimately show ?case using 3 by (auto simp: handle_array_inv_def handle_list_def)
next
  case (4 a x)
  note e = handle_array_elems[OF 4]
  have "length (handle_list a) \<le> 2 ^ 31" using 4 e by (simp add: handle_array_inv_def)
  with rem_elem_spec[OF _ e(1) _ this, of x] 4 obtain a' where
    "prop_rem_elem_ptparray a x = Some (a', x \<in> set (handle_list a))" "ptparray_inv a'"
    "ptparray_elems a' = Some (remove1 x (handle_list a))" "pa_type a' = UINT32_TYPE"
    by (auto simp: handle_array_inv_def)
  moreover from this(3) have "unat (num_ele a') \<le> length (handle_list a)"
    by (auto dest!: ptparray_elems_length simp: length_remove1 split: if_splits)
  moreover have "length (handle_list a) \<le> 2 ^ 29" using 4 e(2) by (simp add: handle_array_inv_def)
  ultimately have "handle_array_inv a'" and "handle_list a' = remove1 x (handle_list a)"
    by (simp_all add: handle_array_inv_def handle_list_def[of a'])
  with \<open>prop_rem_elem_ptparray a x = _\<close> show ?case by simp
next
  case (5 a x)
  note e = handle_array_elems[OF 5]
  have "length (handle_list a) \<le> 2 ^ 31" using 5 e by (simp add: handle_array_inv_def)
  with find_ele_spec[OF _ e(1) _ this, of x] 5 show ?case by (simp add: handle_array_inv_def)
qed

section \<open>Properties\<close>

text \<open>C26: appending to a well-formed array of 8, 16 or 32-bit entries never accesses memory
  outside its block, also when the block has to be grown; it reports success, keeps the
  invariant and adds exactly the converted element at the end.\<close>

theorem append_ele_refines:
  assumes "ptparray_inv a" "ptparray_room a" "pa_type a \<noteq> UINT128_TYPE"
  shows "\<exists>xs a'. ptparray_elems a = Some xs \<and> prop_append_ele_ptparray a e = Some (a', True)
     \<and> ptparray_inv a' \<and> pa_type a' = pa_type a
     \<and> ptparray_elems a' = Some (xs @ [conv_elem (pa_type a) e])"
proof -
  from assms(1) obtain xs where "ptparray_elems a = Some xs" by (auto simp: ptparray_inv_def)
  with append_ele_spec[OF assms this, of e] show ?thesis by blast
qed

theorem append_ele_refines_witness:
  "\<exists>xs a'. ptparray_elems (prop_alloc_ptparray UINT16_TYPE) = Some xs
     \<and> prop_append_ele_ptparray (prop_alloc_ptparray UINT16_TYPE) 0x12345 = Some (a', True)
     \<and> ptparray_inv a' \<and> pa_type a' = pa_type (prop_alloc_ptparray UINT16_TYPE)
     \<and> ptparray_elems a' =
         Some (xs @ [conv_elem (pa_type (prop_alloc_ptparray UINT16_TYPE)) 0x12345])"
  by (rule append_ele_refines)
    (simp_all add: prop_alloc_ptparray_def init_ptparray_inv,
     simp_all add: prop_init_ptparray_def ptparray_room_def)



text \<open>the packed image of a well-formed array that fits the buffer is the 32-bit element
  count followed by the elements in little-endian order, its length is the returned size and
  the size computed beforehand by the size function.\<close>

lemma pack_ptparray_image:
  assumes "ptparray_inv a" "pa_type a \<noteq> UINT128_TYPE" "ptparray_elems a = Some xs"
    "4 + length xs * get_ptp_array_elem_size (pa_type a) \<le> unat bufsize"
  shows "prop_pack_ptparray a bufsize =
     Some (le_bytes 4 (of_nat (length xs) :: u32)
             @ concat (map (le_bytes (get_ptp_array_elem_size (pa_type a))) xs),
           of_nat (4 + length xs * get_ptp_array_elem_size (pa_type a)))
   \<and> prop_get_size_ptparray a = of_nat (4 + length xs * get_ptp_array_elem_size (pa_type a))"
proof -
  have "num_ele a = of_nat (length xs)" using ptparray_elems_length[OF assms(3)] by simp
  then show ?thesis
    using pack_ptparray_spec[OF assms(1,3,2,4)]
    by (simp add: prop_get_size_ptparray_def mult.commute)
qed

lemma pack_ptparray_image_witness:
  "prop_pack_ptparray (prop_alloc_ptparray UINT32_TYPE) 4 =
     Some (le_bytes 4 (of_nat (length []) :: u32)
             @ concat (map (le_bytes (get_ptp_array_elem_size (pa_type (prop_alloc_ptparray UINT32_TYPE)))) []),
           of_nat (4 + length [] * get_ptp_array_elem_size (pa_type (prop_alloc_ptparray UINT32_TYPE))))
   \<and> prop_get_size_ptparray (prop_alloc_ptparray UINT32_TYPE) =
       of_nat (4 + length [] * get_ptp_array_elem_size (pa_type (prop_alloc_ptparray UINT32_TYPE)))"
  using pack_ptparray_image[of "prop_alloc_ptparray UINT32_TYPE" "[]" 4]
  by (simp add: prop_alloc_ptparray_def init_ptparray_inv) (simp add: prop_init_ptparray_def)

end
