(* ===== verification/Support.thy ===== *)
theory Support
  imports Codes
begin

text \<open>
  The helpers of src/util/mtp_support.c: byte-order reversal, wide strings,
  path decomposition and construction, the persistent-identifier checksum and
  the search for an unused directory name.  Character strings are HOL strings
  without their terminator; wide strings are the list of units behind the
  pointer, so that running past its end is None.  The glib conversions between
  UTF-8 and UTF-16 and access() are parameters.
\<close>

section \<open>Byte order\<close>

definition swap_bytes :: "nat \<Rightarrow> nat \<Rightarrow> u8 list \<Rightarrow> u8 list" where
  "swap_bytes sz idx d = d[idx := d ! (sz - idx - 1), sz - idx - 1 := d ! idx]"

definition util_conv_byte_order :: "u8 list \<Rightarrow> int \<Rightarrow> u8 list option" where
  "util_conv_byte_order d sz =
     (if sz \<le> 1 then Some d
      else if nat sz \<le> length d
      then Some (fold (swap_bytes (nat sz)) [0..<nat (sz div 2)] d)
      else None)"

text \<open>Each element of the string is reversed in place; elem_sz is at least 2.\<close>

fun conv_elems :: "nat \<Rightarrow> nat \<Rightarrow> u8 list \<Rightarrow> u8 list option" where
  "conv_elems 0 es d = Some d"
| "conv_elems (Suc n) es d = do {
     e \<leftarrow> util_conv_byte_order (take es d) (int es);
     r \<leftarrow> conv_elems n es (drop es d);
     Some (e @ r) }"

definition util_conv_byte_order_gen_str :: "u8 list \<Rightarrow> int \<Rightarrow> int \<Rightarrow> u8 list option" where
  "util_conv_byte_order_gen_str d sz elem_sz =
     (if elem_sz \<le> 1 then Some d else conv_elems (nat sz) (nat elem_sz) d)"

definition util_conv_byte_order_wstring :: "u8 list \<Rightarrow> int \<Rightarrow> u8 list option" where
  "util_conv_byte_order_wstring d sz = util_conv_byte_order_gen_str d sz 2"

section \<open>Wide strings\<close>

text \<open>
  The units before the terminator, at most n of them; None when the scan
  leaves the memory behind the pointer.
\<close>

fun scan_wstr :: "nat \<Rightarrow> u16 list \<Rightarrow> u16 list option" where
  "scan_wstr 0 s = Some []"
| "scan_wstr (Suc n) [] = None"
| "scan_wstr (Suc n) (c # s) = (if c = 0 then Some [] else map_option ((#) c) (scan_wstr n s))"

fun util_wchar_len :: "u16 list \<Rightarrow> nat option" where
  "util_wchar_len [] = None"
| "util_wchar_len (c # s) = (if c = 0 then Some 0 else map_option Suc (util_wchar_len s))"

text \<open>Overwrite the front of the destination buffer.\<close>

definition over_write :: "'a list \<Rightarrow> 'a list \<Rightarrow> 'a list option" where
  "over_write dest out = (if length out \<le> length dest then Some (out @ drop (length out) dest) else None)"

text \<open>
  The aligned path copies the terminator, the byte-wise path stops before it.
\<close>

definition util_wchar_cpy :: "bool \<Rightarrow> u16 list \<Rightarrow> u16 list \<Rightarrow> u16 list option" where
  "util_wchar_cpy aligned dest src = do {
     n \<leftarrow> util_wchar_len src;
     over_write dest (if aligned then take (Suc n) src else take n src) }"

text \<open>
  With r units left after the copied ones, the aligned path writes the
  terminator and r - 1 zeros, the byte-wise path only r - 1 zeros.
\<close>

definition util_wchar_ncpy :: "bool \<Rightarrow> u16 list \<Rightarrow> u16 list \<Rightarrow> nat \<Rightarrow> u16 list option" where
  "util_wchar_ncpy aligned dest src n = do {
     ws \<leftarrow> scan_wstr n src;
     over_write dest (ws @ replicate (if aligned then n - length ws else n - length ws - 1) 0) }"

text \<open>
  The conversion functions of glib return the converted text or fail; the
  result is copied with its terminator, truncated to the destination.
\<close>

definition util_utf8_to_utf16 ::
    "(string \<Rightarrow> u16 list option) \<Rightarrow> bool \<Rightarrow> u16 list \<Rightarrow> nat \<Rightarrow> string \<Rightarrow> (u16 list \<times> nat) option" where
  "util_utf8_to_utf16 g_utf8_to_utf16 aligned dest dest_items src =
     (case g_utf8_to_utf16 src of
        None \<Rightarrow> (case dest of [] \<Rightarrow> None | _ # d \<Rightarrow> Some (0 # d, 0))
      | Some ws \<Rightarrow> do {
          d \<leftarrow> util_wchar_ncpy aligned dest (ws @ [0]) dest_items;
          Some (d, length ws) })"

definition g_strlcpy :: "string \<Rightarrow> nat \<Rightarrow> string" where
  "g_strlcpy s n = take (n - 1) s"

definition util_utf16_to_utf8 ::
    "(u16 list \<Rightarrow> string option) \<Rightarrow> nat \<Rightarrow> u16 list \<Rightarrow> string \<times> nat" where
  "util_utf16_to_utf8 g_utf16_to_utf8 dest_size src =
     (case g_utf16_to_utf8 src of
        None \<Rightarrow> ([], 0)
      | Some s \<Rightarrow> (g_strlcpy s dest_size, length s))"

section \<open>Hexadecimal digits\<close>

definition hex_digit :: "nat \<Rightarrow> char" where
  "hex_digit n = (''0123456789ABCDEF'' ! n)"

text \<open>
  The loop runs while the shifted value is not zero, so it stops at the last
  non-zero digit.
\<close>

fun hex_loop :: "nat \<Rightarrow> u32 \<Rightarrow> string" where
  "hex_loop 0 v = []"
| "hex_loop (Suc n) v = (if v = 0 then [] else hex_digit (unat (drop_bit 28 v)) # hex_loop n (push_bit 4 v))"

definition util_conv_int_to_hex_str :: "u32 \<Rightarrow> string" where
  "util_conv_int_to_hex_str v = ''0x'' @ hex_loop 8 v"

section \<open>Paths\<close>

abbreviation (input) MTP_MAX_PATHNAME_SIZE :: nat where "MTP_MAX_PATHNAME_SIZE \<equiv> 1045"
abbreviation (input) MTP_MAX_FILENAME_SIZE :: nat where "MTP_MAX_FILENAME_SIZE \<equiv> 1024"

definition util_get_external_path :: string where
  "util_get_external_path = ''/media/card''"

definition util_get_fmtcode :: "string \<Rightarrow> u16" where
  "util_get_fmtcode extn = PTP_FMT_UNDEF"

definition strrchr :: "char \<Rightarrow> string \<Rightarrow> nat option" where
  "strrchr c s = find (\<lambda>i. s ! i = c) (rev [0..<length s])"

text \<open>The second component is the content of the output buffer, if it is written.\<close>

definition util_get_file_extn :: "string \<Rightarrow> string option" where
  "util_get_file_extn f = map_option (\<lambda>p. g_strlcpy (drop (Suc p) f) MTP_MAX_PATHNAME_SIZE) (strrchr (CHR ''.'') f)"

text \<open>
  The loop of _util_get_file_name walks down from the terminator at index
  strlen; j counts the characters passed, terminator included.
\<close>

fun file_name_loop :: "string \<Rightarrow> nat \<Rightarrow> nat \<Rightarrow> string" where
  "file_name_loop p 0 j =
     (if length p = 0 then g_strlcpy p (Suc j)
      else if p ! 0 = CHR ''/'' then g_strlcpy (drop 1 p) j else g_strlcpy p (Suc j))"
| "file_name_loop p (Suc i) j =
     (if Suc i < length p \<and> p ! Suc i = CHR ''/'' then g_strlcpy (drop (Suc (Suc i)) p) j
      else file_name_loop p i (Suc j))"

definition util_get_file_name :: "string \<Rightarrow> string" where
  "util_get_file_name p = file_name_loop p (length p) 0"

definition util_get_file_name_wo_extn :: "string \<Rightarrow> string option" where
  "util_get_file_name_wo_extn p =
     (case strrchr (CHR ''/'') p of
        None \<Rightarrow> None
      | Some i \<Rightarrow>
          (let f = drop (Suc i) p
           in case strrchr (CHR ''.'') f of
                None \<Rightarrow> Some (g_strlcpy f (length f + 1))
              | Some e \<Rightarrow> Some (g_strlcpy f (e + 1))))"

definition util_is_path_len_valid :: "string \<Rightarrow> bool" where
  "util_is_path_len_valid path =
     (let root = length util_get_external_path
      in take root path = util_get_external_path
         \<and> length path - root \<le> MTP_MAX_PATHNAME_SIZE - root)"

text \<open>The truncated path is left in the buffer also when the call fails.\<close>

definition util_create_path :: "nat \<Rightarrow> string \<Rightarrow> string \<Rightarrow> string option \<times> bool" where
  "util_create_path sz dir filename =
     (if MTP_MAX_FILENAME_SIZE < length filename then (None, False)
      else let full = dir @ ''/'' @ filename;
               path = take (sz - 1) full
           in if sz < length full then (Some path, False)
              else (Some path, util_is_path_len_valid path))"

definition util_get_parent_path :: "string \<Rightarrow> string option" where
  "util_get_parent_path p = map_option (\<lambda>i. g_strlcpy p (i + 1)) (strrchr (CHR ''/'') p)"

section \<open>Persistent identifiers\<close>

text \<open>
  The name is cut into chunks of eight units; each chunk is read as two
  64-bit little-endian words, padded with zeros, and added to the sums.
\<close>

function guid_loop :: "u16 list \<Rightarrow> u64 \<times> u64 \<Rightarrow> u64 \<times> u64" where
  "guid_loop ws g =
     (if ws = [] then g
      else let bytes = concat (map (le_bytes 2) (take 8 ws));
               temp = bytes @ replicate (16 - length bytes) 0
           in guid_loop (drop 8 ws) (fst g + le_word (take 8 temp), snd g + le_word (drop 8 temp)))"
  by pat_completeness auto
termination by (relation "measure (length \<circ> fst)") auto

declare guid_loop.simps [simp del]

definition util_conv_wstr_to_guid :: "u16 list \<Rightarrow> (u64 \<times> u64) option" where
  "util_conv_wstr_to_guid wstr = do {
     n \<leftarrow> util_wchar_len wstr;
     Some (guid_loop (take n wstr) (0, 0)) }"

section \<open>Unused directory names\<close>

fun dec_string :: "nat \<Rightarrow> string" where
  "dec_string n = (if n < 10 then [hex_digit n] else dec_string (n div 10) @ [hex_digit (n mod 10)])"

declare dec_string.simps [simp del]

fun pow10_loop :: "nat \<Rightarrow> u32 \<Rightarrow> u32" where
  "pow10_loop 0 m = m"
| "pow10_loop (Suc n) m = pow10_loop n (m * 10)"

text \<open>
  access_missing says that access(path, F_OK) fails.  The outer None of
  util_get_unique_dir_path is the write past the buffer that happens when the
  path is longer than the buffer: the test num_bytes <= 0 is on an unsigned
  value.  The inner None is the result FALSE.
\<close>

function unique_loop :: "(string \<Rightarrow> bool) \<Rightarrow> string \<Rightarrow> nat \<Rightarrow> nat \<Rightarrow> nat \<Rightarrow> string option" where
  "unique_loop access_missing base room val max_value =
     (if val < max_value then
        (let buf = base @ take (room + 1) (''_'' @ dec_string val)
         in if access_missing buf then Some buf
            else unique_loop access_missing base room (Suc val) max_value)
      else None)"
  by pat_completeness auto
termination by (relation "measure (\<lambda>(a, b, r, v, m). m - v)") auto

declare unique_loop.simps [simp del]

definition util_get_unique_dir_path :: "(string \<Rightarrow> bool) \<Rightarrow> string \<Rightarrow> u32 \<Rightarrow> string option option" where
  "util_get_unique_dir_path access_missing exist_path buf_len =
     (let num_bytes = buf_len - of_nat (length exist_path) - 1
      in if num_bytes = 0 then Some None
         else if unat buf_len \<le> length exist_path then None
         else let max_value = (if 10 \<le> num_bytes then - 1 else pow10_loop (unat num_bytes) 1)
              in Some (map_option (\<lambda>b. g_strlcpy b (unat buf_len))
                   (unique_loop access_missing exist_path (unat num_bytes) 1 (unat max_value))))"

section \<open>Minimal wide printf\<close>

datatype wfmt_arg = ArgInt u32 | ArgStr "u16 list"

definition wchar_of :: "char \<Rightarrow> u16" where
  "wchar_of c = of_nat (of_char c)"

text \<open>
  The output produced so far has length count; a %s or %x argument is cut to
  the room left before the terminator.  A percent sign before any other
  character is dropped and the character is then copied.
\<close>

definition swprintf_text :: "nat \<Rightarrow> u16 list \<Rightarrow> u16 list \<Rightarrow> u16 list" where
  "swprintf_text sz out w = out @ take (sz - 1 - length out) w"

definition swprintf_conv ::
    "nat \<Rightarrow> char \<Rightarrow> wfmt_arg list \<Rightarrow> u16 list \<Rightarrow> (bool \<times> wfmt_arg list \<times> u16 list) option" where
  "swprintf_conv sz f args out =
     (if f = CHR ''d'' then
        (case args of ArgInt v # args' \<Rightarrow> Some (True, args', out @ [ucast (v + 48)]) | _ \<Rightarrow> None)
      else if f = CHR ''s'' then
        (case args of
           ArgStr w # args' \<Rightarrow> map_option (\<lambda>n. (True, args', swprintf_text sz out (take n w))) (util_wchar_len w)
         | _ \<Rightarrow> None)
      else if f = CHR ''x'' then
        (case args of
           ArgInt v # args' \<Rightarrow>
             Some (True, args', swprintf_text sz out (map wchar_of (util_conv_int_to_hex_str v)))
         | _ \<Rightarrow> None)
      else Some (False, args, out))"

function swprintf_loop :: "nat \<Rightarrow> string \<Rightarrow> wfmt_arg list \<Rightarrow> u16 list \<Rightarrow> u16 list option" where
  "swprintf_loop sz fmt args out =
     (case fmt of
        [] \<Rightarrow> Some out
      | c # fs \<Rightarrow>
          if sz - 1 \<le> length out then Some out
          else if c \<noteq> CHR ''%'' then swprintf_loop sz fs args (out @ [wchar_of c])
          else (case fs of
                  [] \<Rightarrow> Some out
                | f # fs' \<Rightarrow>
                    (case swprintf_conv sz f args out of
                       None \<Rightarrow> None
                     | Some (known, args', out') \<Rightarrow>
                         swprintf_loop sz (if known then fs' else fs) args' out')))"
  by pat_completeness auto
termination by (relation "measure (\<lambda>(sz, fmt, args, out). length fmt)") auto

declare swprintf_loop.simps [simp del]

definition util_wchar_swprintf :: "u16 list \<Rightarrow> nat \<Rightarrow> string \<Rightarrow> wfmt_arg list \<Rightarrow> u16 list option" where
  "util_wchar_swprintf wbuf sz fmt args = do {
     out \<leftarrow> swprintf_loop sz fmt args [];
     over_write wbuf (out @ [0]) }"

section \<open>Facts\<close>

lemma fold_swap_bytes_nth:
  assumes "sz \<le> length d" "2 * k \<le> sz" "i < length d"
  shows "length (fold (swap_bytes sz) [0..<k] d) = length d
     \<and> fold (swap_bytes sz) [0..<k] d ! i =
         (if i < k \<or> (sz - k \<le> i \<and> i < sz) then d ! (sz - 1 - i) else d ! i)"
  using assms
proof (induction k arbitrary: i)
  case 0
  then show ?case by auto
next
  case (Suc k)
  let ?f = "fold (swap_bytes sz) [0..<k] d"
  have len: "length ?f = length d" using Suc.IH[of i] Suc.prems by simp
  have nth: "j < length d \<Longrightarrow> ?f ! j =
      (if j < k \<or> (sz - k \<le> j \<and> j < sz) then d ! (sz - 1 - j) else d ! j)" for j
    using Suc.IH[of j] Suc.prems by simp
  have a: "?f ! k = d ! k" using nth[of k] Suc.prems by auto
  have b: "?f ! (sz - k - 1) = d ! (sz - k - 1)" using nth[of "sz - k - 1"] Suc.prems by auto
  have "fold (swap_bytes sz) [0..<Suc k] d = ?f[k := d ! (sz - k - 1), sz - k - 1 := d ! k]"
    by (simp only: upt_Suc_append zero_le fold_append comp_apply fold_Cons fold_Nil id_apply
        swap_bytes_def a b)
  moreover have "(?f[k := d ! (sz - k - 1), sz - k - 1 := d ! k]) ! i =
      (if i < Suc k \<or> (sz - Suc k \<le> i \<and> i < sz) then d ! (sz - 1 - i) else d ! i)"
  proof -
    consider "i = sz - k - 1" | "i = k" "i \<noteq> sz - k - 1" | "i \<noteq> k" "i \<noteq> sz - k - 1" by blast
    then show ?thesis
    proof cases
      case 1
      then show ?thesis using Suc.prems len by (auto simp: nth_list_update)
    next
      case 2
      then show ?thesis using Suc.prems len by (auto simp: nth_list_update)
    next
      case 3
      then have "(i < Suc k \<or> (sz - Suc k \<le> i \<and> i < sz)) = (i < k \<or> (sz - k \<le> i \<and> i < sz))"
        using Suc.prems by auto
      with 3 show ?thesis using nth[of i] Suc.prems by simp
    qed
  qed
  ultimately show ?case using len by simp
qed

lemma conv_byte_order_rev:
  assumes "nat sz \<le> length d"
  shows "util_conv_byte_order d sz = Some (rev (take (nat sz) d) @ drop (nat sz) d)"
proof (cases "sz \<le> 1")
  case True
  then have "nat sz = 0 \<or> nat sz = 1" by auto
  then have "rev (take (nat sz) d) = take (nat sz) d"
    by (cases d) auto
  then have "rev (take (nat sz) d) @ drop (nat sz) d = d" by simp
  with True show ?thesis by (simp add: util_conv_byte_order_def)
next
  case False
  define n where "n = nat sz"
  have half: "nat (sz div 2) = n div 2" unfolding n_def by (simp add: nat_div_distrib)
  let ?f = "fold (swap_bytes n) [0..<n div 2] d"
  have n: "n \<le> length d" using assms n_def by simp
  have "?f = rev (take n d) @ drop n d"
  proof (rule nth_equalityI)
    have "length ?f = length d"
      using fold_swap_bytes_nth[OF n, of "n div 2" 0] False n_def assms by (cases d) auto
    then show "length ?f = length (rev (take n d) @ drop n d)" using n by simp
    fix i assume "i < length ?f"
    then have i: "i < length d" using \<open>length ?f = length d\<close> by simp
    have "?f ! i = (if i < n div 2 \<or> (n - n div 2 \<le> i \<and> i < n) then d ! (n - 1 - i) else d ! i)"
      using fold_swap_bytes_nth[OF n _ i, of "n div 2"] by simp
    also have "\<dots> = (rev (take n d) @ drop n d) ! i"
    proof (cases "i < n")
      case True
      have "\<not> (i < n div 2 \<or> n - n div 2 \<le> i) \<Longrightarrow> n - 1 - i = i" using True by linarith
      with True n show ?thesis by (auto simp: nth_append rev_nth)
    next
      case False
      then show ?thesis using n i by (auto simp: nth_append)
    qed
    finally show "?f ! i = (rev (take n d) @ drop n d) ! i" .
  qed
  with False n half show ?thesis by (simp add: util_conv_byte_order_def n_def)
qed

lemma conv_elems_involution:
  assumes "n * es \<le> length d" "1 < es"
  shows "\<exists>e. conv_elems n es d = Some e \<and> length e = length d \<and> conv_elems n es e = Some d"
  using assms
proof (induction n arbitrary: d)
  case 0
  then show ?case by simp
next
  case (Suc n)
  from Suc.prems have len: "length (take es d) = es" by simp
  from Suc.IH[of "drop es d"] Suc.prems obtain r where
    r: "conv_elems n es (drop es d) = Some r" "length r = length d - es"
      "conv_elems n es r = Some (drop es d)" by fastforce
  have "conv_elems (Suc n) es d = Some (rev (take es d) @ r)"
    using len r(1) by (simp add: conv_byte_order_rev)
  moreover have "conv_elems (Suc n) es (rev (take es d) @ r) = Some d"
    using len r(3) by (simp add: conv_byte_order_rev)
  ultimately show ?case using r(2) Suc.prems by simp
qed

lemma scan_wstr_spec:
  "0 \<notin> set ws \<Longrightarrow> scan_wstr n (ws @ 0 # r) = Some (take n ws)"
proof (induction ws arbitrary: n)
  case Nil
  then show ?case by (cases n) simp_all
next
  case (Cons c ws)
  then show ?case by (cases n) simp_all
qed

lemma scan_wstr_props:
  "scan_wstr n s = Some ws \<Longrightarrow> length ws \<le> n \<and> 0 \<notin> set ws \<and> take (length ws) s = ws"
proof (induction n s arbitrary: ws rule: scan_wstr.induct)
  case (3 n c s)
  then show ?case by (auto split: if_splits)
qed simp_all

lemma scan_wstr_less:
  "scan_wstr n s = Some ws \<Longrightarrow> length ws < n \<Longrightarrow> length ws < length s \<and> s ! length ws = 0"
proof (induction n s arbitrary: ws rule: scan_wstr.induct)
  case (3 n c s)
  then show ?case by (auto split: if_splits)
qed simp_all

lemma wchar_len_spec: "0 \<notin> set ws \<Longrightarrow> util_wchar_len (ws @ 0 # r) = Some (length ws)"
  by (induction ws) simp_all

lemma over_write_length: "over_write dest out = Some d \<Longrightarrow> length d = length dest"
  by (auto simp: over_write_def split: if_splits)

lemma wchar_ncpy_spec:
  assumes "0 \<notin> set ws" "n \<le> length dest"
  shows "util_wchar_ncpy True dest (ws @ 0 # r) n =
     Some (take n ws @ replicate (n - length ws) 0 @ drop n dest)"
  using assms by (simp add: util_wchar_ncpy_def scan_wstr_spec over_write_def min_def)

lemma utf8_to_utf16_fits:
  assumes "conv s = Some ws" "0 \<notin> set ws" "length ws < n" "n \<le> length dest"
  shows "util_utf8_to_utf16 conv True dest n s =
     Some (ws @ replicate (n - length ws) 0 @ drop n dest, length ws)"
  using assms wchar_ncpy_spec[of ws n dest "[]"] by (simp add: util_utf8_to_utf16_def)

lemma strrchr_split: "c \<notin> set b \<Longrightarrow> strrchr c (a @ c # b) = Some (length a)"
proof -
  assume b: "c \<notin> set b"
  have split: "[0..<length (a @ c # b)] = [0..<Suc (length a)] @ [Suc (length a)..<length (a @ c # b)]"
    by (simp add: upt_add_eq_append[of 0 "Suc (length a)" "length b", simplified])
  have none: "find (\<lambda>i. (a @ c # b) ! i = c) (rev [Suc (length a)..<length (a @ c # b)]) = None"
  proof -
    have "(a @ c # b) ! i \<noteq> c" if "Suc (length a) \<le> i" "i < length (a @ c # b)" for i
    proof -
      have "(a @ c # b) ! i = b ! (i - Suc (length a))" using that by (simp add: nth_append)
      moreover have "b ! (i - Suc (length a)) \<in> set b" using that by (intro nth_mem) auto
      ultimately show ?thesis using b by auto
    qed
    then show ?thesis by (simp only: find_None_iff set_rev set_upt) auto
  qed
  have find_app: "find P (xs @ ys) = (case find P xs of None \<Rightarrow> find P ys | r \<Rightarrow> r)"
    for P :: "nat \<Rightarrow> bool" and xs ys
    by (induction xs) auto
  show ?thesis unfolding strrchr_def split rev_append find_app none by simp
qed

lemma strrchr_None: "strrchr c s = None \<longleftrightarrow> c \<notin> set s"
  by (auto simp: strrchr_def find_None_iff in_set_conv_nth)

lemma g_strlcpy_full [simp]: "length s < n \<Longrightarrow> g_strlcpy s n = s"
  by (simp add: g_strlcpy_def)

lemma file_name_loop_no_slash:
  assumes "CHR ''/'' \<notin> set p" "i \<le> length p" "j + i = length p"
  shows "file_name_loop p i j = p"
  using assms
proof (induction p i j rule: file_name_loop.induct)
  case (1 p j)
  then show ?case by (auto simp: in_set_conv_nth)
next
  case (2 p i j)
  have "\<not> (Suc i < length p \<and> p ! Suc i = CHR ''/'')" using 2(2) nth_mem by metis
  with 2 show ?case by (simp only: file_name_loop.simps if_False) simp
qed

lemma file_name_loop_slash:
  assumes "CHR ''/'' \<notin> set b" "length a \<le> i" "i \<le> length (a @ CHR ''/'' # b)"
    "j + i = length (a @ CHR ''/'' # b)"
  shows "file_name_loop (a @ CHR ''/'' # b) i j = b"
  using assms(2-)
proof (induction i arbitrary: j)
  case 0
  then show ?case using assms(1) by simp
next
  case (Suc i)
  show ?case
  proof (cases "Suc i = length a")
    case True
    then have "length a = Suc i" by simp
    with Suc.prems show ?thesis by (simp add: nth_append)
  next
    case False
    with Suc.prems have gt: "length a < Suc i" by simp
    have "\<not> (Suc i < length (a @ CHR ''/'' # b) \<and> (a @ CHR ''/'' # b) ! Suc i = CHR ''/'')"
    proof
      assume *: "Suc i < length (a @ CHR ''/'' # b) \<and> (a @ CHR ''/'' # b) ! Suc i = CHR ''/''"
      then have "b ! (i - length a) = CHR ''/''" "i - length a < length b"
        using gt by (auto simp: nth_append)
      with assms(1) show False using nth_mem by metis
    qed
    moreover have "file_name_loop (a @ CHR ''/'' # b) i (Suc j) = b"
      using gt Suc.prems by (intro Suc.IH) simp_all
    ultimately show ?thesis by (simp only: file_name_loop.simps if_False)
  qed
qed

lemma get_file_name_slash:
  "CHR ''/'' \<notin> set b \<Longrightarrow> util_get_file_name (a @ CHR ''/'' # b) = b"
  unfolding util_get_file_name_def by (rule file_name_loop_slash) simp_all

lemma get_file_name_no_slash: "CHR ''/'' \<notin> set p \<Longrightarrow> util_get_file_name p = p"
  unfolding util_get_file_name_def by (rule file_name_loop_no_slash) simp_all

lemma get_parent_path_slash:
  "CHR ''/'' \<notin> set b \<Longrightarrow> util_get_parent_path (a @ CHR ''/'' # b) = Some a"
  by (simp add: util_get_parent_path_def strrchr_split g_strlcpy_def)

lemma create_path_True:
  "util_create_path sz dir name = (p, True) \<longleftrightarrow>
     length name \<le> 1024 \<and> length dir + 1 + length name \<le> sz
   \<and> p = Some (take (sz - 1) (dir @ ''/'' @ name))
   \<and> util_is_path_len_valid (take (sz - 1) (dir @ ''/'' @ name))"
  by (auto simp: util_create_path_def Let_def)

lemma unique_loop_Some:
  assumes "unique_loop miss base room val mx = Some p"
  shows "\<exists>k\<ge>val. k < mx \<and> p = base @ take (room + 1) (''_'' @ dec_string k) \<and> miss p
     \<and> (\<forall>j. val \<le> j \<longrightarrow> j < k \<longrightarrow> \<not> miss (base @ take (room + 1) (''_'' @ dec_string j)))"
  using assms
proof (induction miss base room val mx rule: unique_loop.induct)
  case (1 miss base room val mx)
  let ?b = "base @ take (room + 1) (''_'' @ dec_string val)"
  from 1(2) have lt: "val < mx" by (auto simp: unique_loop.simps split: if_splits)
  show ?case
  proof (cases "miss ?b")
    case True
    with 1(2) lt have "p = ?b" by (simp add: unique_loop.simps Let_def)
    with True lt show ?thesis by (intro exI[of _ val]) auto
  next
    case False
    with 1(2) lt have "unique_loop miss base room (Suc val) mx = Some p"
      by (subst (asm) unique_loop.simps) (simp add: Let_def)
    from 1(1)[OF lt refl False this] obtain k where
      k: "Suc val \<le> k" "k < mx" "p = base @ take (room + 1) (''_'' @ dec_string k)" "miss p"
      "\<forall>j. Suc val \<le> j \<longrightarrow> j < k \<longrightarrow> \<not> miss (base @ take (room + 1) (''_'' @ dec_string j))"
      by blast
    then have "\<forall>j. val \<le> j \<longrightarrow> j < k \<longrightarrow> \<not> miss (base @ take (room + 1) (''_'' @ dec_string j))"
      using False by (metis Suc_leI le_eq_less_or_eq)
    with k show ?thesis by (intro exI[of _ k]) auto
  qed
qed

lemma swprintf_conv_bound:
  assumes "swprintf_conv sz f args out = Some (known, args', out')" "length out < sz - 1"
  shows "length out' \<le> sz - 1"
  using assms
  by (auto simp: swprintf_conv_def swprintf_text_def
      split: if_splits list.splits wfmt_arg.splits)

lemma swprintf_loop_bound:
  "swprintf_loop sz fmt args out = Some res \<Longrightarrow> length out \<le> sz - 1 \<Longrightarrow> length res \<le> sz - 1"
proof (induction sz fmt args out arbitrary: res rule: swprintf_loop.induct)
  case (1 sz fmt args out)
  note run = 1(3) and len = 1(4)
  show ?case
  proof (cases "fmt = [] \<or> sz - 1 \<le> length out")
    case True
    with run len show ?thesis by (cases fmt) (auto simp: swprintf_loop.simps)
  next
    case False
    then obtain c fs where fmt: "fmt = c # fs" and room: "\<not> sz - 1 \<le> length out"
      by (cases fmt) auto
    show ?thesis
    proof (cases "c = CHR ''%''")
      case False
      from run fmt room False have "swprintf_loop sz fs args (out @ [wchar_of c]) = Some res"
        by (subst (asm) swprintf_loop.simps) simp
      from 1(1)[OF fmt room False this] room show ?thesis by simp
    next
      case True
      show ?thesis
      proof (cases "fs = []")
        case True
        with run len fmt room \<open>c = _\<close> show ?thesis by (simp add: swprintf_loop.simps)
      next
        case False
        then obtain f fs' where fs: "fs = f # fs'" by (cases fs) auto
        from run fmt room True fs obtain known args' out' where
          conv: "swprintf_conv sz f args out = Some (known, args', out')"
          and rest: "swprintf_loop sz (if known then fs' else fs) args' out' = Some res"
          by (subst (asm) swprintf_loop.simps) (auto split: option.splits)
        show ?thesis
          using 1(2)[OF fmt room _ fs conv refl refl rest] True room swprintf_conv_bound[OF conv]
          by simp
      qed
    qed
  qed
qed

text \<open>
  What the program relies on about g_utf8_to_utf16: text of non-zero ASCII
  characters is converted unit by unit.
\<close>

definition ascii_conv :: "(string \<Rightarrow> u16 list option) \<Rightarrow> bool" where
  "ascii_conv conv \<longleftrightarrow>
     (\<forall>s. (\<forall>c\<in>set s. 0 < (of_char c :: nat) \<and> (of_char c :: nat) < 128) \<longrightarrow> conv s = Some (map wchar_of s))"

lemma wchar_of_nonzero: "0 < (of_char c :: nat) \<Longrightarrow> (of_char c :: nat) < 128 \<Longrightarrow> wchar_of c \<noteq> 0"
  by (auto simp: wchar_of_def unat_of_nat dest!: arg_cong[where f = unat])

lemma ascii_conv_Some:
  assumes "ascii_conv conv" "\<forall>c\<in>set s. 0 < (of_char c :: nat) \<and> (of_char c :: nat) < 128"
  shows "conv s = Some (map wchar_of s)" "0 \<notin> set (map wchar_of s)"
  using assms wchar_of_nonzero by (fastforce simp: ascii_conv_def)+

end
