(* ===== verification/Ptp_String.thy ===== *)
theory Ptp_String
  imports Support
begin

text \<open>
  PTP strings of src/entity/mtp_property.c: a character count that includes
  the terminator and a fixed array of 16-bit units (255 in ptp_string_t, 20 in
  ptp_time_string_t).  Uninitialised units are arbitrary list entries, so every
  statement holds whatever they contain.  None is an access outside the array
  or the source buffer.
\<close>

abbreviation (input) MAX_PTP_STRING_CHARS :: nat where "MAX_PTP_STRING_CHARS \<equiv> 255"
abbreviation (input) MAX_PTP_TIME_STRING_CHARS :: nat where "MAX_PTP_TIME_STRING_CHARS \<equiv> 20"

record ptp_string =
  num_chars :: u8
  str :: "u16 list"

section \<open>Operations\<close>

text \<open>The allocator leaves the units undetermined.\<close>

definition alloc_ptpstring :: "u16 list \<Rightarrow> ptp_string" where
  "alloc_ptpstring junk = \<lparr>num_chars = 0, str = junk\<rparr>"

text \<open>
  The common tail of _prop_copy_char_to_ptpstring: ws are the units the copy
  loop has found before the terminator, at most 255 of them.  When all 255
  are used the last one is overwritten by the terminator.
\<close>

definition copy_char_finish :: "ptp_string \<Rightarrow> u16 list \<Rightarrow> ptp_string option" where
  "copy_char_finish s ws = do {
     d \<leftarrow> over_write (str s) ws;
     let n = (if length ws = MAX_PTP_STRING_CHARS then length ws else length ws + 1);
     if n \<le> length d then Some (s\<lparr>str := d[n - 1 := 0], num_chars := of_nat n\<rparr>) else None }"

definition prop_copy_wchar_to_ptpstring :: "ptp_string \<Rightarrow> u16 list option \<Rightarrow> ptp_string option" where
  "prop_copy_wchar_to_ptpstring s src =
     (case src of
        None \<Rightarrow> Some (s\<lparr>num_chars := 0\<rparr>)
      | Some w \<Rightarrow> do {
          ws \<leftarrow> scan_wstr MAX_PTP_STRING_CHARS w;
          if ws = [] then Some (s\<lparr>num_chars := 0\<rparr>) else copy_char_finish s ws })"

text \<open>
  CHAR_TYPE: plain char is signed, so each byte is sign-extended to 16 bits.
  The source is the text before its terminator.
\<close>

definition wchar_of_char :: "char \<Rightarrow> u16" where
  "wchar_of_char c = scast (of_nat (of_char c) :: u8)"

definition prop_copy_char_to_ptpstring :: "ptp_string \<Rightarrow> string option \<Rightarrow> ptp_string option" where
  "prop_copy_char_to_ptpstring s src =
     (case src of
        None \<Rightarrow> Some (s\<lparr>num_chars := 0\<rparr>)
      | Some [] \<Rightarrow> Some (s\<lparr>num_chars := 0\<rparr>)
      | Some cs \<Rightarrow> copy_char_finish s (map wchar_of_char (take MAX_PTP_STRING_CHARS cs)))"

record system_time =
  year :: u16
  month :: u16
  day_of_week :: u16
  day :: u16
  hour :: u16
  minute :: u16
  second :: u16
  millisecond :: u16

definition pad_dec :: "nat \<Rightarrow> nat \<Rightarrow> string" where
  "pad_dec w n = (let s = dec_string n in replicate (w - length s) (CHR ''0'') @ s)"

definition format_time :: "system_time \<Rightarrow> string" where
  "format_time t =
     pad_dec 4 (unat (year t)) @ pad_dec 2 (unat (month t)) @ pad_dec 2 (unat (day t)) @ ''T''
   @ pad_dec 2 (unat (hour t)) @ pad_dec 2 (unat (minute t)) @ pad_dec 2 (unat (second t)) @ ''.''
   @ pad_dec 1 (unat (millisecond t) div 100)"

text \<open>The text is formatted into a buffer of 17 bytes, terminator included.\<close>

definition prop_copy_time_to_ptptimestring ::
    "(string \<Rightarrow> u16 list option) \<Rightarrow> bool \<Rightarrow> ptp_string \<Rightarrow> system_time option \<Rightarrow> ptp_string option" where
  "prop_copy_time_to_ptptimestring conv aligned s st =
     (case st of
        None \<Rightarrow> Some (s\<lparr>num_chars := 0\<rparr>)
      | Some t \<Rightarrow> do {
          (d, _) \<leftarrow> util_utf8_to_utf16 conv aligned (str s) MAX_PTP_TIME_STRING_CHARS
                     (take 16 (format_time t));
          if 17 < length d then Some (s\<lparr>num_chars := 17, str := d[17 := 0]\<rparr>) else None })"

definition prop_copy_ptpstring :: "ptp_string \<Rightarrow> ptp_string \<Rightarrow> ptp_string option" where
  "prop_copy_ptpstring dst src =
     (let n = unat (num_chars src)
      in if n \<le> length (str src) then do {
           d \<leftarrow> over_write (str dst) (take n (str src));
           Some (dst\<lparr>num_chars := num_chars src, str := d\<rparr>) }
         else None)"

definition prop_is_equal_ptpstring :: "ptp_string \<Rightarrow> ptp_string \<Rightarrow> bool" where
  "prop_is_equal_ptpstring a b =
     (num_chars a = num_chars b
      \<and> (\<forall>i \<in> set [0..<unat (num_chars a)]. str a ! i = str b ! i))"

definition prop_size_ptpstring :: "ptp_string option \<Rightarrow> u32" where
  "prop_size_ptpstring so = (case so of None \<Rightarrow> 0 | Some s \<Rightarrow> ucast (num_chars s) * 2 + 1)"

text \<open>
  The packers return the bytes written from the start of the buffer and the
  returned count.
\<close>

definition prop_pack_ptpstring_body ::
    "u16 list \<Rightarrow> u32 \<Rightarrow> u32 \<Rightarrow> u32 \<Rightarrow> (u8 list \<times> u32) option" where
  "prop_pack_ptpstring_body s sz pstring_size n =
     (if sz = 0 \<or> sz < pstring_size then Some ([], 0)
      else if n = 0 then Some ([0], 1)
      else (let body = unat (pstring_size - 1)
            in if body \<le> 2 * length s
               then Some (ucast n # take body (concat (map (le_bytes 2) s)), pstring_size)
               else None))"

definition prop_pack_ptpstring :: "ptp_string \<Rightarrow> u32 \<Rightarrow> (u8 list \<times> u32) option" where
  "prop_pack_ptpstring s sz =
     prop_pack_ptpstring_body (str s) sz (prop_size_ptpstring (Some s)) (ucast (num_chars s))"

text \<open>
  The reader clamps the announced count to the number of units that fit in
  size - 1 bytes, reads that many units and overwrites the last one with the
  terminator; with no unit that write is at index -1.
\<close>

fun parse_units :: "nat \<Rightarrow> u8 list \<Rightarrow> u16 list option" where
  "parse_units 0 bs = Some []"
| "parse_units (Suc n) (lo # hi # bs) =
     map_option ((#) (ucast lo OR push_bit 8 (ucast hi))) (parse_units n bs)"
| "parse_units (Suc n) _ = None"

definition prop_parse_rawstring :: "ptp_string \<Rightarrow> u8 list \<Rightarrow> u32 \<Rightarrow> (ptp_string \<times> u32) option" where
  "prop_parse_rawstring s buf sz =
     (case buf of
        [] \<Rightarrow> None
      | b # bs \<Rightarrow>
          if b = 0 then Some (s\<lparr>num_chars := 0\<rparr>, 1)
          else (let ii = ucast ((sz - 1) div 2) :: u16;
                    n = (if ii < ucast b then ucast ii else b)
                in if n = 0 then None
                   else do {
                     ws \<leftarrow> parse_units (unat n) bs;
                     d \<leftarrow> over_write (str s) ws;
                     let s' = s\<lparr>num_chars := n, str := d[unat n - 1 := 0]\<rparr>;
                     Some (s', prop_size_ptpstring (Some s')) }))"

section \<open>Invariant and contents\<close>

definition ptpstring_inv :: "ptp_string \<Rightarrow> bool" where
  "ptpstring_inv s \<longleftrightarrow>
     length (str s) = MAX_PTP_STRING_CHARS
   \<and> (num_chars s = 0 \<or> str s ! (unat (num_chars s) - 1) = 0)"

definition ptpstring_units :: "ptp_string \<Rightarrow> u16 list" where
  "ptpstring_units s = take (unat (num_chars s)) (str s)"

lemma num_chars_le: "length (str s) = MAX_PTP_STRING_CHARS \<Longrightarrow> unat (num_chars s) \<le> length (str s)"
  using unat_u8_less[of "num_chars s"] by simp

lemma ptpstring_units_length [simp]:
  "length (str s) = MAX_PTP_STRING_CHARS \<Longrightarrow> length (ptpstring_units s) = unat (num_chars s)"
  using num_chars_le[of s] by (simp add: ptpstring_units_def)

lemma unat_size_ptpstring [simp]:
  "unat (prop_size_ptpstring (Some s)) = 2 * unat (num_chars s) + 1"
proof -
  have "unat (num_chars s) < 256" by (rule unat_u8_less)
  then show ?thesis
    by (simp add: prop_size_ptpstring_def unat_plus_if' unat_mult_lem[THEN iffD1] unat_ucast_up)
qed

lemma concat_le_bytes_take:
  "take (2 * n) (concat (map (le_bytes 2) ws)) = concat (map (le_bytes 2) (take n ws))"
proof (induction ws arbitrary: n)
  case (Cons w ws)
  then show ?case by (cases n) simp_all
qed simp

definition ptpstring_bytes :: "ptp_string \<Rightarrow> u8 list" where
  "ptpstring_bytes s = num_chars s # concat (map (le_bytes 2) (ptpstring_units s))"

lemma ptpstring_bytes_length:
  "unat (num_chars s) \<le> length (str s) \<Longrightarrow> length (ptpstring_bytes s) = 2 * unat (num_chars s) + 1"
  by (simp add: ptpstring_bytes_def ptpstring_units_def length_concat comp_def sum_list_triv)

lemma pack_ptpstring_bytes:
  assumes "unat (num_chars s) \<le> length (str s)" "2 * unat (num_chars s) + 1 \<le> unat sz"
  shows "prop_pack_ptpstring s sz = Some (ptpstring_bytes s, prop_size_ptpstring (Some s))"
proof (cases "num_chars s = 0")
  case True
  with assms show ?thesis
    by (auto simp: prop_pack_ptpstring_def prop_pack_ptpstring_body_def ptpstring_units_def
        prop_size_ptpstring_def word_less_nat_alt ptpstring_bytes_def)
next
  case False
  have n: "unat (prop_size_ptpstring (Some s) - 1) = 2 * unat (num_chars s)"
    by (subst unat_minus_one) (auto simp: unat_eq_0[symmetric])
  have sz: "sz \<noteq> 0" "\<not> sz < prop_size_ptpstring (Some s)"
    using assms(2) by (auto simp: word_less_nat_alt)
  have nz: "(ucast (num_chars s) :: u32) \<noteq> 0"
    using False by (simp add: unat_eq_0[symmetric] unat_ucast_up)
  show ?thesis
    using sz nz assms(1)
    by (simp add: prop_pack_ptpstring_def prop_pack_ptpstring_body_def Let_def n
        concat_le_bytes_take ptpstring_units_def ptpstring_bytes_def)
qed

lemma pack_ptpstring_spec:
  assumes "length (str s) = MAX_PTP_STRING_CHARS" "2 * unat (num_chars s) + 1 \<le> unat sz"
  shows "prop_pack_ptpstring s sz =
     Some (num_chars s # concat (map (le_bytes 2) (ptpstring_units s)), prop_size_ptpstring (Some s))"
  using pack_ptpstring_bytes[OF num_chars_le[OF assms(1)] assms(2)] by (simp add: ptpstring_bytes_def)

lemma le_bytes_2: "le_bytes 2 w = [ucast w, ucast (drop_bit 8 w)]"
  by (simp add: numeral_2_eq_2)

lemma parse_units_pack:
  "parse_units (length ws) (concat (map (le_bytes 2) ws) @ rest) = Some (ws :: u16 list)"
proof (induction ws)
  case (Cons w ws)
  have "le_word (le_bytes 2 w) = w" by simp
  then have "ucast (ucast w :: u8) OR push_bit 8 (ucast (ucast (drop_bit 8 w) :: u8)) = w"
    by (simp add: le_bytes_2)
  with Cons show ?case by (simp add: le_bytes_2)
qed simp

lemma parse_units_length: "parse_units n bs = Some ws \<Longrightarrow> length ws = n"
  by (induction n bs arbitrary: ws rule: parse_units.induct) auto

lemma parse_units_Some: "2 * n \<le> length bs \<Longrightarrow> \<exists>ws. parse_units n bs = Some ws"
proof (induction n arbitrary: bs)
  case (Suc n)
  then obtain lo hi bs' where "bs = lo # hi # bs'" by (cases bs; cases "tl bs") auto
  with Suc show ?case by fastforce
qed simp

text \<open>The clamp of the reader in closed form.\<close>

definition clamp_chars :: "u8 \<Rightarrow> u32 \<Rightarrow> u8" where
  "clamp_chars b sz = (let ii = ucast ((sz - 1) div 2) :: u16 in if ii < ucast b then ucast ii else b)"

lemma clamp_chars_fits:
  assumes "2 * unat b + 1 \<le> unat sz" "unat sz < 2 ^ 17"
  shows "clamp_chars b sz = b"
proof -
  have "sz \<noteq> 0" using assms(1) by auto
  then have "unat ((sz - 1) div 2) = (unat sz - 1) div 2" by (simp add: unat_div unat_minus_one)
  moreover have "(unat sz - 1) div 2 < 2 ^ 16" using assms(2) by simp
  ultimately have "unat (ucast ((sz - 1) div 2) :: u16) = (unat sz - 1) div 2"
    by (simp add: unat_ucast_small)
  then have "\<not> (ucast ((sz - 1) div 2) :: u16) < ucast b"
    using assms(1) by (simp add: word_less_nat_alt unat_ucast_up)
  then show ?thesis by (simp add: clamp_chars_def Let_def)
qed

lemma prop_parse_rawstring_clamp:
  "prop_parse_rawstring s (b # bs) sz =
     (if b = 0 then Some (s\<lparr>num_chars := 0\<rparr>, 1)
      else if clamp_chars b sz = 0 then None
      else do {
        ws \<leftarrow> parse_units (unat (clamp_chars b sz)) bs;
        d \<leftarrow> over_write (str s) ws;
        let s' = s\<lparr>num_chars := clamp_chars b sz, str := d[unat (clamp_chars b sz) - 1 := 0]\<rparr>;
        Some (s', prop_size_ptpstring (Some s')) })"
  by (simp add: prop_parse_rawstring_def clamp_chars_def Let_def)

lemma parse_units_inv:
  assumes "length (str s) = MAX_PTP_STRING_CHARS" "n \<noteq> 0" "parse_units (unat n) bs = Some ws"
  shows "over_write (str s) ws = Some (ws @ drop (unat n) (str s))"
    and "ptpstring_inv (s\<lparr>num_chars := n, str := (ws @ drop (unat n) (str s))[unat n - 1 := 0]\<rparr>)"
proof -
  have len: "length ws = unat n" using assms(3) by (rule parse_units_length)
  have n: "unat n \<le> 255" using unat_u8_less[of n] by simp
  then show "over_write (str s) ws = Some (ws @ drop (unat n) (str s))"
    using len assms(1) by (simp add: over_write_def)
  have "0 < unat n" using assms(2) by (simp add: unat_gt_0)
  then show "ptpstring_inv (s\<lparr>num_chars := n, str := (ws @ drop (unat n) (str s))[unat n - 1 := 0]\<rparr>)"
    using len n assms(1) by (simp add: ptpstring_inv_def)
qed

lemma parse_rawstring_inv:
  assumes "ptpstring_inv s" "prop_parse_rawstring s buf sz = Some (s', n)"
  shows "ptpstring_inv s' \<and> (n = 1 \<or> n = prop_size_ptpstring (Some s'))"
proof -
  obtain b bs where buf: "buf = b # bs"
    using assms(2) by (cases buf) (auto simp: prop_parse_rawstring_def)
  show ?thesis
  proof (cases "b = 0")
    case True
    with assms buf show ?thesis
      by (auto simp: prop_parse_rawstring_clamp ptpstring_inv_def)
  next
    case False
    with assms(2) buf obtain ws where nz: "clamp_chars b sz \<noteq> 0"
      and ws: "parse_units (unat (clamp_chars b sz)) bs = Some ws"
      by (auto simp: prop_parse_rawstring_clamp split: if_splits bind_splits)
    have len: "length (str s) = 255" using assms(1) by (simp add: ptpstring_inv_def)
    show ?thesis
      using assms(2) buf False nz ws parse_units_inv[OF len nz ws]
      by (auto simp: prop_parse_rawstring_clamp Let_def)
  qed
qed

lemma copy_char_finish_spec:
  assumes "length (str s) = MAX_PTP_STRING_CHARS" "ws \<noteq> []" "length ws \<le> MAX_PTP_STRING_CHARS"
  shows "\<exists>s'. copy_char_finish s ws = Some s' \<and> ptpstring_inv s'
     \<and> ptpstring_units s' = take (MAX_PTP_STRING_CHARS - 1) ws @ [0]"
proof -
  define n where "n = (if length ws = 255 then length ws else length ws + 1)"
  define d where "d = ws @ drop (length ws) (str s)"
  let ?s = "s\<lparr>str := d[n - 1 := 0], num_chars := of_nat n\<rparr>"
  have n: "n \<le> 255" "0 < n" using assms(3) by (auto simp: n_def)
  have d: "length d = 255" using assms(1,3) by (simp add: d_def)
  have u: "unat (of_nat n :: u8) = n" using n(1) by (simp add: unat_of_nat)
  have run: "copy_char_finish s ws = Some ?s"
    using assms n d by (simp add: copy_char_finish_def over_write_def n_def d_def)
  have inv: "ptpstring_inv ?s"
    using n d u by (simp add: ptpstring_inv_def)
  have "take n (d[n - 1 := 0]) = take (n - 1) d @ [0]"
    using n d by (intro take_list_update_last) simp_all
  moreover have "take (n - 1) d = take 254 ws"
    using assms(3) by (auto simp: n_def d_def)
  ultimately have "ptpstring_units ?s = take 254 ws @ [0]"
    using u by (simp add: ptpstring_units_def)
  with run inv show ?thesis by simp
qed

lemma parse_ptpstring_bytes:
  assumes inv: "ptpstring_inv s" and len0: "length (str s0) = MAX_PTP_STRING_CHARS"
    and sz: "2 * unat (num_chars s) + 1 \<le> unat sz" "unat sz < 2 ^ 17"
  shows "\<exists>s'. prop_parse_rawstring s0 (ptpstring_bytes s @ rest) sz = Some (s', prop_size_ptpstring (Some s))
     \<and> num_chars s' = num_chars s \<and> ptpstring_units s' = ptpstring_units s
     \<and> drop (unat (num_chars s)) (str s') = drop (unat (num_chars s)) (str s0)
     \<and> length (str s') = MAX_PTP_STRING_CHARS"
proof (cases "num_chars s = 0")
  case True
  with len0 show ?thesis
    by (simp add: prop_parse_rawstring_clamp ptpstring_units_def prop_size_ptpstring_def ptpstring_bytes_def)
next
  case False
  let ?us = "ptpstring_units s"
  have len: "length (str s) = 255" using inv by (simp add: ptpstring_inv_def)
  have ul: "length ?us = unat (num_chars s)" using len by simp
  have c: "clamp_chars (num_chars s) sz = num_chars s" using sz by (rule clamp_chars_fits)
  let ?d = "(?us @ drop (unat (num_chars s)) (str s0))[unat (num_chars s) - 1 := 0]"
  let ?s' = "s0\<lparr>num_chars := num_chars s, str := ?d\<rparr>"
  have pu: "parse_units (unat (num_chars s)) (concat (map (le_bytes 2) ?us) @ rest) = Some ?us"
    using parse_units_pack[of ?us rest] ul by simp
  have pos: "0 < unat (num_chars s)" using False by (simp add: unat_gt_0)
  have "?us ! (unat (num_chars s) - 1) = 0"
    using inv pos False num_chars_le[OF len] by (simp add: ptpstring_inv_def ptpstring_units_def)
  then have "?us[unat (num_chars s) - 1 := 0] = ?us" by (metis list_update_id)
  then have d: "?d = ?us @ drop (unat (num_chars s)) (str s0)"
    using ul pos by (simp add: list_update_append)
  have "ptpstring_units ?s' = ?us"
    unfolding d using ul by (subst ptpstring_units_def) simp
  moreover have "prop_parse_rawstring s0 (ptpstring_bytes s @ rest) sz
      = Some (?s', prop_size_ptpstring (Some ?s'))"
    using c False pu parse_units_inv(1)[OF len0 False pu]
    by (simp add: prop_parse_rawstring_clamp Let_def ptpstring_bytes_def)
  moreover have "prop_size_ptpstring (Some ?s') = prop_size_ptpstring (Some s)"
    by (simp add: prop_size_ptpstring_def)
  moreover have "drop (unat (num_chars s)) ?d = drop (unat (num_chars s)) (str s0)" "length ?d = 255"
    unfolding d using ul len0 unat_u8_less[of "num_chars s"] by simp_all
  ultimately show ?thesis by (intro exI[of _ ?s']) simp
qed

section \<open>Properties\<close>

text \<open>copying a terminated wide string into a PTP string never leaves either array; the
  result is well formed, terminated, and holds the first 254 units at most.\<close>

lemma copy_wchar_to_ptpstring_ok:
  assumes "length (str s) = MAX_PTP_STRING_CHARS" "0 \<notin> set ws"
  shows "\<exists>s'. prop_copy_wchar_to_ptpstring s (Some (ws @ 0 # rest)) = Some s' \<and> ptpstring_inv s'
     \<and> ptpstring_units s' = (if ws = [] then [] else take (MAX_PTP_STRING_CHARS - 1) ws @ [0])"
proof (cases "ws = []")
  case True
  with assms show ?thesis
    by (simp add: prop_copy_wchar_to_ptpstring_def numeral_eq_Suc ptpstring_inv_def ptpstring_units_def)
next
  case False
  with assms have "scan_wstr 255 (ws @ 0 # rest) = Some (take 255 ws)" "take 255 ws \<noteq> []"
    by (auto simp: scan_wstr_spec)
  with copy_char_finish_spec[OF assms(1), of "take 255 ws"] False show ?thesis
    by (simp add: prop_copy_wchar_to_ptpstring_def min_def)
qed

lemma copy_wchar_to_ptpstring_ok_witness:
  "\<exists>s'. prop_copy_wchar_to_ptpstring \<lparr>num_chars = 9, str = replicate 255 7\<rparr> (Some ([65, 66] @ 0 # [])) = Some s'
     \<and> ptpstring_inv s'
     \<and> ptpstring_units s' = (if [65, 66 :: u16] = [] then [] else take (MAX_PTP_STRING_CHARS - 1) [65, 66] @ [0])"
  by (rule copy_wchar_to_ptpstring_ok) simp_all

text \<open>C28: reading back the packed image of a well-formed PTP string, followed by any other
  bytes, gives the same units and consumes exactly the packed size.\<close>

theorem ptpstring_roundtrip:
  assumes "ptpstring_inv s" "length (str s0) = MAX_PTP_STRING_CHARS"
    and "prop_pack_ptpstring s bufsz = Some (bs, n)" "bs \<noteq> []"
    and "length bs \<le> unat sz" "unat sz < 2 ^ 17"
  shows "\<exists>s'. prop_parse_rawstring s0 (bs @ rest) sz = Some (s', n) \<and> unat n = length bs
     \<and> num_chars s' = num_chars s \<and> ptpstring_units s' = ptpstring_units s"
proof -
  have len: "unat (num_chars s) \<le> length (str s)"
    using assms(1) by (intro num_chars_le) (simp add: ptpstring_inv_def)
  have fits: "2 * unat (num_chars s) + 1 \<le> unat bufsz"
  proof (rule ccontr)
    assume "\<not> ?thesis"
    then have "bufsz < prop_size_ptpstring (Some s)" by (simp add: word_less_nat_alt)
    with assms(3,4) show False by (simp add: prop_pack_ptpstring_def prop_pack_ptpstring_body_def)
  qed
  from pack_ptpstring_bytes[OF len fits] assms(3)
  have "bs = ptpstring_bytes s" "n = prop_size_ptpstring (Some s)" by simp_all
  with parse_ptpstring_bytes[OF assms(1,2), of sz rest] ptpstring_bytes_length[OF len] assms(5,6)
  show ?thesis by auto
qed

theorem ptpstring_roundtrip_witness:
  "\<exists>s'. prop_parse_rawstring \<lparr>num_chars = 0, str = replicate 255 1\<rparr> ([2, 65, 0, 0, 0] @ [9]) 5 = Some (s', 5)
     \<and> unat (5 :: u32) = length [2, 65, 0, 0, 0 :: u8]
     \<and> num_chars s' = num_chars \<lparr>num_chars = 2, str = 65 # replicate 254 0\<rparr>
     \<and> ptpstring_units s' = ptpstring_units \<lparr>num_chars = 2, str = 65 # replicate 254 0\<rparr>"
proof (rule ptpstring_roundtrip)
  have c: "concat (map (le_bytes 2) (replicate n (0 :: u16))) = replicate (2 * n) 0" for n
    by (induction n) (simp_all add: le_bytes_2)
  show "prop_pack_ptpstring \<lparr>num_chars = 2, str = 65 # replicate 254 0\<rparr> 5 = Some ([2, 65, 0, 0, 0], 5)"
    using pack_ptpstring_spec[of "\<lparr>num_chars = 2, str = 65 # replicate 254 0\<rparr>" 5]
    by (simp add: ptpstring_units_def le_bytes_2 prop_size_ptpstring_def)
qed (simp_all add: ptpstring_inv_def)

text \<open>When the buffer really holds the announced number of bytes and there is room for at
  least one character, the reader of raw strings never accesses memory out of bounds and
  yields a well-formed, terminated string.\<close>

lemma parse_rawstring_safe:
  assumes "ptpstring_inv s" "3 \<le> unat sz" "unat sz < 2 ^ 17" "unat sz \<le> length buf"
  shows "\<exists>s' n. prop_parse_rawstring s buf sz = Some (s', n) \<and> ptpstring_inv s' \<and> unat n \<le> unat sz"
proof -
  obtain b bs where buf: "buf = b # bs" using assms(2,4) by (cases buf) auto
  have "sz \<noteq> 0" using assms(2) by auto
  then have "unat ((sz - 1) div 2) = (unat sz - 1) div 2" by (simp add: unat_div unat_minus_one)
  moreover have "(unat sz - 1) div 2 < 2 ^ 16" using assms(3) by simp
  ultimately have ii: "unat (ucast ((sz - 1) div 2) :: u16) = (unat sz - 1) div 2"
    by (simp add: unat_ucast_small)
  have c: "2 * unat (clamp_chars b sz) + 1 \<le> unat sz \<and> (b \<noteq> 0 \<longrightarrow> clamp_chars b sz \<noteq> 0)"
  proof (cases "(ucast ((sz - 1) div 2) :: u16) < ucast b")
    case True
    then have "(unat sz - 1) div 2 < unat b" using ii by (simp add: word_less_nat_alt unat_ucast_up)
    then have "unat (ucast (ucast ((sz - 1) div 2) :: u16) :: u8) = (unat sz - 1) div 2"
      using ii unat_u8_less[of b] by (subst unat_ucast_small) auto
    moreover have "0 < (unat sz - 1) div 2" using assms(2) by simp
    ultimately show ?thesis using True by (auto simp: clamp_chars_def Let_def unat_gt_0[symmetric])
  next
    case False
    then have "unat b \<le> (unat sz - 1) div 2" using ii by (simp add: word_less_nat_alt unat_ucast_up)
    with assms(2) False show ?thesis by (auto simp: clamp_chars_def Let_def)
  qed
  show ?thesis
  proof (cases "b = 0")
    case True
    with buf assms show ?thesis by (auto simp: prop_parse_rawstring_clamp ptpstring_inv_def)
  next
    case False
    with c have nz: "clamp_chars b sz \<noteq> 0" by simp
    have "2 * unat (clamp_chars b sz) \<le> length bs" using c buf assms(4) by simp
    then obtain ws where ws: "parse_units (unat (clamp_chars b sz)) bs = Some ws"
      using parse_units_Some by blast
    have len: "length (str s) = 255" using assms(1) by (simp add: ptpstring_inv_def)
    from parse_units_inv[OF len nz ws] buf False nz ws c show ?thesis
      by (auto simp: prop_parse_rawstring_clamp Let_def)
  qed
qed

lemma parse_rawstring_safe_witness:
  "\<exists>s' n. prop_parse_rawstring \<lparr>num_chars = 0, str = replicate 255 1\<rparr> [200, 65, 0, 66] 4 = Some (s', n)
     \<and> ptpstring_inv s' \<and> unat n \<le> unat (4 :: u32)"
  by (rule parse_rawstring_safe) (simp_all add: ptpstring_inv_def)

text \<open>A one- or two-byte data phase that announces a non-empty string makes the reader
  write before the start of the character array (undefined behaviour).\<close>

lemma parse_rawstring_short_undefined:
  assumes "sz = 1 \<or> sz = 2" "b \<noteq> 0"
  shows "prop_parse_rawstring s (b # bs) sz = None"
proof -
  have "clamp_chars b sz = 0"
    using assms by (auto simp: clamp_chars_def Let_def word_less_nat_alt unat_ucast_up unat_gt_0)
  with assms(2) show ?thesis by (simp add: prop_parse_rawstring_clamp)
qed

lemma parse_rawstring_short_undefined_witness:
  "prop_parse_rawstring \<lparr>num_chars = 0, str = replicate 255 1\<rparr> (5 # []) 1 = None"
  by (rule parse_rawstring_short_undefined) simp_all

end
