(* ===== verification/Property.thy ===== *)
theory Property
  imports Ptp_Array Ptp_String
begin

text \<open>
  Object properties of src/entity/mtp_property.c: descriptions, values,
  validity tests, the packed description dataset, the table of the supported
  properties and the interdependent property lists.  The unions default_val
  and current_val are tagged by what they hold; reading them under another
  tag is None.  The allocator's undetermined characters (junk) are a
  parameter of the operations that allocate a string.
\<close>

section \<open>Data\<close>

abbreviation (input) FORM_NONE :: u8 where "FORM_NONE \<equiv> 0x00"
abbreviation (input) RANGE_FORM :: u8 where "RANGE_FORM \<equiv> 0x01"
abbreviation (input) ENUM_FORM :: u8 where "ENUM_FORM \<equiv> 0x02"
abbreviation (input) DATE_TIME_FORM :: u8 where "DATE_TIME_FORM \<equiv> 0x03"
abbreviation (input) REGULAR_EXPRESSION_FORM :: u8 where "REGULAR_EXPRESSION_FORM \<equiv> 0x04"
abbreviation (input) BYTE_ARRAY_FORM :: u8 where "BYTE_ARRAY_FORM \<equiv> 0x05"
abbreviation (input) LONG_STRING_FORM :: u8 where "LONG_STRING_FORM \<equiv> 0xFF"

abbreviation (input) GROUP_CODE_OFTEN_USED :: u32 where "GROUP_CODE_OFTEN_USED \<equiv> 0x00000008"
abbreviation (input) GROUP_CODE_SLOW :: u32 where "GROUP_CODE_SLOW \<equiv> 0x00FF0000"

datatype prop_value = PvInt "u8 list" | PvStr "ptp_string option" | PvArr "ptp_array option"

datatype supp_value = SvInt u32 | SvStr ptp_string

record range_form =
  min_val :: u32
  max_val :: u32
  step_size :: u32

record prop_info =
  prop_code :: u16
  data_type :: u16
  dts_size :: u32
  get_set :: u8
  form_flag :: u8
  range :: range_form
  supp_value_list :: "supp_value list"
  default_val :: prop_value

record obj_prop_desc =
  propinfo :: prop_info
  group_code :: u32
  reg_exp :: "ptp_string option"
  max_len :: u32

record obj_prop_val =
  pv_prop :: obj_prop_desc
  current_val :: prop_value

abbreviation is_array_type :: "u16 \<Rightarrow> bool" where
  "is_array_type t \<equiv> t AND PTP_DATATYPE_ARRAYMASK = PTP_DATATYPE_ARRAY"

abbreviation is_value_type :: "u16 \<Rightarrow> bool" where
  "is_value_type t \<equiv> t AND PTP_DATATYPE_VALUEMASK = PTP_DATATYPE_VALUE"

section \<open>Validity\<close>

definition prop_is_valid_integer :: "prop_info \<Rightarrow> u64 \<Rightarrow> bool" where
  "prop_is_valid_integer pi v =
     (if \<not> is_value_type (data_type pi) then False
      else if form_flag pi = RANGE_FORM
      then ucast (min_val (range pi)) \<le> v \<and> v \<le> ucast (max_val (range pi))
      else if form_flag pi = ENUM_FORM
      then list_ex (\<lambda>s. case s of SvInt x \<Rightarrow> v = ucast x | SvStr _ \<Rightarrow> False) (supp_value_list pi)
      else form_flag pi = FORM_NONE)"

definition prop_is_valid_string :: "prop_info \<Rightarrow> ptp_string option \<Rightarrow> bool" where
  "prop_is_valid_string pi so =
     (case so of
        None \<Rightarrow> False
      | Some s \<Rightarrow>
          if data_type pi \<noteq> PTP_DATATYPE_STRING then False
          else if form_flag pi = ENUM_FORM
          then list_ex (\<lambda>e. case e of SvStr x \<Rightarrow> prop_is_equal_ptpstring s x | SvInt _ \<Rightarrow> False)
                 (supp_value_list pi)
          else if form_flag pi = DATE_TIME_FORM
          then \<not> (str s ! 8 \<noteq> 0x54 \<and> 9 < num_chars s)
          else True)"

section \<open>Setting values\<close>

definition prop_set_default_string :: "u16 list \<Rightarrow> prop_info \<Rightarrow> u16 list \<Rightarrow> (prop_info \<times> bool) option" where
  "prop_set_default_string junk pi val =
     (if data_type pi = PTP_DATATYPE_STRING then do {
        s \<leftarrow> prop_copy_wchar_to_ptpstring (alloc_ptpstring junk) (Some val);
        Some (pi\<lparr>default_val := PvStr (Some s)\<rparr>, True) }
      else Some (pi, False))"

text \<open>memcpy of dts_size bytes into the 16-byte integer of the union.\<close>

definition int_write :: "prop_value \<Rightarrow> u8 list \<Rightarrow> u32 \<Rightarrow> prop_value option" where
  "int_write v src n =
     (case v of
        PvInt old \<Rightarrow>
          if unat n \<le> length src then map_option PvInt (over_write old (take (unat n) src)) else None
      | _ \<Rightarrow> None)"

definition prop_set_default_integer :: "prop_info \<Rightarrow> u8 list \<Rightarrow> (prop_info \<times> bool) option" where
  "prop_set_default_integer pi value =
     (if is_value_type (data_type pi) then do {
        v \<leftarrow> int_write (default_val pi) value (dts_size pi);
        Some (pi\<lparr>default_val := v\<rparr>, True) }
      else Some (pi, False))"

definition prop_set_current_integer_val :: "obj_prop_val \<Rightarrow> u64 \<Rightarrow> (obj_prop_val \<times> bool) option" where
  "prop_set_current_integer_val pv v =
     (let pi = propinfo (pv_prop pv)
      in if prop_is_valid_integer pi v then do {
           c \<leftarrow> int_write (current_val pv) (le_bytes 8 v) (dts_size pi);
           Some (pv\<lparr>current_val := c\<rparr>, True) }
         else Some (pv, False))"

definition prop_set_current_string_val ::
    "u16 list \<Rightarrow> obj_prop_val \<Rightarrow> ptp_string \<Rightarrow> (obj_prop_val \<times> bool) option" where
  "prop_set_current_string_val junk pv s =
     (if prop_is_valid_string (propinfo (pv_prop pv)) (Some s) then do {
        s' \<leftarrow> prop_copy_ptpstring (alloc_ptpstring junk) s;
        Some (pv\<lparr>current_val := PvStr (Some s')\<rparr>, True) }
      else Some (pv, False))"

text \<open>
  Filling an array from raw bytes.  The size test multiplies modulo 2^32, so
  the loop may run past the received bytes: then the reads are None.
\<close>

definition array_type_of :: "u16 \<Rightarrow> data_type option" where
  "array_type_of t =
     (if t = PTP_DATATYPE_AUINT8 \<or> t = PTP_DATATYPE_AINT8 then Some UINT8_TYPE
      else if t = PTP_DATATYPE_AUINT16 \<or> t = PTP_DATATYPE_AINT16 then Some UINT16_TYPE
      else if t = PTP_DATATYPE_AUINT32 \<or> t = PTP_DATATYPE_AINT32 then Some UINT32_TYPE
      else None)"

fun append_raw :: "ptp_array \<Rightarrow> nat \<Rightarrow> u8 list \<Rightarrow> nat \<Rightarrow> ptp_array option" where
  "append_raw a es bs 0 = Some a"
| "append_raw a es bs (Suc n) =
     (if length bs < es then None
      else do {
        (a', _) \<leftarrow> prop_append_ele_ptparray a (le_word (take es bs));
        append_raw a' es (drop es bs) n })"

definition set_array_val :: "obj_prop_val \<Rightarrow> u8 list \<Rightarrow> u32 \<Rightarrow> (obj_prop_val \<times> bool) option" where
  "set_array_val pv arr sz =
     (let pi = propinfo (pv_prop pv)
      in if sz < 4 then Some (pv, False)
         else if length arr < 4 then None
         else (let n = le_word (take 4 arr) :: u32
               in if unat sz < 4 + unat (n * dts_size pi) then Some (pv, False)
                  else (case array_type_of (data_type pi) of
                          Some t \<Rightarrow>
                            (let a = prop_alloc_ptparray t
                             in if n = 0 then Some (pv\<lparr>current_val := PvArr (Some a)\<rparr>, True)
                                else do {
                                  a' \<leftarrow> append_raw (fst (prop_grow_ptparray a n)) (get_ptp_array_elem_size t)
                                          (drop 4 arr) (unat n);
                                  Some (pv\<lparr>current_val := PvArr (Some a')\<rparr>, True) })
                        | None \<Rightarrow>
                            (case current_val pv of
                               PvArr (Some a) \<Rightarrow>
                                 Some (pv\<lparr>current_val := PvArr (Some (if n = 0 then a
                                                 else fst (prop_grow_ptparray a n)))\<rparr>, True)
                             | PvArr None \<Rightarrow> Some (pv, True)
                             | _ \<Rightarrow> None))))"

definition prop_set_current_array_val ::
    "u16 list \<Rightarrow> obj_prop_val \<Rightarrow> u8 list \<Rightarrow> u32 \<Rightarrow> (obj_prop_val \<times> bool) option" where
  "prop_set_current_array_val junk pv arr sz =
     (let pi = propinfo (pv_prop pv); t = data_type pi
      in if t = PTP_DATATYPE_STRING then do {
           (s, _) \<leftarrow> prop_parse_rawstring (alloc_ptpstring junk) arr sz;
           prop_set_current_string_val junk pv s }
         else if is_array_type t then set_array_val pv arr sz
         else if is_value_type t then
           (if sz < dts_size pi then Some (pv, False)
            else if t = PTP_DATATYPE_INT64 \<or> t = PTP_DATATYPE_UINT64 \<or> t = PTP_DATATYPE_INT128
                    \<or> t = PTP_DATATYPE_UINT128 then do {
              c \<leftarrow> int_write (current_val pv) arr (dts_size pi);
              Some (pv\<lparr>current_val := c\<rparr>, True) }
            else if unat (dts_size pi) \<le> length arr \<and> unat (dts_size pi) \<le> 4
            then prop_set_current_integer_val pv (ucast (le_word (take (unat (dts_size pi)) arr) :: u32))
            else None)
         else Some (pv, False))"

definition prop_set_regexp :: "u16 list \<Rightarrow> obj_prop_desc \<Rightarrow> u16 list \<Rightarrow> (obj_prop_desc \<times> bool) option" where
  "prop_set_regexp junk p regex =
     (if data_type (propinfo p) \<noteq> PTP_DATATYPE_STRING \<or> form_flag (propinfo p) \<noteq> REGULAR_EXPRESSION_FORM
      then Some (p, False)
      else do {
        s \<leftarrow> prop_copy_wchar_to_ptpstring (alloc_ptpstring junk) (Some regex);
        Some (p\<lparr>reg_exp := Some s\<rparr>, True) })"

definition prop_add_supp_integer_val :: "prop_info \<Rightarrow> u32 \<Rightarrow> prop_info \<times> bool" where
  "prop_add_supp_integer_val pi v =
     (if \<not> is_value_type (data_type pi) \<or> form_flag pi \<noteq> ENUM_FORM then (pi, False)
      else (pi\<lparr>supp_value_list := supp_value_list pi @ [SvInt v]\<rparr>, True))"

definition prop_add_supp_string_val :: "u16 list \<Rightarrow> prop_info \<Rightarrow> u16 list \<Rightarrow> (prop_info \<times> bool) option" where
  "prop_add_supp_string_val junk pi val =
     (if data_type pi \<noteq> PTP_DATATYPE_STRING \<or> form_flag pi \<noteq> ENUM_FORM then Some (pi, False)
      else do {
        s \<leftarrow> prop_copy_wchar_to_ptpstring (alloc_ptpstring junk) (Some val);
        Some (pi\<lparr>supp_value_list := supp_value_list pi @ [SvStr s]\<rparr>, True) })"

section \<open>Descriptions\<close>

definition type_size :: "u16 \<Rightarrow> u32" where
  "type_size t =
     (if t \<in> {PTP_DATATYPE_UINT8, PTP_DATATYPE_INT8, PTP_DATATYPE_AINT8, PTP_DATATYPE_AUINT8} then 1
      else if t \<in> {PTP_DATATYPE_UINT16, PTP_DATATYPE_INT16, PTP_DATATYPE_AINT16, PTP_DATATYPE_AUINT16} then 2
      else if t \<in> {PTP_DATATYPE_UINT32, PTP_DATATYPE_INT32, PTP_DATATYPE_AINT32, PTP_DATATYPE_AUINT32} then 4
      else if t \<in> {PTP_DATATYPE_UINT64, PTP_DATATYPE_INT64, PTP_DATATYPE_AINT64, PTP_DATATYPE_AUINT64} then 8
      else if t \<in> {PTP_DATATYPE_UINT128, PTP_DATATYPE_INT128, PTP_DATATYPE_AINT128, PTP_DATATYPE_AUINT128} then 16
      else 0)"

text \<open>An all-zero union: a null pointer for strings and arrays, zero bytes for integers.\<close>

definition zero_value :: "u16 \<Rightarrow> prop_value" where
  "zero_value t = (if t = PTP_DATATYPE_STRING then PvStr None
                   else if is_array_type t then PvArr None else PvInt (replicate 16 0))"

definition init_obj_prop_desc :: "obj_prop_desc \<Rightarrow> u16 \<Rightarrow> u16 \<Rightarrow> u8 \<Rightarrow> u8 \<Rightarrow> u32 \<Rightarrow> obj_prop_desc" where
  "init_obj_prop_desc p propcode dt gs ff gc =
     (let t = (if ff = BYTE_ARRAY_FORM then PTP_DATATYPE_AUINT8
               else if ff = LONG_STRING_FORM then PTP_DATATYPE_AUINT16 else dt)
      in p\<lparr>propinfo := (propinfo p)\<lparr>prop_code := propcode, data_type := t, get_set := gs,
             default_val := zero_value t, form_flag := ff, dts_size := type_size t,
             supp_value_list := []\<rparr>,
           group_code := gc, reg_exp := None, max_len := 0\<rparr>)"

text \<open>Size of a value of the union under the type of the property.\<close>

definition value_size :: "u16 \<Rightarrow> u32 \<Rightarrow> prop_value \<Rightarrow> u32 option" where
  "value_size t dts v =
     (if t = PTP_DATATYPE_STRING then
        (case v of PvStr s \<Rightarrow> Some (prop_size_ptpstring s) | _ \<Rightarrow> None)
      else if is_array_type t then
        (case v of PvArr None \<Rightarrow> Some 0 | PvArr (Some a) \<Rightarrow> Some (prop_get_size_ptparray a) | _ \<Rightarrow> None)
      else if is_value_type t then Some dts
      else Some 0)"

definition prop_size_obj_propval :: "obj_prop_val \<Rightarrow> u32 option" where
  "prop_size_obj_propval pv =
     value_size (data_type (propinfo (pv_prop pv))) (dts_size (propinfo (pv_prop pv))) (current_val pv)"

definition form_size :: "obj_prop_desc \<Rightarrow> u32 option" where
  "form_size p =
     (let pi = propinfo p
      in if form_flag pi = RANGE_FORM
         then Some (if data_type pi \<noteq> PTP_DATATYPE_STRING then 3 * dts_size pi else 0)
         else if form_flag pi = ENUM_FORM then
           (if data_type pi \<noteq> PTP_DATATYPE_STRING
            then Some (2 + of_nat (length (supp_value_list pi)) * dts_size pi)
            else do {
              ss \<leftarrow> those (map (\<lambda>v. case v of SvStr s \<Rightarrow> Some (prop_size_ptpstring (Some s)) | _ \<Rightarrow> None)
                            (supp_value_list pi));
              Some (2 + sum_list ss) })
         else if form_flag pi = REGULAR_EXPRESSION_FORM then Some (prop_size_ptpstring (reg_exp p))
         else if form_flag pi = BYTE_ARRAY_FORM \<or> form_flag pi = LONG_STRING_FORM then Some 4
         else Some 0)"

definition prop_size_obj_prop_desc :: "obj_prop_desc \<Rightarrow> u32 option" where
  "prop_size_obj_prop_desc p = do {
     v \<leftarrow> value_size (data_type (propinfo p)) (dts_size (propinfo p)) (default_val (propinfo p));
     f \<leftarrow> form_size p;
     Some (2 + 2 + 1 + 4 + 1 + v + f) }"

section \<open>The packed description\<close>

definition pack_value :: "u16 \<Rightarrow> u32 \<Rightarrow> prop_value \<Rightarrow> packer" where
  "pack_value t dts v =
     (if t = PTP_DATATYPE_STRING then
        (case v of
           PvStr (Some s) \<Rightarrow>
             pk_part (prop_size_ptpstring (Some s)) (prop_pack_ptpstring s (prop_size_ptpstring (Some s)))
         | PvStr None \<Rightarrow> pk_bytes []
         | _ \<Rightarrow> None)
      else if is_array_type t then
        (case v of
           PvArr (Some a) \<Rightarrow> pk_part (prop_get_size_ptparray a) (prop_pack_ptparray a (prop_get_size_ptparray a))
         | PvArr None \<Rightarrow> pk_bytes []
         | _ \<Rightarrow> None)
      else if is_value_type t then
        (case v of
           PvInt bs \<Rightarrow> if unat dts \<le> length bs then pk_bytes (take (unat dts) bs) else None
         | _ \<Rightarrow> None)
      else pk_bytes [])"

text \<open>memcpy of dts_size bytes from a 32-bit variable; more than four are out of bounds.\<close>

definition pk_u32 :: "u32 \<Rightarrow> u32 \<Rightarrow> packer" where
  "pk_u32 dts w = (if unat dts \<le> 4 then pk_bytes (le_bytes (unat dts) w) else None)"

definition pack_supp :: "u32 \<Rightarrow> supp_value \<Rightarrow> packer" where
  "pack_supp dts v =
     (case v of
        SvInt w \<Rightarrow> pk_u32 dts w
      | SvStr s \<Rightarrow>
          pk_part (prop_size_ptpstring (Some s)) (prop_pack_ptpstring s (prop_size_ptpstring (Some s))))"

definition pack_form :: "obj_prop_desc \<Rightarrow> packer" where
  "pack_form p =
     (let pi = propinfo p
      in if form_flag pi = RANGE_FORM
         then pk_seq [pk_u32 (dts_size pi) (min_val (range pi)), pk_u32 (dts_size pi) (max_val (range pi)),
                      pk_u32 (dts_size pi) (step_size (range pi))]
         else if form_flag pi = ENUM_FORM
         then pk_then (pk_bytes (le_bytes 2 (of_nat (length (supp_value_list pi)) :: u16)))
                (pk_seq (map (pack_supp (dts_size pi)) (supp_value_list pi)))
         else if form_flag pi = REGULAR_EXPRESSION_FORM then
           (case reg_exp p of
              None \<Rightarrow> pk_bytes []
            | Some s \<Rightarrow>
                pk_part (prop_size_ptpstring (Some s)) (prop_pack_ptpstring s (prop_size_ptpstring (Some s))))
         else if form_flag pi = BYTE_ARRAY_FORM \<or> form_flag pi = LONG_STRING_FORM
         then pk_bytes (le_bytes 4 (max_len p))
         else pk_bytes [])"

definition prop_pack_obj_prop_desc :: "obj_prop_desc \<Rightarrow> u32 \<Rightarrow> (u8 list \<times> u32) option" where
  "prop_pack_obj_prop_desc p sz = do {
     need \<leftarrow> prop_size_obj_prop_desc p;
     if sz < need then Some ([], 0)
     else (let pi = propinfo p
           in pk_run (pk_seq
                [pk_bytes (le_bytes 2 (prop_code pi)), pk_bytes (le_bytes 2 (data_type pi)),
                 pk_bytes [get_set pi], pack_value (data_type pi) (dts_size pi) (default_val pi),
                 pk_bytes (le_bytes 4 (group_code p)), pk_bytes [form_flag pi], pack_form p])) }"

section \<open>Well-formed descriptions\<close>

text \<open>
  A value fits its type: strings and arrays are well formed, integers have the
  16 bytes of the union.
\<close>

definition value_ok :: "u16 \<Rightarrow> u32 \<Rightarrow> prop_value \<Rightarrow> bool" where
  "value_ok t dts v =
     (if t = PTP_DATATYPE_STRING then (case v of PvStr (Some s) \<Rightarrow> ptpstring_inv s | _ \<Rightarrow> False)
      else if is_array_type t then
        (case v of
           PvArr (Some a) \<Rightarrow> ptparray_inv a \<and> pa_type a \<noteq> UINT128_TYPE \<and> unat (num_ele a) < 2 ^ 16
         | _ \<Rightarrow> False)
      else (case v of PvInt bs \<Rightarrow> length bs = 16 \<and> unat dts \<le> 16 | _ \<Rightarrow> False))"

definition supp_ok :: "prop_info \<Rightarrow> supp_value \<Rightarrow> bool" where
  "supp_ok pi v =
     (case v of
        SvInt _ \<Rightarrow> data_type pi \<noteq> PTP_DATATYPE_STRING \<and> unat (dts_size pi) \<le> 4
      | SvStr s \<Rightarrow> data_type pi = PTP_DATATYPE_STRING \<and> ptpstring_inv s)"

definition desc_ok :: "obj_prop_desc \<Rightarrow> bool" where
  "desc_ok p \<longleftrightarrow>
     value_ok (data_type (propinfo p)) (dts_size (propinfo p)) (default_val (propinfo p))
   \<and> length (supp_value_list (propinfo p)) < 2 ^ 16
   \<and> (form_flag (propinfo p) = ENUM_FORM \<longrightarrow> list_all (supp_ok (propinfo p)) (supp_value_list (propinfo p)))
   \<and> (form_flag (propinfo p) = RANGE_FORM \<longrightarrow>
        data_type (propinfo p) \<noteq> PTP_DATATYPE_STRING \<and> unat (dts_size (propinfo p)) \<le> 4)
   \<and> (case reg_exp p of None \<Rightarrow> True | Some s \<Rightarrow> ptpstring_inv s)"

lemma concat_le_bytes_length: "length (concat (map (le_bytes n) xs)) = n * length xs"
  by (induction xs) simp_all

lemma pack_string_ok:
  assumes "ptpstring_inv s"
  shows "\<exists>bs. pk_part (prop_size_ptpstring (Some s)) (prop_pack_ptpstring s (prop_size_ptpstring (Some s)))
       = Some (bs, True) \<and> of_nat (length bs) = prop_size_ptpstring (Some s) \<and> length bs \<le> 511"
proof -
  have n: "unat (num_chars s) \<le> 255" using unat_u8_less[of "num_chars s"] by simp
  have len: "length (str s) = 255" using assms by (simp add: ptpstring_inv_def)
  let ?bs = "num_chars s # concat (map (le_bytes 2) (ptpstring_units s))"
  have l: "length ?bs = unat (prop_size_ptpstring (Some s))"
    using len by (simp add: concat_le_bytes_length)
  then have "of_nat (length ?bs) = prop_size_ptpstring (Some s)" by (simp only: of_nat_unat_word)
  with pack_ptpstring_spec[OF len, of "prop_size_ptpstring (Some s)"] l n show ?thesis
    by simp
qed

lemma pack_array_ok:
  assumes "ptparray_inv a" "pa_type a \<noteq> UINT128_TYPE" "unat (num_ele a) < 2 ^ 16"
  shows "\<exists>bs. pk_part (prop_get_size_ptparray a) (prop_pack_ptparray a (prop_get_size_ptparray a))
       = Some (bs, True) \<and> of_nat (length bs) = prop_get_size_ptparray a \<and> length bs \<le> 2 ^ 19"
proof -
  from assms(1) obtain xs where xs: "ptparray_elems a = Some xs" by (auto simp: ptparray_inv_def)
  let ?es = "get_ptp_array_elem_size (pa_type a)"
  have len: "length xs = unat (num_ele a)" using xs by (rule ptparray_elems_length)
  have es: "?es \<le> 4" using assms(2) by simp
  have e: "unat (of_nat ?es :: u32) = ?es" by (cases "pa_type a") simp_all
  have "?es * unat (num_ele a) \<le> 4 * unat (num_ele a)" using es by (rule mult_le_mono1)
  then have b: "?es * unat (num_ele a) < 2 ^ 18" by (rule le_less_trans) (use assms(3) in simp)
  then have "unat (of_nat ?es * num_ele a) = ?es * unat (num_ele a)"
    using e by (subst unat_mult_lem[THEN iffD1]) auto
  then have sz: "unat (prop_get_size_ptparray a) = 4 + ?es * length xs"
    using b len by (simp add: prop_get_size_ptparray_def) (subst unat_add_lem[THEN iffD1], auto)
  let ?bs = "le_bytes 4 (num_ele a) @ concat (map (le_bytes ?es) xs)"
  have l: "length ?bs = unat (prop_get_size_ptparray a)" using sz by (simp add: concat_le_bytes_length)
  then have "of_nat (length ?bs) = prop_get_size_ptparray a" by (simp only: of_nat_unat_word)
  with pack_ptparray_spec[OF assms(1) xs assms(2), of "prop_get_size_ptparray a"] sz b len show ?thesis
    by (simp add: mult.commute concat_le_bytes_length)
qed

lemma pack_value_ok:
  assumes "value_ok t dts v"
  shows "\<exists>bs n. pack_value t dts v = Some (bs, True) \<and> value_size t dts v = Some n
     \<and> of_nat (length bs) = n \<and> length bs \<le> 2 ^ 19"
proof -
  consider s where "t = PTP_DATATYPE_STRING" "v = PvStr (Some s)" "ptpstring_inv s"
    | a where "t \<noteq> PTP_DATATYPE_STRING" "is_array_type t" "v = PvArr (Some a)" "ptparray_inv a"
        "pa_type a \<noteq> UINT128_TYPE" "unat (num_ele a) < 2 ^ 16"
    | bs where "t \<noteq> PTP_DATATYPE_STRING" "\<not> is_array_type t" "v = PvInt bs" "length bs = 16" "unat dts \<le> 16"
    using assms by (auto simp: value_ok_def split: if_splits prop_value.splits option.splits)
  then show ?thesis
  proof cases
    case 1
    with pack_string_ok[of s] show ?thesis by (auto simp: pack_value_def value_size_def)
  next
    case 2
    with pack_array_ok[of a] show ?thesis by (auto simp: pack_value_def value_size_def)
  next
    case 3
    then show ?thesis by (auto simp: pack_value_def value_size_def pk_bytes_def)
  qed
qed

lemma pk_u32_ok:
  "unat dts \<le> 4 \<Longrightarrow> \<exists>bs. pk_u32 dts w = Some (bs, True) \<and> of_nat (length bs) = dts \<and> length bs \<le> 4"
  by (simp add: pk_u32_def pk_bytes_def)

definition supp_size :: "prop_info \<Rightarrow> supp_value \<Rightarrow> u32" where
  "supp_size pi v = (case v of SvInt _ \<Rightarrow> dts_size pi | SvStr s \<Rightarrow> prop_size_ptpstring (Some s))"

lemma pack_supp_ok:
  assumes "supp_ok pi v"
  shows "\<exists>bs. pack_supp (dts_size pi) v = Some (bs, True) \<and> of_nat (length bs) = supp_size pi v
     \<and> length bs \<le> 511"
  using assms pk_u32_ok[of "dts_size pi"] pack_string_ok
  by (cases v) (fastforce simp: supp_ok_def pack_supp_def supp_size_def)+

lemma pack_supps_ok:
  assumes "list_all (supp_ok pi) vs"
  shows "\<exists>bs. pk_seq (map (pack_supp (dts_size pi)) vs) = Some (bs, True)
     \<and> of_nat (length bs) = sum_list (map (supp_size pi) vs) \<and> length bs \<le> 511 * length vs"
  using assms
proof (induction vs)
  case Nil
  then show ?case by (simp add: pk_bytes_def)
next
  case (Cons v vs)
  from Cons.prems have v: "supp_ok pi v" and vs: "list_all (supp_ok pi) vs" by simp_all
  from pack_supp_ok[OF v] obtain b where b: "pack_supp (dts_size pi) v = Some (b, True)"
    "of_nat (length b) = supp_size pi v" "length b \<le> 511" by auto
  from Cons.IH[OF vs] obtain bs where bs: "pk_seq (map (pack_supp (dts_size pi)) vs) = Some (bs, True)"
    "of_nat (length bs) = sum_list (map (supp_size pi) vs)" "length bs \<le> 511 * length vs" by auto
  from b bs show ?case by auto
qed

lemma supp_sizes_int:
  assumes "list_all (supp_ok pi) vs" "data_type pi \<noteq> PTP_DATATYPE_STRING"
  shows "sum_list (map (supp_size pi) vs) = of_nat (length vs) * dts_size pi"
  using assms
proof (induction vs)
  case (Cons v vs)
  then show ?case
    by (auto simp: supp_ok_def supp_size_def distrib_right split: supp_value.splits)
qed simp

lemma supp_sizes_str:
  assumes "list_all (supp_ok pi) vs" "data_type pi = PTP_DATATYPE_STRING"
  shows "those (map (\<lambda>v. case v of SvStr s \<Rightarrow> Some (prop_size_ptpstring (Some s)) | _ \<Rightarrow> None) vs)
     = Some (map (supp_size pi) vs)"
  using assms
  by (induction vs) (auto simp: supp_ok_def supp_size_def split: supp_value.splits)

lemma pack_form_ok:
  assumes "desc_ok p"
  shows "\<exists>bs n. pack_form p = Some (bs, True) \<and> form_size p = Some n \<and> of_nat (length bs) = n
     \<and> length bs \<le> 2 ^ 26"
proof -
  let ?pi = "propinfo p"
  consider (range) "form_flag ?pi = RANGE_FORM" | (enum) "form_flag ?pi = ENUM_FORM"
    | (regex) "form_flag ?pi = REGULAR_EXPRESSION_FORM"
    | (long) "form_flag ?pi = BYTE_ARRAY_FORM \<or> form_flag ?pi = LONG_STRING_FORM"
    | (other) "form_flag ?pi \<notin> {RANGE_FORM, ENUM_FORM, REGULAR_EXPRESSION_FORM, BYTE_ARRAY_FORM, LONG_STRING_FORM}"
    by auto
  then show ?thesis
  proof cases
    case range
    with assms have "unat (dts_size ?pi) \<le> 4" "data_type ?pi \<noteq> PTP_DATATYPE_STRING"
      by (auto simp: desc_ok_def)
    with range show ?thesis
      by (simp add: pack_form_def form_size_def pk_u32_def pk_bytes_def Let_def)
  next
    case enum
    with assms have s: "list_all (supp_ok ?pi) (supp_value_list ?pi)"
      and n: "length (supp_value_list ?pi) < 2 ^ 16" by (auto simp: desc_ok_def)
    from pack_supps_ok[OF s] n obtain bs where
      "pk_seq (map (pack_supp (dts_size ?pi)) (supp_value_list ?pi)) = Some (bs, True)"
      "of_nat (length bs) = sum_list (map (supp_size ?pi) (supp_value_list ?pi))"
      "length bs \<le> 511 * length (supp_value_list ?pi)" by auto
    with enum s n supp_sizes_int[OF s] supp_sizes_str[OF s] show ?thesis
      by (cases "data_type ?pi = PTP_DATATYPE_STRING")
        (simp_all add: pack_form_def form_size_def pk_bytes_def Let_def)
  next
    case regex
    with assms pack_string_ok show ?thesis
      by (fastforce simp: desc_ok_def pack_form_def form_size_def pk_bytes_def prop_size_ptpstring_def[of None]
          split: option.splits)
  next
    case long
    then show ?thesis by (auto simp: pack_form_def form_size_def pk_bytes_def)
  next
    case other
    then show ?thesis by (simp add: pack_form_def form_size_def pk_bytes_def)
  qed
qed

lemma pack_desc_ok:
  assumes "desc_ok p"
  shows "\<exists>bs need. prop_size_obj_prop_desc p = Some need \<and> length bs = unat need
     \<and> (\<forall>sz. need \<le> sz \<longrightarrow> prop_pack_obj_prop_desc p sz = Some (bs, need))"
proof -
  let ?pi = "propinfo p"
  have "value_ok (data_type ?pi) (dts_size ?pi) (default_val ?pi)" using assms by (simp add: desc_ok_def)
  from pack_value_ok[OF this] obtain vb vn where v:
    "pack_value (data_type ?pi) (dts_size ?pi) (default_val ?pi) = Some (vb, True)"
    "value_size (data_type ?pi) (dts_size ?pi) (default_val ?pi) = Some vn"
    "of_nat (length vb) = vn" "length vb \<le> 2 ^ 19" by auto
  from pack_form_ok[OF assms] obtain fb fn where f: "pack_form p = Some (fb, True)"
    "form_size p = Some fn" "of_nat (length fb) = fn" "length fb \<le> 2 ^ 26" by auto
  let ?bs = "le_bytes 2 (prop_code ?pi) @ le_bytes 2 (data_type ?pi) @ [get_set ?pi] @ vb
     @ le_bytes 4 (group_code p) @ [form_flag ?pi] @ fb"
  let ?need = "2 + 2 + 1 + 4 + 1 + vn + fn :: u32"
  have len: "length ?bs = 10 + length vb + length fb" by simp
  then have n: "of_nat (length ?bs) = ?need" using v(3) f(3) by (simp add: algebra_simps)
  have "unat (of_nat (length ?bs) :: u32) = length ?bs"
    by (rule unat_of_nat_eq_small) (use len v(4) f(4) in simp)
  then have "unat ?need = length ?bs" by (simp only: n)
  moreover have "prop_size_obj_prop_desc p = Some ?need"
    using v(2) f(2) by (simp add: prop_size_obj_prop_desc_def)
  moreover have "prop_pack_obj_prop_desc p sz = Some (?bs, ?need)" if "?need \<le> sz" for sz
  proof -
    have "\<not> sz < ?need" using that by simp
    with calculation(2) v(1) f(1) n show ?thesis
      by (simp add: prop_pack_obj_prop_desc_def pk_bytes_def pk_run_def Let_def)
  qed
  ultimately show ?thesis by (intro exI[of _ ?bs] exI[of _ ?need]) simp
qed

section \<open>The table of supported properties\<close>

abbreviation (input) PTP_PROPGETSET_GETONLY :: u8 where "PTP_PROPGETSET_GETONLY \<equiv> 0"
abbreviation (input) PTP_PROPGETSET_GETSET :: u8 where "PTP_PROPGETSET_GETSET \<equiv> 1"
abbreviation (input) NUM_OBJECT_PROP_DESC_DEFAULT :: nat where "NUM_OBJECT_PROP_DESC_DEFAULT \<equiv> 13"

definition get_oma_drm_status :: bool where
  "get_oma_drm_status = True"

text \<open>The static table is zero before it is built.\<close>

definition zero_desc :: obj_prop_desc where
  "zero_desc =
     \<lparr>propinfo = \<lparr>prop_code = 0, data_type = 0, dts_size = 0, get_set = 0, form_flag = 0,
                  range = \<lparr>min_val = 0, max_val = 0, step_size = 0\<rparr>, supp_value_list = [],
                  default_val = PvInt (replicate 16 0)\<rparr>,
      group_code = 0, reg_exp = None, max_len = 0\<rparr>"

definition int_prop :: "u16 \<Rightarrow> u16 \<Rightarrow> u8 \<Rightarrow> u8 \<Rightarrow> u32 list \<Rightarrow> u8 list \<Rightarrow> obj_prop_desc option" where
  "int_prop c dt gs ff supps dflt =
     (let p = init_obj_prop_desc zero_desc c dt gs ff GROUP_CODE_OFTEN_USED;
          pi = foldl (\<lambda>q v. fst (prop_add_supp_integer_val q v)) (propinfo p) supps
      in do { (pi', _) \<leftarrow> prop_set_default_integer pi dflt; Some (p\<lparr>propinfo := pi'\<rparr>) })"

definition string_prop :: "u16 list \<Rightarrow> u16 \<Rightarrow> u8 \<Rightarrow> u8 \<Rightarrow> u16 list \<Rightarrow> obj_prop_desc option" where
  "string_prop junk c gs ff temp =
     (let p = init_obj_prop_desc zero_desc c PTP_DATATYPE_STRING gs ff GROUP_CODE_OFTEN_USED
      in do { (pi', _) \<leftarrow> prop_set_default_string junk (propinfo p) temp; Some (p\<lparr>propinfo := pi'\<rparr>) })"

definition esc :: "char \<Rightarrow> string" where
  "esc c = [CHR 0x5C, c]"

definition filename_class :: string where
  "filename_class = ''[a-zA-Z!#'' @ esc (CHR ''$'') @ ''%&`'' @ esc (CHR ''('') @ esc (CHR '')'') @ esc (CHR ''-'')
     @ ''0-9@'' @ esc (CHR ''^'') @ ''_'' @ esc (CHR 0x27) @ esc (CHR ''{'') @ esc (CHR ''}'')
     @ esc (CHR ''~'') @ '']''"

definition filename_regexp :: string where
  "filename_regexp = filename_class @ ''{1,8}'' @ esc (CHR ''.'') @ ''['' @ filename_class @ ''{1,3}]''"

text \<open>
  _prop_build_supp_props_default, in the order of the table.  The wide buffer
  temp of 129 units first holds the regular expression and then the empty
  string; conv is g_utf8_to_utf16.
\<close>

definition filename_prop :: "(string \<Rightarrow> u16 list option) \<Rightarrow> u16 list \<Rightarrow> (obj_prop_desc \<times> u16 list) option" where
  "filename_prop conv junk = do {
     (temp, _) \<leftarrow> util_utf8_to_utf16 conv True (replicate 129 0) 129 filename_regexp;
     (p, _) \<leftarrow> prop_set_regexp junk
        (init_obj_prop_desc zero_desc MTP_OBJ_PROPERTYCODE_OBJECTFILENAME PTP_DATATYPE_STRING
           PTP_PROPGETSET_GETSET REGULAR_EXPRESSION_FORM GROUP_CODE_OFTEN_USED) temp;
     (temp', _) \<leftarrow> util_utf8_to_utf16 conv True temp 129 [];
     (pi', _) \<leftarrow> prop_set_default_string junk (propinfo p) temp';
     Some (p\<lparr>propinfo := pi'\<rparr>, temp') }"

definition prop_build_supp_props_default ::
    "(string \<Rightarrow> u16 list option) \<Rightarrow> u16 list \<Rightarrow> obj_prop_desc list option" where
  "prop_build_supp_props_default conv junk = do {
     p1 \<leftarrow> int_prop MTP_OBJ_PROPERTYCODE_STORAGEID PTP_DATATYPE_UINT32 PTP_PROPGETSET_GETONLY FORM_NONE
             [] (le_bytes 4 (0 :: u32));
     p2 \<leftarrow> int_prop MTP_OBJ_PROPERTYCODE_OBJECTFORMAT PTP_DATATYPE_UINT16 PTP_PROPGETSET_GETONLY FORM_NONE
             [] (le_bytes 4 (ucast PTP_FMT_ASSOCIATION :: u32));
     p3 \<leftarrow> int_prop MTP_OBJ_PROPERTYCODE_PROTECTIONSTATUS PTP_DATATYPE_UINT16 PTP_PROPGETSET_GETONLY ENUM_FORM
             [0x0000, 0x0001, 0x8002, 0x8003] (le_bytes 4 (0 :: u32));
     let p4 = init_obj_prop_desc zero_desc MTP_OBJ_PROPERTYCODE_OBJECTSIZE PTP_DATATYPE_UINT64
             PTP_PROPGETSET_GETONLY FORM_NONE GROUP_CODE_OFTEN_USED;
     let p4' = p4\<lparr>propinfo := fst (prop_add_supp_integer_val (propinfo p4) 0)\<rparr>;
     (p5, temp) \<leftarrow> filename_prop conv junk;
     p6 \<leftarrow> int_prop MTP_OBJ_PROPERTYCODE_PARENT PTP_DATATYPE_UINT32 PTP_PROPGETSET_GETONLY FORM_NONE
             [] (le_bytes 4 (0 :: u32));
     p7 \<leftarrow> int_prop MTP_OBJ_PROPERTYCODE_PERSISTENTGUID PTP_DATATYPE_UINT128 PTP_PROPGETSET_GETONLY FORM_NONE
             [] (replicate 16 0);
     p8 \<leftarrow> int_prop MTP_OBJ_PROPERTYCODE_NONCONSUMABLE PTP_DATATYPE_UINT8 PTP_PROPGETSET_GETONLY ENUM_FORM
             [0, 1] (le_bytes 4 (0 :: u32));
     p9 \<leftarrow> string_prop junk MTP_OBJ_PROPERTYCODE_DATEMODIFIED PTP_PROPGETSET_GETONLY DATE_TIME_FORM temp;
     p10 \<leftarrow> string_prop junk MTP_OBJ_PROPERTYCODE_DATECREATED PTP_PROPGETSET_GETONLY DATE_TIME_FORM temp;
     p11 \<leftarrow> string_prop junk MTP_OBJ_PROPERTYCODE_NAME PTP_PROPGETSET_GETONLY FORM_NONE temp;
     p12 \<leftarrow> int_prop MTP_OBJ_PROPERTYCODE_ASSOCIATIONTYPE PTP_DATATYPE_UINT16 PTP_PROPGETSET_GETSET ENUM_FORM
             [0, 1] (le_bytes 4 (0 :: u32));
     p13 \<leftarrow> int_prop MTP_OBJ_PROPERTYCODE_OMADRMSTATUS PTP_DATATYPE_UINT8 PTP_PROPGETSET_GETONLY ENUM_FORM
             [0, 1] (le_bytes 4 (0 :: u32));
     Some ([p1, p2, p3, p4', p5, p6, p7, p8, p9, p10, p11, p12]
           @ (if get_oma_drm_status then [p13] else [])) }"

definition prop_get_obj_prop_desc :: "obj_prop_desc list \<Rightarrow> u32 \<Rightarrow> obj_prop_desc option" where
  "prop_get_obj_prop_desc props propcode =
     find (\<lambda>p. ucast (prop_code (propinfo p)) = propcode)
       (take (if get_oma_drm_status then NUM_OBJECT_PROP_DESC_DEFAULT
              else NUM_OBJECT_PROP_DESC_DEFAULT - 1) props)"

fun append_codes :: "ptp_array \<Rightarrow> obj_prop_desc list \<Rightarrow> ptp_array option" where
  "append_codes a [] = Some a"
| "append_codes a (p # ps) = do {
     (a', _) \<leftarrow> prop_append_ele_ptparray a (ucast (prop_code (propinfo p)));
     append_codes a' ps }"

definition prop_get_supp_obj_props :: "obj_prop_desc list \<Rightarrow> ptp_array \<Rightarrow> (ptp_array \<times> u32) option" where
  "prop_get_supp_obj_props props a = do {
     a' \<leftarrow> append_codes a (take (if get_oma_drm_status then NUM_OBJECT_PROP_DESC_DEFAULT
                              else NUM_OBJECT_PROP_DESC_DEFAULT - 1) props);
     Some (a', num_ele a') }"

text \<open>The codes of the table, in order.\<close>

definition supported_prop_codes :: "u16 list" where
  "supported_prop_codes =
     [MTP_OBJ_PROPERTYCODE_STORAGEID, MTP_OBJ_PROPERTYCODE_OBJECTFORMAT, MTP_OBJ_PROPERTYCODE_PROTECTIONSTATUS,
      MTP_OBJ_PROPERTYCODE_OBJECTSIZE, MTP_OBJ_PROPERTYCODE_OBJECTFILENAME, MTP_OBJ_PROPERTYCODE_PARENT,
      MTP_OBJ_PROPERTYCODE_PERSISTENTGUID, MTP_OBJ_PROPERTYCODE_NONCONSUMABLE, MTP_OBJ_PROPERTYCODE_DATEMODIFIED,
      MTP_OBJ_PROPERTYCODE_DATECREATED, MTP_OBJ_PROPERTYCODE_NAME, MTP_OBJ_PROPERTYCODE_ASSOCIATIONTYPE,
      MTP_OBJ_PROPERTYCODE_OMADRMSTATUS]"

lemma int_prop_ok:
  assumes "is_value_type dt" "\<not> is_array_type dt" "dt \<noteq> PTP_DATATYPE_STRING" "ff = FORM_NONE \<or> ff = ENUM_FORM"
    and "unat (type_size dt) \<le> length dflt" "unat (type_size dt) \<le> 16"
    and "supps \<noteq> [] \<Longrightarrow> unat (type_size dt) \<le> 4" "length supps < 2 ^ 16"
  shows "\<exists>p. int_prop c dt gs ff supps dflt = Some p \<and> desc_ok p \<and> prop_code (propinfo p) = c"
proof -
  define p where "p = init_obj_prop_desc zero_desc c dt gs ff GROUP_CODE_OFTEN_USED"
  have pi: "propinfo p = (propinfo zero_desc)\<lparr>prop_code := c, data_type := dt, get_set := gs,
      default_val := PvInt (replicate 16 0), form_flag := ff, dts_size := type_size dt, supp_value_list := []\<rparr>"
    "reg_exp p = None"
    using assms(2-4) by (auto simp: p_def init_obj_prop_desc_def zero_value_def)
  define pi' where "pi' = foldl (\<lambda>q v. fst (prop_add_supp_integer_val q v)) (propinfo p) supps"
  have fold: "foldl (\<lambda>q v. fst (prop_add_supp_integer_val q v)) q vs =
      q\<lparr>supp_value_list := supp_value_list q @ (if form_flag q = ENUM_FORM then map SvInt vs else [])\<rparr>"
    if "is_value_type (data_type q)" for q vs
    using that by (induction vs arbitrary: q) (auto simp: prop_add_supp_integer_val_def)
  have pi': "pi' = (propinfo p)\<lparr>supp_value_list := (if ff = ENUM_FORM then map SvInt supps else [])\<rparr>"
    using assms(1) by (simp add: pi'_def fold pi)
  let ?v = "PvInt (take (unat (type_size dt)) dflt @ drop (unat (type_size dt)) (replicate 16 0))"
  have "prop_set_default_integer pi' dflt = Some (pi'\<lparr>default_val := ?v\<rparr>, True)"
    using assms(1,5,6) by (simp add: prop_set_default_integer_def int_write_def over_write_def pi' pi min_def)
  then have run: "int_prop c dt gs ff supps dflt = Some (p\<lparr>propinfo := pi'\<lparr>default_val := ?v\<rparr>\<rparr>)"
    by (simp add: int_prop_def Let_def flip: p_def pi'_def)
  moreover have "supps \<noteq> [] \<longrightarrow> unat (type_size dt) \<le> 4" using assms(7) by blast
  then have "desc_ok (p\<lparr>propinfo := pi'\<lparr>default_val := ?v\<rparr>\<rparr>)"
    using assms(1-6,8) by (auto simp: desc_ok_def value_ok_def pi' pi supp_ok_def list_all_iff)
  ultimately show ?thesis by (simp add: pi' pi)
qed

lemma copy_empty_wchar:
  "prop_copy_wchar_to_ptpstring s (Some (0 # r)) = Some (s\<lparr>num_chars := 0\<rparr>)"
  using scan_wstr_spec[of "[]" 255 r] by (simp add: prop_copy_wchar_to_ptpstring_def)

lemma string_prop_ok:
  assumes "length junk = 255" "ff = FORM_NONE \<or> ff = DATE_TIME_FORM"
  shows "\<exists>p. string_prop junk c gs ff (0 # r) = Some p \<and> desc_ok p \<and> prop_code (propinfo p) = c"
  using assms
  by (auto simp: string_prop_def init_obj_prop_desc_def zero_value_def prop_set_default_string_def
      copy_empty_wchar alloc_ptpstring_def desc_ok_def value_ok_def ptpstring_inv_def zero_desc_def)

lemma filename_regexp_ascii:
  "\<forall>c\<in>set filename_regexp. 0 < (of_char c :: nat) \<and> (of_char c :: nat) < 128"
  by (simp add: filename_regexp_def filename_class_def esc_def)

lemma filename_regexp_length: "length filename_regexp = 86" "filename_regexp \<noteq> []"
  by (simp_all add: filename_regexp_def filename_class_def esc_def)

lemma filename_prop_ok:
  assumes "length junk = 255" "ascii_conv conv"
  shows "\<exists>p r. filename_prop conv junk = Some (p, 0 # r) \<and> desc_ok p
     \<and> prop_code (propinfo p) = MTP_OBJ_PROPERTYCODE_OBJECTFILENAME"
proof -
  let ?ws = "map wchar_of filename_regexp"
  note c = ascii_conv_Some[OF assms(2) filename_regexp_ascii]
  have "util_utf8_to_utf16 conv True (replicate 129 0) 129 filename_regexp
      = Some (?ws @ replicate (129 - length ?ws) 0 @ drop 129 (replicate 129 0), length ?ws)"
    using c filename_regexp_length(1) by (intro utf8_to_utf16_fits) simp_all
  then have t: "util_utf8_to_utf16 conv True (replicate 129 0) 129 filename_regexp
      = Some (?ws @ 0 # replicate 42 0, 86)"
    using filename_regexp_length(1) by (simp flip: replicate_Suc)
  have "conv [] = Some []" using ascii_conv_Some(1)[OF assms(2), of "[]"] by simp
  then have "util_utf8_to_utf16 conv True (?ws @ 0 # replicate 42 0) 129 []
      = Some ([] @ replicate (129 - length ([] :: u16 list)) 0 @ drop 129 (?ws @ 0 # replicate 42 0),
              length ([] :: u16 list))"
    using filename_regexp_length(1)
    by (intro utf8_to_utf16_fits[of conv "[]" "[]" 129]) simp_all
  then have e: "util_utf8_to_utf16 conv True (?ws @ 0 # replicate 42 0) 129 [] = Some (0 # replicate 128 0, 0)"
    using filename_regexp_length(1) by (simp flip: replicate_Suc)
  let ?a = "alloc_ptpstring junk"
  have al: "length (str ?a) = 255" using assms(1) by (simp add: alloc_ptpstring_def)
  obtain s where s: "prop_copy_wchar_to_ptpstring ?a (Some (?ws @ 0 # replicate 42 0)) = Some s" "ptpstring_inv s"
  proof -
    have "scan_wstr 255 (?ws @ 0 # replicate 42 0) = Some (take 255 ?ws)"
      using c(2) by (rule scan_wstr_spec)
    moreover have "take 255 ?ws = ?ws" "?ws \<noteq> []"
      using filename_regexp_length by simp_all
    moreover obtain s where "copy_char_finish ?a ?ws = Some s" "ptpstring_inv s"
      using copy_char_finish_spec[OF al, of ?ws] filename_regexp_length by auto
    ultimately show thesis using that by (auto simp: prop_copy_wchar_to_ptpstring_def)
  qed
  note z = copy_empty_wchar[of ?a]
  show ?thesis
    using t e s z al
    by (simp add: filename_prop_def prop_set_regexp_def init_obj_prop_desc_def zero_value_def
        prop_set_default_string_def desc_ok_def value_ok_def ptpstring_inv_def zero_desc_def Let_def)
qed

lemma build_table_ok:
  assumes "length junk = 255" "ascii_conv conv"
  shows "\<exists>props. prop_build_supp_props_default conv junk = Some props \<and> list_all desc_ok props
     \<and> map (\<lambda>p. prop_code (propinfo p)) props = supported_prop_codes"
proof -
  have int: "\<exists>p. int_prop c dt gs ff supps dflt = Some p \<and> desc_ok p \<and> prop_code (propinfo p) = c"
    if "dt \<in> {PTP_DATATYPE_UINT8, PTP_DATATYPE_UINT16, PTP_DATATYPE_UINT32}" "ff = FORM_NONE \<or> ff = ENUM_FORM"
      "length dflt = 4" "length supps < 2 ^ 16" for c dt gs ff supps dflt
    using that by (intro int_prop_ok) (auto simp: type_size_def)
  have guid: "\<exists>p. int_prop c PTP_DATATYPE_UINT128 gs FORM_NONE [] (replicate 16 0) = Some p \<and> desc_ok p
      \<and> prop_code (propinfo p) = c" for c gs
    by (intro int_prop_ok) (auto simp: type_size_def)
  define p4 where "p4 = init_obj_prop_desc zero_desc MTP_OBJ_PROPERTYCODE_OBJECTSIZE PTP_DATATYPE_UINT64
      PTP_PROPGETSET_GETONLY FORM_NONE GROUP_CODE_OFTEN_USED"
  have p4: "desc_ok (p4\<lparr>propinfo := fst (prop_add_supp_integer_val (propinfo p4) 0)\<rparr>)"
    "prop_code (fst (prop_add_supp_integer_val (propinfo p4) 0)) = MTP_OBJ_PROPERTYCODE_OBJECTSIZE"
    by (simp_all add: p4_def init_obj_prop_desc_def zero_value_def prop_add_supp_integer_val_def
        desc_ok_def value_ok_def zero_desc_def type_size_def)
  have str: "\<exists>p. string_prop junk c gs ff (0 # r) = Some p \<and> desc_ok p \<and> prop_code (propinfo p) = c"
    if "ff = FORM_NONE \<or> ff = DATE_TIME_FORM" for c gs ff r
    using assms(1) that by (rule string_prop_ok)
  obtain p5 r where p5: "filename_prop conv junk = Some (p5, 0 # r)" "desc_ok p5"
    "prop_code (propinfo p5) = MTP_OBJ_PROPERTYCODE_OBJECTFILENAME"
    using filename_prop_ok[OF assms] by blast
  note ints = int[of PTP_DATATYPE_UINT32 FORM_NONE "le_bytes 4 (0 :: u32)" "[]" MTP_OBJ_PROPERTYCODE_STORAGEID 0]
    int[of PTP_DATATYPE_UINT16 FORM_NONE "le_bytes 4 (ucast PTP_FMT_ASSOCIATION :: u32)" "[]" MTP_OBJ_PROPERTYCODE_OBJECTFORMAT 0]
    int[of PTP_DATATYPE_UINT16 ENUM_FORM "le_bytes 4 (0 :: u32)" "[0x0000, 0x0001, 0x8002, 0x8003]" MTP_OBJ_PROPERTYCODE_PROTECTIONSTATUS 0]
    int[of PTP_DATATYPE_UINT32 FORM_NONE "le_bytes 4 (0 :: u32)" "[]" MTP_OBJ_PROPERTYCODE_PARENT 0]
    int[of PTP_DATATYPE_UINT8 ENUM_FORM "le_bytes 4 (0 :: u32)" "[0, 1]" MTP_OBJ_PROPERTYCODE_NONCONSUMABLE 0]
    int[of PTP_DATATYPE_UINT16 ENUM_FORM "le_bytes 4 (0 :: u32)" "[0, 1]" MTP_OBJ_PROPERTYCODE_ASSOCIATIONTYPE 1]
    int[of PTP_DATATYPE_UINT8 ENUM_FORM "le_bytes 4 (0 :: u32)" "[0, 1]" MTP_OBJ_PROPERTYCODE_OMADRMSTATUS 0]
    guid[of MTP_OBJ_PROPERTYCODE_PERSISTENTGUID 0]
    str[of DATE_TIME_FORM MTP_OBJ_PROPERTYCODE_DATEMODIFIED 0 r]
    str[of DATE_TIME_FORM MTP_OBJ_PROPERTYCODE_DATECREATED 0 r]
    str[of FORM_NONE MTP_OBJ_PROPERTYCODE_NAME 0 r]
  show ?thesis
    using ints p5 p4
    by (auto simp: prop_build_supp_props_default_def supported_prop_codes_def get_oma_drm_status_def p4_def Let_def)
qed

section \<open>Property values and property lists\<close>

definition check_object_propcode :: "obj_prop_desc \<Rightarrow> u32 \<Rightarrow> u32 \<Rightarrow> bool" where
  "check_object_propcode p propcode gcode =
     (ucast (prop_code (propinfo p)) = propcode
      \<or> (propcode = PTP_PROPERTY_ALL \<and> group_code p AND GROUP_CODE_SLOW = 0)
      \<or> (propcode = PTP_PROPERTY_UNDEFINED \<and> group_code p AND gcode \<noteq> 0))"

text \<open>
  A fresh value starts with the default of its description; a missing default
  string or array is dereferenced (None).
\<close>

definition prop_alloc_obj_propval :: "u16 list \<Rightarrow> obj_prop_desc \<Rightarrow> obj_prop_val option" where
  "prop_alloc_obj_propval junk p =
     (let t = data_type (propinfo p)
      in if t = PTP_DATATYPE_STRING then
           (case default_val (propinfo p) of
              PvStr (Some d) \<Rightarrow> do {
                s \<leftarrow> prop_copy_ptpstring (alloc_ptpstring junk) d;
                Some \<lparr>pv_prop = p, current_val = PvStr (Some s)\<rparr> }
            | _ \<Rightarrow> None)
         else if is_value_type t then
           (case default_val (propinfo p) of
              PvInt d \<Rightarrow> do {
                v \<leftarrow> int_write (PvInt (replicate 16 0)) d (dts_size (propinfo p));
                Some \<lparr>pv_prop = p, current_val = v\<rparr> }
            | _ \<Rightarrow> None)
         else (case array_type_of t of
                 Some at \<Rightarrow>
                   (case default_val (propinfo p) of
                      PvArr (Some d) \<Rightarrow> do {
                        (a, _) \<leftarrow> prop_copy_ptparray (prop_alloc_ptparray at) d;
                        Some \<lparr>pv_prop = p, current_val = PvArr (Some a)\<rparr> }
                    | _ \<Rightarrow> None)
               | None \<Rightarrow> Some \<lparr>pv_prop = p, current_val = zero_value t\<rparr>))"

record prop_quad =
  q_handle :: u32
  q_code :: u16
  q_type :: u16
  q_val :: prop_value
  q_size :: u32

definition quad_size :: "u16 \<Rightarrow> prop_value \<Rightarrow> u32 option" where
  "quad_size t v =
     (if t \<in> {PTP_DATATYPE_UINT8, PTP_DATATYPE_INT8} then Some 1
      else if t \<in> {PTP_DATATYPE_UINT16, PTP_DATATYPE_INT16} then Some 2
      else if t \<in> {PTP_DATATYPE_UINT32, PTP_DATATYPE_INT32} then Some 4
      else if t \<in> {PTP_DATATYPE_UINT64, PTP_DATATYPE_INT64} then Some 8
      else if t \<in> {PTP_DATATYPE_UINT128, PTP_DATATYPE_INT128} then Some 16
      else if array_type_of t \<noteq> None then
        (case v of PvArr (Some a) \<Rightarrow> Some (prop_get_size_ptparray a) | PvArr None \<Rightarrow> Some 0 | _ \<Rightarrow> None)
      else if t = PTP_DATATYPE_STRING then
        (case v of PvStr (Some s) \<Rightarrow> Some (prop_size_ptpstring (Some s)) | PvStr None \<Rightarrow> Some 1 | _ \<Rightarrow> None)
      else Some 0)"

definition append_obj_proplist :: "prop_quad list \<Rightarrow> u32 \<Rightarrow> u16 \<Rightarrow> u16 \<Rightarrow> prop_value \<Rightarrow> prop_quad list option" where
  "append_obj_proplist quads h c t v = do {
     n \<leftarrow> quad_size t v;
     Some (quads @ [\<lparr>q_handle = h, q_code = c, q_type = t, q_val = v, q_size = n\<rparr>]) }"

text \<open>The loop of _prop_get_obj_proplist over the values of one object.\<close>

fun obj_proplist_loop :: "u32 \<Rightarrow> u32 \<Rightarrow> u32 \<Rightarrow> obj_prop_val list \<Rightarrow> prop_quad list \<Rightarrow> prop_quad list option" where
  "obj_proplist_loop h propcode gcode [] quads = Some quads"
| "obj_proplist_loop h propcode gcode (pv # pvs) quads =
     (if check_object_propcode (pv_prop pv) propcode gcode then do {
        qs \<leftarrow> append_obj_proplist quads h (prop_code (propinfo (pv_prop pv)))
                (data_type (propinfo (pv_prop pv))) (current_val pv);
        obj_proplist_loop h propcode gcode pvs qs }
      else obj_proplist_loop h propcode gcode pvs quads)"

section \<open>Interdependent properties\<close>

record interdep_prop_config =
  cfg_format_code :: u32
  propdesc_list :: "obj_prop_desc list"

text \<open>
  The loops count the nodes of a list but never advance the node pointer, so
  every iteration uses the first element.
\<close>

fun first_n_times :: "nat \<Rightarrow> 'a list \<Rightarrow> 'a list" where
  "first_n_times n [] = []"
| "first_n_times n (x # xs) = replicate n x"

definition stuck_iteration :: "'a list \<Rightarrow> 'a list" where
  "stuck_iteration xs = first_n_times (length xs) xs"

definition prop_get_size_interdep_prop :: "interdep_prop_config \<Rightarrow> u32 option" where
  "prop_get_size_interdep_prop c = do {
     ss \<leftarrow> those (map prop_size_obj_prop_desc (stuck_iteration (propdesc_list c)));
     Some (4 + sum_list ss) }"

definition pk_desc :: "obj_prop_desc \<Rightarrow> packer" where
  "pk_desc p = do {
     n \<leftarrow> prop_size_obj_prop_desc p;
     (bs, _) \<leftarrow> prop_pack_obj_prop_desc p n;
     Some (bs @ replicate (unat n - length bs) 0, True) }"

definition prop_pack_interdep_prop :: "interdep_prop_config \<Rightarrow> u32 \<Rightarrow> (u8 list \<times> u32) option" where
  "prop_pack_interdep_prop c sz = do {
     need \<leftarrow> prop_get_size_interdep_prop c;
     if sz < need then Some ([], 0)
     else pk_run (pk_then (pk_bytes (le_bytes 4 (of_nat (length (propdesc_list c)) :: u32)))
                    (pk_seq (map pk_desc (stuck_iteration (propdesc_list c))))) }"

definition cfg_matches :: "u32 \<Rightarrow> interdep_prop_config \<Rightarrow> bool" where
  "cfg_matches fmt c = (cfg_format_code c = fmt \<or> cfg_format_code c = PTP_FORMATCODE_NOTUSED)"

definition count_interdep_proplist :: "interdep_prop_config list \<Rightarrow> u32 \<Rightarrow> u32" where
  "count_interdep_proplist cs fmt = of_nat (length (filter (cfg_matches fmt) (stuck_iteration cs)))"

definition prop_get_size_interdep_proplist :: "interdep_prop_config list \<Rightarrow> u32 \<Rightarrow> u32 option" where
  "prop_get_size_interdep_proplist cs fmt = do {
     ss \<leftarrow> those (map prop_get_size_interdep_prop (filter (cfg_matches fmt) (stuck_iteration cs)));
     Some (4 + sum_list ss) }"

definition pk_config :: "interdep_prop_config \<Rightarrow> packer" where
  "pk_config c = do {
     n \<leftarrow> prop_get_size_interdep_prop c;
     (bs, _) \<leftarrow> prop_pack_interdep_prop c n;
     Some (bs @ replicate (unat n - length bs) 0, True) }"

definition prop_pack_interdep_proplist :: "interdep_prop_config list \<Rightarrow> u32 \<Rightarrow> u32 \<Rightarrow> (u8 list \<times> u32) option" where
  "prop_pack_interdep_proplist cs fmt sz = do {
     need \<leftarrow> prop_get_size_interdep_proplist cs fmt;
     if sz < need then Some ([], 0)
     else pk_run (pk_then (pk_bytes (le_bytes 4 (count_interdep_proplist cs fmt)))
                    (pk_seq (map pk_config (filter (cfg_matches fmt) (stuck_iteration cs))))) }"

section \<open>Properties\<close>

text \<open>Packing a well-formed property description never leaves a source field, writes exactly
  the number of bytes computed beforehand by the size function, and returns that count; a
  smaller buffer is left untouched and zero is returned.\<close>

lemma pack_obj_prop_desc_exact:
  assumes "desc_ok p"
  shows "\<exists>need bs. prop_size_obj_prop_desc p = Some need \<and> length bs = unat need
     \<and> prop_pack_obj_prop_desc p sz = (if sz < need then Some ([], 0) else Some (bs, need))"
proof -
  from pack_desc_ok[OF assms] obtain bs need where *: "prop_size_obj_prop_desc p = Some need"
    "length bs = unat need" "\<forall>sz. need \<le> sz \<longrightarrow> prop_pack_obj_prop_desc p sz = Some (bs, need)" by blast
  then show ?thesis
    by (intro exI[of _ need] exI[of _ bs]) (auto simp: prop_pack_obj_prop_desc_def)
qed

lemma pack_obj_prop_desc_exact_witness:
  "\<exists>need bs. prop_size_obj_prop_desc (zero_desc\<lparr>propinfo := (propinfo zero_desc)\<lparr>form_flag := RANGE_FORM, dts_size := 2\<rparr>\<rparr>) = Some need
     \<and> length bs = unat need
     \<and> prop_pack_obj_prop_desc (zero_desc\<lparr>propinfo := (propinfo zero_desc)\<lparr>form_flag := RANGE_FORM, dts_size := 2\<rparr>\<rparr>) 64 =
         (if 64 < need then Some ([], 0) else Some (bs, need))"
  by (rule pack_obj_prop_desc_exact) (simp add: desc_ok_def value_ok_def zero_desc_def)



text \<open>Setting an integer property succeeds exactly for the values its form allows; the stored
  bytes are the low dts_size bytes of the value and the rest of the union is unchanged, while a
  refused value leaves the property as it was.\<close>

lemma set_current_integer_val_spec:
  assumes "current_val pv = PvInt old" "length old = 16" "unat (dts_size (propinfo (pv_prop pv))) \<le> 8"
  shows "prop_set_current_integer_val pv v =
     (if prop_is_valid_integer (propinfo (pv_prop pv)) v
      then Some (pv\<lparr>current_val := PvInt (le_bytes (unat (dts_size (propinfo (pv_prop pv)))) v
                       @ drop (unat (dts_size (propinfo (pv_prop pv)))) old)\<rparr>, True)
      else Some (pv, False))"
proof -
  have take: "take n (le_bytes m w) = le_bytes n w" if "n \<le> m" for n m and w :: u64
    using that
  proof (induction m arbitrary: n w)
    case (Suc m)
    then show ?case by (cases n) simp_all
  qed simp
  show ?thesis
    using assms by (simp add: prop_set_current_integer_val_def int_write_def over_write_def take Let_def)
qed

lemma set_current_integer_val_spec_witness:
  "prop_set_current_integer_val \<lparr>pv_prop = zero_desc\<lparr>propinfo := (propinfo zero_desc)\<lparr>dts_size := 2\<rparr>\<rparr>, current_val = PvInt (replicate 16 9)\<rparr> 0x1234 =
     (if prop_is_valid_integer (propinfo (pv_prop \<lparr>pv_prop = zero_desc\<lparr>propinfo := (propinfo zero_desc)\<lparr>dts_size := 2\<rparr>\<rparr>, current_val = PvInt (replicate 16 9)\<rparr>)) 0x1234
      then Some (\<lparr>pv_prop = zero_desc\<lparr>propinfo := (propinfo zero_desc)\<lparr>dts_size := 2\<rparr>\<rparr>, current_val = PvInt (le_bytes 2 (0x1234 :: u64)
                       @ drop 2 (replicate 16 9))\<rparr>, True)
      else Some (\<lparr>pv_prop = zero_desc\<lparr>propinfo := (propinfo zero_desc)\<lparr>dts_size := 2\<rparr>\<rparr>, current_val = PvInt (replicate 16 9)\<rparr>, False))"
  using set_current_integer_val_spec[where old = "replicate 16 9" and v = "0x1234"
      and pv = "\<lparr>pv_prop = zero_desc\<lparr>propinfo := (propinfo zero_desc)\<lparr>dts_size := 2\<rparr>\<rparr>, current_val = PvInt (replicate 16 9)\<rparr>"]
  by simp

end
