(* ===== verification/Transport.thy ===== *)
theory Transport
  imports Codes
begin

text \<open>
  The outgoing side of src/transport/mtp_transport.c and the message queue of
  src/util/mtp_msgq.c.  A queue is the list of the packets sent and not yet
  received.  msgsnd can fail; whether it does is a parameter.  A configured
  packet size of zero makes the splitting loop of the data path run forever,
  which is None.
\<close>

section \<open>Message queue\<close>

datatype msg_type =
  MTP_DATA_PACKET | MTP_BULK_PACKET | MTP_EVENT_PACKET | MTP_ZLP_PACKET | MTP_UNDEFINED_PACKET

record msgq_ptr =
  mtype :: msg_type
  msg_length :: u32
  signal :: u32
  msg_buffer :: "u8 list"

type_synonym msgq = "msgq_ptr list"
type_synonym msgsnd = "msgq \<Rightarrow> msgq_ptr \<Rightarrow> bool"

definition util_msgq_send :: "msgsnd \<Rightarrow> msgq \<Rightarrow> msgq_ptr \<Rightarrow> msgq \<times> bool" where
  "util_msgq_send snd_ok q pkt = (if snd_ok q pkt then (q @ [pkt], True) else (q, False))"

text \<open>A blocking receive on an empty queue does not return.\<close>

definition util_rcv_msg_from_mq :: "msgq \<Rightarrow> (msgq \<times> u8 list \<times> u32 \<times> msg_type) option" where
  "util_rcv_msg_from_mq q =
     (case q of [] \<Rightarrow> None | m # q' \<Rightarrow> Some (q', msg_buffer m, msg_length m, mtype m))"

section \<open>Sending\<close>

definition mk_pkt :: "msg_type \<Rightarrow> u8 list \<Rightarrow> msgq_ptr" where
  "mk_pkt t bs = \<lparr>mtype = t, msg_length = of_nat (length bs), signal = 0, msg_buffer = bs\<rparr>"

text \<open>
  buf is the memory behind the pointer; reading more than it holds is None.
\<close>

function send_pkt_loop :: "msgsnd \<Rightarrow> nat \<Rightarrow> msgq \<Rightarrow> u8 list \<Rightarrow> nat \<Rightarrow> (msgq \<times> bool) option" where
  "send_pkt_loop snd_ok tx_size q temp len =
     (if len = 0 then Some (q, True)
      else if tx_size = 0 then None
      else (let sent_len = (if len < tx_size then len else tx_size)
            in if length temp < sent_len then None
               else (case util_msgq_send snd_ok q (mk_pkt MTP_DATA_PACKET (take sent_len temp)) of
                       (q', False) \<Rightarrow> Some (q', False)
                     | (q', True) \<Rightarrow>
                         send_pkt_loop snd_ok tx_size q' (drop sent_len temp) (len - sent_len))))"
  by pat_completeness auto
termination
  by (relation "measure (\<lambda>(s, t, q, b, len). len)") (auto split: if_splits)

declare send_pkt_loop.simps [simp del]

definition transport_send_pkt_to_tx_mq ::
    "msgsnd \<Rightarrow> u32 \<Rightarrow> msgq \<Rightarrow> u8 list \<Rightarrow> u32 \<Rightarrow> (msgq \<times> u32) option" where
  "transport_send_pkt_to_tx_mq snd_ok tx_size q buf pkt_len =
     (if pkt_len = 0 then Some (q, 0)
      else do {
        (q', ok) \<leftarrow> send_pkt_loop snd_ok (unat tx_size) q buf (unat pkt_len);
        Some (q', if ok then pkt_len else 0) })"

text \<open>
  The bulk path compares before it splits, so with a packet size of zero it
  loops as well.
\<close>

function send_bulk_loop ::
    "msgsnd \<Rightarrow> nat \<Rightarrow> msgq \<Rightarrow> u8 list \<Rightarrow> nat \<Rightarrow> nat \<Rightarrow> (msgq \<times> nat) option" where
  "send_bulk_loop snd_ok tx_size q buf sent len =
     (if tx_size < len then
        (if tx_size = 0 \<or> length buf < sent + tx_size then None
         else (case util_msgq_send snd_ok q (mk_pkt MTP_BULK_PACKET (take tx_size (drop sent buf))) of
                 (q', False) \<Rightarrow> Some (q', 0)
               | (q', True) \<Rightarrow> send_bulk_loop snd_ok tx_size q' buf (sent + tx_size) (len - tx_size)))
      else if length buf < sent + len then None
      else (case util_msgq_send snd_ok q (mk_pkt MTP_BULK_PACKET (take len (drop sent buf))) of
              (q', False) \<Rightarrow> Some (q', 0)
            | (q', True) \<Rightarrow> Some (q', sent + len)))"
  by pat_completeness auto
termination
  by (relation "measure (\<lambda>(s, t, q, b, sent, len). len)") auto

declare send_bulk_loop.simps [simp del]

definition transport_send_bulk_pkt_to_tx_mq ::
    "msgsnd \<Rightarrow> u32 \<Rightarrow> msgq \<Rightarrow> u8 list \<Rightarrow> u32 \<Rightarrow> (msgq \<times> u32) option" where
  "transport_send_bulk_pkt_to_tx_mq snd_ok tx_size q buf pkt_len =
     (if pkt_len = 0 then Some (q, 0)
      else do {
        (q', n) \<leftarrow> send_bulk_loop snd_ok (unat tx_size) q buf 0 (unat pkt_len);
        Some (q', of_nat n) })"

definition transport_send_event ::
    "msgsnd \<Rightarrow> u32 \<Rightarrow> msgq \<Rightarrow> u8 list \<Rightarrow> u32 \<Rightarrow> (msgq \<times> mtp_err \<times> u32 option) option" where
  "transport_send_event snd_ok tx_size q buf sz =
     (if tx_size < sz then Some (q, MTP_ERROR_INVALID_PARAM, None)
      else if length buf < unat sz then None
      else (case util_msgq_send snd_ok q (mk_pkt MTP_EVENT_PACKET (take (unat sz) buf)) of
              (q', False) \<Rightarrow> Some (q', MTP_ERROR_GENERAL, None)
            | (q', True) \<Rightarrow> Some (q', MTP_ERROR_NONE, Some sz)))"

definition transport_send_zlp :: "msgsnd \<Rightarrow> msgq \<Rightarrow> msgq" where
  "transport_send_zlp snd_ok q = fst (util_msgq_send snd_ok q (mk_pkt MTP_ZLP_PACKET []))"

section \<open>Facts\<close>

definition payload :: "msgq \<Rightarrow> u8 list" where
  "payload q = concat (map msg_buffer q)"

lemma payload_simps [simp]:
  "payload [] = []" "payload (q @ q') = payload q @ payload q'" "payload (m # q) = msg_buffer m @ payload q"
  by (simp_all add: payload_def)

lemma mk_pkt_sel [simp]: "msg_buffer (mk_pkt t bs) = bs" "mtype (mk_pkt t bs) = t"
  by (simp_all add: mk_pkt_def)

lemma send_pkt_loop_ok:
  assumes "\<And>q p. snd_ok q p" "0 < tx_size" "len \<le> length temp"
  shows "\<exists>ps. send_pkt_loop snd_ok tx_size q temp len = Some (q @ ps, True)
     \<and> payload ps = take len temp
     \<and> (\<forall>p\<in>set ps. mtype p = MTP_DATA_PACKET \<and> 0 < length (msg_buffer p) \<and> length (msg_buffer p) \<le> tx_size)"
  using assms(3)
proof (induction len arbitrary: q temp rule: less_induct)
  case (less len)
  show ?case
  proof (cases "len = 0")
    case True
    then show ?thesis by (simp add: send_pkt_loop.simps)
  next
    case False
    define k where "k = (if len < tx_size then len else tx_size)"
    have k: "0 < k" "k \<le> len" "k \<le> tx_size" "k \<le> length temp"
      using False assms(2) less.prems by (auto simp: k_def)
    let ?p = "mk_pkt MTP_DATA_PACKET (take k temp)"
    have "send_pkt_loop snd_ok tx_size q temp len
        = send_pkt_loop snd_ok tx_size (q @ [?p]) (drop k temp) (len - k)"
      using False assms k by (subst send_pkt_loop.simps) (simp add: k_def util_msgq_send_def Let_def)
    moreover have "len - k \<le> length (drop k temp)" using less.prems by (simp add: diff_le_mono)
    then obtain ps where "send_pkt_loop snd_ok tx_size (q @ [?p]) (drop k temp) (len - k)
          = Some ((q @ [?p]) @ ps, True)" "payload ps = take (len - k) (drop k temp)"
      "\<forall>p\<in>set ps. mtype p = MTP_DATA_PACKET \<and> 0 < length (msg_buffer p) \<and> length (msg_buffer p) \<le> tx_size"
      using less.IH[of "len - k" "drop k temp" "q @ [?p]"] k by auto
    moreover have "take k temp @ take (len - k) (drop k temp) = take len temp"
      using k(2) by (metis le_add_diff_inverse take_add)
    ultimately show ?thesis using k by (intro exI[of _ "?p # ps"]) auto
  qed
qed

lemma send_bulk_loop_ok:
  assumes "\<And>q p. snd_ok q p" "0 < tx_size" "sent + len \<le> length buf" "0 < len"
  shows "\<exists>ps. send_bulk_loop snd_ok tx_size q buf sent len = Some (q @ ps, sent + len)
     \<and> payload ps = take len (drop sent buf)
     \<and> (\<forall>p\<in>set ps. mtype p = MTP_BULK_PACKET \<and> 0 < length (msg_buffer p) \<and> length (msg_buffer p) \<le> tx_size)"
  using assms(3,4)
proof (induction len arbitrary: q sent rule: less_induct)
  case (less len)
  show ?case
  proof (cases "tx_size < len")
    case False
    then show ?thesis
      using assms(1) less.prems
      by (subst send_bulk_loop.simps) (auto simp: util_msgq_send_def)
  next
    case True
    let ?p = "mk_pkt MTP_BULK_PACKET (take tx_size (drop sent buf))"
    have "send_bulk_loop snd_ok tx_size q buf sent len
        = send_bulk_loop snd_ok tx_size (q @ [?p]) buf (sent + tx_size) (len - tx_size)"
      using True assms less.prems by (subst send_bulk_loop.simps) (simp add: util_msgq_send_def)
    moreover obtain ps where "send_bulk_loop snd_ok tx_size (q @ [?p]) buf (sent + tx_size) (len - tx_size)
          = Some ((q @ [?p]) @ ps, sent + tx_size + (len - tx_size))"
      "payload ps = take (len - tx_size) (drop (sent + tx_size) buf)"
      "\<forall>p\<in>set ps. mtype p = MTP_BULK_PACKET \<and> 0 < length (msg_buffer p) \<and> length (msg_buffer p) \<le> tx_size"
      using less.IH[of "len - tx_size" "sent + tx_size" "q @ [?p]"] True assms(2) less.prems by auto
    moreover have "take tx_size (drop sent buf) @ take (len - tx_size) (drop (sent + tx_size) buf)
        = take len (drop sent buf)"
      using True by (metis add.commute drop_drop le_add_diff_inverse less_imp_le take_add)
    ultimately show ?thesis
      using True assms(2) less.prems by (intro exI[of _ "?p # ps"]) auto
  qed
qed

section \<open>Properties\<close>

text \<open>splitting a buffer for the data queue terminates for every positive packet size; when
  the queue accepts its packets the buffer arrives complete and in order, cut into non-empty
  packets no larger than the configured size, and the whole length is reported as sent.\<close>

lemma send_pkt_delivers:
  assumes "\<And>q p. snd_ok q p" "0 < tx_size" "unat pkt_len \<le> length buf"
  shows "\<exists>ps. transport_send_pkt_to_tx_mq snd_ok tx_size q buf pkt_len = Some (q @ ps, pkt_len)
     \<and> payload ps = take (unat pkt_len) buf
     \<and> (\<forall>p\<in>set ps. mtype p = MTP_DATA_PACKET \<and> 0 < length (msg_buffer p)
                   \<and> length (msg_buffer p) \<le> unat tx_size)"
proof (cases "pkt_len = 0")
  case True
  then show ?thesis by (simp add: transport_send_pkt_to_tx_mq_def)
next
  case False
  have "0 < unat tx_size" using assms(2) by (simp add: word_less_nat_alt)
  from send_pkt_loop_ok[where snd_ok = snd_ok, OF assms(1) this assms(3), of q] False show ?thesis
    by (auto simp: transport_send_pkt_to_tx_mq_def)
qed

lemma send_pkt_delivers_witness:
  "\<exists>ps. transport_send_pkt_to_tx_mq (\<lambda>q p. True) 4 [] [1, 2, 3, 4, 5, 6] 6 = Some ([] @ ps, 6)
     \<and> payload ps = take (unat (6 :: u32)) [1, 2, 3, 4, 5, 6]
     \<and> (\<forall>p\<in>set ps. mtype p = MTP_DATA_PACKET \<and> 0 < length (msg_buffer p)
                   \<and> length (msg_buffer p) \<le> unat (4 :: u32))"
  by (rule send_pkt_delivers) simp_all

text \<open>the bulk path delivers the same bytes as the buffer, in packets of at most the
  configured size, and reports the number of bytes queued.\<close>

lemma send_bulk_delivers:
  assumes "\<And>q p. snd_ok q p" "0 < tx_size" "unat pkt_len \<le> length buf"
  shows "\<exists>ps. transport_send_bulk_pkt_to_tx_mq snd_ok tx_size q buf pkt_len = Some (q @ ps, pkt_len)
     \<and> payload ps = take (unat pkt_len) buf
     \<and> (\<forall>p\<in>set ps. mtype p = MTP_BULK_PACKET \<and> 0 < length (msg_buffer p)
                   \<and> length (msg_buffer p) \<le> unat tx_size)"
proof (cases "pkt_len = 0")
  case True
  then show ?thesis by (simp add: transport_send_bulk_pkt_to_tx_mq_def)
next
  case False
  have "0 < unat tx_size" using assms(2) by (simp add: word_less_nat_alt)
  moreover have "0 < unat pkt_len" using False by (simp add: unat_gt_0)
  ultimately show ?thesis
    using send_bulk_loop_ok[where snd_ok = snd_ok and sent = 0 and buf = buf, OF assms(1), of "unat tx_size" "unat pkt_len" q]
      False assms(3)
    by (auto simp: transport_send_bulk_pkt_to_tx_mq_def)
qed

lemma send_bulk_delivers_witness:
  "\<exists>ps. transport_send_bulk_pkt_to_tx_mq (\<lambda>q p. True) 2 [] [7, 8, 9] 3 = Some ([] @ ps, 3)
     \<and> payload ps = take (unat (3 :: u32)) [7, 8, 9]
     \<and> (\<forall>p\<in>set ps. mtype p = MTP_BULK_PACKET \<and> 0 < length (msg_buffer p)
                   \<and> length (msg_buffer p) \<le> unat (2 :: u32))"
  by (rule send_bulk_delivers) simp_all

end
