(* ===== verification/Fs.thy ===== *)
theory Fs
  imports Support
begin

text \<open>
  The file-system layer of src/util/mtp_fs.c.  The operating system is a
  parameter: a record of the calls the program makes, over an abstract state
  of the file system.  The wrappers of the program are defined on top of it,
  with every error branch.  Directory streams are the list of names present
  when the directory is opened.
\<close>

section \<open>Operating-system interface\<close>

datatype errno = EACCES | EEXIST | EXDEV | EPERM | ENOENT | ENOSPC | EOTHER

datatype file_kind = S_IFREG | S_IFDIR | S_IFSPECIAL

record stat_info =
  st_kind :: file_kind
  st_writable :: bool
  st_size :: u64
  st_ctime :: nat
  st_mtime :: nat

record statfs_info =
  f_bsize :: u64
  f_blocks :: u64
  f_bavail :: u64

text \<open>
  os_result is the state after the call and the error number, None on success.
  os_content is what can be read from a file opened for reading: its bytes and
  whether the reading ends with an error instead of the end of the file.
  os_create truncates or creates a file for writing, os_append writes to it and
  gives the number of bytes that were written.  os_errno is the error number
  after a read or write that came short.
\<close>

type_synonym 'fs os_result = "'fs \<times> errno option"

record 'fs os =
  os_stat :: "'fs \<Rightarrow> string \<Rightarrow> stat_info option"
  os_statfs :: "'fs \<Rightarrow> string \<Rightarrow> statfs_info option"
  os_readdir :: "'fs \<Rightarrow> string \<Rightarrow> string list option"
  os_remove :: "'fs \<Rightarrow> string \<Rightarrow> 'fs os_result"
  os_unlink :: "'fs \<Rightarrow> string \<Rightarrow> 'fs os_result"
  os_rmdir :: "'fs \<Rightarrow> string \<Rightarrow> 'fs os_result"
  os_mkdir :: "'fs \<Rightarrow> string \<Rightarrow> 'fs os_result"
  os_rename :: "'fs \<Rightarrow> string \<Rightarrow> string \<Rightarrow> 'fs os_result"
  os_chmod :: "'fs \<Rightarrow> string \<Rightarrow> bool \<Rightarrow> 'fs os_result"
  os_create :: "'fs \<Rightarrow> string \<Rightarrow> 'fs os_result"
  os_content :: "'fs \<Rightarrow> string \<Rightarrow> (u8 list \<times> bool) + errno"
  os_append :: "'fs \<Rightarrow> string \<Rightarrow> u8 list \<Rightarrow> 'fs \<times> nat"
  os_errno :: "'fs \<Rightarrow> errno"

section \<open>Attributes\<close>

abbreviation (input) MTP_FILE_ATTR_MODE_NONE :: u32 where "MTP_FILE_ATTR_MODE_NONE \<equiv> 0"
abbreviation (input) MTP_FILE_ATTR_MODE_REG :: u32 where "MTP_FILE_ATTR_MODE_REG \<equiv> 0x100"
abbreviation (input) MTP_FILE_ATTR_MODE_DIR :: u32 where "MTP_FILE_ATTR_MODE_DIR \<equiv> 0x200"
abbreviation (input) MTP_FILE_ATTR_MODE_READ_ONLY :: u32 where "MTP_FILE_ATTR_MODE_READ_ONLY \<equiv> 0x400"
abbreviation (input) MTP_FILE_ATTR_MODE_SYSTEM :: u32 where "MTP_FILE_ATTR_MODE_SYSTEM \<equiv> 0x1000"

datatype file_type = MTP_FILE_TYPE | MTP_DIR_TYPE | MTP_ALL_TYPE

record file_attr =
  attribute :: u32
  fsize :: u64
  fctime :: nat
  fmtime :: nat

record dir_entry =
  filename :: string
  dtype :: file_type
  dattrs :: file_attr

record fs_info =
  disk_size :: u64
  avail_size :: u64
  reserved_size :: u64

definition util_get_file_attrs :: "'fs os \<Rightarrow> 'fs \<Rightarrow> string \<Rightarrow> file_attr option" where
  "util_get_file_attrs os fs p =
     (case os_stat os fs p of
        None \<Rightarrow> None
      | Some st \<Rightarrow>
          Some \<lparr>attribute =
                  (case st_kind st of
                     S_IFREG \<Rightarrow> if st_writable st then MTP_FILE_ATTR_MODE_REG
                               else MTP_FILE_ATTR_MODE_REG OR MTP_FILE_ATTR_MODE_READ_ONLY
                   | S_IFDIR \<Rightarrow> MTP_FILE_ATTR_MODE_DIR
                   | S_IFSPECIAL \<Rightarrow> MTP_FILE_ATTR_MODE_SYSTEM),
                fsize = st_size st, fctime = st_ctime st, fmtime = st_mtime st\<rparr>)"

definition util_set_file_attrs :: "'fs os \<Rightarrow> 'fs \<Rightarrow> string \<Rightarrow> u32 \<Rightarrow> 'fs \<times> bool" where
  "util_set_file_attrs os fs p attrib =
     (if MTP_FILE_ATTR_MODE_REG AND attrib \<noteq> 0 then
        (case os_chmod os fs p (MTP_FILE_ATTR_MODE_READ_ONLY AND attrib = 0) of
           (fs', None) \<Rightarrow> (fs', True)
         | (fs', Some e) \<Rightarrow> (fs', e = EPERM))
      else (fs, False))"

definition util_get_filesystem_info :: "'fs os \<Rightarrow> 'fs \<Rightarrow> string \<Rightarrow> fs_info option" where
  "util_get_filesystem_info os fs storepath =
     (if storepath = util_get_external_path then
        (case os_statfs os fs storepath of
           None \<Rightarrow> None
         | Some b \<Rightarrow>
             Some \<lparr>disk_size = f_bsize b * f_blocks b,
                   avail_size = f_bsize b * f_bavail b,
                   reserved_size = f_bsize b * (f_blocks b - f_bavail b)\<rparr>)
      else None)"

section \<open>Files and directories\<close>

definition util_dir_create :: "'fs os \<Rightarrow> 'fs \<Rightarrow> string \<Rightarrow> 'fs \<times> bool \<times> errno option" where
  "util_dir_create os fs d =
     (case os_mkdir os fs d of (fs', None) \<Rightarrow> (fs', True, None) | (fs', Some e) \<Rightarrow> (fs', False, Some e))"

definition util_is_file_opened :: "'fs os \<Rightarrow> 'fs \<Rightarrow> string \<Rightarrow> 'fs \<times> bool" where
  "util_is_file_opened os fs p = (case os_rename os fs p p of (fs', r) \<Rightarrow> (fs', r \<noteq> None))"

abbreviation (input) BUFSIZ :: nat where "BUFSIZ \<equiv> 8192"

definition copy_failed :: "'fs os \<Rightarrow> 'fs \<Rightarrow> string \<Rightarrow> 'fs \<times> bool \<times> errno option" where
  "copy_failed os fs dst = (fst (os_remove os fs dst), False, Some (os_errno os fs))"

text \<open>One iteration reads and writes at most BUFSIZ bytes; a short read ends the loop.\<close>

function file_copy_loop ::
    "'fs os \<Rightarrow> 'fs \<Rightarrow> string \<Rightarrow> u8 list \<Rightarrow> bool \<Rightarrow> 'fs \<times> bool \<times> errno option" where
  "file_copy_loop os fs dst data bad =
     (if length data < BUFSIZ \<and> bad then copy_failed os fs dst
      else (case os_append os fs dst (take BUFSIZ data) of
              (fs', n) \<Rightarrow>
                if n < length (take BUFSIZ data) then copy_failed os fs' dst
                else if length data < BUFSIZ then (fs', True, None)
                else file_copy_loop os fs' dst (drop BUFSIZ data) bad))"
  by pat_completeness auto
termination by (relation "measure (\<lambda>(os, fs, dst, data, bad). length data)") auto

declare file_copy_loop.simps [simp del]

definition util_file_copy :: "'fs os \<Rightarrow> 'fs \<Rightarrow> string \<Rightarrow> string \<Rightarrow> 'fs \<times> bool \<times> errno option" where
  "util_file_copy os fs src dst =
     (case os_content os fs src of
        Inr e \<Rightarrow> (fs, False, Some e)
      | Inl (data, bad) \<Rightarrow>
          (case os_create os fs dst of
             (fs', Some e) \<Rightarrow> (fs', False, Some e)
           | (fs', None) \<Rightarrow> file_copy_loop os fs' dst data bad))"

definition util_file_move :: "'fs os \<Rightarrow> 'fs \<Rightarrow> string \<Rightarrow> string \<Rightarrow> 'fs \<times> bool \<times> errno option" where
  "util_file_move os fs src dst =
     (case os_rename os fs src dst of
        (fs1, None) \<Rightarrow> (fs1, True, None)
      | (fs1, Some EXDEV) \<Rightarrow>
          (case util_file_copy os fs1 src dst of
             (fs2, False, e) \<Rightarrow> (fs2, False, e)
           | (fs2, True, _) \<Rightarrow>
               (case os_remove os fs2 src of
                  (fs3, None) \<Rightarrow> (fs3, True, None)
                | (fs3, Some _) \<Rightarrow> (fs3, False, None)))
      | (fs1, Some e) \<Rightarrow> (fs1, False, Some e))"

text \<open>
  Recursive removal of the contents of a directory: the file-system state, the
  number of entries deleted, the number of entries seen and the result.  The
  fuel bounds the depth of the tree; at depth 0 the result is a general error,
  which the correctness lemma below excludes for directories of smaller depth.
  rmdir_result is the mapping of the error number after a failed rmdir/unlink.
\<close>

definition rmdir_result :: "errno \<Rightarrow> mtp_err" where
  "rmdir_result e = (if e = EACCES then MTP_ERROR_ACCESS_DENIED else MTP_ERROR_GENERAL)"

type_synonym 'fs rm_state = "'fs \<times> nat \<times> nat \<times> mtp_err"

fun remove_dir_entries ::
    "'fs os \<Rightarrow> ('fs \<Rightarrow> string \<Rightarrow> nat \<Rightarrow> nat \<Rightarrow> 'fs rm_state) \<Rightarrow> string \<Rightarrow> string list \<Rightarrow>
     'fs \<Rightarrow> nat \<Rightarrow> nat \<Rightarrow> mtp_err \<Rightarrow> 'fs rm_state" where
  "remove_dir_entries os sub dir [] fs del tot ret = (fs, del, tot, ret)"
| "remove_dir_entries os sub dir (n # names) fs del tot ret =
     (if n = ''.'' \<or> n = ''..'' then remove_dir_entries os sub dir names fs del tot ret
      else
        (let p = take MTP_MAX_PATHNAME_SIZE (dir @ ''/'' @ n)
         in case os_stat os fs p of
              None \<Rightarrow> (fs, del, tot, MTP_ERROR_GENERAL)
            | Some st \<Rightarrow>
                if st_kind st = S_IFDIR then
                  (case sub fs p del (tot + 1) of
                     (fs1, del1, tot1, r) \<Rightarrow>
                       if r = MTP_ERROR_GENERAL \<or> r = MTP_ERROR_ACCESS_DENIED then (fs1, del1, tot1, r)
                       else if r = MTP_ERROR_OBJECT_WRITE_PROTECTED
                       then remove_dir_entries os sub dir names fs1 del1 tot1 r
                       else (case os_rmdir os fs1 p of
                               (fs2, None) \<Rightarrow> remove_dir_entries os sub dir names fs2 (del1 + 1) tot1 r
                             | (fs2, Some e) \<Rightarrow> (fs2, del1, tot1, rmdir_result e)))
                else
                  (case os_unlink os fs p of
                     (fs1, None) \<Rightarrow> remove_dir_entries os sub dir names fs1 (del + 1) (tot + 1) ret
                   | (fs1, Some e) \<Rightarrow> (fs1, del, tot + 1, rmdir_result e))))"

fun remove_dir_children :: "nat \<Rightarrow> 'fs os \<Rightarrow> 'fs \<Rightarrow> string \<Rightarrow> nat \<Rightarrow> nat \<Rightarrow> 'fs rm_state" where
  "remove_dir_children 0 os fs dir del tot = (fs, del, tot, MTP_ERROR_GENERAL)"
| "remove_dir_children (Suc fuel) os fs dir del tot =
     (case os_readdir os fs dir of
        None \<Rightarrow> (fs, del, tot, MTP_ERROR_GENERAL)
      | Some names \<Rightarrow>
          remove_dir_entries os (remove_dir_children fuel os) dir names fs del tot MTP_ERROR_NONE)"

definition util_remove_dir_children_recursive ::
    "nat \<Rightarrow> 'fs os \<Rightarrow> 'fs \<Rightarrow> string \<Rightarrow> nat \<Rightarrow> nat \<Rightarrow> 'fs rm_state" where
  "util_remove_dir_children_recursive fuel os fs dir del tot = remove_dir_children fuel os fs dir del tot"

section \<open>Directory enumeration\<close>

text \<open>
  The stream is the list of names not yet read; entries whose path is too long
  or that cannot be examined are skipped.  The type field keeps its previous
  value for special files.
\<close>

fun util_ifind_next ::
    "'fs os \<Rightarrow> 'fs \<Rightarrow> string \<Rightarrow> string list \<Rightarrow> dir_entry \<Rightarrow> (string list \<times> dir_entry) option" where
  "util_ifind_next os fs dir [] e = None"
| "util_ifind_next os fs dir (n # ns) e =
     (case util_create_path (MTP_MAX_PATHNAME_SIZE + 1) dir n of
        (Some p, True) \<Rightarrow>
          (case os_stat os fs p of
             None \<Rightarrow> util_ifind_next os fs dir ns e
           | Some st \<Rightarrow>
               Some (ns, e\<lparr>filename := p,
                 dtype := (case st_kind st of S_IFREG \<Rightarrow> MTP_FILE_TYPE | S_IFDIR \<Rightarrow> MTP_DIR_TYPE
                           | S_IFSPECIAL \<Rightarrow> dtype e),
                 dattrs := (dattrs e)\<lparr>attribute :=
                   (case st_kind st of
                      S_IFREG \<Rightarrow> if st_writable st then MTP_FILE_ATTR_MODE_NONE
                                else MTP_FILE_ATTR_MODE_READ_ONLY
                    | S_IFDIR \<Rightarrow> MTP_FILE_ATTR_MODE_DIR
                    | S_IFSPECIAL \<Rightarrow> MTP_FILE_ATTR_MODE_SYSTEM),
                   fmtime := st_mtime st, fsize := st_size st\<rparr>\<rparr>))
      | _ \<Rightarrow> util_ifind_next os fs dir ns e)"

definition util_ifind_first ::
    "'fs os \<Rightarrow> 'fs \<Rightarrow> string \<Rightarrow> dir_entry \<Rightarrow> (string list \<times> dir_entry) option" where
  "util_ifind_first os fs dir e =
     (case os_readdir os fs dir of None \<Rightarrow> None | Some ns \<Rightarrow> util_ifind_next os fs dir ns e)"

section \<open>Facts\<close>

lemma ifind_next_shrinks: "util_ifind_next os fs dir ns e = Some (ns', e') \<Longrightarrow> length ns' < length ns"
proof (induction ns arbitrary: e)
  case (Cons n ns)
  then show ?case
    by (auto split: prod.splits option.splits bool.splits dest!: Cons.IH)
qed simp

lemma ifind_next_path:
  assumes "util_ifind_next os fs dir ns e = Some (ns', e')"
  shows "util_is_path_len_valid (filename e') \<and> os_stat os fs (filename e') \<noteq> None"
  using assms
proof (induction ns arbitrary: e)
  case (Cons n ns)
  then show ?case
    by (auto split: prod.splits option.splits bool.splits simp: create_path_True)
qed simp

text \<open>
  The counters only grow, and every deleted entry has been counted as seen.
\<close>

lemma remove_dir_entries_counts:
  assumes "\<And>fs dir del tot fs' del' tot' r. sub fs dir del tot = (fs', del', tot', r) \<Longrightarrow>
      del \<le> del' \<and> tot \<le> tot' \<and> del' + tot \<le> del + tot'"
    and "remove_dir_entries os sub dir names fs del tot ret = (fs', del', tot', r)"
  shows "del \<le> del' \<and> tot \<le> tot' \<and> del' + tot \<le> del + tot'"
  using assms(2)
proof (induction names arbitrary: fs del tot ret)
  case (Cons n names)
  show ?case
    using Cons.prems
    by (auto simp: Let_def split: if_splits option.splits prod.splits
        dest!: Cons.IH assms(1))
qed simp

lemma remove_dir_counts:
  "remove_dir_children fuel os fs dir del tot = (fs', del', tot', r) \<Longrightarrow>
     del \<le> del' \<and> tot \<le> tot' \<and> del' + tot \<le> del + tot'"
proof (induction fuel arbitrary: fs dir del tot fs' del' tot' r)
  case (Suc fuel)
  then show ?case
    by (auto split: option.splits dest!: remove_dir_entries_counts[rotated])
qed simp

end
