(* ===== verification/Container.thy ===== *)
theory Container
  imports Transport Fs
begin

text \<open>
  USB containers of src/ptp_container.c: command, response, event and data
  blocks.  A container structure is a record; its memory image is the packed
  little-endian layout (header of 12 bytes, five parameters, parameter count).
  The temporary file through which data phases arrive is in the record
  temp_file, the ftemp_st of include/mtp_cmd_handler.h.
\<close>

abbreviation (input) MAX_MTP_PARAMS :: nat where "MAX_MTP_PARAMS \<equiv> 5"
abbreviation (input) CONTAINER_UNDEFINED :: u16 where "CONTAINER_UNDEFINED \<equiv> 0"
abbreviation (input) CONTAINER_CMD_BLK :: u16 where "CONTAINER_CMD_BLK \<equiv> 1"
abbreviation (input) CONTAINER_DATA_BLK :: u16 where "CONTAINER_DATA_BLK \<equiv> 2"
abbreviation (input) CONTAINER_RESP_BLK :: u16 where "CONTAINER_RESP_BLK \<equiv> 3"
abbreviation (input) CONTAINER_EVENT_BLK :: u16 where "CONTAINER_EVENT_BLK \<equiv> 4"
abbreviation (input) PTP_OPCODE_UNDEFINED :: u16 where "PTP_OPCODE_UNDEFINED \<equiv> 0x1000"

abbreviation (input) header_size :: nat where "header_size \<equiv> 12"
abbreviation (input) cmd_container_size :: nat where "cmd_container_size \<equiv> 36"

record cmd_container =
  len :: u32
  ctype :: u16
  code :: u16
  tid :: u32
  params :: "u32 list"
  no_param :: u32

record data_container = cmd_container +
  cdata :: "u8 list option"

definition zero_cmd :: cmd_container where
  "zero_cmd = \<lparr>len = 0, ctype = 0, code = 0, tid = 0, params = replicate MAX_MTP_PARAMS 0, no_param = 0\<rparr>"

section \<open>Memory images\<close>

definition header_bytes :: "u32 \<Rightarrow> u16 \<Rightarrow> u16 \<Rightarrow> u32 \<Rightarrow> u8 list" where
  "header_bytes l t c i = le_bytes 4 l @ le_bytes 2 t @ le_bytes 2 c @ le_bytes 4 i"

definition cmd_bytes :: "cmd_container \<Rightarrow> u8 list" where
  "cmd_bytes c = header_bytes (len c) (ctype c) (code c) (tid c)
     @ concat (map (le_bytes 4) (params c)) @ le_bytes 4 (no_param c)"

text \<open>
  Reading a structure through a pointer into a buffer: the fields of the
  header, and the words that follow it.  None when the buffer is too short.
\<close>

definition rd_word :: "u8 list \<Rightarrow> nat \<Rightarrow> nat \<Rightarrow> 'a::len word option" where
  "rd_word buf off n = (if off + n \<le> length buf then Some (le_word (take n (drop off buf))) else None)"

record header = h_len :: u32  h_type :: u16  h_code :: u16  h_tid :: u32

definition rd_header :: "u8 list \<Rightarrow> header option" where
  "rd_header buf = do {
     l \<leftarrow> rd_word buf 0 4;
     t \<leftarrow> rd_word buf 4 2;
     c \<leftarrow> rd_word buf 6 2;
     i \<leftarrow> rd_word buf 8 4;
     Some \<lparr>h_len = l, h_type = t, h_code = c, h_tid = i\<rparr> }"

section \<open>Command, response and event containers\<close>

definition hdlr_init_cmd_container :: "'a cmd_container_scheme \<Rightarrow> 'a cmd_container_scheme" where
  "hdlr_init_cmd_container c =
     c\<lparr>tid := 0, ctype := CONTAINER_UNDEFINED, code := PTP_OPCODE_UNDEFINED, len := of_nat header_size,
       no_param := 0\<rparr>"

definition hdlr_get_param_cmd_container :: "cmd_container \<Rightarrow> u32 \<Rightarrow> u32 option" where
  "hdlr_get_param_cmd_container c index =
     (if index < no_param c then
        (if unat index < length (params c) then Some (params c ! unat index) else None)
      else Some 0)"

text \<open>
  The destination receives as many parameters as the length field announces.
  Writing a sixth parameter leaves the array of five.
\<close>

fun copy_params :: "u8 list \<Rightarrow> nat \<Rightarrow> nat \<Rightarrow> u32 list \<Rightarrow> u32 list option" where
  "copy_params buf i 0 ps = Some ps"
| "copy_params buf i (Suc n) ps =
     (if MAX_MTP_PARAMS \<le> i then None
      else do {
        w \<leftarrow> rd_word buf (header_size + 4 * i) 4;
        copy_params buf (Suc i) n (ps[i := w]) })"

definition hdlr_copy_cmd_container_unknown_params :: "u8 list \<Rightarrow> cmd_container \<Rightarrow> cmd_container option" where
  "hdlr_copy_cmd_container_unknown_params src dst = do {
     h \<leftarrow> rd_header src;
     let n = (h_len h - of_nat header_size) div 4;
     ps \<leftarrow> copy_params src 0 (unat n) (params dst);
     Some (dst\<lparr>tid := h_tid h, ctype := h_type h, code := h_code h, len := h_len h, no_param := n,
               params := ps\<rparr>) }"

definition hdlr_copy_cmd_container :: "cmd_container \<Rightarrow> cmd_container \<Rightarrow> cmd_container option" where
  "hdlr_copy_cmd_container src dst =
     (let n = unat (no_param src)
      in if n \<le> length (params src) \<and> n \<le> length (params dst)
         then Some (dst\<lparr>tid := tid src, ctype := ctype src, code := code src, len := len src,
                        no_param := no_param src,
                        params := take n (params src) @ drop n (params dst)\<rparr>)
         else None)"

definition hdlr_add_param_resp_container ::
    "cmd_container \<Rightarrow> u32 \<Rightarrow> u32 list option \<Rightarrow> (cmd_container \<times> bool) option" where
  "hdlr_add_param_resp_container dst num ps =
     (if of_nat MAX_MTP_PARAMS < num then Some (dst, False)
      else if num \<noteq> 0 \<and> ps = None then Some (dst, False)
      else (let n = unat num; src = (case ps of None \<Rightarrow> [] | Some l \<Rightarrow> l)
            in if n \<le> length src \<and> n \<le> length (params dst)
               then Some (dst\<lparr>no_param := num, len := of_nat header_size + 4 * num,
                              params := take n src @ drop n (params dst)\<rparr>, True)
               else None))"

definition hdlr_validate_cmd_container :: "u8 list \<Rightarrow> u32 \<Rightarrow> bool option" where
  "hdlr_validate_cmd_container blk sz =
     (if sz < of_nat header_size \<or> of_nat cmd_container_size < sz then Some False
      else do {
        l \<leftarrow> rd_word blk 0 4;
        t \<leftarrow> rd_word blk 4 2;
        Some (l = sz \<and> t = CONTAINER_CMD_BLK) })"

definition hdlr_resp_container_init :: "cmd_container \<Rightarrow> u16 \<Rightarrow> u32 \<Rightarrow> cmd_container" where
  "hdlr_resp_container_init dst resp_code t =
     (hdlr_init_cmd_container dst)\<lparr>ctype := CONTAINER_RESP_BLK, code := resp_code, tid := t\<rparr>"

definition hdlr_send_resp_container ::
    "msgsnd \<Rightarrow> u32 \<Rightarrow> msgq \<Rightarrow> cmd_container \<Rightarrow> (msgq \<times> bool) option" where
  "hdlr_send_resp_container snd_ok tx_size q dst = do {
     (q', sent) \<leftarrow> transport_send_pkt_to_tx_mq snd_ok tx_size q (cmd_bytes dst) (len dst);
     Some (q', sent = len dst) }"

definition hdlr_init_event_container ::
    "cmd_container \<Rightarrow> u16 \<Rightarrow> u32 \<Rightarrow> u32 \<Rightarrow> u32 \<Rightarrow> cmd_container" where
  "hdlr_init_event_container dst c t param1 param2 =
     dst\<lparr>ctype := CONTAINER_EVENT_BLK, code := c, tid := t, no_param := 1,
         params := (params dst)[0 := param1], len := of_nat header_size + 4\<rparr>"

definition hdlr_send_event_container ::
    "msgsnd \<Rightarrow> u32 \<Rightarrow> msgq \<Rightarrow> cmd_container \<Rightarrow> (msgq \<times> bool) option" where
  "hdlr_send_event_container snd_ok tx_size q dst = do {
     (q', r, sent) \<leftarrow> transport_send_event snd_ok tx_size q (cmd_bytes dst) (len dst);
     Some (q', r = MTP_ERROR_NONE \<and> (case sent of None \<Rightarrow> 0 | Some n \<Rightarrow> n) = len dst) }"

section \<open>Data containers\<close>

definition hdlr_init_data_container :: "data_container \<Rightarrow> u16 \<Rightarrow> u32 \<Rightarrow> data_container" where
  "hdlr_init_data_container dst c trans_id =
     (hdlr_init_cmd_container dst)\<lparr>ctype := CONTAINER_DATA_BLK, code := c, tid := trans_id, cdata := None\<rparr>"

text \<open>
  The length in the header saturates at 0xFFFFFFFF; the buffer length itself
  is computed modulo 2^32.  An allocation of zero bytes gives a null pointer,
  which is returned (False); a wrapped length between 1 and 11 does not hold
  the header that is then written (None).
\<close>

definition sat_len :: "u64 \<Rightarrow> u32" where
  "sat_len pkt_size =
     ucast (if pkt_size + of_nat header_size > 0xFFFFFFFF then 0xFFFFFFFF else pkt_size + of_nat header_size)"

definition hdlr_alloc_buf_data_container ::
    "data_container \<Rightarrow> u32 \<Rightarrow> u64 \<Rightarrow> (data_container \<times> bool) option" where
  "hdlr_alloc_buf_data_container dst bufsz pkt_size =
     (let blk_len = bufsz + of_nat header_size
      in if blk_len = 0 then Some (dst\<lparr>cdata := None\<rparr>, False)
         else if unat blk_len < header_size then None
         else Some (dst\<lparr>len := blk_len,
                        cdata := Some (header_bytes (sat_len pkt_size) (ctype dst) (code dst) (tid dst)
                                       @ replicate (unat blk_len - header_size) 0)\<rparr>, True))"

definition hdlr_send_data_container ::
    "msgsnd \<Rightarrow> u32 \<Rightarrow> msgq \<Rightarrow> data_container \<Rightarrow> (msgq \<times> bool) option" where
  "hdlr_send_data_container snd_ok tx_size q dst = do {
     d \<leftarrow> cdata dst;
     (q', sent) \<leftarrow> transport_send_pkt_to_tx_mq snd_ok tx_size q d (len dst);
     Some (q', sent = len dst) }"

definition hdlr_send_bulk_data :: "msgsnd \<Rightarrow> u32 \<Rightarrow> msgq \<Rightarrow> u8 list \<Rightarrow> u32 \<Rightarrow> (msgq \<times> bool) option" where
  "hdlr_send_bulk_data snd_ok tx_size q d n = do {
     (q', sent) \<leftarrow> transport_send_bulk_pkt_to_tx_mq snd_ok tx_size q d n;
     Some (q', sent = n) }"

definition hdlr_get_payload_size :: "data_container \<Rightarrow> u32" where
  "hdlr_get_payload_size dst = (case cdata dst of None \<Rightarrow> 0 | Some _ \<Rightarrow> len dst - of_nat header_size)"

definition hdlr_get_payload_data :: "data_container \<Rightarrow> u8 list option" where
  "hdlr_get_payload_data dst = map_option (drop header_size) (cdata dst)"

section \<open>Receiving a data phase\<close>

text \<open>
  fhandle is the path of the temporary file while it is open for writing.
\<close>

record temp_file =
  cmd_buf :: "u8 list"
  header_buf :: "u8 list"
  cmd_size :: u32
  data_size :: u32
  data_count :: u32
  fhandle :: "string option"
  filepath :: "string option"
  tfile_size :: u32
  size_remaining :: u32
  temp_buff :: "u8 list"

definition transport_save_cmd_buffer :: "temp_file \<Rightarrow> u8 list \<Rightarrow> u32 \<Rightarrow> temp_file option" where
  "transport_save_cmd_buffer ft buffer sz = do {
     b \<leftarrow> over_write (cmd_buf ft) (take (unat sz) buffer);
     if unat sz \<le> length buffer
     then Some (ft\<lparr>cmd_buf := b, cmd_size := sz, data_count := 0\<rparr>) else None }"

text \<open>
  The result is the content of the receive buffer, the byte count, and the new
  states.  When the file cannot be opened the buffer keeps its undetermined
  contents, which the caller then reads: None.
\<close>

definition transport_rcv_temp_file_data ::
    "'fs os \<Rightarrow> 'fs \<Rightarrow> temp_file \<Rightarrow> u32 \<Rightarrow> (u8 list \<times> u32 \<times> 'fs \<times> temp_file) option" where
  "transport_rcv_temp_file_data os fs ft sz =
     (case filepath ft of
        None \<Rightarrow> None
      | Some p \<Rightarrow>
          (case os_content os fs p of
             Inr e \<Rightarrow> None
           | Inl (content, bad) \<Rightarrow>
               (let body = take (unat (sz - of_nat header_size)) content
                in if unat sz < header_size + length body then None
                   else Some (take header_size (header_buf ft) @ body,
                              of_nat (length body) + of_nat header_size,
                              fst (os_remove os fs p),
                              ft\<lparr>filepath := None, data_size := 0, data_count := 0\<rparr>))))"

text \<open>
  The first test of the header compares the announced length with the number
  of bytes received.
\<close>

definition hdlr_rcv_data_container ::
    "'fs os \<Rightarrow> 'fs \<Rightarrow> temp_file \<Rightarrow> data_container \<Rightarrow> u32 \<Rightarrow>
     (data_container \<times> bool \<times> 'fs \<times> temp_file) option" where
  "hdlr_rcv_data_container os fs ft dst sz = do {
     (buf, count, fs', ft') \<leftarrow> transport_rcv_temp_file_data os fs ft (sz + of_nat header_size + 4);
     h \<leftarrow> rd_header buf;
     let dst' = dst\<lparr>cdata := Some buf, len := h_len h, ctype := h_type h, code := h_code h, tid := h_tid h\<rparr>;
     Some (dst', h_len h = count \<and> h_type h = CONTAINER_DATA_BLK \<and> h_code h = code dst
                 \<and> h_tid h = tid dst, fs', ft') }"

text \<open>
  The received file itself: its size comes from the file system, its path is
  handed over to the caller.
\<close>

definition transport_rcv_temp_file_info ::
    "'fs os \<Rightarrow> 'fs \<Rightarrow> temp_file \<Rightarrow> nat \<Rightarrow> u8 list \<times> string option \<times> u64 option \<times> temp_file \<times> mtp_err" where
  "transport_rcv_temp_file_info os fs ft path_len =
     (let hdr = take header_size (header_buf ft)
      in case filepath ft of
           None \<Rightarrow> (hdr, None, None, ft, MTP_ERROR_GENERAL)
         | Some p \<Rightarrow>
             (case util_get_file_attrs os fs p of
                None \<Rightarrow> (hdr, None, None, ft, MTP_ERROR_GENERAL)
              | Some a \<Rightarrow>
                  (hdr, Some (g_strlcpy p path_len), Some (of_nat header_size + fsize a),
                   ft\<lparr>data_size := 0, data_count := 0, filepath := None, fhandle := None,
                      tfile_size := 0\<rparr>, MTP_ERROR_NONE)))"

definition hdlr_rcv_file_in_data_container ::
    "'fs os \<Rightarrow> 'fs \<Rightarrow> temp_file \<Rightarrow> data_container \<Rightarrow> nat \<Rightarrow>
     (data_container \<times> bool \<times> string option \<times> temp_file) option" where
  "hdlr_rcv_file_in_data_container os fs ft dst path_len =
     (case transport_rcv_temp_file_info os fs ft path_len of
        (hdr, path, t_size, ft', r) \<Rightarrow> do {
          h \<leftarrow> rd_header hdr;
          let bytes_rcvd = (case t_size of None \<Rightarrow> 0 | Some n \<Rightarrow> n);
          let dst' = dst\<lparr>cdata := Some hdr, len := h_len h, ctype := h_type h, code := h_code h, tid := h_tid h\<rparr>;
          Some (dst', \<not> ((ucast (h_len h) \<noteq> bytes_rcvd \<and> bytes_rcvd < 0x100000000)
                         \<or> h_type h \<noteq> CONTAINER_DATA_BLK \<or> h_code h \<noteq> code dst \<or> h_tid h \<noteq> tid dst),
                path, ft') })"

section \<open>Facts\<close>

lemma rd_word_append [simp]:
  assumes "off = length pre" "LENGTH('a::len) \<le> 8 * n"
  shows "rd_word (pre @ le_bytes n (w :: 'a word) @ rest) off n = Some w"
  using assms by (simp add: rd_word_def)

lemma length_header_bytes [simp]: "length (header_bytes l t c i) = 12"
  by (simp add: header_bytes_def)

lemma rd_header_bytes [simp]:
  "rd_header (header_bytes l t c i @ rest) = Some \<lparr>h_len = l, h_type = t, h_code = c, h_tid = i\<rparr>"
  using rd_word_append[of 0 "[]" 4 l "le_bytes 2 t @ le_bytes 2 c @ le_bytes 4 i @ rest"]
    rd_word_append[of 4 "le_bytes 4 l" 2 t "le_bytes 2 c @ le_bytes 4 i @ rest"]
    rd_word_append[of 6 "le_bytes 4 l @ le_bytes 2 t" 2 c "le_bytes 4 i @ rest"]
    rd_word_append[of 8 "le_bytes 4 l @ le_bytes 2 t @ le_bytes 2 c" 4 i rest]
  by (simp add: rd_header_def header_bytes_def)

lemma rd_header_Some: "12 \<le> length buf \<Longrightarrow> \<exists>h. rd_header buf = Some h"
  by (simp add: rd_header_def rd_word_def)

lemma rd_header_len: "rd_header buf = Some h \<Longrightarrow> rd_word buf 0 4 = Some (h_len h)"
  by (auto simp: rd_header_def split: bind_splits)

lemma copy_params_spec:
  assumes "i + n \<le> 5" "12 + 4 * (i + n) \<le> length buf" "length ps = 5"
  shows "\<exists>ps'. copy_params buf i n ps = Some ps' \<and> length ps' = 5
     \<and> (\<forall>k<5. ps' ! k = (if i \<le> k \<and> k < i + n then le_word (take 4 (drop (12 + 4 * k) buf)) else ps ! k))"
  using assms
proof (induction n arbitrary: i ps)
  case (Suc n)
  let ?w = "le_word (take 4 (drop (12 + 4 * i) buf)) :: u32"
  have "rd_word buf (12 + 4 * i) 4 = Some ?w" using Suc.prems by (simp add: rd_word_def)
  moreover from Suc.IH[of "Suc i" "ps[i := ?w]"] Suc.prems obtain ps' where
    "copy_params buf (Suc i) n (ps[i := ?w]) = Some ps'" "length ps' = 5"
    "\<forall>k<5. ps' ! k = (if Suc i \<le> k \<and> k < Suc i + n then le_word (take 4 (drop (12 + 4 * k) buf))
                      else ps[i := ?w] ! k)" by auto
  moreover from this have "\<forall>k<5. ps' ! k = (if i \<le> k \<and> k < i + Suc n
      then le_word (take 4 (drop (12 + 4 * k) buf)) else ps ! k)"
  proof (intro allI impI)
    fix k :: nat assume "k < 5"
    with calculation(4) Suc.prems show "ps' ! k = (if i \<le> k \<and> k < i + Suc n
      then le_word (take 4 (drop (12 + 4 * k) buf)) else ps ! k)"
      by (cases "k = i") auto
  qed
  ultimately show ?case using Suc.prems by auto
qed auto

lemma copy_params_overflow: "5 < i + n \<Longrightarrow> 0 < n \<Longrightarrow> copy_params buf i n ps = None"
proof (induction n arbitrary: i ps)
  case (Suc n)
  show ?case
  proof (cases "5 \<le> i")
    case False
    then have "copy_params buf (Suc i) n (ps[i := w]) = None" for w
      using Suc.prems by (intro Suc.IH) auto
    with False show ?thesis by (auto split: bind_splits)
  qed simp
qed simp

section \<open>Properties\<close>

text \<open>C25: a command block that passes validation and is at most 35 bytes long is decoded
  without leaving the parameter array: the number of parameters is the number of whole words
  after the header, each parameter is the corresponding word of the block, the others are zero.\<close>

theorem copy_cmd_validated:
  assumes "hdlr_validate_cmd_container buf sz = Some True" "unat sz \<le> 35" "unat sz \<le> length buf"
  shows "\<exists>c. hdlr_copy_cmd_container_unknown_params buf zero_cmd = Some c
     \<and> len c = sz \<and> unat (no_param c) = (unat sz - 12) div 4 \<and> length (params c) = 5
     \<and> (\<forall>k<5. params c ! k =
          (if k < (unat sz - 12) div 4 then le_word (take 4 (drop (12 + 4 * k) buf)) else 0))"
proof -
  from assms(1) have sz: "12 \<le> unat sz" and l: "rd_word buf 0 4 = Some sz"
    by (auto simp: hdlr_validate_cmd_container_def word_less_nat_alt split: if_splits bind_splits)
  then obtain h where h: "rd_header buf = Some h" using rd_header_Some[of buf] assms(3) by auto
  with l have hl: "h_len h = sz" by (auto dest: rd_header_len)
  have d: "unat (sz - 12) = unat sz - 12" using sz by (simp add: unat_sub word_le_nat_alt)
  have n: "unat ((sz - 12) div 4) = (unat sz - 12) div 4" using d by (simp add: unat_div)
  have "0 + (unat sz - 12) div 4 \<le> 5" using assms(2) by simp
  moreover have "12 + 4 * (0 + (unat sz - 12) div 4) \<le> length buf" 
  proof -
    from sz obtain x where x: "unat sz = 12 + x" by (metis le_iff_add)
    show ?thesis using assms(3) div_times_less_eq_dividend[of x 4] unfolding x by simp
  qed
  ultimately obtain ps where ps: "copy_params buf 0 ((unat sz - 12) div 4) (params zero_cmd) = Some ps"
    "length ps = 5"
    "\<forall>k<5. ps ! k = (if k < (unat sz - 12) div 4 then le_word (take 4 (drop (12 + 4 * k) buf)) else params zero_cmd ! k)"
    using copy_params_spec[of 0 "(unat sz - 12) div 4" buf "params zero_cmd"]
    by (auto simp: zero_cmd_def)
  then show ?thesis
    using h hl n by (simp add: hdlr_copy_cmd_container_unknown_params_def zero_cmd_def)
qed

theorem copy_cmd_validated_witness:
  "\<exists>c. hdlr_copy_cmd_container_unknown_params
         [16, 0, 0, 0, 1, 0, 2, 16, 7, 0, 0, 0, 1, 0, 0, 0] zero_cmd = Some c
     \<and> len c = 16 \<and> unat (no_param c) = (unat (16 :: u32) - 12) div 4 \<and> length (params c) = 5
     \<and> (\<forall>k<5. params c ! k =
          (if k < (unat (16 :: u32) - 12) div 4
           then le_word (take 4 (drop (12 + 4 * k) [16, 0, 0, 0, 1, 0, 2, 16, 7, 0, 0, 0, 1, 0, 0, 0])) else 0))"
  by (rule copy_cmd_validated) (simp_all add: hdlr_validate_cmd_container_def rd_word_def)

text \<open>A command block of the maximal accepted size, 36 bytes, passes validation although it
  announces six parameters; copying it then writes past the parameter array.\<close>

lemma copy_cmd_36_undefined:
  assumes "36 \<le> length buf" "rd_word buf 0 4 = Some (36 :: u32)" "rd_word buf 4 2 = Some CONTAINER_CMD_BLK"
  shows "hdlr_validate_cmd_container buf 36 = Some True
     \<and> hdlr_copy_cmd_container_unknown_params buf zero_cmd = None"
proof -
  obtain h where h: "rd_header buf = Some h" using rd_header_Some[of buf] assms(1) by auto
  with assms(2) have "h_len h = 36" by (auto dest: rd_header_len)
  then show ?thesis
    using assms h copy_params_overflow[of 0 6 buf "params zero_cmd"]
    by (simp add: hdlr_validate_cmd_container_def hdlr_copy_cmd_container_unknown_params_def)
qed

lemma copy_cmd_36_undefined_witness:
  "hdlr_validate_cmd_container (cmd_bytes (zero_cmd\<lparr>len := 36, ctype := 1\<rparr>)) 36 = Some True
     \<and> hdlr_copy_cmd_container_unknown_params (cmd_bytes (zero_cmd\<lparr>len := 36, ctype := 1\<rparr>)) zero_cmd = None"
  by (rule copy_cmd_36_undefined)
    (simp_all add: cmd_bytes_def zero_cmd_def header_bytes_def rd_word_def le_bytes_unfold
      length_concat sum_list_replicate)

lemma alloc_buf_ok:
  assumes "unat bufsz + 12 < 2 ^ 32"
  shows "hdlr_alloc_buf_data_container dst bufsz pkt_size =
     Some (dst\<lparr>len := bufsz + 12, cdata := Some (header_bytes (sat_len pkt_size) (ctype dst) (code dst) (tid dst)
            @ replicate (unat bufsz) 0)\<rparr>, True)"
    "unat (bufsz + 12) = unat bufsz + 12"
proof -
  show b: "unat (bufsz + 12) = unat bufsz + 12"
    using assms by (subst unat_add_lem[THEN iffD1]) simp_all
  then have "bufsz + 12 \<noteq> 0" by (metis add_is_0 unat_0 zero_neq_numeral)
  with b show "hdlr_alloc_buf_data_container dst bufsz pkt_size =
     Some (dst\<lparr>len := bufsz + 12, cdata := Some (header_bytes (sat_len pkt_size) (ctype dst) (code dst) (tid dst)
            @ replicate (unat bufsz) 0)\<rparr>, True)"
    by (simp add: hdlr_alloc_buf_data_container_def Let_def)
qed

lemma unat_sat_len:
  assumes "unat pkt_size < 2 ^ 63"
  shows "unat (sat_len pkt_size) = min (unat pkt_size + 12) (2 ^ 32 - 1)"
proof -
  have p: "unat (pkt_size + 12) = unat pkt_size + 12"
    using assms by (subst unat_add_lem[THEN iffD1]) simp_all
  show ?thesis
  proof (cases "pkt_size + 12 > 0xFFFFFFFF")
    case True
    then have "2 ^ 32 - 1 < unat pkt_size + 12" using p by (simp add: word_less_nat_alt)
    with True show ?thesis by (simp add: sat_len_def)
  next
    case False
    then have "unat pkt_size + 12 \<le> 2 ^ 32 - 1" using p by (simp add: word_less_nat_alt)
    with False p show ?thesis unfolding sat_len_def by (subst unat_ucast_small) (simp_all add: min_def)
  qed
qed

text \<open>the header written for a data phase carries the payload size plus twelve, saturated at
  0xFFFFFFFF, together with the type, code and transaction of the container; the payload area is
  zeroed and has exactly the requested size.\<close>

lemma alloc_buf_header:
  assumes "unat bufsz + 12 < 2 ^ 32" "unat pkt_size < 2 ^ 63"
  shows "\<exists>d l. hdlr_alloc_buf_data_container dst bufsz pkt_size = Some (d, True)
     \<and> unat l = min (unat pkt_size + 12) (2 ^ 32 - 1)
     \<and> cdata d = Some (header_bytes l (ctype dst) (code dst) (tid dst) @ replicate (unat bufsz) 0)
     \<and> unat (len d) = unat bufsz + 12 \<and> hdlr_get_payload_size d = bufsz"
  using alloc_buf_ok[OF assms(1)] unat_sat_len[OF assms(2)]
  by (auto simp: hdlr_get_payload_size_def intro: exI[of _ "sat_len pkt_size"])

lemma alloc_buf_header_witness:
  "\<exists>d l. hdlr_alloc_buf_data_container
            (hdlr_init_data_container (cmd_container.extend zero_cmd \<lparr>cdata = None\<rparr>) 0x1009 3) 8 0x1FFFFFFFF = Some (d, True)
     \<and> unat l = min (unat (0x1FFFFFFFF :: u64) + 12) (2 ^ 32 - 1)
     \<and> cdata d = Some (header_bytes l
          (ctype (hdlr_init_data_container (cmd_container.extend zero_cmd \<lparr>cdata = None\<rparr>) 0x1009 3))
          (code (hdlr_init_data_container (cmd_container.extend zero_cmd \<lparr>cdata = None\<rparr>) 0x1009 3))
          (tid (hdlr_init_data_container (cmd_container.extend zero_cmd \<lparr>cdata = None\<rparr>) 0x1009 3))
        @ replicate (unat (8 :: u32)) 0)
     \<and> unat (len d) = unat (8 :: u32) + 12 \<and> hdlr_get_payload_size d = 8"
  by (rule alloc_buf_header) simp_all

end
