(* ===== verification/Object.thy ===== *)
theory Object
  imports Property Container
begin

text \<open>
  MTP objects of src/entity/mtp_object.c: the ObjectInfo dataset with its
  packer and parser, file times, the array of child references and the list
  of property values (the latter from src/entity/mtp_property.c).  Parameters
  of the model: the operating system, localtime_r, the UTF conversions of
  glib, the undetermined contents of allocated strings (junk) and the units
  found behind the one-byte literal that is read as a wide string (kw).
\<close>

section \<open>Data\<close>

record obj_info =
  store_id :: u32
  obj_fmt :: u16
  protcn_status :: u16
  file_size :: u64
  thumb_file_size :: u32
  h_parent :: u32
  association_type :: u16

record mtp_obj =
  obj_handle :: u32
  obj_info :: "obj_info option"
  file_path :: "string option"
  child_array :: ptp_array
  propval_list :: "obj_prop_val list"

record tm =
  tm_year :: int
  tm_mon :: int
  tm_mday :: int
  tm_hour :: int
  tm_min :: int
  tm_sec :: int

text \<open>What the object operations need from outside.\<close>

record 'fs env =
  e_os :: "'fs os"
  e_localtime :: "nat \<Rightarrow> tm option"
  e_to16 :: "string \<Rightarrow> u16 list option"
  e_to8 :: "u16 list \<Rightarrow> string option"
  e_junk :: "u16 list"
  e_kw :: "u16 list"

abbreviation (input) PTP_ASSOCIATIONTYPE_UNDEFINED :: u16 where "PTP_ASSOCIATIONTYPE_UNDEFINED \<equiv> 0"
abbreviation (input) PTP_ASSOCIATIONTYPE_FOLDER :: u16 where "PTP_ASSOCIATIONTYPE_FOLDER \<equiv> 1"
abbreviation (input) FIXED_LENGTH_MEMBERS_SIZE :: u32 where "FIXED_LENGTH_MEMBERS_SIZE \<equiv> 52"
abbreviation (input) MTP_FILE_ATTR_INVALID :: u32 where "MTP_FILE_ATTR_INVALID \<equiv> 0xFFFFFFFF"

definition zero_info :: obj_info where
  "zero_info = \<lparr>store_id = 0, obj_fmt = 0, protcn_status = 0, file_size = 0, thumb_file_size = 0,
                h_parent = 0, association_type = 0\<rparr>"

section \<open>File times\<close>

definition system_time_of :: "tm \<Rightarrow> system_time" where
  "system_time_of t =
     \<lparr>year = of_int (tm_year t + 1900), month = of_int (tm_mon t + 1), day_of_week = 0,
      day = of_int (tm_mday t), hour = of_int (tm_hour t), minute = of_int (tm_min t),
      second = of_int (tm_sec t), millisecond = 0\<rparr>"

text \<open>
  The inner None is the result FALSE; the time strings are then as they were.
\<close>

definition entity_get_file_times ::
    "'fs env \<Rightarrow> 'fs \<Rightarrow> mtp_obj \<Rightarrow> ptp_string \<Rightarrow> ptp_string \<Rightarrow> (ptp_string \<times> ptp_string) option option" where
  "entity_get_file_times e fs obj ct mt =
     (case file_path obj of
        None \<Rightarrow> None
      | Some p \<Rightarrow>
          (case util_get_file_attrs (e_os e) fs p of
             None \<Rightarrow> Some None
           | Some a \<Rightarrow>
               (case e_localtime e (fctime a) of
                  None \<Rightarrow> Some None
                | Some t1 \<Rightarrow> do {
                    ct' \<leftarrow> prop_copy_time_to_ptptimestring (e_to16 e) True ct (Some (system_time_of t1));
                    (case e_localtime e (fmtime a) of
                       None \<Rightarrow> Some None
                     | Some t2 \<Rightarrow> do {
                         mt' \<leftarrow> prop_copy_time_to_ptptimestring (e_to16 e) True mt (Some (system_time_of t2));
                         Some (Some (ct', mt')) }) })))"

definition zero_time_str :: ptp_string where
  "zero_time_str = \<lparr>num_chars = 0, str = replicate MAX_PTP_TIME_STRING_CHARS 0\<rparr>"

section \<open>The ObjectInfo dataset\<close>

text \<open>The keywords field: the literal of one byte is read as a wide string.\<close>

definition keywords_string :: "'fs env \<Rightarrow> ptp_string option" where
  "keywords_string e = prop_copy_wchar_to_ptpstring (alloc_ptpstring (e_junk e)) (Some (e_kw e))"

definition entity_get_object_info_size :: "'fs env \<Rightarrow> 'fs \<Rightarrow> mtp_obj \<Rightarrow> ptp_string \<Rightarrow> u32 option" where
  "entity_get_object_info_size e fs obj file_name = do {
     r \<leftarrow> entity_get_file_times e fs obj zero_time_str zero_time_str;
     case r of
       None \<Rightarrow> Some 0
     | Some (ct, mt) \<Rightarrow> do {
         kw \<leftarrow> keywords_string e;
         Some (FIXED_LENGTH_MEMBERS_SIZE + prop_size_ptpstring (Some file_name)
               + prop_size_ptpstring (Some ct) + prop_size_ptpstring (Some mt)
               + prop_size_ptpstring (Some kw)) } }"

definition entity_init_object_info_params ::
    "u32 \<Rightarrow> u32 \<Rightarrow> string \<Rightarrow> dir_entry \<Rightarrow> obj_info" where
  "entity_init_object_info_params sid parent fname dir =
     (let info = zero_info\<lparr>store_id := sid, h_parent := parent\<rparr>;
          extn = (case util_get_file_extn fname of None \<Rightarrow> [] | Some x \<Rightarrow> x)
      in if attribute (dattrs dir) = MTP_FILE_ATTR_INVALID then info
         else if attribute (dattrs dir) AND MTP_FILE_ATTR_MODE_DIR \<noteq> 0
         then info\<lparr>protcn_status := 0, obj_fmt := PTP_FMT_ASSOCIATION,
                   association_type := PTP_ASSOCIATIONTYPE_FOLDER\<rparr>
         else info\<lparr>protcn_status := 0, file_size := fsize (dattrs dir), obj_fmt := util_get_fmtcode extn\<rparr>)"

text \<open>
  The fixed part is 52 bytes: storage, format, protection, size, thumbnail
  format and size, five image fields, parent, association type and two
  descriptions.  Reading stores only the low half of the 64-bit size.
\<close>

definition fixed_part :: "obj_info \<Rightarrow> u8 list" where
  "fixed_part i =
     le_bytes 4 (store_id i) @ le_bytes 2 (obj_fmt i) @ le_bytes 2 (protcn_status i)
   @ le_bytes 4 (if 0x100000000 \<le> file_size i then 0xFFFFFFFF else ucast (file_size i) :: u32)
   @ le_bytes 2 (0 :: u16) @ le_bytes 4 (thumb_file_size i)
   @ le_bytes 4 (0 :: u32) @ le_bytes 4 (0 :: u32) @ replicate 12 0
   @ le_bytes 4 (h_parent i) @ le_bytes 2 (association_type i) @ replicate 8 0"

text \<open>The count returned for a string that does not pack is added as it is.\<close>

definition pk_string :: "ptp_string \<Rightarrow> packer" where
  "pk_string s = map_option (\<lambda>(bs, n). (bs, True)) (prop_pack_ptpstring s (prop_size_ptpstring (Some s)))"

definition entity_pack_obj_info :: "'fs env \<Rightarrow> 'fs \<Rightarrow> mtp_obj \<Rightarrow> ptp_string \<Rightarrow> u32 \<Rightarrow> (u8 list \<times> u32) option" where
  "entity_pack_obj_info e fs obj file_name buf_sz = do {
     info \<leftarrow> obj_info obj;
     r \<leftarrow> entity_get_file_times e fs obj zero_time_str zero_time_str;
     case r of
       None \<Rightarrow> Some ([], 0)
     | Some (ct, mt) \<Rightarrow> do {
         kw \<leftarrow> keywords_string e;
         need \<leftarrow> entity_get_object_info_size e fs obj file_name;
         if buf_sz < need then Some ([], 0)
         else pk_run (pk_seq [pk_bytes (fixed_part info), pk_string file_name, pk_string ct, pk_string mt,
                              pk_string kw]) } }"

text \<open>
  The parser gives the whole buffer size to the string reader although the
  string starts at offset 52, and skips three more strings by their count
  byte.  It returns the information, the file name and the number of bytes.
\<close>

definition skip_string :: "u8 list \<Rightarrow> u8 list option" where
  "skip_string buf =
     (case buf of
        [] \<Rightarrow> None
      | n # _ \<Rightarrow> if length buf < 2 * unat n + 1 then None else Some (drop (2 * unat n + 1) buf))"

definition fixed_info :: "u8 list \<Rightarrow> obj_info \<Rightarrow> obj_info option" where
  "fixed_info buf info = do {
     sid \<leftarrow> rd_word buf 0 4;
     fmt \<leftarrow> rd_word buf 4 2;
     prot \<leftarrow> rd_word buf 6 2;
     size_lo \<leftarrow> rd_word buf 8 4;
     thumb \<leftarrow> rd_word buf 14 4;
     par \<leftarrow> rd_word buf 38 4;
     assoc \<leftarrow> rd_word buf 42 2;
     Some (info\<lparr>store_id := sid, obj_fmt := fmt, protcn_status := prot,
                file_size := (file_size info AND (0xFFFFFFFF00000000)) OR ucast (size_lo :: u32),
                thumb_file_size := thumb, h_parent := par, association_type := assoc\<rparr>) }"

definition entity_parse_raw_obj_info ::
    "'fs env \<Rightarrow> u8 list \<Rightarrow> u32 \<Rightarrow> obj_info \<Rightarrow> nat \<Rightarrow> (obj_info \<times> string \<times> nat) option option" where
  "entity_parse_raw_obj_info e buf buf_sz info fname_len =
     (if buf_sz < FIXED_LENGTH_MEMBERS_SIZE then Some None
      else do {
        info' \<leftarrow> fixed_info buf info;
        (fname, n) \<leftarrow> prop_parse_rawstring (\<lparr>num_chars = 0, str = replicate 255 0\<rparr>) (drop 52 buf) buf_sz;
        ws \<leftarrow> scan_wstr 255 (str fname);
        let rest = drop (52 + unat n) buf;
        r1 \<leftarrow> skip_string rest;
        r2 \<leftarrow> skip_string r1;
        r3 \<leftarrow> skip_string r2;
        Some (Some (info', fst (util_utf16_to_utf8 (e_to8 e) fname_len ws), length buf - length r3)) })"

definition entity_copy_obj_info :: "obj_info \<Rightarrow> obj_info \<Rightarrow> obj_info" where
  "entity_copy_obj_info dst src =
     dst\<lparr>store_id := store_id src, obj_fmt := obj_fmt src, protcn_status := protcn_status src,
         file_size := file_size src, thumb_file_size := thumb_file_size src, h_parent := h_parent src,
         association_type := association_type src\<rparr>"

section \<open>Objects\<close>

definition zero_child_array :: ptp_array where
  "zero_child_array = \<lparr>pa_type = UINT32_TYPE, arr_size = 0, num_ele = 0, array_entry = None\<rparr>"

text \<open>The handle counter is returned incremented.\<close>

definition entity_init_mtp_object_params ::
    "u32 \<Rightarrow> u32 \<Rightarrow> u32 \<Rightarrow> string \<Rightarrow> string \<Rightarrow> dir_entry \<Rightarrow> mtp_obj \<times> u32" where
  "entity_init_mtp_object_params next_handle sid parent path fname finfo =
     (\<lparr>obj_handle = next_handle, obj_info = Some (entity_init_object_info_params sid parent fname finfo),
       file_path = Some path, child_array = zero_child_array, propval_list = []\<rparr>, next_handle + 1)"

definition entity_set_object_file_path :: "mtp_obj \<Rightarrow> string \<Rightarrow> mtp_obj" where
  "entity_set_object_file_path obj p = obj\<lparr>file_path := Some p\<rparr>"

definition entity_set_object_file_path_w :: "'fs env \<Rightarrow> mtp_obj \<Rightarrow> u16 list \<Rightarrow> mtp_obj" where
  "entity_set_object_file_path_w e obj w =
     obj\<lparr>file_path := Some (fst (util_utf16_to_utf8 (e_to8 e) (MTP_MAX_PATHNAME_SIZE + 1) w))\<rparr>"

definition entity_add_reference_child_array :: "mtp_obj \<Rightarrow> u32 \<Rightarrow> (mtp_obj \<times> bool) option" where
  "entity_add_reference_child_array obj h = do {
     i \<leftarrow> prop_find_ele_ptparray (child_array obj) h;
     if i = ELEMENT_NOT_FOUND then do {
       (a, ok) \<leftarrow> prop_append_ele_ptparray (child_array obj) h;
       Some (obj\<lparr>child_array := a\<rparr>, ok) }
     else Some (obj, True) }"

definition entity_remove_reference_child_array :: "mtp_obj \<Rightarrow> u32 \<Rightarrow> (mtp_obj \<times> bool) option" where
  "entity_remove_reference_child_array obj h =
     (if h = PTP_OBJECTHANDLE_ALL then Some (obj\<lparr>child_array := prop_deinit_ptparray (child_array obj)\<rparr>, True)
      else do {
        (a, ok) \<leftarrow> prop_rem_elem_ptparray (child_array obj) h;
        Some (obj\<lparr>child_array := a\<rparr>, ok) })"

text \<open>buf_sz is the number of references, each four bytes of the buffer.\<close>

fun append_refs :: "ptp_array \<Rightarrow> u8 list \<Rightarrow> nat \<Rightarrow> ptp_array option" where
  "append_refs a buf 0 = Some a"
| "append_refs a buf (Suc n) = do {
     h \<leftarrow> rd_word buf 0 4;
     (a', _) \<leftarrow> prop_append_ele_ptparray a h;
     append_refs a' (drop 4 buf) n }"

definition entity_set_reference_child_array :: "mtp_obj \<Rightarrow> u8 list \<Rightarrow> u32 \<Rightarrow> (mtp_obj \<times> bool) option" where
  "entity_set_reference_child_array obj buf no_ref =
     (let a = prop_deinit_ptparray (child_array obj)
      in case prop_grow_ptparray a no_ref of
           (a1, False) \<Rightarrow> Some (obj\<lparr>child_array := a1\<rparr>, False)
         | (a1, True) \<Rightarrow> do {
             a2 \<leftarrow> append_refs a1 buf (unat no_ref);
             Some (obj\<lparr>child_array := a2\<rparr>, True) })"

text \<open>The destination keeps its child array and property list.\<close>

definition entity_copy_mtp_object :: "mtp_obj \<Rightarrow> mtp_obj \<Rightarrow> mtp_obj option" where
  "entity_copy_mtp_object dst src = do {
     i \<leftarrow> obj_info src;
     Some (dst\<lparr>obj_info := Some (entity_copy_obj_info zero_info i), obj_handle := 0, file_path := None\<rparr>) }"

section \<open>Packing facts\<close>

lemma scan_wstr_terminated: "\<exists>us. scan_wstr n (ws @ [0]) = Some us \<and> length us \<le> n"
proof (induction ws arbitrary: n)
  case Nil
  then show ?case by (cases n) simp_all
next
  case (Cons w ws)
  show ?case
  proof (cases n)
    case (Suc m)
    with Cons.IH[of m] show ?thesis by auto
  qed simp
qed

lemma utf8_to_utf16_total:
  assumes "n \<le> length dest" "0 < n"
  shows "\<exists>d k. util_utf8_to_utf16 conv True dest n s = Some (d, k) \<and> length d = length dest"
proof (cases "conv s")
  case None
  with assms show ?thesis by (cases dest) (simp_all add: util_utf8_to_utf16_def)
next
  case (Some ws)
  obtain us where "scan_wstr n (ws @ [0]) = Some us" "length us \<le> n"
    using scan_wstr_terminated by blast
  with Some assms show ?thesis
    by (simp add: util_utf8_to_utf16_def util_wchar_ncpy_def over_write_def)
qed

text \<open>A time string is always produced, with count 17 in an array of 20 units.\<close>

lemma copy_time_total:
  assumes "length (str s) = MAX_PTP_TIME_STRING_CHARS"
  shows "\<exists>s'. prop_copy_time_to_ptptimestring conv True s (Some t) = Some s' \<and> num_chars s' = 17
     \<and> length (str s') = MAX_PTP_TIME_STRING_CHARS"
proof -
  obtain d k where "util_utf8_to_utf16 conv True (str s) 20 (take 16 (format_time t)) = Some (d, k)"
    "length d = 20" using utf8_to_utf16_total[of 20 "str s" conv "take 16 (format_time t)"] assms by auto
  then show ?thesis by (simp add: prop_copy_time_to_ptptimestring_def)
qed

definition time_str_ok :: "ptp_string \<Rightarrow> bool" where
  "time_str_ok s \<longleftrightarrow> num_chars s = 17 \<and> length (str s) = MAX_PTP_TIME_STRING_CHARS"

lemma get_file_times_cases:
  assumes "file_path obj = Some p"
  shows "entity_get_file_times e fs obj zero_time_str zero_time_str = Some None
   \<or> (\<exists>ct mt. entity_get_file_times e fs obj zero_time_str zero_time_str = Some (Some (ct, mt))
        \<and> time_str_ok ct \<and> time_str_ok mt)"
proof -
  have z: "length (str zero_time_str) = 20" by (simp add: zero_time_str_def)
  have "\<exists>s'. prop_copy_time_to_ptptimestring (e_to16 e) True zero_time_str (Some t) = Some s' \<and> time_str_ok s'" for t
    using copy_time_total[OF z, of "e_to16 e" t] by (simp add: time_str_ok_def)
  then obtain g where g: "\<And>t. prop_copy_time_to_ptptimestring (e_to16 e) True zero_time_str (Some t) = Some (g t)
      \<and> time_str_ok (g t)" by metis
  show ?thesis
    using assms g by (auto simp: entity_get_file_times_def split: option.splits)
qed

lemma pk_string_ok:
  assumes "unat (num_chars s) \<le> length (str s)"
  shows "pk_string s = Some (ptpstring_bytes s, True)"
  using pack_ptpstring_bytes[OF assms, of "prop_size_ptpstring (Some s)"] by (simp add: pk_string_def)

lemma fixed_part_length [simp]: "length (fixed_part i) = 52"
  by (simp add: fixed_part_def)

lemma keywords_empty:
  "e_kw e = 0 # r \<Longrightarrow> keywords_string e = Some (\<lparr>num_chars = 0, str = e_junk e\<rparr>)"
  by (simp add: keywords_string_def copy_empty_wchar alloc_ptpstring_def)

definition obj_info_bytes :: "obj_info \<Rightarrow> ptp_string \<Rightarrow> ptp_string \<Rightarrow> ptp_string \<Rightarrow> u8 list" where
  "obj_info_bytes i fname ct mt =
     fixed_part i @ ptpstring_bytes fname @ ptpstring_bytes ct @ ptpstring_bytes mt @ [0]"

lemma time_bytes_length: "time_str_ok s \<Longrightarrow> length (ptpstring_bytes s) = 35"
  by (simp add: ptpstring_bytes_length time_str_ok_def)

lemma pack_obj_info_bytes:
  assumes info: "obj_info obj = Some i"
    and times: "entity_get_file_times e fs obj zero_time_str zero_time_str = Some (Some (ct, mt))"
    and ok: "time_str_ok ct" "time_str_ok mt"
    and kw: "e_kw e = 0 # r" and fname: "ptpstring_inv fname"
  shows "\<exists>need. entity_get_object_info_size e fs obj fname = Some need
     \<and> unat need = length (obj_info_bytes i fname ct mt)
     \<and> (\<forall>sz. need \<le> sz \<longrightarrow> entity_pack_obj_info e fs obj fname sz = Some (obj_info_bytes i fname ct mt, need))"
proof -
  let ?need = "FIXED_LENGTH_MEMBERS_SIZE + prop_size_ptpstring (Some fname) + prop_size_ptpstring (Some ct)
     + prop_size_ptpstring (Some mt) + prop_size_ptpstring (Some \<lparr>num_chars = 0, str = e_junk e\<rparr>) :: u32"
  let ?bs = "obj_info_bytes i fname ct mt"
  have nf: "unat (num_chars fname) \<le> length (str fname)"
    using fname by (intro num_chars_le) (simp add: ptpstring_inv_def)
  have n: "unat (num_chars fname) \<le> 255" using unat_u8_less[of "num_chars fname"] by simp
  have len: "length ?bs = 124 + 2 * unat (num_chars fname)"
    using ptpstring_bytes_length[OF nf] time_bytes_length ok by (simp add: obj_info_bytes_def)
  have ts: "prop_size_ptpstring (Some ct) = 35" "prop_size_ptpstring (Some mt) = 35"
    using ok by (simp_all add: prop_size_ptpstring_def time_str_ok_def)
  have ks: "prop_size_ptpstring (Some \<lparr>num_chars = 0, str = e_junk e\<rparr>) = 1"
    by (simp add: prop_size_ptpstring_def)
  have "?need = 123 + prop_size_ptpstring (Some fname)" by (simp only: ts ks) simp
  moreover have "unat (123 + prop_size_ptpstring (Some fname)) = 123 + unat (prop_size_ptpstring (Some fname))"
    using n by (subst unat_add_lem[THEN iffD1]) simp_all
  ultimately have u: "unat ?need = length ?bs" using len by (simp only:) simp
  then have "of_nat (length ?bs) = ?need" by (metis of_nat_unat_word)
  moreover have size: "entity_get_object_info_size e fs obj fname = Some ?need"
    using times keywords_empty[OF kw] by (simp add: entity_get_object_info_size_def)
  moreover have kb: "ptpstring_bytes \<lparr>num_chars = 0, str = e_junk e\<rparr> = [0]"
    by (simp add: ptpstring_bytes_def ptpstring_units_def)
  have "unat (num_chars ct) \<le> length (str ct)" "unat (num_chars mt) \<le> length (str mt)"
    using ok by (simp_all add: time_str_ok_def)
  note parts = pk_string_ok[OF nf] pk_string_ok[OF this(1)] pk_string_ok[OF this(2)]
    pk_string_ok[of "\<lparr>num_chars = 0, str = e_junk e\<rparr>", simplified]
  have "entity_pack_obj_info e fs obj fname sz = Some (?bs, ?need)" if "?need \<le> sz" for sz
    using that info times keywords_empty[OF kw] size parts kb calculation(1)
    by (simp add: entity_pack_obj_info_def pk_bytes_def pk_run_def obj_info_bytes_def not_less[symmetric])
  ultimately show ?thesis using u by blast
qed

section \<open>Parsing facts\<close>

lemma rd_word_at:
  assumes "buf = pre @ le_bytes n (w :: 'a::len word) @ post" "off = length pre" "LENGTH('a) \<le> 8 * n"
  shows "rd_word buf off n = Some w"
  using assms by simp

lemma fixed_info_fixed_part:
  "fixed_info (fixed_part i @ rest) zero_info =
     Some (i\<lparr>file_size := (if 0x100000000 \<le> file_size i then 0xFFFFFFFF else file_size i)\<rparr>)"
proof -
  define sz where "sz = (if 0x100000000 \<le> file_size i then 0xFFFFFFFF else ucast (file_size i) :: u32)"
  let ?b = "fixed_part i @ rest"
  let ?p1 = "le_bytes 4 (store_id i)" and ?p2 = "le_bytes 2 (obj_fmt i)" and ?p3 = "le_bytes 2 (protcn_status i)"
    and ?p4 = "le_bytes 4 sz @ le_bytes 2 (0 :: u16)" and ?p5 = "le_bytes 4 (thumb_file_size i)"
    and ?p6 = "le_bytes 4 (0 :: u32) @ le_bytes 4 (0 :: u32) @ replicate 12 0"
    and ?p7 = "le_bytes 4 (h_parent i)"
  have f: "rd_word ?b 0 4 = Some (store_id i)" "rd_word ?b 4 2 = Some (obj_fmt i)"
    "rd_word ?b 6 2 = Some (protcn_status i)" "rd_word ?b 8 4 = Some sz"
    "rd_word ?b 14 4 = Some (thumb_file_size i)" "rd_word ?b 38 4 = Some (h_parent i)"
    "rd_word ?b 42 2 = Some (association_type i)"
    by (rule rd_word_at[where pre = "[]"] rd_word_at[where pre = ?p1] rd_word_at[where pre = "?p1 @ ?p2"]
        rd_word_at[where pre = "?p1 @ ?p2 @ ?p3"] rd_word_at[where pre = "?p1 @ ?p2 @ ?p3 @ ?p4"]
        rd_word_at[where pre = "?p1 @ ?p2 @ ?p3 @ ?p4 @ ?p5 @ ?p6"]
        rd_word_at[where pre = "?p1 @ ?p2 @ ?p3 @ ?p4 @ ?p5 @ ?p6 @ ?p7"],
        (simp add: fixed_part_def sz_def; fail)+)+
  have "(ucast sz :: u64) = (if 0x100000000 \<le> file_size i then 0xFFFFFFFF else file_size i)"
  proof (cases "0x100000000 \<le> file_size i")
    case True
    then show ?thesis by (simp add: sz_def)
  next
    case False
    then have "unat (file_size i) < 2 ^ 32" by (simp add: word_le_nat_alt)
    then have "unat (ucast (ucast (file_size i) :: u32) :: u64) = unat (file_size i)"
      by (simp add: unat_ucast_up unat_ucast_small)
    with False show ?thesis by (simp add: word_unat_eq_iff sz_def)
  qed
  with f show ?thesis by (simp add: fixed_info_def zero_info_def)
qed

lemma skip_string_bytes:
  assumes "unat (num_chars s) \<le> length (str s)"
  shows "skip_string (ptpstring_bytes s @ rest) = Some rest"
  using ptpstring_bytes_length[OF assms] by (simp add: skip_string_def ptpstring_bytes_def)

lemma skip_string_zero: "skip_string [0] = Some []"
  by (simp add: skip_string_def)


lemma scan_wstr_takeWhile:
  "0 \<in> set us \<Longrightarrow> length us \<le> n \<Longrightarrow> scan_wstr n (us @ r) = Some (takeWhile (\<lambda>u. u \<noteq> 0) us)"
proof (induction us arbitrary: n)
  case (Cons u us)
  then show ?case by (cases n) auto
qed simp

text \<open>A file name read into a zeroed string is found again up to its terminator.\<close>

lemma scan_parsed_name:
  assumes inv: "ptpstring_inv fname" and u: "ptpstring_units s' = ptpstring_units fname"
    and n: "num_chars s' = num_chars fname" and len: "length (str s') = MAX_PTP_STRING_CHARS"
    and tail: "drop (unat (num_chars fname)) (str s') = drop (unat (num_chars fname)) (replicate 255 0)"
  shows "scan_wstr 255 (str s') = Some (takeWhile (\<lambda>u. u \<noteq> 0) (ptpstring_units fname))"
proof (cases "num_chars fname = 0")
  case True
  with tail have "str s' = 0 # replicate 254 0" by (simp add: numeral_eq_Suc)
  moreover have "scan_wstr 255 (0 # replicate 254 0) = Some []"
    using scan_wstr_spec[of "[]" 255 "replicate 254 0"] by simp
  ultimately show ?thesis using True by (simp add: ptpstring_units_def)
next
  case False
  let ?k = "unat (num_chars fname)"
  have k: "0 < ?k" "?k \<le> 255" using False unat_u8_less[of "num_chars fname"] by (simp_all add: unat_gt_0)
  with inv False have "ptpstring_units fname ! (?k - 1) = 0" "?k - 1 < length (ptpstring_units fname)"
    by (simp_all add: ptpstring_inv_def ptpstring_units_def)
  then have z: "0 \<in> set (ptpstring_units fname)" by (metis nth_mem)
  have "str s' = ptpstring_units fname @ drop ?k (str s')"
    using u[symmetric] n by (simp add: ptpstring_units_def)
  moreover have "length (ptpstring_units fname) \<le> 255" using inv k by (simp add: ptpstring_inv_def)
  ultimately show ?thesis using scan_wstr_takeWhile[OF z, of 255 "drop ?k (str s')"] by simp
qed

lemma parse_obj_info_bytes:
  assumes inv: "ptpstring_inv fname" and ok: "time_str_ok ct" "time_str_ok mt"
    and n: "unat n = length (obj_info_bytes i fname ct mt)"
  shows "entity_parse_raw_obj_info e (obj_info_bytes i fname ct mt) n zero_info k =
     Some (Some (i\<lparr>file_size := (if 0x100000000 \<le> file_size i then 0xFFFFFFFF else file_size i)\<rparr>,
       fst (util_utf16_to_utf8 (e_to8 e) k (takeWhile (\<lambda>u. u \<noteq> 0) (ptpstring_units fname))),
       length (obj_info_bytes i fname ct mt)))"
proof -
  let ?times = "ptpstring_bytes ct @ ptpstring_bytes mt @ [0]"
  let ?b = "obj_info_bytes i fname ct mt"
  let ?s0 = "\<lparr>num_chars = 0, str = replicate 255 0\<rparr> :: ptp_string"
  have nf: "unat (num_chars fname) \<le> length (str fname)"
    using inv by (intro num_chars_le) (simp add: ptpstring_inv_def)
  have len: "length ?b = 124 + 2 * unat (num_chars fname)"
    using ptpstring_bytes_length[OF nf] time_bytes_length ok by (simp add: obj_info_bytes_def)
  then have small: "\<not> n < FIXED_LENGTH_MEMBERS_SIZE" "2 * unat (num_chars fname) + 1 \<le> unat n" "unat n < 2 ^ 17"
    using n unat_u8_less[of "num_chars fname"] by (simp_all add: word_less_nat_alt)
  have d52: "drop 52 ?b = ptpstring_bytes fname @ ?times" by (simp add: obj_info_bytes_def)
  obtain s' where s': "prop_parse_rawstring ?s0 (drop 52 ?b) n = Some (s', prop_size_ptpstring (Some fname))"
    "num_chars s' = num_chars fname" "ptpstring_units s' = ptpstring_units fname"
    "drop (unat (num_chars fname)) (str s') = drop (unat (num_chars fname)) (replicate 255 0)"
    "length (str s') = MAX_PTP_STRING_CHARS"
    using parse_ptpstring_bytes[OF inv _ small(2,3), of ?s0 ?times] d52 by auto
  have rest: "drop (52 + unat (prop_size_ptpstring (Some fname))) ?b = ?times"
    using ptpstring_bytes_length[OF nf] by (simp add: obj_info_bytes_def)
  have sk: "skip_string ?times = Some (ptpstring_bytes mt @ [0])" "skip_string (ptpstring_bytes mt @ [0]) = Some [0]"
    using ok by (simp_all add: skip_string_bytes time_str_ok_def)
  have fi: "fixed_info ?b zero_info =
      Some (i\<lparr>file_size := (if 0x100000000 \<le> file_size i then 0xFFFFFFFF else file_size i)\<rparr>)"
    unfolding obj_info_bytes_def by (rule fixed_info_fixed_part)
  show ?thesis
    using small(1) fi s'(1) rest sk skip_string_zero scan_parsed_name[OF inv s'(3,2,5,4)]
    unfolding entity_parse_raw_obj_info_def by (simp add: Let_def del: unat_size_ptpstring)
qed

lemma obj_info_times:
  assumes "entity_pack_obj_info e fs obj fname sz = Some (bs, n)" "n \<noteq> 0" "file_path obj = Some p"
  obtains ct mt where "entity_get_file_times e fs obj zero_time_str zero_time_str = Some (Some (ct, mt))"
    "time_str_ok ct" "time_str_ok mt"
proof -
  have "entity_get_file_times e fs obj zero_time_str zero_time_str \<noteq> Some None"
    using assms(1,2) by (auto simp: entity_pack_obj_info_def bind_eq_Some_conv)
  then show thesis using get_file_times_cases[OF assms(3), of e fs] that by blast
qed

section \<open>References\<close>

lemma zero_child_array_inv: "handle_array_inv zero_child_array" "handle_list zero_child_array = []"
  by (simp_all add: handle_array_inv_def handle_list_def zero_child_array_def ptparray_inv_def ptparray_elems_def)

lemma deinit_grow_handles:
  assumes "pa_type a = UINT32_TYPE" "unat n < 2 ^ 29"
  shows "\<exists>a'. prop_grow_ptparray (prop_deinit_ptparray a) n = (a', True) \<and> handle_array_inv a' \<and> handle_list a' = []"
proof -
  have m: "unat (4 * n) = 4 * unat n" using assms(2) by (subst unat_mult_lem[THEN iffD1]) simp_all
  have z: "n < 100 \<or> 4 * n \<noteq> 0"
  proof (rule disjCI)
    assume "\<not> 4 * n \<noteq> 0"
    with m have "unat n = 0" by simp
    then show "n < 100" by (simp add: word_less_nat_alt)
  qed
  let ?a = "prop_init_ptparray (prop_deinit_ptparray a) UINT32_TYPE"
  have empty: "handle_array_inv a'' \<and> handle_list a'' = []"
    if "ptparray_inv a''" "num_ele a'' = 0" "pa_type a'' = UINT32_TYPE" for a''
    using that by (simp add: handle_array_inv_def handle_list_def ptparray_elems_def)
  have g: "prop_grow_ptparray (prop_deinit_ptparray a) n =
      (if n < 100 then (?a, True)
       else (?a\<lparr>array_entry := Some (g_realloc_block (array_entry ?a) (unat (4 * n))), arr_size := n\<rparr>, True))"
    using assms(1) z by (auto simp: prop_grow_ptparray_def prop_deinit_ptparray_def prop_init_ptparray_def Let_def)
  have "handle_array_inv ?a \<and> handle_list ?a = []"
    by (rule empty) (simp_all add: init_ptparray_inv, simp_all add: prop_init_ptparray_def)
  moreover have "handle_array_inv (?a\<lparr>array_entry := Some (g_realloc_block (array_entry ?a) (unat (4 * n))), arr_size := n\<rparr>)
      \<and> handle_list (?a\<lparr>array_entry := Some (g_realloc_block (array_entry ?a) (unat (4 * n))), arr_size := n\<rparr>) = []"
    if "\<not> n < 100"
    using that m by (intro empty) (auto simp: prop_init_ptparray_def ptparray_inv_def ptparray_elems_def g_realloc_block_def)
  ultimately show ?thesis using g by auto
qed

lemma append_refs_spec:
  assumes "handle_array_inv a" "length (handle_list a) + length hs \<le> 2 ^ 29"
  shows "\<exists>a'. append_refs a (concat (map (le_bytes 4) hs) @ rest) (length hs) = Some a'
     \<and> handle_array_inv a' \<and> handle_list a' = handle_list a @ hs"
  using assms
proof (induction hs arbitrary: a)
  case (Cons h hs)
  from handles.append_law[of a h] Cons.prems obtain a1 where
    "prop_append_ele_ptparray a h = Some (a1, True)" "handle_array_inv a1" "handle_list a1 = handle_list a @ [h]"
    by auto
  moreover have "rd_word (concat (map (le_bytes 4) (h # hs)) @ rest) 0 4 = Some h"
    by (rule rd_word_at[where pre = "[]"]) simp_all
  ultimately show ?case using Cons.IH[of a1] Cons.prems by simp
qed simp

lemma add_reference_as_unique:
  "entity_add_reference_child_array obj h =
     map_option (\<lambda>(a, ok). (obj\<lparr>child_array := a\<rparr>, ok)) (handles.add_unique (child_array obj) h)"
  by (cases obj) (auto simp: entity_add_reference_child_array_def handles.add_unique_def split: Option.bind_split)

section \<open>Properties\<close>


text \<open>C31: reading back the ObjectInfo dataset the responder itself wrote gives the same storage,
  format, protection, parent and association fields and the file name up to its terminator, the
  whole dataset is consumed, and the size is the size of the file, or 0xFFFFFFFF from 4 GB on.\<close>

theorem obj_info_roundtrip:
  assumes "entity_pack_obj_info e fs obj fname sz = Some (bs, n)" "n \<noteq> 0"
    "obj_info obj = Some i" "file_path obj = Some p" "ptpstring_inv fname" "e_kw e = 0 # r"
  shows "entity_parse_raw_obj_info e bs n zero_info k =
     Some (Some (i\<lparr>file_size := (if 0x100000000 \<le> file_size i then 0xFFFFFFFF else file_size i)\<rparr>,
       fst (util_utf16_to_utf8 (e_to8 e) k (takeWhile (\<lambda>u. u \<noteq> 0) (ptpstring_units fname))),
       length bs))"
proof -
  obtain ct mt where t: "entity_get_file_times e fs obj zero_time_str zero_time_str = Some (Some (ct, mt))"
    "time_str_ok ct" "time_str_ok mt" using obj_info_times[OF assms(1,2,4)] .
  from pack_obj_info_bytes[OF assms(3) t assms(6,5)] obtain need where
    need: "entity_get_object_info_size e fs obj fname = Some need"
      "unat need = length (obj_info_bytes i fname ct mt)"
      "\<forall>sz. need \<le> sz \<longrightarrow> entity_pack_obj_info e fs obj fname sz = Some (obj_info_bytes i fname ct mt, need)"
    by blast
  have "need \<le> sz"
  proof (rule ccontr)
    assume "\<not> need \<le> sz"
    with need(1) t(1) assms(1,2,3) keywords_empty[OF assms(6)] show False
      by (simp add: entity_pack_obj_info_def not_le)
  qed
  with need(3) assms(1) have "bs = obj_info_bytes i fname ct mt" "n = need" by auto
  with parse_obj_info_bytes[OF assms(5) t(2,3) need(2)] show ?thesis by (simp only:)
qed

text \<open>A regular file of 5 GB with an ASCII name, and an operating system that knows only it.\<close>

definition demo_os :: "unit os" where
  "demo_os = \<lparr>os_stat = \<lambda>_ _. Some \<lparr>st_kind = S_IFREG, st_writable = True, st_size = 0x140000000,
       st_ctime = 0, st_mtime = 0\<rparr>,
     os_statfs = \<lambda>_ _. None, os_readdir = \<lambda>_ _. None, os_remove = \<lambda>_ _. ((), None),
     os_unlink = \<lambda>_ _. ((), None), os_rmdir = \<lambda>_ _. ((), None), os_mkdir = \<lambda>_ _. ((), None),
     os_rename = \<lambda>_ _ _. ((), None), os_chmod = \<lambda>_ _ _. ((), None), os_create = \<lambda>_ _. ((), None),
     os_content = \<lambda>_ _. Inl ([], False), os_append = \<lambda>_ _ bs. ((), length bs), os_errno = \<lambda>_. EOTHER\<rparr>"

definition demo_env :: "unit env" where
  "demo_env = \<lparr>e_os = demo_os,
     e_localtime = \<lambda>_. Some \<lparr>tm_year = 117, tm_mon = 4, tm_mday = 9, tm_hour = 7, tm_min = 30, tm_sec = 5\<rparr>,
     e_to16 = \<lambda>s. Some (map wchar_of s), e_to8 = \<lambda>ws. Some (map (\<lambda>w. char_of (unat w)) ws),
     e_junk = replicate 255 0, e_kw = [0]\<rparr>"

definition demo_info :: obj_info where
  "demo_info = zero_info\<lparr>store_id := 0x20001, obj_fmt := 0x3801, file_size := 0x140000000, h_parent := 7\<rparr>"

definition demo_obj :: mtp_obj where
  "demo_obj = \<lparr>obj_handle = 9, obj_info = Some demo_info, file_path = Some ''/media/card/a.jpg'',
     child_array = zero_child_array, propval_list = []\<rparr>"

definition demo_name :: ptp_string where
  "demo_name = \<lparr>num_chars = 2, str = 97 # replicate 254 0\<rparr>"

lemma demo_facts:
  "obj_info demo_obj = Some demo_info" "file_path demo_obj = Some ''/media/card/a.jpg''"
  "ptpstring_inv demo_name" "e_kw demo_env = 0 # []"
  by (simp_all add: demo_obj_def demo_name_def demo_env_def ptpstring_inv_def)

lemma demo_times:
  "\<exists>ct mt. entity_get_file_times demo_env () demo_obj zero_time_str zero_time_str = Some (Some (ct, mt))
     \<and> time_str_ok ct \<and> time_str_ok mt"
proof -
  have z: "length (str zero_time_str) = 20" by (simp add: zero_time_str_def)
  have "entity_get_file_times demo_env () demo_obj zero_time_str zero_time_str \<noteq> Some None"
    using copy_time_total[OF z]
    by (auto simp: entity_get_file_times_def demo_env_def demo_obj_def demo_os_def util_get_file_attrs_def
        split: option.splits Option.bind_splits)
  then show ?thesis using get_file_times_cases[OF demo_facts(2), of demo_env "()"] by blast
qed

lemma demo_pack: "\<exists>bs n. entity_pack_obj_info demo_env () demo_obj demo_name 0xFFFFFFFF = Some (bs, n) \<and> n \<noteq> 0"
proof -
  obtain ct mt where "entity_get_file_times demo_env () demo_obj zero_time_str zero_time_str = Some (Some (ct, mt))"
    "time_str_ok ct" "time_str_ok mt" using demo_times by blast
  from pack_obj_info_bytes[OF demo_facts(1) this demo_facts(4,3)] obtain need where
    "unat need = length (obj_info_bytes demo_info demo_name ct mt)"
    "\<forall>sz. need \<le> sz \<longrightarrow> entity_pack_obj_info demo_env () demo_obj demo_name sz =
       Some (obj_info_bytes demo_info demo_name ct mt, need)" by blast
  moreover have "need \<le> 0xFFFFFFFF" using unat_u32_less[of need] by (simp add: word_le_nat_alt)
  moreover have "need \<noteq> 0" using calculation(1) by (auto simp: obj_info_bytes_def)
  ultimately show ?thesis by blast
qed


theorem obj_info_roundtrip_witness:
  "\<exists>bs n. entity_pack_obj_info demo_env () demo_obj demo_name 0xFFFFFFFF = Some (bs, n) \<and> n \<noteq> 0
     \<and> entity_parse_raw_obj_info demo_env bs n zero_info 1025 =
         Some (Some (demo_info\<lparr>file_size := 0xFFFFFFFF\<rparr>, ''a'', length bs))"
proof -
  obtain bs n where p: "entity_pack_obj_info demo_env () demo_obj demo_name 0xFFFFFFFF = Some (bs, n)" "n \<noteq> 0"
    using demo_pack by blast
  have "fst (util_utf16_to_utf8 (e_to8 demo_env) 1025 (takeWhile (\<lambda>u. u \<noteq> 0) (ptpstring_units demo_name))) = ''a''"
    by (simp add: demo_env_def util_utf16_to_utf8_def g_strlcpy_def demo_name_def ptpstring_units_def) (simp add: char_of_def bit_0)
  with obj_info_roundtrip[OF p demo_facts, of 1025] p show ?thesis by (auto simp: demo_info_def)
qed

text \<open>Adding a child reference to an object succeeds, adds the handle exactly if it is not
  there yet, never introduces a duplicate and changes nothing else of the object.\<close>

lemma add_reference_spec:
  assumes "handle_array_inv (child_array obj)" "length (handle_list (child_array obj)) < 2 ^ 29"
  shows "\<exists>a. entity_add_reference_child_array obj h = Some (obj\<lparr>child_array := a\<rparr>, True) \<and> handle_array_inv a
     \<and> set (handle_list a) = insert h (set (handle_list (child_array obj)))
     \<and> (distinct (handle_list (child_array obj)) \<longrightarrow> distinct (handle_list a))"
  using handles.add_unique_spec[OF assms, of h] by (auto simp: add_reference_as_unique)

theorem add_reference_spec_witness:
  "\<exists>a. entity_add_reference_child_array demo_obj 3 = Some (demo_obj\<lparr>child_array := a\<rparr>, True) \<and> handle_array_inv a
     \<and> set (handle_list a) = insert 3 (set (handle_list (child_array demo_obj)))
     \<and> (distinct (handle_list (child_array demo_obj)) \<longrightarrow> distinct (handle_list a))"
  by (rule add_reference_spec) (simp_all add: demo_obj_def zero_child_array_inv)

text \<open>Setting the references of an object from a data phase of n handles stays in bounds,
  succeeds for up to 2^29 handles and replaces the old references by exactly those handles.\<close>

lemma set_reference_spec:
  assumes "pa_type (child_array obj) = UINT32_TYPE" "length hs < 2 ^ 29"
  shows "\<exists>a. entity_set_reference_child_array obj (concat (map (le_bytes 4) hs)) (of_nat (length hs)) =
       Some (obj\<lparr>child_array := a\<rparr>, True) \<and> handle_array_inv a \<and> handle_list a = hs"
proof -
  have n: "unat (of_nat (length hs) :: u32) = length hs" using assms(2) by (simp add: unat_of_nat_eq_small)
  with deinit_grow_handles[OF assms(1), of "of_nat (length hs)"] assms(2) obtain a where a:
    "prop_grow_ptparray (prop_deinit_ptparray (child_array obj)) (of_nat (length hs)) = (a, True)"
    "handle_array_inv a" "handle_list a = []" by auto
  with append_refs_spec[OF a(2), of hs "[]"] assms(2) n show ?thesis
    by (auto simp: entity_set_reference_child_array_def)
qed

theorem set_reference_spec_witness:
  "\<exists>a. entity_set_reference_child_array demo_obj (concat (map (le_bytes 4) [5, 3, 5 :: u32])) (of_nat (length [5, 3, 5 :: u32])) =
       Some (demo_obj\<lparr>child_array := a\<rparr>, True) \<and> handle_array_inv a \<and> handle_list a = [5, 3, 5]"
  by (rule set_reference_spec) (simp_all add: demo_obj_def zero_child_array_def)

end
