(* ===== verification/Store.thy ===== *)
theory Store
  imports Object
begin

text \<open>
  The object store of src/entity/mtp_store.c: storage information, the list of
  objects with its lookups, enumeration of a directory tree into objects,
  traversal by depth, and deletion.  The list of objects is the value
  sequence that theory Slist shows the linked list to implement; an object is
  identified by its handle, which the counter g_next_obj_handle makes unique.
  Recursion over the object tree takes fuel, and None is either undefined
  behaviour or fuel that ran out.
\<close>

section \<open>Storage information\<close>

abbreviation (input) PTP_STORAGETYPE_FIXEDRAM :: u16 where "PTP_STORAGETYPE_FIXEDRAM \<equiv> 0x0003"
abbreviation (input) PTP_FILESYSTEMTYPE_HIERARCHICAL :: u16 where "PTP_FILESYSTEMTYPE_HIERARCHICAL \<equiv> 0x0002"
abbreviation (input) PTP_FILESYSTEMTYPE_DCF :: u16 where "PTP_FILESYSTEMTYPE_DCF \<equiv> 0x0003"
abbreviation (input) PTP_STORAGEACCESS_RWD :: u16 where "PTP_STORAGEACCESS_RWD \<equiv> 0x0000"
abbreviation (input) PTP_STORAGEACCESS_R :: u16 where "PTP_STORAGEACCESS_R \<equiv> 0x0001"
abbreviation (input) PTP_PROTECTIONSTATUS_READONLY :: u16 where "PTP_PROTECTIONSTATUS_READONLY \<equiv> 0x0001"
abbreviation (input) MTP_PROTECTIONSTATUS_READONLY_DATA :: u16 where "MTP_PROTECTIONSTATUS_READONLY_DATA \<equiv> 0x8002"
abbreviation (input) MTP_MAX_STORAGE :: u64 where "MTP_MAX_STORAGE \<equiv> 31457280"
abbreviation (input) MTP_MAX_STORAGE_IN_OBJTS :: u32 where "MTP_MAX_STORAGE_IN_OBJTS \<equiv> 0xFFFFFFFF"
abbreviation (input) MTP_EXTERNAL_STORE_ID :: u32 where "MTP_EXTERNAL_STORE_ID \<equiv> 0x20001"
abbreviation (input) FIXED_LENGTH_MEMBERS_MTPSTORE_SIZE :: u32 where "FIXED_LENGTH_MEMBERS_MTPSTORE_SIZE \<equiv> 26"

record store_info =
  store_type :: u16
  fs_type :: u16
  access :: u16
  capacity :: u64
  free_space :: u64
  free_space_in_objs :: u32
  store_desc :: ptp_string
  vol_label :: ptp_string

record mtp_store =
  root_path :: "string option"
  s_id :: u32
  s_info :: store_info
  obj_list :: "mtp_obj list"
  is_hidden :: bool

definition zero_string :: ptp_string where
  "zero_string = \<lparr>num_chars = 0, str = replicate 255 0\<rparr>"

definition init_store_info :: store_info where
  "init_store_info = \<lparr>store_type = PTP_STORAGETYPE_FIXEDRAM, fs_type = PTP_FILESYSTEMTYPE_DCF,
     access = PTP_STORAGEACCESS_RWD, capacity = MTP_MAX_STORAGE, free_space = MTP_MAX_STORAGE - 1,
     free_space_in_objs = MTP_MAX_STORAGE_IN_OBJTS, store_desc = zero_string, vol_label = zero_string\<rparr>"

definition init_store_info_params ::
    "store_info \<Rightarrow> u64 \<Rightarrow> u16 \<Rightarrow> u16 \<Rightarrow> u16 \<Rightarrow> u16 list \<Rightarrow> u16 list \<Rightarrow> store_info option" where
  "init_store_info_params info cap stype ftype acc desc label = do {
     d \<leftarrow> prop_copy_wchar_to_ptpstring (store_desc info) (Some desc);
     v \<leftarrow> prop_copy_wchar_to_ptpstring (vol_label info) (Some label);
     Some (info\<lparr>store_type := stype, fs_type := ftype, access := acc, capacity := cap, free_space := cap,
                free_space_in_objs := MTP_MAX_STORAGE_IN_OBJTS, store_desc := d, vol_label := v\<rparr>) }"

definition entity_update_store_info_run_time :: "'fs env \<Rightarrow> 'fs \<Rightarrow> store_info \<Rightarrow> string option \<Rightarrow> store_info" where
  "entity_update_store_info_run_time e fs info root =
     (case root of
        None \<Rightarrow> info
      | Some r \<Rightarrow>
          (case util_get_filesystem_info (e_os e) fs r of
             None \<Rightarrow> info
           | Some f \<Rightarrow> info\<lparr>capacity := disk_size f, free_space := avail_size f\<rparr>))"

definition entity_get_store_info_size :: "store_info \<Rightarrow> u32" where
  "entity_get_store_info_size info =
     FIXED_LENGTH_MEMBERS_MTPSTORE_SIZE + prop_size_ptpstring (Some (store_desc info))
     + prop_size_ptpstring (Some (vol_label info))"

definition entity_pack_store_info :: "store_info \<Rightarrow> u32 \<Rightarrow> (u8 list \<times> u32) option" where
  "entity_pack_store_info info buf_sz =
     (if buf_sz < entity_get_store_info_size info then Some ([], 0)
      else pk_run (pk_seq
        [pk_bytes (le_bytes 2 (store_type info)), pk_bytes (le_bytes 2 (fs_type info)),
         pk_bytes (le_bytes 2 (access info)), pk_bytes (le_bytes 8 (capacity info)),
         pk_bytes (le_bytes 8 (free_space info)), pk_bytes (le_bytes 4 (free_space_in_objs info)),
         pk_string (store_desc info), pk_string (vol_label info)]))"

definition entity_get_store_id_by_path :: "string \<Rightarrow> u32" where
  "entity_get_store_id_by_path p =
     (if take (length util_get_external_path) p = util_get_external_path then MTP_EXTERNAL_STORE_ID else 0)"

text \<open>
  The volume label is the serial number of the device, a dash and the storage
  id in hexadecimal; the only id that is accepted is 20001.
\<close>

definition entity_init_mtp_store ::
    "'fs env \<Rightarrow> 'fs \<Rightarrow> u16 list \<Rightarrow> mtp_store \<Rightarrow> u32 \<Rightarrow> string \<Rightarrow> (mtp_store \<times> bool) option" where
  "entity_init_mtp_store e fs serial_no store sid path =
     (let info = entity_update_store_info_run_time e fs init_store_info (Some path);
          st = store\<lparr>s_id := sid, root_path := Some path, s_info := info\<rparr>
      in if sid = MTP_EXTERNAL_STORE_ID then do {
           serial \<leftarrow> scan_wstr 255 serial_no;
           let label = g_strlcpy (fst (util_utf16_to_utf8 (e_to8 e) 33 serial) @ ''-20001'') 129;
           (wlabel, _) \<leftarrow> util_utf8_to_utf16 (e_to16 e) True (replicate 129 0) 129 label;
           (wdesc, _) \<leftarrow> util_utf8_to_utf16 (e_to16 e) True (replicate 129 0) 129 ''Card Storage'';
           info' \<leftarrow> init_store_info_params info (capacity info) PTP_STORAGETYPE_FIXEDRAM
                     PTP_FILESYSTEMTYPE_HIERARCHICAL PTP_STORAGEACCESS_RWD wdesc wlabel;
           Some (st\<lparr>is_hidden := False, s_info := info', obj_list := []\<rparr>, True) }
         else Some (st, False))"

section \<open>Lookups\<close>

definition entity_get_object_from_store :: "mtp_store \<Rightarrow> u32 \<Rightarrow> mtp_obj option" where
  "entity_get_object_from_store st h = find (\<lambda>obj. obj_handle obj = h) (obj_list st)"

definition entity_get_last_object_from_store :: "mtp_store \<Rightarrow> u32 \<Rightarrow> mtp_obj option" where
  "entity_get_last_object_from_store st h =
     foldl (\<lambda>r obj. if obj_handle obj = h then Some obj else r) None (obj_list st)"

definition entity_get_object_from_store_by_path :: "mtp_store \<Rightarrow> string \<Rightarrow> mtp_obj option" where
  "entity_get_object_from_store_by_path st p = find (\<lambda>obj. file_path obj = Some p) (obj_list st)"

text \<open>Appending the handles of the objects that pass a test; a test may be undefined.\<close>

definition append_matching :: "(mtp_obj \<Rightarrow> bool option) \<Rightarrow> mtp_obj list \<Rightarrow> ptp_array \<Rightarrow> ptp_array option" where
  "append_matching P objs arr =
     foldM (\<lambda>obj a. do {
       b \<leftarrow> P obj;
       if b then map_option fst (prop_append_ele_ptparray a (obj_handle obj)) else Some a }) objs arr"

definition entity_get_objects_from_store :: "mtp_store \<Rightarrow> u32 \<Rightarrow> u32 \<Rightarrow> ptp_array \<Rightarrow> ptp_array option" where
  "entity_get_objects_from_store st h fmt arr =
     (if h \<noteq> PTP_OBJECTHANDLE_ALL then Some arr
      else append_matching (\<lambda>obj. do {
             i \<leftarrow> obj_info obj;
             Some (fmt = ucast (obj_fmt i) \<or> fmt = PTP_FORMATCODE_ALL \<or> fmt = PTP_FORMATCODE_NOTUSED) })
             (obj_list st) arr)"

definition entity_get_objects_from_store_by_format :: "mtp_store \<Rightarrow> u32 \<Rightarrow> ptp_array \<Rightarrow> ptp_array option" where
  "entity_get_objects_from_store_by_format st fmt arr =
     append_matching (\<lambda>obj. Some (case obj_info obj of
         None \<Rightarrow> False
       | Some i \<Rightarrow> fmt = PTP_FORMATCODE_NOTUSED \<or> fmt = ucast (obj_fmt i)
                  \<or> (fmt = PTP_FORMATCODE_ALL \<and> obj_fmt i \<noteq> PTP_FMT_ASSOCIATION)))
       (obj_list st) arr"

definition has_parent :: "u32 \<Rightarrow> mtp_obj \<Rightarrow> bool" where
  "has_parent h obj = (case obj_info obj of None \<Rightarrow> False | Some i \<Rightarrow> h_parent i = h)"

definition entity_get_child_handles :: "mtp_store \<Rightarrow> u32 \<Rightarrow> ptp_array \<Rightarrow> ptp_array option" where
  "entity_get_child_handles st h arr =
     (if entity_get_object_from_store st h = None then Some arr
      else append_matching (\<lambda>obj. Some (has_parent h obj)) (obj_list st) arr)"

definition entity_get_child_handles_with_same_format ::
    "mtp_store \<Rightarrow> u32 \<Rightarrow> u32 \<Rightarrow> ptp_array \<Rightarrow> ptp_array option" where
  "entity_get_child_handles_with_same_format st h fmt arr =
     append_matching (\<lambda>obj. Some (case obj_info obj of
         None \<Rightarrow> False
       | Some i \<Rightarrow> h_parent i = h \<and> (ucast (obj_fmt i) = fmt \<or> fmt = PTP_FORMATCODE_NOTUSED)))
       (obj_list st) arr"

text \<open>The recursion is bounded by the depth, so the depth is its argument.\<close>

primrec till_depth :: "nat \<Rightarrow> mtp_store \<Rightarrow> u32 \<Rightarrow> u32 \<Rightarrow> ptp_array \<Rightarrow> ptp_array option" where
  "till_depth 0 st h fmt arr =
     (if h = PTP_OBJECTHANDLE_ALL then entity_get_objects_from_store st h fmt arr
      else if h \<noteq> PTP_OBJECTHANDLE_ROOT then map_option fst (prop_append_ele_ptparray arr h) else Some arr)"
| "till_depth (Suc d) st h fmt arr =
     (if h = PTP_OBJECTHANDLE_ALL then entity_get_objects_from_store st h fmt arr
      else do {
        a \<leftarrow> (if h \<noteq> PTP_OBJECTHANDLE_ROOT then map_option fst (prop_append_ele_ptparray arr h) else Some arr);
        child_arr \<leftarrow> entity_get_child_handles_with_same_format st h fmt (prop_alloc_ptparray UINT32_TYPE);
        hs \<leftarrow> ptparray_elems child_arr;
        foldM (\<lambda>c a. till_depth d st c fmt a) hs a })"

definition entity_get_objects_from_store_till_depth ::
    "mtp_store \<Rightarrow> u32 \<Rightarrow> u32 \<Rightarrow> u32 \<Rightarrow> ptp_array \<Rightarrow> ptp_array option" where
  "entity_get_objects_from_store_till_depth st h fmt depth arr = till_depth (unat depth) st h fmt arr"

section \<open>Adding objects\<close>

text \<open>The object with a handle is changed in place.\<close>

fun update_obj :: "u32 \<Rightarrow> (mtp_obj \<Rightarrow> mtp_obj) \<Rightarrow> mtp_obj list \<Rightarrow> mtp_obj list" where
  "update_obj h f [] = []"
| "update_obj h f (obj # objs) = (if obj_handle obj = h then f obj # objs else obj # update_obj h f objs)"

definition entity_add_object_to_store :: "mtp_store \<Rightarrow> mtp_obj \<Rightarrow> (mtp_store \<times> bool) option" where
  "entity_add_object_to_store st obj =
     (case obj_info obj of
        None \<Rightarrow> Some (st, False)
      | Some i \<Rightarrow>
          (let st1 = st\<lparr>obj_list := obj_list st @ [obj]\<rparr>
           in if h_parent i = PTP_OBJECTHANDLE_ROOT then Some (st1, True)
              else (case entity_get_object_from_store st1 (h_parent i) of
                      None \<Rightarrow> Some (st1, True)
                    | Some par \<Rightarrow> do {
                        (par', _) \<leftarrow> entity_add_reference_child_array par (obj_handle obj);
                        Some (st1\<lparr>obj_list := update_obj (h_parent i) (\<lambda>_. par') (obj_list st1)\<rparr>, True) })))"

text \<open>Files and folders are added in the same way; the object's handle is returned.\<close>

definition entity_add_file_to_store ::
    "mtp_store \<Rightarrow> u32 \<Rightarrow> u32 \<Rightarrow> string \<Rightarrow> string \<Rightarrow> dir_entry \<Rightarrow> (mtp_store \<times> u32 \<times> mtp_obj) option" where
  "entity_add_file_to_store st next_handle parent path fname finfo =
     (case entity_init_mtp_object_params next_handle (s_id st) parent path fname finfo of
        (obj, nxt) \<Rightarrow> do {
          (st', _) \<leftarrow> entity_add_object_to_store st obj;
          Some (st', nxt, obj) })"

definition entity_add_folder_to_store ::
    "mtp_store \<Rightarrow> u32 \<Rightarrow> u32 \<Rightarrow> string \<Rightarrow> string \<Rightarrow> dir_entry \<Rightarrow> (mtp_store \<times> u32 \<times> mtp_obj) option" where
  "entity_add_folder_to_store st next_handle parent path fname finfo =
     (case entity_init_mtp_object_params next_handle (s_id st) parent path fname finfo of
        (obj, nxt) \<Rightarrow> do {
          (st', _) \<leftarrow> entity_add_object_to_store st obj;
          Some (st', nxt, obj) })"

section \<open>Enumeration\<close>

text \<open>
  stop gives, for the n-th look at the flags g_status, whether the connection
  is gone.  The watches collect the folders given to the inotify component.
\<close>

record enum_state =
  en_store :: mtp_store
  en_next :: u32
  en_clk :: nat
  en_watch :: "string list"

definition enum_entry ::
    "(mtp_obj \<Rightarrow> enum_state \<Rightarrow> enum_state option) \<Rightarrow> u32 \<Rightarrow> dir_entry \<Rightarrow> enum_state \<Rightarrow> enum_state option" where
  "enum_entry rec parent entry s =
     (let fname = util_get_file_name (filename entry)
      in if fname = [] \<or> hd fname = CHR ''.'' then Some s
         else (case dtype entry of
                 MTP_DIR_TYPE \<Rightarrow> do {
                   (st, nxt, obj) \<leftarrow> entity_add_folder_to_store (en_store s) (en_next s) parent
                                      (filename entry) fname entry;
                   rec obj (s\<lparr>en_store := st, en_next := nxt\<rparr>) }
               | MTP_FILE_TYPE \<Rightarrow> do {
                   (st, nxt, obj) \<leftarrow> entity_add_file_to_store (en_store s) (en_next s) parent
                                      (filename entry) fname entry;
                   Some (s\<lparr>en_store := st, en_next := nxt\<rparr>) }
               | MTP_ALL_TYPE \<Rightarrow> Some s))"

function enum_loop ::
    "'fs os \<Rightarrow> 'fs \<Rightarrow> (nat \<Rightarrow> bool) \<Rightarrow> (mtp_obj \<Rightarrow> enum_state \<Rightarrow> enum_state option) \<Rightarrow> string \<Rightarrow> u32 \<Rightarrow>
     string list \<Rightarrow> dir_entry \<Rightarrow> enum_state \<Rightarrow> enum_state option" where
  "enum_loop os fs stop rec dir parent names entry s =
     (let s0 = s\<lparr>en_clk := Suc (en_clk s)\<rparr>
      in if stop (en_clk s) then Some s0
         else do {
           s1 \<leftarrow> enum_entry rec parent entry s0;
           (case util_ifind_next os fs dir names entry of
              None \<Rightarrow> Some (s1\<lparr>en_watch := en_watch s1 @ [dir]\<rparr>)
            | Some (names', entry') \<Rightarrow> enum_loop os fs stop rec dir parent names' entry' s1) })"
  by pat_completeness auto
termination
  by (relation "measure (\<lambda>(os, fs, stop, rec, dir, parent, names, entry, s). length names)")
    (auto dest: ifind_next_shrinks)

declare enum_loop.simps [simp del]

definition zero_entry :: dir_entry where
  "zero_entry = \<lparr>filename = [], dtype = MTP_FILE_TYPE,
     dattrs = \<lparr>attribute = 0, fsize = 0, fctime = 0, fmtime = 0\<rparr>\<rparr>"

fun enum_folder ::
    "nat \<Rightarrow> 'fs os \<Rightarrow> 'fs \<Rightarrow> (nat \<Rightarrow> bool) \<Rightarrow> mtp_obj option \<Rightarrow> enum_state \<Rightarrow> enum_state option" where
  "enum_folder 0 os fs stop pobj s = None"
| "enum_folder (Suc fuel) os fs stop pobj s =
     (let (folder, parent) = (case pobj of None \<Rightarrow> (root_path (en_store s), PTP_OBJECTHANDLE_ROOT)
                              | Some p \<Rightarrow> (file_path p, obj_handle p))
      in case folder of
           None \<Rightarrow> Some s
         | Some dir \<Rightarrow>
             if dir = [] \<or> hd dir \<noteq> CHR ''/'' then Some s
             else (case util_ifind_first os fs dir zero_entry of
                     None \<Rightarrow> Some s
                   | Some (names, entry) \<Rightarrow>
                       enum_loop os fs stop (\<lambda>obj. enum_folder fuel os fs stop (Some obj))
                         dir parent names entry s))"

definition entity_store_recursive_enum_folder_objects ::
    "nat \<Rightarrow> 'fs env \<Rightarrow> 'fs \<Rightarrow> (nat \<Rightarrow> bool) \<Rightarrow> mtp_obj option \<Rightarrow> enum_state \<Rightarrow> enum_state option" where
  "entity_store_recursive_enum_folder_objects fuel e fs stop pobj s = enum_folder fuel (e_os e) fs stop pobj s"

section \<open>Deletion\<close>

text \<open>
  d_resp and d_one are the output parameters response and atleast_one, d_last
  the global g_last_deleted that the inotify component compares with, and
  d_clk counts the looks at the flags.
\<close>

record 'fs del_state =
  d_store :: mtp_store
  d_fs :: 'fs
  d_last :: string
  d_resp :: u16
  d_one :: bool
  d_clk :: nat

definition tick :: "'fs del_state \<Rightarrow> 'fs del_state" where
  "tick s = s\<lparr>d_clk := Suc (d_clk s)\<rparr>"

definition del_obj :: "u32 \<Rightarrow> 'fs del_state \<Rightarrow> 'fs del_state" where
  "del_obj h s = s\<lparr>d_store := (d_store s)\<lparr>obj_list :=
     (case entity_get_object_from_store (d_store s) h of
        None \<Rightarrow> obj_list (d_store s) | Some obj \<Rightarrow> remove1 obj (obj_list (d_store s)))\<rparr>\<rparr>"

definition errno_response :: "errno \<Rightarrow> u16" where
  "errno_response e = (if e = EACCES then PTP_RESPONSE_ACCESSDENIED else PTP_RESPONSE_GEN_ERROR)"

text \<open>
  The loop over the children.  The last component of the result tells that
  the operation was cut off and returns at once.
\<close>

fun remove_children ::
    "(nat \<Rightarrow> bool) \<Rightarrow> (u32 \<Rightarrow> 'fs del_state \<Rightarrow> ('fs del_state \<times> bool) option) \<Rightarrow> u32 list \<Rightarrow> bool \<Rightarrow>
     'fs del_state \<Rightarrow> ('fs del_state \<times> bool \<times> bool) option" where
  "remove_children stop rec [] all_del s = Some (s, all_del, False)"
| "remove_children stop rec (c # cs) all_del s =
     (if stop (d_clk s) then Some ((tick s)\<lparr>d_resp := PTP_RESPONSE_PARTIAL_DELETION\<rparr>, all_del, True)
      else if entity_get_object_from_store (d_store s) c = None then remove_children stop rec cs all_del (tick s)
      else do {
        (s1, ok) \<leftarrow> rec c (tick s);
        if ok then remove_children stop rec cs all_del (del_obj c (s1\<lparr>d_one := True\<rparr>))
        else if stop (d_clk s1) then Some ((tick s1)\<lparr>d_resp := PTP_RESPONSE_PARTIAL_DELETION\<rparr>, False, True)
        else remove_children stop rec cs False (tick s1) })"

text \<open>A folder without enumerated children is emptied in the file system.\<close>

definition remove_plain_children ::
    "nat \<Rightarrow> 'fs os \<Rightarrow> string \<Rightarrow> 'fs del_state \<Rightarrow> 'fs del_state \<times> bool \<times> bool" where
  "remove_plain_children ff os path s =
     (case util_remove_dir_children_recursive ff os (d_fs s) path 0 0 of
        (fs', del, tot, ret) \<Rightarrow>
          (let s1 = s\<lparr>d_fs := fs'\<rparr>
           in if ret = MTP_ERROR_GENERAL then (s1\<lparr>d_resp := PTP_RESPONSE_GEN_ERROR\<rparr>, True, True)
              else if ret = MTP_ERROR_ACCESS_DENIED then (s1\<lparr>d_resp := PTP_RESPONSE_ACCESSDENIED\<rparr>, True, True)
              else if tot = 0 then (s1, True, False)
              else if del = 0 then (s1, False, False)
              else if del < tot then (s1\<lparr>d_one := True\<rparr>, False, False)
              else (s1, True, False)))"

text \<open>Removing the directory or file itself; False is an early return.\<close>

definition remove_folder :: "'fs os \<Rightarrow> string \<Rightarrow> 'fs del_state \<Rightarrow> 'fs del_state \<times> bool" where
  "remove_folder os path s =
     (case os_rmdir os (d_fs s) path of
        (fs', None) \<Rightarrow> (s\<lparr>d_fs := fs', d_last := g_strlcpy path (MTP_MAX_PATHNAME_SIZE + 1)\<rparr>, True)
      | (fs', Some er) \<Rightarrow> (s\<lparr>d_fs := fs', d_last := [], d_resp := errno_response er\<rparr>, False))"

definition remove_file :: "'fs os \<Rightarrow> obj_info \<Rightarrow> string \<Rightarrow> 'fs del_state \<Rightarrow> 'fs del_state \<times> bool" where
  "remove_file os info path s =
     (if protcn_status info = PTP_PROTECTIONSTATUS_READONLY
         \<or> protcn_status info = MTP_PROTECTIONSTATUS_READONLY_DATA
      then (s\<lparr>d_resp := PTP_RESPONSE_OBJ_WRITEPROTECTED\<rparr>, False)
      else (case os_remove os (d_fs s) path of
              (fs', None) \<Rightarrow>
                (s\<lparr>d_fs := fs', d_last := g_strlcpy path (MTP_MAX_PATHNAME_SIZE + 1), d_one := True\<rparr>, True)
            | (fs', Some er) \<Rightarrow> (s\<lparr>d_fs := fs', d_last := [], d_resp := errno_response er\<rparr>, False)))"

definition drop_reference :: "u32 \<Rightarrow> u32 \<Rightarrow> mtp_store \<Rightarrow> mtp_store option" where
  "drop_reference parent h st =
     (if parent = PTP_OBJECTHANDLE_ROOT then Some st
      else (case entity_get_object_from_store st parent of
              None \<Rightarrow> Some st
            | Some par \<Rightarrow> do {
                (par', _) \<leftarrow> entity_remove_reference_child_array par h;
                Some (st\<lparr>obj_list := update_obj parent (\<lambda>_. par') (obj_list st)\<rparr>) }))"

definition remove_finish :: "u32 \<Rightarrow> obj_info \<Rightarrow> bool \<Rightarrow> 'fs del_state \<Rightarrow> ('fs del_state \<times> bool) option" where
  "remove_finish h info all_del s =
     (if all_del then do {
        st \<leftarrow> drop_reference (h_parent info) h (d_store s);
        Some (s\<lparr>d_resp := PTP_RESPONSE_OK, d_store := st\<rparr>, True) }
      else if d_one s then Some (s\<lparr>d_resp := PTP_RESPONSE_PARTIAL_DELETION\<rparr>, False)
      else Some (s\<lparr>d_resp := PTP_RESPONSE_OBJ_WRITEPROTECTED\<rparr>, False))"

definition format_matches :: "obj_info \<Rightarrow> u32 \<Rightarrow> bool" where
  "format_matches info fmt \<longleftrightarrow>
     (ucast (obj_fmt info) = fmt \<or> fmt = PTP_FORMATCODE_ALL \<or> fmt = PTP_FORMATCODE_NOTUSED)
     \<and> \<not> (fmt = PTP_FORMATCODE_ALL \<and> obj_fmt info = PTP_FMT_ASSOCIATION)"

fun remove_object ::
    "nat \<Rightarrow> nat \<Rightarrow> 'fs os \<Rightarrow> (nat \<Rightarrow> bool) \<Rightarrow> u32 \<Rightarrow> u32 \<Rightarrow> 'fs del_state \<Rightarrow> ('fs del_state \<times> bool) option" where
  "remove_object 0 ff os stop fmt h s = None"
| "remove_object (Suc fuel) ff os stop fmt h s =
     (if stop (d_clk s) then Some ((tick s)\<lparr>d_resp := PTP_RESPONSE_PARTIAL_DELETION\<rparr>, False)
      else (case entity_get_object_from_store (d_store s) h of
        None \<Rightarrow> Some ((tick s)\<lparr>d_resp := PTP_RESPONSE_UNDEFINED\<rparr>, False)
      | Some obj \<Rightarrow>
          (case obj_info obj of
             None \<Rightarrow> Some ((tick s)\<lparr>d_resp := PTP_RESPONSE_UNDEFINED\<rparr>, False)
           | Some info \<Rightarrow>
               if \<not> format_matches info fmt then Some ((tick s)\<lparr>d_resp := PTP_RESPONSE_UNDEFINED\<rparr>, False)
               else if obj_fmt info = PTP_FMT_ASSOCIATION then do {
                 child_arr \<leftarrow> entity_get_child_handles (d_store s) h (prop_alloc_ptparray UINT32_TYPE);
                 hs \<leftarrow> ptparray_elems child_arr;
                 path \<leftarrow> file_path obj;
                 (s1, all_del, cut) \<leftarrow>
                   (if hs \<noteq> [] then remove_children stop (remove_object fuel ff os stop fmt) hs True (tick s)
                    else Some (remove_plain_children ff os path (tick s)));
                 if cut then Some (s1, False)
                 else if all_del then
                   (case remove_folder os path s1 of
                      (s2, True) \<Rightarrow> remove_finish h info True s2
                    | (s2, False) \<Rightarrow> Some (s2, False))
                 else remove_finish h info False s1 }
               else do {
                 path \<leftarrow> file_path obj;
                 (case remove_file os info path (tick s) of
                    (s2, True) \<Rightarrow> remove_finish h info True s2
                  | (s2, False) \<Rightarrow> Some (s2, False)) })))"

definition entity_remove_object_mtp_store ::
    "nat \<Rightarrow> nat \<Rightarrow> 'fs env \<Rightarrow> (nat \<Rightarrow> bool) \<Rightarrow> u32 \<Rightarrow> u32 \<Rightarrow> 'fs del_state \<Rightarrow> ('fs del_state \<times> bool) option" where
  "entity_remove_object_mtp_store fuel ff e stop h fmt s = remove_object fuel ff (e_os e) stop fmt h s"

text \<open>
  The loop over all objects: the node moves to its successor after the removal
  of its object, children included.
\<close>

definition successor :: "u32 \<Rightarrow> mtp_obj list \<Rightarrow> u32 option" where
  "successor h objs =
     (case dropWhile (\<lambda>obj. obj_handle obj \<noteq> h) objs of _ # obj # _ \<Rightarrow> Some (obj_handle obj) | _ \<Rightarrow> None)"

definition keeps_all_del :: "u16 \<Rightarrow> bool" where
  "keeps_all_del r \<longleftrightarrow> r \<notin> {PTP_RESPONSE_PARTIAL_DELETION, PTP_RESPONSE_OBJ_WRITEPROTECTED, PTP_RESPONSE_ACCESSDENIED}"

text \<open>The result None of the first component is the early return of GEN_ERROR.\<close>

fun delete_all ::
    "nat \<Rightarrow> nat \<Rightarrow> nat \<Rightarrow> 'fs os \<Rightarrow> (nat \<Rightarrow> bool) \<Rightarrow> u32 \<Rightarrow> u32 option \<Rightarrow> bool \<Rightarrow> 'fs del_state \<Rightarrow>
     ('fs del_state \<times> bool option) option" where
  "delete_all n fuel ff os stop fmt None all_del s = Some (s, Some all_del)"
| "delete_all 0 fuel ff os stop fmt (Some h) all_del s = None"
| "delete_all (Suc n) fuel ff os stop fmt (Some h) all_del s =
     (if stop (d_clk s) then Some (tick s, None)
      else do {
        (s1, ok) \<leftarrow> remove_object fuel ff os stop fmt h (tick s);
        let nxt = successor h (obj_list (d_store s1));
        delete_all n fuel ff os stop fmt nxt (all_del \<and> keeps_all_del (d_resp s1)) (if ok then del_obj h s1 else s1) })"

definition final_response :: "bool \<Rightarrow> 'fs del_state \<Rightarrow> u16" where
  "final_response all_del s =
     (if all_del then PTP_RESPONSE_OK else if d_one s then PTP_RESPONSE_PARTIAL_DELETION else d_resp s)"

definition entity_delete_obj_mtp_store ::
    "nat \<Rightarrow> nat \<Rightarrow> 'fs env \<Rightarrow> (nat \<Rightarrow> bool) \<Rightarrow> u32 \<Rightarrow> u32 \<Rightarrow> 'fs del_state \<Rightarrow> ('fs del_state \<times> u16) option" where
  "entity_delete_obj_mtp_store fuel ff e stop h fmt s0 =
     (let s = s0\<lparr>d_one := False\<rparr>; objs = obj_list (d_store s)
      in if access (s_info (d_store s)) = PTP_STORAGEACCESS_R then Some (s, PTP_RESPONSE_STORE_READONLY)
         else if h = PTP_OBJECTHANDLE_ALL then do {
           (s1, r) \<leftarrow> delete_all (length objs) fuel ff (e_os e) stop fmt
                        (case objs of [] \<Rightarrow> None | obj # _ \<Rightarrow> Some (obj_handle obj)) True s;
           Some (s1, case r of None \<Rightarrow> PTP_RESPONSE_GEN_ERROR | Some all_del \<Rightarrow> final_response all_del s1) }
         else if entity_get_object_from_store (d_store s) h = None then Some (s, PTP_RESPONSE_OK)
         else do {
           (s1, ok) \<leftarrow> remove_object fuel ff (e_os e) stop PTP_FORMATCODE_NOTUSED h s;
           Some (if ok then (del_obj h s1, PTP_RESPONSE_OK)
                 else (s1, final_response (keeps_all_del (d_resp s1)) s1)) })"

section \<open>Tree queries\<close>

text \<open>The sum is kept in 64 bits but every recursive result is cut to 32.\<close>

fun tree_size :: "nat \<Rightarrow> mtp_store \<Rightarrow> mtp_obj option \<Rightarrow> u32 option" where
  "tree_size 0 st obj = None"
| "tree_size (Suc fuel) st None = Some 0"
| "tree_size (Suc fuel) st (Some obj) = do {
     info \<leftarrow> obj_info obj;
     if obj_fmt info \<noteq> PTP_FMT_ASSOCIATION then Some (ucast (file_size info))
     else do {
       child_arr \<leftarrow> entity_get_child_handles st (obj_handle obj) (prop_alloc_ptparray UINT32_TYPE);
       hs \<leftarrow> ptparray_elems child_arr;
       sizes \<leftarrow> those (map (\<lambda>c. tree_size fuel st (entity_get_object_from_store st c)) hs);
       Some (ucast (sum_list (map ucast sizes :: u64 list))) } }"

definition entity_get_object_tree_size :: "nat \<Rightarrow> mtp_store \<Rightarrow> mtp_obj \<Rightarrow> u32 option" where
  "entity_get_object_tree_size fuel st obj = tree_size fuel st (Some obj)"

text \<open>The search goes into the children that are not folders.\<close>

fun any_child :: "(u32 \<Rightarrow> bool option) \<Rightarrow> mtp_store \<Rightarrow> u32 \<Rightarrow> u32 list \<Rightarrow> bool option" where
  "any_child rec st hA [] = Some False"
| "any_child rec st hA (c # cs) =
     (if hA = c then Some True
      else (case Option.bind (entity_get_object_from_store st c) obj_info of
              None \<Rightarrow> any_child rec st hA cs
            | Some info \<Rightarrow>
                if obj_fmt info = PTP_FMT_ASSOCIATION then any_child rec st hA cs
                else do {
                  r \<leftarrow> rec c;
                  if r then Some True else any_child rec st hA cs }))"

fun entity_check_if_B_parent_of_A :: "nat \<Rightarrow> mtp_store \<Rightarrow> u32 \<Rightarrow> u32 \<Rightarrow> bool option" where
  "entity_check_if_B_parent_of_A 0 st hA hB = None"
| "entity_check_if_B_parent_of_A (Suc fuel) st hA hB = do {
     child_arr \<leftarrow> entity_get_child_handles st hB (prop_alloc_ptparray UINT32_TYPE);
     hs \<leftarrow> ptparray_elems child_arr;
     any_child (entity_check_if_B_parent_of_A fuel st hA) st hA hs }"

definition entity_destroy_mtp_store :: "mtp_store \<Rightarrow> mtp_store" where
  "entity_destroy_mtp_store st = st\<lparr>obj_list := []\<rparr>"

definition entity_copy_store_data :: "'fs env \<Rightarrow> 'fs \<Rightarrow> mtp_store \<Rightarrow> mtp_store \<Rightarrow> mtp_store option" where
  "entity_copy_store_data e fs dst src =
     (let info = entity_update_store_info_run_time e fs (s_info dst) (root_path src)
      in do {
        d \<leftarrow> prop_copy_ptpstring (store_desc info) (store_desc (s_info src));
        v \<leftarrow> prop_copy_ptpstring (vol_label info) (vol_label (s_info src));
        Some (dst\<lparr>s_id := s_id src, root_path := root_path src, is_hidden := is_hidden src,
                  obj_list := obj_list src, s_info := info\<lparr>store_desc := d, vol_label := v\<rparr>\<rparr>) })"

end
