(* ===== verification/Store_Inv.thy ===== *)
theory Store_Inv
  imports Store
begin

text \<open>
  Invariant and correctness of the object store: handles are unique and below
  the counter, every parent is older than its children (so the objects form a
  forest and the recursions over it end), and the reference arrays never
  dangle.  Enumeration is shown to be the preorder traversal of the directory
  tree; deletion ends, keeps the invariant and removes exactly what it says.
\<close>

section \<open>The invariant\<close>

definition child_set :: "mtp_obj list \<Rightarrow> u32 \<Rightarrow> u32 set" where
  "child_set objs h = obj_handle ` {c \<in> set objs. has_parent h c}"

definition obj_ok :: "nat \<Rightarrow> mtp_obj list \<Rightarrow> mtp_obj \<Rightarrow> bool" where
  "obj_ok nxt objs obj \<longleftrightarrow>
     (case obj_info obj of None \<Rightarrow> False | Some i \<Rightarrow> unat (h_parent i) < unat (obj_handle obj))
   \<and> file_path obj \<noteq> None \<and> unat (obj_handle obj) < nxt
   \<and> handle_array_inv (child_array obj) \<and> distinct (handle_list (child_array obj))
   \<and> set (handle_list (child_array obj)) \<subseteq> child_set objs (obj_handle obj)"

definition objs_ok :: "nat \<Rightarrow> mtp_obj list \<Rightarrow> bool" where
  "objs_ok nxt objs \<longleftrightarrow>
     0 < nxt \<and> nxt \<le> 2 ^ 29 \<and> distinct (map obj_handle objs)
   \<and> (\<forall>obj\<in>set objs. obj_ok nxt objs obj)"

abbreviation handles_of :: "mtp_obj list \<Rightarrow> u32 list" where
  "handles_of objs \<equiv> map obj_handle objs"

text \<open>What never changes of a stored object: handle, information and path.\<close>

definition obj_key :: "mtp_obj \<Rightarrow> u32 \<times> obj_info option \<times> string option" where
  "obj_key obj = (obj_handle obj, obj_info obj, file_path obj)"

lemma find_handle:
  assumes "distinct (handles_of objs)"
  shows "find (\<lambda>obj. obj_handle obj = h) objs = Some obj \<longleftrightarrow> obj \<in> set objs \<and> obj_handle obj = h"
  using assms
proof (induction objs)
  case (Cons x xs)
  then show ?case by (auto simp: image_iff)
qed simp

lemma get_object_None: "entity_get_object_from_store st h = None \<longleftrightarrow> h \<notin> set (handles_of (obj_list st))"
  by (auto simp: entity_get_object_from_store_def find_None_iff)

lemma get_object_Some:
  assumes "objs_ok nxt (obj_list st)"
  shows "entity_get_object_from_store st h = Some obj \<longleftrightarrow> obj \<in> set (obj_list st) \<and> obj_handle obj = h"
  using assms by (simp add: entity_get_object_from_store_def find_handle objs_ok_def)

lemma objs_ok_obj:
  assumes "objs_ok nxt objs" "obj \<in> set objs"
  obtains i p where "obj_info obj = Some i" "unat (h_parent i) < unat (obj_handle obj)" "file_path obj = Some p"
    "unat (obj_handle obj) < nxt" "handle_array_inv (child_array obj)" "distinct (handle_list (child_array obj))"
    "set (handle_list (child_array obj)) \<subseteq> child_set objs (obj_handle obj)"
proof -
  have "obj_ok nxt objs obj" using assms by (simp add: objs_ok_def)
  then show thesis
    by (cases "obj_info obj"; cases "file_path obj") (auto simp: obj_ok_def intro: that)
qed

lemma objs_okD:
  assumes "objs_ok nxt objs" "obj \<in> set objs"
  shows "handle_array_inv (child_array obj)" "distinct (handle_list (child_array obj))"
    "set (handle_list (child_array obj)) \<subseteq> child_set objs (obj_handle obj)"
    "unat (obj_handle obj) < nxt" "0 < unat (obj_handle obj)" "unat (obj_handle obj) < 2 ^ 29"
proof -
  have "obj_ok nxt objs obj" "nxt \<le> 2 ^ 29" using assms by (simp_all add: objs_ok_def)
  then show "handle_array_inv (child_array obj)" "distinct (handle_list (child_array obj))"
    "set (handle_list (child_array obj)) \<subseteq> child_set objs (obj_handle obj)"
    "unat (obj_handle obj) < nxt" "0 < unat (obj_handle obj)" "unat (obj_handle obj) < 2 ^ 29"
    by (auto simp: obj_ok_def split: option.splits)
qed

lemma objs_ok_length:
  assumes "objs_ok nxt objs"
  shows "length objs < nxt"
proof -
  have "unat ` set (handles_of objs) \<subseteq> {0<..<nxt}"
    using assms by (force elim: objs_ok_obj[OF assms])
  then have "card (unat ` set (handles_of objs)) \<le> nxt - 1"
    using card_mono[of "{0<..<nxt}"] by simp
  moreover have "card (unat ` set (handles_of objs)) = length objs"
  proof -
    have "inj_on unat (set (handles_of objs))" by (rule inj_onI) (simp add: word_unat_eq_iff)
    moreover have "card (set (handles_of objs)) = length objs"
      using distinct_card[of "handles_of objs"] assms by (simp add: objs_ok_def del: set_map)
    ultimately show ?thesis by (simp add: card_image del: set_map)
  qed
  moreover have "0 < nxt" using assms by (simp add: objs_ok_def)
  ultimately show ?thesis by linarith
qed

lemma refs_length:
  assumes "objs_ok nxt objs" "obj \<in> set objs"
  shows "length (handle_list (child_array obj)) \<le> length objs"
proof -
  from assms have d: "distinct (handle_list (child_array obj))"
    and s: "set (handle_list (child_array obj)) \<subseteq> child_set objs (obj_handle obj)" by (auto elim: objs_ok_obj)
  have "length (handle_list (child_array obj)) = card (set (handle_list (child_array obj)))"
    using d by (simp add: distinct_card)
  also have "\<dots> \<le> card (set (handles_of objs))"
    using s by (intro card_mono) (auto simp: child_set_def)
  also have "\<dots> \<le> length objs" using card_length[of "handles_of objs"] by simp
  finally show ?thesis .
qed

lemma update_obj_map:
  "distinct (handles_of objs) \<Longrightarrow>
   update_obj h f objs = map (\<lambda>obj. if obj_handle obj = h then f obj else obj) objs"
proof (induction objs)
  case (Cons x xs)
  then have "map (\<lambda>obj. if obj_handle obj = h then f obj else obj) xs = xs" if "obj_handle x = h"
    using that by (intro map_idI) (metis (no_types, lifting) distinct.simps(2) image_eqI list.set_map list.simps(9))
  with Cons show ?case by simp
qed simp

section \<open>Changing one object\<close>

text \<open>
  Replacing the references of one object by others that do not dangle keeps
  the invariant, the handles, the parents and the paths.
\<close>

lemma child_set_update:
  assumes "\<And>obj. obj_handle (g obj) = obj_handle obj" "\<And>obj. obj_info (g obj) = obj_info obj"
  shows "child_set (map g objs) h = child_set objs h"
  using assms by (force simp: child_set_def has_parent_def image_iff)

lemma set_refs_ok:
  assumes ok: "objs_ok nxt objs" and a: "handle_array_inv a" "distinct (handle_list a)"
    "set (handle_list a) \<subseteq> child_set objs h"
  shows "objs_ok nxt (map (\<lambda>obj. if obj_handle obj = h then obj\<lparr>child_array := a\<rparr> else obj) objs)"
proof -
  let ?g = "\<lambda>obj. if obj_handle obj = h then obj\<lparr>child_array := a\<rparr> else obj"
  have c: "child_set (map ?g objs) k = child_set objs k" for k by (rule child_set_update) auto
  have "obj_ok nxt (map ?g objs) (?g obj)" if "obj \<in> set objs" for obj
    using ok that a by (auto simp: obj_ok_def c objs_ok_def split: option.splits)
  then have b: "\<forall>obj\<in>set (map ?g objs). obj_ok nxt (map ?g objs) obj" unfolding set_map by blast
  have hs: "handles_of (map ?g objs) = handles_of objs" unfolding map_map by (rule map_cong) auto
  have n: "0 < nxt" "nxt \<le> 2 ^ 29" "distinct (handles_of objs)"
    using ok by (simp_all add: objs_ok_def)
  show ?thesis unfolding objs_ok_def hs by (intro conjI n b)
qed

lemma objs_ok_Suc: "objs_ok nxt objs \<Longrightarrow> nxt < 2 ^ 29 \<Longrightarrow> objs_ok (Suc nxt) objs"
  by (auto simp: objs_ok_def obj_ok_def)

lemma child_set_snoc: "child_set objs h \<subseteq> child_set (objs @ [obj]) h"
  by (auto simp: child_set_def)

text \<open>An object with an unused handle, which need not be the newest, may be appended.\<close>

definition addable :: "nat \<Rightarrow> mtp_obj list \<Rightarrow> mtp_obj \<Rightarrow> bool" where
  "addable nxt objs obj \<longleftrightarrow> obj_handle obj \<notin> set (handles_of objs) \<and> unat (obj_handle obj) < nxt
     \<and> (case obj_info obj of None \<Rightarrow> False | Some i \<Rightarrow> unat (h_parent i) < unat (obj_handle obj))
     \<and> file_path obj \<noteq> None \<and> handle_array_inv (child_array obj) \<and> handle_list (child_array obj) = []"

lemma snoc_ok:
  assumes "objs_ok nxt objs" "addable nxt objs obj"
  shows "objs_ok nxt (objs @ [obj])"
proof -
  have "obj_ok nxt (objs @ [obj]) x" if "x \<in> set objs" for x
    using assms(1) that child_set_snoc[of objs "obj_handle x" obj] by (auto simp: objs_ok_def obj_ok_def)
  moreover have "obj_ok nxt (objs @ [obj]) obj" using assms(2) by (auto simp: obj_ok_def addable_def)
  ultimately show ?thesis using assms by (auto simp: objs_ok_def addable_def)
qed

section \<open>Adding objects\<close>

lemma add_addable_ok:
  assumes ok: "objs_ok nxt (obj_list st)" and new: "addable nxt (obj_list st) obj"
  shows "\<exists>objs'. entity_add_object_to_store st obj = Some (st\<lparr>obj_list := objs'\<rparr>, True) \<and> objs_ok nxt objs'
     \<and> map obj_key objs' = map obj_key (obj_list st) @ [obj_key obj]"
proof -
  let ?st1 = "st\<lparr>obj_list := obj_list st @ [obj]\<rparr>"
  obtain i where i: "obj_info obj = Some i" using new by (auto simp: addable_def split: option.splits)
  have ok1: "objs_ok nxt (obj_list ?st1)" using snoc_ok[OF ok new] by simp
  show ?thesis
  proof (cases "h_parent i = 0 \<or> entity_get_object_from_store ?st1 (h_parent i) = None")
    case True
    with ok1 i show ?thesis by (intro exI[of _ "obj_list st @ [obj]"]) (auto simp: entity_add_object_to_store_def Let_def)
  next
    case False
    then obtain par where par: "entity_get_object_from_store ?st1 (h_parent i) = Some par" by auto
    then have pin: "par \<in> set (obj_list ?st1)" "obj_handle par = h_parent i"
      using get_object_Some[OF ok1] by auto
    have inv: "handle_array_inv (child_array par)" "distinct (handle_list (child_array par))"
      "set (handle_list (child_array par)) \<subseteq> child_set (obj_list ?st1) (h_parent i)"
      using pin objs_ok_obj[OF ok1 pin(1)] by auto
    have "length (handle_list (child_array par)) < 2 ^ 29"
      using refs_length[OF ok1 pin(1)] objs_ok_length[OF ok1] ok1 by (simp add: objs_ok_def)
    from handles.add_unique_spec[OF inv(1) this, of "obj_handle obj"] obtain a where
      a: "handles.add_unique (child_array par) (obj_handle obj) = Some (a, True)" "handle_array_inv a"
        "set (handle_list a) = insert (obj_handle obj) (set (handle_list (child_array par)))" "distinct (handle_list a)"
      using inv(2) by blast
    let ?g = "\<lambda>x. if obj_handle x = h_parent i then x\<lparr>child_array := a\<rparr> else x"
    have "obj_handle obj \<in> child_set (obj_list ?st1) (h_parent i)"
      using i by (auto simp: child_set_def has_parent_def)
    then have ok2: "objs_ok nxt (map ?g (obj_list ?st1))"
      using set_refs_ok[OF ok1 a(2,4), of "h_parent i"] a(3) inv(3) by simp
    have "map (\<lambda>x. if obj_handle x = h_parent i then par\<lparr>child_array := a\<rparr> else x) (obj_list ?st1)
        = map ?g (obj_list ?st1)"
    proof (rule map_cong[OF refl])
      fix x assume x: "x \<in> set (obj_list ?st1)"
      have "x = par" if "obj_handle x = h_parent i"
        using get_object_Some[OF ok1, of "h_parent i" x] x that par by simp
      then show "(if obj_handle x = h_parent i then par\<lparr>child_array := a\<rparr> else x) = ?g x" by simp
    qed
    then have "entity_add_object_to_store st obj = Some (st\<lparr>obj_list := map ?g (obj_list ?st1)\<rparr>, True)"
      using False par i a(1) ok1
      by (simp add: entity_add_object_to_store_def add_reference_as_unique update_obj_map objs_ok_def)
    moreover have "map obj_key (map ?g (obj_list ?st1)) = map obj_key (obj_list st) @ [obj_key obj]"
      by (simp add: obj_key_def)
    ultimately show ?thesis using ok2 by blast
  qed
qed

lemma add_object_ok:
  assumes ok: "objs_ok nxt (obj_list st)" and n: "unat (obj_handle obj) = nxt" "nxt < 2 ^ 29"
    and i: "obj_info obj = Some i" "unat (h_parent i) < nxt" "file_path obj = Some p"
    and c: "handle_array_inv (child_array obj)" "handle_list (child_array obj) = []"
  shows "\<exists>objs'. entity_add_object_to_store st obj = Some (st\<lparr>obj_list := objs'\<rparr>, True) \<and> objs_ok (Suc nxt) objs'
     \<and> map obj_key objs' = map obj_key (obj_list st) @ [obj_key obj]"
proof (rule add_addable_ok[OF objs_ok_Suc[OF ok n(2)]])
  have "obj_handle obj \<notin> set (handles_of (obj_list st))" using n(1) by (force elim: objs_ok_obj[OF ok])
  then show "addable (Suc nxt) (obj_list st) obj" using n i c by (simp add: addable_def)
qed

lemma add_entry_ok:
  assumes "objs_ok (unat nxt) (obj_list st)" "unat nxt < 2 ^ 29" "unat parent < unat nxt"
  shows "\<exists>objs' obj. entity_add_file_to_store st nxt parent path fname finfo =
       Some (st\<lparr>obj_list := objs'\<rparr>, nxt + 1, obj)
     \<and> entity_add_folder_to_store st nxt parent path fname finfo = Some (st\<lparr>obj_list := objs'\<rparr>, nxt + 1, obj)
     \<and> objs_ok (Suc (unat nxt)) objs' \<and> unat (nxt + 1) = Suc (unat nxt)
     \<and> map obj_key objs' = map obj_key (obj_list st) @ [obj_key obj]
     \<and> obj_handle obj = nxt \<and> file_path obj = Some path
     \<and> (\<exists>i. obj_info obj = Some i \<and> h_parent i = parent)"
proof -
  define i where "i = entity_init_object_info_params (s_id st) parent fname finfo"
  define obj where "obj = fst (entity_init_mtp_object_params nxt (s_id st) parent path fname finfo)"
  have obj: "entity_init_mtp_object_params nxt (s_id st) parent path fname finfo = (obj, nxt + 1)"
    "obj_handle obj = nxt" "obj_info obj = Some i" "file_path obj = Some path" "child_array obj = zero_child_array"
    by (simp_all add: obj_def i_def entity_init_mtp_object_params_def)
  have par: "h_parent i = parent"
    by (simp add: i_def entity_init_object_info_params_def zero_info_def Let_def)
  have "nxt < 0x20000000" using assms(2) by (simp add: word_less_nat_alt)
  then have "unat (nxt + 1) = Suc (unat nxt)" by (rule unat_Suc_word)
  moreover obtain objs' where "entity_add_object_to_store st obj = Some (st\<lparr>obj_list := objs'\<rparr>, True)"
    "objs_ok (Suc (unat nxt)) objs'" "map obj_key objs' = map obj_key (obj_list st) @ [obj_key obj]"
    using add_object_ok[OF assms(1) _ assms(2) obj(3) _ obj(4)] assms(3) obj(2,5) par zero_child_array_inv by auto
  ultimately show ?thesis
    using obj par by (intro exI[of _ objs'] exI[of _ obj])
      (simp add: entity_add_file_to_store_def entity_add_folder_to_store_def)
qed

section \<open>Enumeration is the preorder traversal of the directory tree\<close>

text \<open>The specification: the entries readdir yields, and the paths below a folder.\<close>

function entries_from :: "'fs os \<Rightarrow> 'fs \<Rightarrow> string \<Rightarrow> string list \<Rightarrow> dir_entry \<Rightarrow> dir_entry list" where
  "entries_from os fs dir names e =
     (case util_ifind_next os fs dir names e of
        None \<Rightarrow> [] | Some (names', e') \<Rightarrow> e' # entries_from os fs dir names' e')"
  by pat_completeness auto
termination
  by (relation "measure (\<lambda>(os, fs, dir, names, e). length names)") (auto dest: ifind_next_shrinks)

declare entries_from.simps [simp del]

definition dir_entries :: "'fs os \<Rightarrow> 'fs \<Rightarrow> string \<Rightarrow> dir_entry list" where
  "dir_entries os fs dir =
     (case util_ifind_first os fs dir zero_entry of
        None \<Rightarrow> [] | Some (names, e) \<Rightarrow> e # entries_from os fs dir names e)"

definition visible :: "dir_entry \<Rightarrow> bool" where
  "visible e \<longleftrightarrow> util_get_file_name (filename e) \<noteq> [] \<and> hd (util_get_file_name (filename e)) \<noteq> CHR ''.''
     \<and> dtype e \<noteq> MTP_ALL_TYPE"

definition entry_paths :: "(string \<Rightarrow> string list option) \<Rightarrow> dir_entry \<Rightarrow> string list option" where
  "entry_paths rec e =
     (if \<not> visible e then Some []
      else if dtype e = MTP_DIR_TYPE then map_option ((#) (filename e)) (rec (filename e))
      else Some [filename e])"

primrec dir_paths :: "nat \<Rightarrow> 'fs os \<Rightarrow> 'fs \<Rightarrow> string \<Rightarrow> string list option" where
  "dir_paths 0 os fs dir = None"
| "dir_paths (Suc n) os fs dir =
     (if dir = [] \<or> hd dir \<noteq> CHR ''/'' then Some []
      else map_option concat (those (map (entry_paths (dir_paths n os fs)) (dir_entries os fs dir))))"

text \<open>
  Every object lies in the folder of its parent object, or in the root; the
  path is cut to the size of the buffer.
\<close>

definition entry_path :: "string \<Rightarrow> string \<Rightarrow> string" where
  "entry_path dir name = take MTP_MAX_PATHNAME_SIZE (dir @ ''/'' @ name)"

definition located :: "string \<Rightarrow> (u32 \<times> obj_info option \<times> string option) set \<Rightarrow> u32 \<Rightarrow> string \<Rightarrow> bool" where
  "located root keys parent path \<longleftrightarrow>
     (\<exists>name. (parent = 0 \<and> path = entry_path root name)
       \<or> (\<exists>pi pp. (parent, pi, Some pp) \<in> keys \<and> path = entry_path pp name))"

definition paths_ok :: "string \<Rightarrow> mtp_obj list \<Rightarrow> bool" where
  "paths_ok root objs \<longleftrightarrow>
     (\<forall>obj\<in>set objs. \<exists>i p. obj_info obj = Some i \<and> file_path obj = Some p
        \<and> located root (obj_key ` set objs) (h_parent i) p)"

lemma located_mono: "located root ks par p \<Longrightarrow> ks \<subseteq> ks' \<Longrightarrow> located root ks' par p"
  unfolding located_def by blast

lemma paths_ok_keys: "map obj_key objs = map obj_key objs' \<Longrightarrow> paths_ok root objs \<Longrightarrow> paths_ok root objs'"
proof -
  assume k: "map obj_key objs = map obj_key objs'" and ok: "paths_ok root objs"
  have ks: "obj_key ` set objs = obj_key ` set objs'" using k by (metis set_map)
  show ?thesis
    unfolding paths_ok_def ks[symmetric]
  proof
    fix obj assume "obj \<in> set objs'"
    then obtain x where "x \<in> set objs" "obj_key x = obj_key obj" using ks by (metis imageE imageI)
    moreover from this(2) have "obj_info x = obj_info obj" "file_path x = file_path obj" by (simp_all add: obj_key_def)
    ultimately show "\<exists>i p. obj_info obj = Some i \<and> file_path obj = Some p
        \<and> located root (obj_key ` set objs) (h_parent i) p"
      using ok unfolding paths_ok_def by metis
  qed
qed

lemma paths_ok_snoc:
  assumes "map obj_key objs' = map obj_key objs @ [obj_key obj]" "paths_ok root objs"
    "obj_info obj = Some i" "file_path obj = Some p" "located root (obj_key ` set objs) (h_parent i) p"
  shows "paths_ok root objs'"
proof -
  have "paths_ok root (objs @ [obj])"
    using assms(2-5) by (fastforce simp: paths_ok_def elim: located_mono)
  moreover have "map obj_key (objs @ [obj]) = map obj_key objs'" using assms(1) by simp
  ultimately show ?thesis using paths_ok_keys by blast
qed

lemma ifind_next_in_dir:
  assumes "util_ifind_next os fs dir ns e = Some (ns', e')"
  shows "\<exists>name. filename e' = entry_path dir name"
  using assms
proof (induction ns arbitrary: e)
  case (Cons n ns)
  then show ?case
    by (auto split: prod.splits option.splits bool.splits simp: create_path_True entry_path_def simp del: take_append)
qed simp

text \<open>
  What a part of the enumeration achieves: the paths are appended in order as
  objects with consecutive handles, under the invariants.
\<close>

definition enum_pre :: "string \<Rightarrow> enum_state \<Rightarrow> nat \<Rightarrow> bool" where
  "enum_pre root s k \<longleftrightarrow>
     objs_ok (unat (en_next s)) (obj_list (en_store s)) \<and> paths_ok root (obj_list (en_store s))
   \<and> unat (en_next s) + k \<le> 2 ^ 29"

definition enum_post :: "string \<Rightarrow> enum_state \<Rightarrow> string list \<Rightarrow> enum_state \<Rightarrow> bool" where
  "enum_post root s ps s' \<longleftrightarrow>
     (\<exists>objs. en_store s' = (en_store s)\<lparr>obj_list := objs\<rparr> \<and> objs_ok (unat (en_next s')) objs \<and> paths_ok root objs
       \<and> unat (en_next s') = unat (en_next s) + length ps
       \<and> map file_path objs = map file_path (obj_list (en_store s)) @ map Some ps
       \<and> obj_key ` set (obj_list (en_store s)) \<subseteq> obj_key ` set objs)"

lemma enum_post_refl: "enum_pre root s k \<Longrightarrow> enum_post root s [] s"
  unfolding enum_post_def enum_pre_def by (intro exI[of _ "obj_list (en_store s)"]) simp

lemma enum_post_trans: "enum_post root s ps s' \<Longrightarrow> enum_post root s' qs s'' \<Longrightarrow> enum_post root s (ps @ qs) s''"
  unfolding enum_post_def by fastforce

lemma enum_post_clk [simp]:
  "enum_post root (s\<lparr>en_clk := c\<rparr>) ps s' = enum_post root s ps s'"
  "enum_post root s ps (s'\<lparr>en_clk := c\<rparr>) = enum_post root s ps s'"
  "enum_post root s ps (s'\<lparr>en_watch := w\<rparr>) = enum_post root s ps s'"
  "enum_pre root (s\<lparr>en_clk := c\<rparr>) k = enum_pre root s k"
  by (simp_all add: enum_post_def enum_pre_def)

lemma enum_post_pre: "enum_post root s ps s' \<Longrightarrow> enum_pre root s (length ps + k) \<Longrightarrow> enum_pre root s' k"
  by (auto simp: enum_post_def enum_pre_def)

text \<open>The folder being enumerated is the root or a stored object.\<close>

definition folder_at :: "string \<Rightarrow> enum_state \<Rightarrow> u32 \<Rightarrow> string \<Rightarrow> bool" where
  "folder_at root s parent dir \<longleftrightarrow>
     unat parent < unat (en_next s)
   \<and> ((parent = 0 \<and> dir = root) \<or> (\<exists>i. (parent, i, Some dir) \<in> obj_key ` set (obj_list (en_store s))))"

lemma folder_at_post: "folder_at root s par dir \<Longrightarrow> enum_post root s ps s' \<Longrightarrow> folder_at root s' par dir"
  unfolding folder_at_def enum_post_def by fastforce

definition rec_ok ::
    "string \<Rightarrow> (string \<Rightarrow> string list option) \<Rightarrow> (mtp_obj \<Rightarrow> enum_state \<Rightarrow> enum_state option) \<Rightarrow> bool" where
  "rec_ok root rec_paths rec \<longleftrightarrow>
     (\<forall>obj s ps dir. file_path obj = Some dir \<longrightarrow> rec_paths dir = Some ps \<longrightarrow> enum_pre root s (length ps) \<longrightarrow>
        folder_at root s (obj_handle obj) dir \<longrightarrow> (\<exists>s'. rec obj s = Some s' \<and> enum_post root s ps s'))"

lemma enum_entry_ok:
  assumes rec: "rec_ok root rec_paths rec"
    and ps: "entry_paths rec_paths entry = Some ps" and pre: "enum_pre root s (length ps)"
    and at: "folder_at root s parent dir" and name: "filename entry = entry_path dir name"
  shows "\<exists>s'. enum_entry rec parent entry s = Some s' \<and> enum_post root s ps s'"
proof (cases "visible entry")
  case False
  with ps pre enum_post_refl show ?thesis
    by (cases "dtype entry") (auto simp: entry_paths_def visible_def enum_entry_def Let_def)
next
  case True
  let ?st = "en_store s" and ?f = "util_get_file_name (filename entry)"
  from True have vis: "?f \<noteq> []" "hd ?f \<noteq> CHR ''.''" and t: "dtype entry \<noteq> MTP_ALL_TYPE" by (auto simp: visible_def)
  have len: "0 < length ps" using ps True by (auto simp: entry_paths_def split: if_splits)
  have ok: "objs_ok (unat (en_next s)) (obj_list ?st)" "paths_ok root (obj_list ?st)"
    "unat (en_next s) + length ps \<le> 2 ^ 29" using pre by (simp_all add: enum_pre_def)
  have par: "unat parent < unat (en_next s)" using at by (simp add: folder_at_def)
  have sm: "unat (en_next s) < 2 ^ 29" using ok(3) len by linarith
  obtain objs' obj i where a:
    "entity_add_file_to_store ?st (en_next s) parent (filename entry) ?f entry = Some (?st\<lparr>obj_list := objs'\<rparr>, en_next s + 1, obj)"
    "entity_add_folder_to_store ?st (en_next s) parent (filename entry) ?f entry = Some (?st\<lparr>obj_list := objs'\<rparr>, en_next s + 1, obj)"
    "objs_ok (Suc (unat (en_next s))) objs'" "unat (en_next s + 1) = Suc (unat (en_next s))"
    "map obj_key objs' = map obj_key (obj_list ?st) @ [obj_key obj]"
    "obj_handle obj = en_next s" "file_path obj = Some (filename entry)" "obj_info obj = Some i" "h_parent i = parent"
    using add_entry_ok[OF ok(1) sm par] by blast
  have "located root (obj_key ` set (obj_list ?st)) parent (filename entry)"
    using at name by (auto simp: folder_at_def located_def)
  then have pok: "paths_ok root objs'" using paths_ok_snoc[OF a(5) ok(2) a(8,7)] a(9) by simp
  have keys: "obj_key ` set objs' = insert (obj_key obj) (obj_key ` set (obj_list ?st))"
    using arg_cong[OF a(5), of set] by simp
  let ?s1 = "s\<lparr>en_store := ?st\<lparr>obj_list := objs'\<rparr>, en_next := en_next s + 1\<rparr>"
  have "map file_path objs' = map file_path (obj_list ?st) @ [Some (filename entry)]"
    using arg_cong[OF a(5), of "map (snd \<circ> snd)"] a(7) by (simp add: obj_key_def comp_def)
  then have post: "enum_post root s [filename entry] ?s1"
    unfolding enum_post_def using a(3,4) pok keys by (intro exI[of _ objs']) auto
  show ?thesis
  proof (cases "dtype entry = MTP_DIR_TYPE")
    case False
    with t have "dtype entry = MTP_FILE_TYPE" by (cases "dtype entry") auto
    with vis a(1) post ps True show ?thesis by (auto simp: enum_entry_def entry_paths_def Let_def)
  next
    case d: True
    with ps True obtain qs where qs: "rec_paths (filename entry) = Some qs" "ps = filename entry # qs"
      by (auto simp: entry_paths_def)
    have pre1: "enum_pre root ?s1 (length qs)" using enum_post_pre[OF post, of "length qs"] pre qs(2) by simp
    have "folder_at root ?s1 (obj_handle obj) (filename entry)"
      using a(4,6,7) keys by (auto simp: folder_at_def obj_key_def)
    with rec[unfolded rec_ok_def, rule_format, OF a(7) qs(1) pre1] obtain s' where
      "rec obj ?s1 = Some s'" "enum_post root ?s1 qs s'" by blast
    moreover have "enum_entry rec parent entry s = rec obj ?s1"
      using vis d a(2) by (simp add: enum_entry_def Let_def)
    ultimately show ?thesis using enum_post_trans[OF post] qs(2) by auto
  qed
qed

lemma those_Cons_Some: "those (x # xs) = Some ys \<longleftrightarrow> (\<exists>z zs. x = Some z \<and> those xs = Some zs \<and> ys = z # zs)"
  by (auto split: option.splits)

lemma enum_loop_ok:
  assumes run: "\<And>n. \<not> stop n"
    and rec: "rec_ok root rec_paths rec"
    and ps: "those (map (entry_paths rec_paths) (entry # entries_from os fs dir names entry)) = Some pss"
    and pre: "enum_pre root s (length (concat pss))"
    and at: "folder_at root s parent dir" and name: "\<exists>name. filename entry = entry_path dir name"
  shows "\<exists>s'. enum_loop os fs stop rec dir parent names entry s = Some s' \<and> enum_post root s (concat pss) s'"
  using ps pre at name
proof (induction names arbitrary: entry s pss rule: length_induct)
  case (1 names)
  from "1.prems"(1) obtain qs qss where qs: "entry_paths rec_paths entry = Some qs" "pss = qs # qss"
    "those (map (entry_paths rec_paths) (entries_from os fs dir names entry)) = Some qss"
    unfolding list.map those_Cons_Some by blast
  let ?s0 = "s\<lparr>en_clk := Suc (en_clk s)\<rparr>"
  have pre0: "enum_pre root ?s0 (length qs)" using "1.prems"(2) qs(2) by (simp add: enum_pre_def)
  have at0: "folder_at root ?s0 parent dir" using "1.prems"(3) by (simp add: folder_at_def)
  obtain nm where nm: "filename entry = entry_path dir nm" using "1.prems"(4) by blast
  obtain s1 where s1: "enum_entry rec parent entry ?s0 = Some s1" "enum_post root ?s0 qs s1"
    using enum_entry_ok[OF rec qs(1) pre0 at0 nm] by blast
  have loop: "enum_loop os fs stop rec dir parent names entry s =
      (case util_ifind_next os fs dir names entry of
         None \<Rightarrow> Some (s1\<lparr>en_watch := en_watch s1 @ [dir]\<rparr>)
       | Some (names', entry') \<Rightarrow> enum_loop os fs stop rec dir parent names' entry' s1)"
    using s1(1) run by (subst enum_loop.simps) (simp add: Let_def)
  show ?case
  proof (cases "util_ifind_next os fs dir names entry")
    case None
    with qs(3) have "qss = []" by (simp add: entries_from.simps[of os fs dir names])
    with loop None s1(2) qs(2) show ?thesis by simp
  next
    case (Some r)
    obtain names' entry' where r: "r = (names', entry')" by (cases r) auto
    have sh: "length names' < length names" using Some r by (auto dest: ifind_next_shrinks)
    have ps': "those (map (entry_paths rec_paths) (entry' # entries_from os fs dir names' entry')) = Some qss"
      using qs(3) Some r by (simp add: entries_from.simps[of os fs dir names])
    have pre1: "enum_pre root s1 (length (concat qss))"
      using enum_post_pre[OF s1(2), of "length (concat qss)"] "1.prems"(2) qs(2) by simp
    have at1: "folder_at root s1 parent dir" using folder_at_post[OF at0 s1(2)] .
    have nm1: "\<exists>name. filename entry' = entry_path dir name" by (rule ifind_next_in_dir) (use Some r in simp)
    from "1.IH"[rule_format, OF sh ps' pre1 at1 nm1] obtain s' where
      "enum_loop os fs stop rec dir parent names' entry' s1 = Some s'" "enum_post root s1 (concat qss) s'" by blast
    with loop Some r s1(2) qs(2) show ?thesis
      using enum_post_trans[of root s qs s1] by auto
  qed
qed

lemma enum_folder_ok:
  assumes run: "\<And>n. \<not> stop n"
  shows "dir_paths fuel os fs dir = Some ps \<Longrightarrow> enum_pre root s (length ps) \<Longrightarrow> folder_at root s parent dir \<Longrightarrow>
    (case pobj of None \<Rightarrow> root_path (en_store s) = Some dir \<and> parent = 0
                | Some p \<Rightarrow> file_path p = Some dir \<and> obj_handle p = parent) \<Longrightarrow>
    \<exists>s'. enum_folder fuel os fs stop pobj s = Some s' \<and> enum_post root s ps s'"
proof (induction fuel arbitrary: dir ps s parent pobj)
  case (Suc fuel)
  have f: "enum_folder (Suc fuel) os fs stop pobj s =
      (if dir = [] \<or> hd dir \<noteq> CHR ''/'' then Some s
       else (case util_ifind_first os fs dir zero_entry of
               None \<Rightarrow> Some s
             | Some (names, entry) \<Rightarrow>
                 enum_loop os fs stop (\<lambda>obj. enum_folder fuel os fs stop (Some obj)) dir parent names entry s))"
    using Suc.prems(4) by (cases pobj) auto
  show ?case
  proof (cases "(dir = [] \<or> hd dir \<noteq> CHR ''/'') \<or> util_ifind_first os fs dir zero_entry = None")
    case True
    with Suc.prems(1) have "ps = []" by (auto simp: dir_entries_def split: if_splits)
    with True f enum_post_refl[OF Suc.prems(2)] show ?thesis by auto
  next
    case False
    then obtain names entry where e: "util_ifind_first os fs dir zero_entry = Some (names, entry)" by auto
    with False Suc.prems(1) obtain pss where
      pss: "those (map (entry_paths (dir_paths fuel os fs)) (entry # entries_from os fs dir names entry)) = Some pss"
        "ps = concat pss" by (auto simp: dir_entries_def)
    have nm: "\<exists>name. filename entry = entry_path dir name"
      using e by (auto simp: util_ifind_first_def split: option.splits dest: ifind_next_in_dir)
    have rec: "rec_ok root (dir_paths fuel os fs) (\<lambda>obj. enum_folder fuel os fs stop (Some obj))"
      unfolding rec_ok_def using Suc.IH by fastforce
    show ?thesis
      using enum_loop_ok[OF run rec pss(1) Suc.prems(2)[unfolded pss(2)] Suc.prems(3) nm]
        f False e pss(2) by auto
  qed
qed simp

section \<open>Properties of enumeration\<close>

text \<open>C35: enumerating a store into an empty object list, with enough fuel for the depth of the directory
  tree and while the connection holds, terminates without undefined behaviour; the objects are exactly
  the visible entries of the tree in preorder, their handles are unique and follow the counter, parents
  are older than their children, no reference dangles, and the path of every object is a name in the
  folder of its parent object (or in the root).\<close>

theorem enumeration_preorder:
  assumes "\<And>n. \<not> stop n" "root_path (en_store s) = Some root" "obj_list (en_store s) = []" "0 < en_next s"
    "dir_paths fuel (e_os e) fs root = Some ps" "unat (en_next s) + length ps \<le> 2 ^ 29"
  shows "\<exists>s'. entity_store_recursive_enum_folder_objects fuel e fs stop None s = Some s'
     \<and> map file_path (obj_list (en_store s')) = map Some ps
     \<and> unat (en_next s') = unat (en_next s) + length ps
     \<and> objs_ok (unat (en_next s')) (obj_list (en_store s')) \<and> paths_ok root (obj_list (en_store s'))"
proof -
  have "enum_pre root s (length ps)"
    using assms(3,4,6) by (simp add: enum_pre_def objs_ok_def paths_ok_def unat_gt_0)
  moreover have "folder_at root s 0 root"
    using assms(4) by (simp add: folder_at_def unat_gt_0)
  ultimately show ?thesis
    using enum_folder_ok[OF assms(1,5), of root s 0 None] assms(2,3)
    unfolding entity_store_recursive_enum_folder_objects_def enum_post_def by fastforce
qed

text \<open>A card with one folder that contains a hidden file and a picture.\<close>

definition card_os :: "unit os" where
  "card_os = demo_os\<lparr>
     os_stat := \<lambda>_ p. Some \<lparr>st_kind = (if p = ''/media/card/d'' then S_IFDIR else S_IFREG), st_writable = True,
       st_size = 3, st_ctime = 0, st_mtime = 0\<rparr>,
     os_readdir := \<lambda>_ d. if d = ''/media/card'' then Some [''d''] else Some [''.x'', ''a.jpg'']\<rparr>"

definition card_env :: "unit env" where
  "card_env = demo_env\<lparr>e_os := card_os\<rparr>"

definition card_store :: mtp_store where
  "card_store = \<lparr>root_path = Some ''/media/card'', s_id = 0x20001, s_info = init_store_info, obj_list = [],
     is_hidden = False\<rparr>"

definition card_start :: enum_state where
  "card_start = \<lparr>en_store = card_store, en_next = 1, en_clk = 0, en_watch = []\<rparr>"

lemma card_paths:
  "dir_paths 3 card_os () ''/media/card'' = Some [''/media/card/d'', ''/media/card/d/a.jpg'']"
  by code_simp

theorem enumeration_preorder_witness:
  "\<exists>s'. entity_store_recursive_enum_folder_objects 3 card_env () (\<lambda>_. False) None card_start = Some s'
     \<and> map file_path (obj_list (en_store s')) = map Some [''/media/card/d'', ''/media/card/d/a.jpg'']
     \<and> unat (en_next s') = unat (en_next card_start) + length [''/media/card/d'', ''/media/card/d/a.jpg'']
     \<and> objs_ok (unat (en_next s')) (obj_list (en_store s')) \<and> paths_ok ''/media/card'' (obj_list (en_store s'))"
  by (rule enumeration_preorder)
    (simp_all add: card_start_def card_store_def card_env_def card_paths)

end
