(* ===== verification/Store_Del.thy ===== *)
theory Store_Del
  imports Store_Inv "HOL-Library.Sublist"
begin

text \<open>
  Correctness of the object queries and of deletion: the handle arrays hold
  exactly the matching objects, and the recursive deletion ends, keeps the
  store invariant and touches nothing but the deleted subtree.
\<close>

section \<open>Queries\<close>

lemma handle_array_Some: "handle_array_inv a \<Longrightarrow> ptparray_elems a = Some (handle_list a)"
  by (rule handle_array_elems)

lemma append_matching_ok:
  assumes "handle_array_inv a" "length (handle_list a) + length (filter Q objs) \<le> 2 ^ 29"
    "\<And>obj. obj \<in> set objs \<Longrightarrow> P obj = Some (Q obj)"
  shows "\<exists>a'. append_matching P objs a = Some a' \<and> handle_array_inv a'
     \<and> handle_list a' = handle_list a @ handles_of (filter Q objs)"
  using assms
proof (induction objs arbitrary: a)
  case Nil
  then show ?case by (simp add: append_matching_def)
next
  case (Cons obj objs)
  have P: "P obj = Some (Q obj)" "\<And>x. x \<in> set objs \<Longrightarrow> P x = Some (Q x)" using Cons.prems(3) by auto
  show ?case
  proof (cases "Q obj")
    case False
    with Cons.IH[OF Cons.prems(1) _ P(2)] Cons.prems(2) P(1) show ?thesis by (simp add: append_matching_def)
  next
    case True
    with Cons.prems(2) have "length (handle_list a) < 2 ^ 29" by simp
    with handles.append_law[OF Cons.prems(1)] obtain a1 where a1:
      "prop_append_ele_ptparray a (obj_handle obj) = Some (a1, True)" "handle_array_inv a1"
      "handle_list a1 = handle_list a @ [obj_handle obj]" by blast
    with Cons.IH[OF a1(2) _ P(2)] Cons.prems(2) P(1) True show ?thesis by (simp add: append_matching_def)
  qed
qed

lemmas alloc_handles = handles.invar_empty handles.elems_empty

lemma child_handles_length:
  assumes "length (obj_list st) \<le> 2 ^ 29" "h \<in> set (handles_of (obj_list st))"
  shows "\<exists>a. entity_get_child_handles st h (prop_alloc_ptparray UINT32_TYPE) = Some a
     \<and> ptparray_elems a = Some (handles_of (filter (has_parent h) (obj_list st)))"
proof -
  have "length (filter (has_parent h) (obj_list st)) \<le> 2 ^ 29"
    using assms(1) length_filter_le[of "has_parent h" "obj_list st"] by linarith
  with append_matching_ok[of "prop_alloc_ptparray UINT32_TYPE" "has_parent h" "obj_list st" "\<lambda>obj. Some (has_parent h obj)"]
    alloc_handles obtain a where
    "append_matching (\<lambda>obj. Some (has_parent h obj)) (obj_list st) (prop_alloc_ptparray UINT32_TYPE) = Some a"
    "handle_array_inv a" "handle_list a = handles_of (filter (has_parent h) (obj_list st))" by auto
  moreover have "entity_get_object_from_store st h \<noteq> None" using assms(2) by (simp add: get_object_None)
  ultimately show ?thesis
    using handle_array_Some[of a] by (auto simp: entity_get_child_handles_def)
qed

lemma child_handles_ok:
  assumes "objs_ok nxt (obj_list st)" "h \<in> set (handles_of (obj_list st))"
  shows "\<exists>a. entity_get_child_handles st h (prop_alloc_ptparray UINT32_TYPE) = Some a
     \<and> ptparray_elems a = Some (handles_of (filter (has_parent h) (obj_list st)))"
proof (rule child_handles_length[OF _ assms(2)])
  have "nxt \<le> 2 ^ 29" using assms(1) by (simp add: objs_ok_def)
  with objs_ok_length[OF assms(1)] show "length (obj_list st) \<le> 2 ^ 29" by linarith
qed

section \<open>Unlinking one object\<close>

lemma unlink_filter:
  "distinct (handles_of objs) \<Longrightarrow>
     (case find (\<lambda>obj. obj_handle obj = h) objs of None \<Rightarrow> objs | Some obj \<Rightarrow> remove1 obj objs)
       = filter (\<lambda>obj. obj_handle obj \<noteq> h) objs"
proof (induction objs)
  case (Cons x xs)
  show ?case
  proof (cases "obj_handle x = h")
    case True
    have "obj_handle obj \<noteq> h" if "obj \<in> set xs" for obj
      using that True Cons.prems by (metis distinct.simps(2) image_eqI list.set_map list.simps(9))
    then have "filter (\<lambda>obj. obj_handle obj \<noteq> h) xs = xs" by (simp add: filter_id_conv)
    with True show ?thesis by simp
  next
    case False
    have "remove1 obj (x # xs) = x # remove1 obj xs" if "find (\<lambda>obj. obj_handle obj = h) xs = Some obj" for obj
      using that False by (auto simp: find_Some_iff)
    with False Cons show ?thesis by (auto split: option.splits)
  qed
qed simp

lemma del_obj_list:
  assumes "objs_ok nxt (obj_list (d_store s))"
  shows "obj_list (d_store (del_obj h s)) = filter (\<lambda>obj. obj_handle obj \<noteq> h) (obj_list (d_store s))"
  using assms unlink_filter by (simp add: del_obj_def entity_get_object_from_store_def objs_ok_def)

definition no_ref :: "u32 \<Rightarrow> mtp_obj list \<Rightarrow> bool" where
  "no_ref h objs \<longleftrightarrow> (\<forall>obj\<in>set objs. h \<notin> set (handle_list (child_array obj)))"

lemma filter_ok:
  assumes ok: "objs_ok nxt objs" and nr: "no_ref h objs"
  shows "objs_ok nxt (filter (\<lambda>obj. obj_handle obj \<noteq> h) objs)"
proof -
  have c: "child_set (filter (\<lambda>obj. obj_handle obj \<noteq> h) objs) k = child_set objs k - {h}" for k
    by (auto simp: child_set_def)
  have "obj_ok nxt (filter (\<lambda>obj. obj_handle obj \<noteq> h) objs) obj" if "obj \<in> set objs" for obj
    using ok nr that by (auto simp: objs_ok_def obj_ok_def no_ref_def c)
  then show ?thesis using ok by (auto simp: objs_ok_def distinct_map_filter)
qed

lemma parent_unique:
  assumes "objs_ok nxt objs" "obj \<in> set objs" "obj_handle obj = h" "obj_info obj = Some i" "h \<in> child_set objs k"
  shows "k = h_parent i"
proof -
  from assms(5) obtain c where "c \<in> set objs" "obj_handle c = h" "has_parent k c" by (auto simp: child_set_def)
  moreover from this assms(1-3) have "c = obj"
    using find_handle[of objs h c] find_handle[of objs h obj] by (simp add: objs_ok_def)
  ultimately show ?thesis using assms(4) by (simp add: has_parent_def)
qed

lemma remove_reference_ok:
  assumes "handle_array_inv (child_array par)" "h \<noteq> PTP_OBJECTHANDLE_ALL"
  shows "\<exists>a. entity_remove_reference_child_array par h = Some (par\<lparr>child_array := a\<rparr>, h \<in> set (handle_list (child_array par)))
     \<and> handle_array_inv a \<and> handle_list a = remove1 h (handle_list (child_array par))"
  using handles.rem_law[OF assms(1), of h] assms(2) by (auto simp: entity_remove_reference_child_array_def)

lemma drop_reference_ok:
  assumes ok: "objs_ok nxt (obj_list st)" and obj: "obj \<in> set (obj_list st)" "obj_handle obj = h" "obj_info obj = Some i"
  shows "\<exists>objs'. drop_reference (h_parent i) h st = Some (st\<lparr>obj_list := objs'\<rparr>) \<and> objs_ok nxt objs'
     \<and> map obj_key objs' = map obj_key (obj_list st) \<and> no_ref h objs'"
proof (cases "h_parent i = 0 \<or> entity_get_object_from_store st (h_parent i) = None")
  case True
  have "no_ref h (obj_list st)"
    unfolding no_ref_def
  proof (intro ballI notI)
    fix x assume x: "x \<in> set (obj_list st)" "h \<in> set (handle_list (child_array x))"
    then have "h \<in> child_set (obj_list st) (obj_handle x)" and nz: "unat (obj_handle x) \<noteq> 0"
      using objs_okD(3,5)[OF ok x(1)] by auto
    then have "obj_handle x = h_parent i" using parent_unique[OF ok obj] by blast
    with True nz x(1) show False by (metis get_object_None imageI set_map unat_0)
  qed
  with True ok show ?thesis by (intro exI[of _ "obj_list st"]) (auto simp: drop_reference_def)
next
  case False
  then obtain par where par: "entity_get_object_from_store st (h_parent i) = Some par" by auto
  then have pin: "par \<in> set (obj_list st)" "obj_handle par = h_parent i" using get_object_Some[OF ok] by auto
  have inv: "handle_array_inv (child_array par)" "distinct (handle_list (child_array par))"
    "set (handle_list (child_array par)) \<subseteq> child_set (obj_list st) (h_parent i)"
    using objs_okD(1-3)[OF ok pin(1)] pin(2) by simp_all
  have "unat h < 2 ^ 29" using objs_okD(6)[OF ok obj(1)] obj(2) by simp
  then have hall: "h \<noteq> PTP_OBJECTHANDLE_ALL" by auto
  obtain a ok' where a: "entity_remove_reference_child_array par h = Some (par\<lparr>child_array := a\<rparr>, ok')"
    "handle_array_inv a" "handle_list a = remove1 h (handle_list (child_array par))"
    using remove_reference_ok[OF inv(1) hall] by blast
  let ?g = "\<lambda>x. if obj_handle x = h_parent i then x\<lparr>child_array := a\<rparr> else x"
  have sub: "set (handle_list a) \<subseteq> child_set (obj_list st) (h_parent i)"
    using inv(3) a(3) set_remove1_subset[of h] by auto
  have ok2: "objs_ok nxt (map ?g (obj_list st))"
    using set_refs_ok[OF ok a(2) _ sub] a(3) inv(2) by simp
  have "map (\<lambda>x. if obj_handle x = h_parent i then par\<lparr>child_array := a\<rparr> else x) (obj_list st) = map ?g (obj_list st)"
  proof (rule map_cong[OF refl])
    fix x assume x: "x \<in> set (obj_list st)"
    have "x = par" if "obj_handle x = h_parent i"
      using get_object_Some[OF ok, of "h_parent i" x] x that par by simp
    then show "(if obj_handle x = h_parent i then par\<lparr>child_array := a\<rparr> else x) = ?g x" by simp
  qed
  then have "drop_reference (h_parent i) h st = Some (st\<lparr>obj_list := map ?g (obj_list st)\<rparr>)"
    using False par a(1) ok by (simp add: drop_reference_def update_obj_map objs_ok_def)
  moreover have "map obj_key (map ?g (obj_list st)) = map obj_key (obj_list st)" by (simp add: obj_key_def)
  moreover have "h \<notin> set (handle_list a)" using a(3) inv(2) by simp
  then have "no_ref h (map ?g (obj_list st))"
    unfolding no_ref_def
  proof (intro ballI)
    fix y assume "y \<in> set (map ?g (obj_list st))"
    then obtain x where x: "x \<in> set (obj_list st)" "y = ?g x" by auto
    have "h \<in> set (handle_list (child_array x)) \<Longrightarrow> obj_handle x = h_parent i"
      using objs_okD(3)[OF ok x(1)] parent_unique[OF ok obj, of "obj_handle x"] by blast
    with x \<open>h \<notin> set (handle_list a)\<close> show "h \<notin> set (handle_list (child_array y))" by auto
  qed
  ultimately show ?thesis using ok2 by blast
qed

section \<open>Deletion touches only the subtree\<close>

definition keys :: "'fs del_state \<Rightarrow> (u32 \<times> obj_info option \<times> string option) set" where
  "keys s = obj_key ` set (obj_list (d_store s))"

definition par_rel :: "(u32 \<times> obj_info option \<times> string option) set \<Rightarrow> (u32 \<times> u32) set" where
  "par_rel K = {(p, c). \<exists>i q. (c, Some i, q) \<in> K \<and> h_parent i = p}"

definition desc :: "(u32 \<times> obj_info option \<times> string option) set \<Rightarrow> u32 \<Rightarrow> u32 set" where
  "desc K h = {x. (h, x) \<in> (par_rel K)\<^sup>+}"

lemma desc_mono: "K \<subseteq> K' \<Longrightarrow> desc K h \<subseteq> desc K' h"
  unfolding desc_def by (auto intro: trancl_mono simp: par_rel_def)

lemma desc_child: "(h, c) \<in> par_rel K \<Longrightarrow> insert c (desc K c) \<subseteq> desc K h"
  unfolding desc_def by (auto intro: trancl_into_trancl2)

lemma fst_obj_key [simp]: "fst (obj_key obj) = obj_handle obj"
  by (simp add: obj_key_def)

lemma keys_handles: "fst ` keys s = set (handles_of (obj_list (d_store s)))"
  by (auto simp: keys_def image_image)

lemma keys_finite [simp]: "finite (keys s)"
  by (simp add: keys_def)

lemma keys_store: "d_store s = d_store s' \<Longrightarrow> keys s = keys s'"
  by (simp add: keys_def)

text \<open>From one state to a later one: only objects of D are gone, nothing else of the store changed.\<close>

definition del_rel :: "nat \<Rightarrow> u32 set \<Rightarrow> 'fs del_state \<Rightarrow> 'fs del_state \<Rightarrow> bool" where
  "del_rel nxt D s s' \<longleftrightarrow>
     objs_ok nxt (obj_list (d_store s')) \<and> keys s' \<subseteq> keys s \<and> {k \<in> keys s. fst k \<notin> D} \<subseteq> keys s'
   \<and> (\<exists>objs. d_store s' = (d_store s)\<lparr>obj_list := objs\<rparr>)
   \<and> subseq (handles_of (obj_list (d_store s'))) (handles_of (obj_list (d_store s)))"

lemma del_rel_refl: "objs_ok nxt (obj_list (d_store s)) \<Longrightarrow> d_store s' = d_store s \<Longrightarrow> del_rel nxt D s s'"
  unfolding del_rel_def by (auto simp: keys_def intro: exI[of _ "obj_list (d_store s)"])

lemma del_rel_trans: "del_rel nxt D s s' \<Longrightarrow> del_rel nxt D s' s'' \<Longrightarrow> del_rel nxt D s s''"
proof -
  assume a: "del_rel nxt D s s'" "del_rel nxt D s' s''"
  then obtain xs ys where "d_store s' = (d_store s)\<lparr>obj_list := xs\<rparr>" "d_store s'' = (d_store s')\<lparr>obj_list := ys\<rparr>"
    unfolding del_rel_def by blast
  then have "d_store s'' = (d_store s)\<lparr>obj_list := ys\<rparr>" by simp
  then have "\<exists>objs. d_store s'' = (d_store s)\<lparr>obj_list := objs\<rparr>" by (rule exI)
  moreover have "keys s'' \<subseteq> keys s" "{k \<in> keys s. fst k \<notin> D} \<subseteq> keys s''" "objs_ok nxt (obj_list (d_store s''))"
    "subseq (handles_of (obj_list (d_store s''))) (handles_of (obj_list (d_store s)))"
    using a subseq_order.order_trans unfolding del_rel_def by blast+
  ultimately show ?thesis unfolding del_rel_def by blast
qed

lemma del_rel_mono: "del_rel nxt D s s' \<Longrightarrow> D \<subseteq> D' \<Longrightarrow> del_rel nxt D' s s'"
  unfolding del_rel_def by blast

lemma del_rel_store: "d_store s1 = d_store s \<Longrightarrow> d_store s1' = d_store s' \<Longrightarrow> del_rel nxt D s1 s1' = del_rel nxt D s s'"
  by (simp add: del_rel_def keys_def)

lemma tick_store [simp]: "d_store (tick s) = d_store s"
  by (simp add: tick_def)

lemma keys_tick [simp]: "keys (tick s) = keys s"
  by (simp add: keys_def)

definition newer :: "u32 \<Rightarrow> 'fs del_state \<Rightarrow> nat" where
  "newer h s = card {x \<in> fst ` keys s. unat h < unat x}"

lemma newer_child:
  assumes "(h, c) \<in> par_rel (keys s)" "unat h < unat c" "keys s' \<subseteq> keys s"
  shows "newer c s' < newer h s"
  unfolding newer_def
proof (rule psubset_card_mono)
  obtain i q where "(c, Some i, q) \<in> keys s" using assms(1) unfolding par_rel_def by blast
  then have "c \<in> fst ` keys s" by (metis fst_conv imageI)
  moreover have "fst ` keys s' \<subseteq> fst ` keys s" using assms(3) by blast
  ultimately show "{x \<in> fst ` keys s'. unat c < unat x} \<subset> {x \<in> fst ` keys s. unat h < unat x}"
    using assms(2) by force
qed simp

lemma newer_store: "d_store s = d_store s' \<Longrightarrow> newer h s = newer h s'"
  by (simp add: newer_def keys_def)

text \<open>What one call of the removal guarantees.\<close>

definition rem_post :: "nat \<Rightarrow> u32 \<Rightarrow> 'fs del_state \<Rightarrow> ('fs del_state \<times> bool) option \<Rightarrow> bool" where
  "rem_post nxt h s r \<longleftrightarrow>
     (\<exists>s' ok. r = Some (s', ok) \<and> del_rel nxt (desc (keys s) h) s s'
        \<and> (ok \<longrightarrow> no_ref h (obj_list (d_store s'))))"

definition rem_spec :: "nat \<Rightarrow> nat \<Rightarrow> (u32 \<Rightarrow> 'fs del_state \<Rightarrow> ('fs del_state \<times> bool) option) \<Rightarrow> bool" where
  "rem_spec nxt fuel rec \<longleftrightarrow>
     (\<forall>h s. objs_ok nxt (obj_list (d_store s)) \<longrightarrow> newer h s < fuel \<longrightarrow> rem_post nxt h s (rec h s))"

lemma del_obj_rel:
  assumes "objs_ok nxt (obj_list (d_store s))" "no_ref h (obj_list (d_store s))"
  shows "del_rel nxt {h} s (del_obj h s)" "h \<notin> fst ` keys (del_obj h s)"
proof -
  have l: "obj_list (d_store (del_obj h s)) = filter (\<lambda>obj. obj_handle obj \<noteq> h) (obj_list (d_store s))"
    by (rule del_obj_list[OF assms(1)])
  show "h \<notin> fst ` keys (del_obj h s)" unfolding keys_handles l by auto
  have "objs_ok nxt (obj_list (d_store (del_obj h s)))" unfolding l by (rule filter_ok[OF assms])
  moreover have "keys (del_obj h s) \<subseteq> keys s" "{k \<in> keys s. fst k \<notin> {h}} \<subseteq> keys (del_obj h s)"
    unfolding keys_def l by auto
  moreover have "\<exists>objs. d_store (del_obj h s) = (d_store s)\<lparr>obj_list := objs\<rparr>"
    by (auto simp: del_obj_def)
  moreover have "subseq (handles_of (obj_list (d_store (del_obj h s)))) (handles_of (obj_list (d_store s)))"
    unfolding l by (intro subseq_map subseq_filter_left)
  ultimately show "del_rel nxt {h} s (del_obj h s)" unfolding del_rel_def by blast
qed

lemma remove_children_ok:
  fixes s s0 :: "'fs del_state"
  assumes rec: "rem_spec nxt fuel rec"
    and ok: "objs_ok nxt (obj_list (d_store s))" "keys s \<subseteq> keys s0"
    and hs: "\<And>c. c \<in> set hs \<Longrightarrow> (h, c) \<in> par_rel (keys s0) \<and> (\<forall>s'::'fs del_state. keys s' \<subseteq> keys s0 \<longrightarrow> newer c s' < fuel)"
  shows "\<exists>s' ad cut. remove_children stop rec hs all_del s = Some (s', ad, cut)
     \<and> del_rel nxt (desc (keys s0) h) s s'
     \<and> (ad \<longrightarrow> \<not> cut \<longrightarrow> all_del \<and> (\<forall>c\<in>set hs. c \<notin> fst ` keys s'))"
  using ok hs
proof (induction hs arbitrary: s all_del)
  case Nil
  then show ?case by (intro exI[of _ s] exI[of _ all_del] exI[of _ False]) (simp add: del_rel_refl)
next
  case (Cons c cs)
  let ?D = "desc (keys s0) h"
  note hs' = Cons.prems(3)[OF list.set_intros(2)]
  have c: "(h, c) \<in> par_rel (keys s0)" "newer c (tick s) < fuel" using Cons.prems(2,3) by auto
  consider (stop) "stop (d_clk s)" | (gone) "\<not> stop (d_clk s)" "entity_get_object_from_store (d_store s) c = None"
    | (there) "\<not> stop (d_clk s)" "entity_get_object_from_store (d_store s) c \<noteq> None" by blast
  then show ?case
  proof cases
    case stop
    let ?s = "(tick s)\<lparr>d_resp := PTP_RESPONSE_PARTIAL_DELETION\<rparr>"
    have "del_rel nxt ?D s ?s" by (rule del_rel_refl[OF Cons.prems(1)]) simp
    with stop show ?thesis by auto
  next
    case gone
    have "c \<notin> fst ` keys s" using gone(2) unfolding keys_handles get_object_None .
    moreover obtain s' ad cut where "remove_children stop rec cs all_del (tick s) = Some (s', ad, cut)"
      "del_rel nxt ?D (tick s) s'" "ad \<longrightarrow> \<not> cut \<longrightarrow> all_del \<and> (\<forall>c\<in>set cs. c \<notin> fst ` keys s')"
      using Cons.IH[of "tick s" all_del] Cons.prems(1,2) hs' by auto
    moreover from this(2) have "keys s' \<subseteq> keys s" by (simp add: del_rel_def)
    ultimately show ?thesis using gone del_rel_store[of "tick s" s s' s'] by auto
  next
    case there
    have "rem_post nxt c (tick s) (rec c (tick s))"
      using rec Cons.prems(1) c(2) by (simp add: rem_spec_def)
    then obtain s1 ok where s1: "rec c (tick s) = Some (s1, ok)" "del_rel nxt (desc (keys s) c) s s1"
      "ok \<longrightarrow> no_ref c (obj_list (d_store s1))"
      by (auto simp: rem_post_def del_rel_def)
    have sub: "insert c (desc (keys s) c) \<subseteq> ?D"
      using desc_child[OF c(1)] desc_mono[OF Cons.prems(2), of c] by blast
    then have r1: "del_rel nxt ?D s s1" using s1(2) by (blast intro: del_rel_mono)
    have ok1: "objs_ok nxt (obj_list (d_store s1))" "keys s1 \<subseteq> keys s0"
      using s1(2) Cons.prems(2) by (auto simp: del_rel_def)
    show ?thesis
    proof (cases ok)
      case False
      show ?thesis
      proof (cases "stop (d_clk s1)")
        case True
        let ?s = "(tick s1)\<lparr>d_resp := PTP_RESPONSE_PARTIAL_DELETION\<rparr>"
        have "remove_children stop rec (c # cs) all_del s = Some (?s, False, True)"
          using there s1(1) False True by auto
        moreover have "del_rel nxt ?D s ?s" using r1 del_rel_store[of s s ?s s1] by simp
        ultimately show ?thesis by blast
      next
        case f: False
        obtain s' ad cut where "remove_children stop rec cs False (tick s1) = Some (s', ad, cut)"
          "del_rel nxt ?D (tick s1) s'" "ad \<longrightarrow> \<not> cut \<longrightarrow> False"
          using Cons.IH[of "tick s1" False] ok1 hs' by auto
        with there s1(1) False f r1 show ?thesis
          using del_rel_trans[of nxt ?D s s1 s'] del_rel_store[of "tick s1" s1 s' s'] by auto
      qed
    next
      case True
      let ?s1 = "s1\<lparr>d_one := True\<rparr>"
      have nr: "no_ref c (obj_list (d_store ?s1))" "objs_ok nxt (obj_list (d_store ?s1))"
        using s1(3) True ok1(1) by simp_all
      note d = del_obj_rel[OF nr(2,1)]
      have "del_rel nxt ?D ?s1 (del_obj c ?s1)" using d(1) sub by (blast intro: del_rel_mono)
      then have r2: "del_rel nxt ?D s (del_obj c ?s1)"
        using del_rel_trans[OF r1, of "del_obj c ?s1"] del_rel_store[of ?s1 s1 "del_obj c ?s1" "del_obj c ?s1"] by auto
      have ok2: "objs_ok nxt (obj_list (d_store (del_obj c ?s1)))" "keys (del_obj c ?s1) \<subseteq> keys s0"
        using d(1) ok1(2) keys_store[of ?s1 s1] unfolding del_rel_def by auto
      obtain s' ad cut where l: "remove_children stop rec cs all_del (del_obj c ?s1) = Some (s', ad, cut)"
        "del_rel nxt ?D (del_obj c ?s1) s'" "ad \<longrightarrow> \<not> cut \<longrightarrow> all_del \<and> (\<forall>c\<in>set cs. c \<notin> fst ` keys s')"
        using Cons.IH[OF ok2 hs'] by blast
      have "c \<notin> fst ` keys s'" using l(2) d(2) unfolding del_rel_def by blast
      with l there s1(1) True del_rel_trans[OF r2 l(2)] show ?thesis by auto
    qed
  qed
qed

text \<open>The end of a removal drops the reference of the parent.\<close>

lemma remove_finish_ok:
  assumes ok: "objs_ok nxt (obj_list (d_store s))" and obj: "obj \<in> set (obj_list (d_store s))"
    "obj_handle obj = h" "obj_info obj = Some i"
  shows "\<exists>s' ok. remove_finish h i all_del s = Some (s', ok) \<and> del_rel nxt D s s'
     \<and> ok = all_del \<and> keys s' = keys s \<and> (ok \<longrightarrow> no_ref h (obj_list (d_store s')))"
proof (cases all_del)
  case False
  let ?r = "if d_one s then PTP_RESPONSE_PARTIAL_DELETION else PTP_RESPONSE_OBJ_WRITEPROTECTED"
  have "remove_finish h i all_del s = Some (s\<lparr>d_resp := ?r\<rparr>, False)" using False by (simp add: remove_finish_def)
  moreover have "del_rel nxt D s (s\<lparr>d_resp := ?r\<rparr>)" using ok by (intro del_rel_refl) simp_all
  moreover have "keys (s\<lparr>d_resp := ?r\<rparr>) = keys s" by (rule keys_store) simp
  ultimately show ?thesis using False by blast
next
  case True
  obtain objs' where o: "drop_reference (h_parent i) h (d_store s) = Some ((d_store s)\<lparr>obj_list := objs'\<rparr>)"
    "objs_ok nxt objs'" "map obj_key objs' = map obj_key (obj_list (d_store s))" "no_ref h objs'"
    using drop_reference_ok[OF ok obj] by blast
  let ?s = "s\<lparr>d_resp := PTP_RESPONSE_OK, d_store := (d_store s)\<lparr>obj_list := objs'\<rparr>\<rparr>"
  have "keys ?s = keys s" using arg_cong[OF o(3), of set] by (simp add: keys_def)
  moreover have "handles_of objs' = handles_of (obj_list (d_store s))"
    using arg_cong[OF o(3), of "map fst"] by (simp add: comp_def)
  ultimately have "keys ?s = keys s" "del_rel nxt D s ?s" using o(2) by (auto simp: del_rel_def)
  moreover have "remove_finish h i all_del s = Some (?s, True)" using True o(1) by (simp add: remove_finish_def)
  ultimately show ?thesis using True o(4) by auto
qed

lemma par_rel_iff:
  "(p, c) \<in> par_rel (keys s) \<longleftrightarrow> (\<exists>x\<in>set (obj_list (d_store s)). obj_handle x = c \<and> has_parent p x)"
proof
  assume "(p, c) \<in> par_rel (keys s)"
  then obtain i q where "(c, Some i, q) \<in> keys s" "h_parent i = p" unfolding par_rel_def by blast
  moreover from this(1) obtain x where "x \<in> set (obj_list (d_store s))" "(c, Some i, q) = obj_key x"
    unfolding keys_def by blast
  then have "x \<in> set (obj_list (d_store s))" "obj_handle x = c" "obj_info x = Some i" by (simp_all add: obj_key_def)
  ultimately show "\<exists>x\<in>set (obj_list (d_store s)). obj_handle x = c \<and> has_parent p x"
    by (auto simp: has_parent_def)
next
  assume "\<exists>x\<in>set (obj_list (d_store s)). obj_handle x = c \<and> has_parent p x"
  then obtain x i where "x \<in> set (obj_list (d_store s))" "obj_handle x = c" "obj_info x = Some i" "h_parent i = p"
    by (auto simp: has_parent_def split: option.splits)
  moreover from this have "obj_key x = (c, Some i, file_path x)" by (simp add: obj_key_def)
  ultimately show "(p, c) \<in> par_rel (keys s)" unfolding par_rel_def keys_def by (metis (mono_tags, lifting) CollectI case_prodI imageI)
qed

lemma par_rel_newer:
  assumes "objs_ok nxt (obj_list (d_store s))" "(p, c) \<in> par_rel (keys s)"
  shows "unat p < unat c"
proof -
  from assms(2) obtain x where "x \<in> set (obj_list (d_store s))" "obj_handle x = c" "has_parent p x"
    unfolding par_rel_iff by blast
  moreover from this(1) have "obj_ok nxt (obj_list (d_store s)) x" using assms(1) by (simp add: objs_ok_def)
  ultimately show ?thesis by (auto simp: obj_ok_def has_parent_def split: option.splits)
qed

lemma desc_newer:
  assumes "objs_ok nxt (obj_list (d_store s))" "x \<in> desc (keys s) h"
  shows "unat h < unat x"
proof -
  note step = par_rel_newer[OF assms(1)]
  from assms(2) have "(h, x) \<in> (par_rel (keys s))\<^sup>+" by (simp add: desc_def)
  then show ?thesis
  proof induction
    case (step y z)
    then show ?case using step.IH par_rel_newer[OF assms(1)] by fastforce
  qed (rule step)
qed

lemma survivor:
  assumes "del_rel nxt D s s'" "obj \<in> set (obj_list (d_store s))" "obj_handle obj \<notin> D"
  obtains obj' where "obj' \<in> set (obj_list (d_store s'))" "obj_key obj' = obj_key obj"
proof -
  have "obj_key obj \<in> keys s'" using assms unfolding del_rel_def by (auto simp: keys_def)
  then show thesis using that by (auto simp: keys_def)
qed

lemma remove_plain_store: "remove_plain_children ff os path s = (s', ad, brk) \<Longrightarrow> d_store s' = d_store s"
  by (auto simp: remove_plain_children_def Let_def split: prod.splits if_splits)

lemma remove_folder_store: "remove_folder os path s = (s', b) \<Longrightarrow> d_store s' = d_store s"
  by (auto simp: remove_folder_def split: prod.splits option.splits)

lemma remove_file_store: "remove_file os info path s = (s', b) \<Longrightarrow> d_store s' = d_store s"
  by (auto simp: remove_file_def split: prod.splits option.splits if_splits)

lemma rem_postI: "r = Some (s', ok) \<Longrightarrow> del_rel nxt (desc (keys s) h) s s' \<Longrightarrow>
  (ok \<Longrightarrow> no_ref h (obj_list (d_store s'))) \<Longrightarrow> rem_post nxt h s r"
  by (auto simp: rem_post_def)

lemma finish_post:
  assumes ok: "objs_ok nxt (obj_list (d_store s))" and obj: "obj \<in> set (obj_list (d_store s))"
    "obj_handle obj = h" "obj_info obj = Some i" and s1: "del_rel nxt (desc (keys s) h) s s1"
  shows "rem_post nxt h s (remove_finish h i all_del s1)"
proof -
  have "h \<notin> desc (keys s) h" using desc_newer[OF ok] by blast
  with obj(2) have "obj_handle obj \<notin> desc (keys s) h" by simp
  then obtain obj' where o: "obj' \<in> set (obj_list (d_store s1))" "obj_key obj' = obj_key obj"
    using survivor[OF s1 obj(1)] by blast
  have k: "obj_handle obj' = h" "obj_info obj' = Some i" using o(2) obj by (simp_all add: obj_key_def)
  have ok1: "objs_ok nxt (obj_list (d_store s1))" using s1 by (simp add: del_rel_def)
  obtain s' b where r: "remove_finish h i all_del s1 = Some (s', b)" "del_rel nxt (desc (keys s) h) s1 s'"
    "b \<longrightarrow> no_ref h (obj_list (d_store s'))"
    using remove_finish_ok[OF ok1 o(1) k, of all_del] by blast
  show ?thesis by (rule rem_postI[OF r(1) del_rel_trans[OF s1 r(2)]]) (use r(3) in simp)
qed

lemma remove_folder_post:
  assumes ok: "objs_ok nxt (obj_list (d_store s))" and obj: "obj \<in> set (obj_list (d_store s))"
    "obj_handle obj = h" "obj_info obj = Some i" and s1: "del_rel nxt (desc (keys s) h) s s1"
  shows "rem_post nxt h s (if brk then Some (s1, False)
           else if ad then (case remove_folder os path s1 of
               (s2, True) \<Rightarrow> remove_finish h i True s2 | (s2, False) \<Rightarrow> Some (s2, False))
           else remove_finish h i False s1)"
proof -
  obtain s2 b where s2: "remove_folder os path s1 = (s2, b)" by (cases "remove_folder os path s1")
  have r2: "del_rel nxt (desc (keys s) h) s s2"
    using s1 del_rel_store[of s s s2 s1] remove_folder_store[OF s2] by simp
  have "rem_post nxt h s (Some (s1, False))" "rem_post nxt h s (Some (s2, False))"
    by (rule rem_postI[OF refl s1], simp) (rule rem_postI[OF refl r2], simp)
  with finish_post[OF ok obj s1, of False] finish_post[OF ok obj r2, of True] s2 show ?thesis
    by (cases b) auto
qed

lemma remove_object_spec: "rem_spec nxt fuel (remove_object fuel ff os stop fmt)"
proof (induction fuel)
  case 0
  then show ?case by (simp add: rem_spec_def)
next
  case (Suc fuel)
  show ?case
    unfolding rem_spec_def
  proof (intro allI impI)
    fix h :: u32 and s :: "'a del_state"
    assume ok: "objs_ok nxt (obj_list (d_store s))" and fu: "newer h s < Suc fuel"
    have quick: "rem_post nxt h s (Some ((tick s)\<lparr>d_resp := r\<rparr>, False))" for r
      by (rule rem_postI[OF refl del_rel_refl[OF ok]]) simp_all
    show "rem_post nxt h s (remove_object (Suc fuel) ff os stop fmt h s)"
    proof (cases "entity_get_object_from_store (d_store s) h")
      case None
      then show ?thesis using quick by simp
    next
      case (Some obj)
      then have obj: "obj \<in> set (obj_list (d_store s))" "obj_handle obj = h" using get_object_Some[OF ok] by auto
      obtain i p where i: "obj_info obj = Some i" "file_path obj = Some p" using objs_ok_obj[OF ok obj(1)] by blast
      show ?thesis
      proof (cases "stop (d_clk s) \<or> \<not> format_matches i fmt")
        case True
        then show ?thesis using quick Some i by auto
      next
        case go: False
        show ?thesis
        proof (cases "obj_fmt i = PTP_FMT_ASSOCIATION")
          case False
          obtain s2 b where s2: "remove_file os i p (tick s) = (s2, b)" by (cases "remove_file os i p (tick s)")
          have r2: "del_rel nxt (desc (keys s) h) s s2"
            using remove_file_store[OF s2] by (intro del_rel_refl[OF ok]) simp
          have "rem_post nxt h s (Some (s2, False))" by (rule rem_postI[OF refl r2]) simp
          with finish_post[OF ok obj i(1) r2, of True] s2 go False Some i show ?thesis by (cases b) auto
        next
          case True
          let ?hs = "handles_of (filter (has_parent h) (obj_list (d_store s)))"
          have "h \<in> set (handles_of (obj_list (d_store s)))" using obj by auto
          from child_handles_ok[OF ok this] obtain a where
            a: "entity_get_child_handles (d_store s) h (prop_alloc_ptparray UINT32_TYPE) = Some a"
               "ptparray_elems a = Some ?hs" by blast
          have ch: "(h, c) \<in> par_rel (keys (tick s))
              \<and> (\<forall>s' :: 'a del_state. keys s' \<subseteq> keys (tick s) \<longrightarrow> newer c s' < fuel)" if "c \<in> set ?hs" for c
          proof -
            from that have p: "(h, c) \<in> par_rel (keys s)" unfolding par_rel_iff by auto
            have "newer c s' < fuel" if "keys s' \<subseteq> keys s" for s' :: "'a del_state"
              using newer_child[OF p par_rel_newer[OF ok p] that] fu by simp
            with p show ?thesis by simp
          qed
          obtain s1 ad brk where s1: "(if ?hs \<noteq> [] then remove_children stop (remove_object fuel ff os stop fmt) ?hs True (tick s)
                 else Some (remove_plain_children ff os p (tick s))) = Some (s1, ad, brk)"
              "del_rel nxt (desc (keys s) h) s s1"
          proof (cases "?hs = []")
            case True
            obtain s1 ad brk where r: "remove_plain_children ff os p (tick s) = (s1, ad, brk)"
              by (cases "remove_plain_children ff os p (tick s)")
            show ?thesis using that[of s1 ad brk] r True del_rel_refl[OF ok, of s1] remove_plain_store[OF r] by simp
          next
            case False
            have ok0: "objs_ok nxt (obj_list (d_store (tick s)))" using ok by simp
            from remove_children_ok[where hs = ?hs and stop = stop and all_del = True, OF Suc.IH ok0 order_refl ch] obtain s1 ad brk where
              "remove_children stop (remove_object fuel ff os stop fmt) ?hs True (tick s) = Some (s1, ad, brk)"
              "del_rel nxt (desc (keys (tick s)) h) (tick s) s1" by blast
            then show ?thesis using that[of s1 ad brk] False del_rel_store[of "tick s" s s1 s1] by simp
          qed
          show ?thesis
            using remove_folder_post[OF ok obj i(1) s1(2), of brk ad os p] go Some i True a s1(1) by simp
        qed
      qed
    qed
  qed
qed

section \<open>The delete operation\<close>

lemma newer_bound: "newer h s \<le> length (obj_list (d_store s))"
proof -
  have "newer h s \<le> card (set (handles_of (obj_list (d_store s))))"
    unfolding newer_def keys_handles by (intro card_mono) auto
  also have "\<dots> \<le> length (obj_list (d_store s))" using card_length[of "handles_of (obj_list (d_store s))"] by simp
  finally show ?thesis .
qed

lemma remove_then_unlink:
  assumes ok: "objs_ok nxt (obj_list (d_store s))" and fu: "length (obj_list (d_store s)) < fuel"
    and r: "remove_object fuel ff os stop fmt h s = Some (s1, b)"
  shows "del_rel nxt (insert h (desc (keys s) h)) s (if b then del_obj h s1 else s1)"
    "b \<Longrightarrow> h \<notin> fst ` keys (del_obj h s1)" "del_rel nxt (desc (keys s) h) s s1"
proof -
  have "rem_post nxt h s (remove_object fuel ff os stop fmt h s)"
    using remove_object_spec[of nxt fuel ff os stop fmt] ok newer_bound[of h s] fu by (simp add: rem_spec_def)
  with r have s1: "del_rel nxt (desc (keys s) h) s s1" "b \<longrightarrow> no_ref h (obj_list (d_store s1))"
    by (auto simp: rem_post_def)
  have ok1: "objs_ok nxt (obj_list (d_store s1))" using s1(1) by (simp add: del_rel_def)
  have r1: "del_rel nxt (insert h (desc (keys s) h)) s s1" using s1(1) by (rule del_rel_mono) blast
  show "del_rel nxt (desc (keys s) h) s s1" by (rule s1(1))
  show "b \<Longrightarrow> h \<notin> fst ` keys (del_obj h s1)" using del_obj_rel(2)[OF ok1] s1(2) by blast
  show "del_rel nxt (insert h (desc (keys s) h)) s (if b then del_obj h s1 else s1)"
  proof (cases b)
    case True
    have "del_rel nxt {h} s1 (del_obj h s1)" using del_obj_rel(1)[OF ok1] s1(2) True by blast
    then have "del_rel nxt (insert h (desc (keys s) h)) s1 (del_obj h s1)" by (rule del_rel_mono) blast
    with r1 True show ?thesis using del_rel_trans by auto
  qed (use r1 in simp)
qed

lemma remove_object_total:
  assumes "objs_ok nxt (obj_list (d_store s))" "length (obj_list (d_store s)) < fuel"
  shows "\<exists>s1 b. remove_object fuel ff os stop fmt h s = Some (s1, b)"
proof -
  have "rem_post nxt h s (remove_object fuel ff os stop fmt h s)"
    using remove_object_spec[of nxt fuel ff os stop fmt] newer_bound[of h s] assms by (simp add: rem_spec_def)
  then show ?thesis by (auto simp: rem_post_def)
qed

lemma objs_ok_one: "objs_ok nxt (obj_list (d_store (s\<lparr>d_one := b\<rparr>))) = objs_ok nxt (obj_list (d_store s))"
  by simp

text \<open>
  What is left of the list behind an object; a deletion leaves a part of the
  list in its order, so this cannot grow.
\<close>

definition behind :: "u32 \<Rightarrow> u32 list \<Rightarrow> nat" where
  "behind h hs = length (dropWhile (\<lambda>x. x \<noteq> h) hs) - 1"

lemma behind_subseq: "subseq ys xs \<Longrightarrow> behind h ys \<le> behind h xs"
proof -
  assume "subseq ys xs"
  then have "length (dropWhile (\<lambda>x. x \<noteq> h) ys) \<le> length (dropWhile (\<lambda>x. x \<noteq> h) xs)"
  proof (induction rule: list_emb.induct)
    case (list_emb_Cons xs ys y)
    then show ?case using length_dropWhile_le[of "\<lambda>x. x \<noteq> h" xs] list_emb_length[OF list_emb_Cons.hyps] by simp
  qed (auto dest: list_emb_length)
  then show ?thesis unfolding behind_def by (rule diff_le_mono)
qed

lemma behind_successor:
  assumes "distinct (handles_of objs)" "successor h objs = Some k"
  shows "behind k (handles_of objs) < behind h (handles_of objs)"
proof -
  obtain x y zs where d: "dropWhile (\<lambda>obj. obj_handle obj \<noteq> h) objs = x # y # zs" "k = obj_handle y"
    using assms(2) by (auto simp: successor_def split: list.splits)
  have x: "obj_handle x = h" using d(1) by (simp add: dropWhile_eq_Cons_conv)
  let ?us = "takeWhile (\<lambda>obj. obj_handle obj \<noteq> h) objs"
  have us: "objs = ?us @ x # y # zs" using d(1) by (metis takeWhile_dropWhile_id)
  have "obj_handle y \<notin> insert h (set (handles_of ?us))" using assms(1) x by (subst (asm) us) auto
  then have "dropWhile (\<lambda>z. z \<noteq> k) (handles_of objs) = handles_of (y # zs)"
    using x d(2) by (subst us) (auto simp: dropWhile_append image_iff)
  moreover have "dropWhile (\<lambda>z. z \<noteq> h) (handles_of objs) = handles_of (x # y # zs)"
    using d(1) by (simp add: dropWhile_map comp_def)
  ultimately show ?thesis by (simp add: behind_def)
qed

text \<open>The loop over all objects visits every node at most once, so it ends.\<close>

lemma delete_all_total:
  assumes "objs_ok nxt (obj_list (d_store s))" "length (obj_list (d_store s)) < fuel"
    "\<And>h. node = Some h \<Longrightarrow> behind h (handles_of (obj_list (d_store s))) < n"
  shows "\<exists>s' r. delete_all n fuel ff os stop fmt node all_del s = Some (s', r)
     \<and> objs_ok nxt (obj_list (d_store s')) \<and> keys s' \<subseteq> keys s \<and> (\<exists>objs. d_store s' = (d_store s)\<lparr>obj_list := objs\<rparr>)"
  using assms
proof (induction n fuel ff os stop fmt node all_del s rule: delete_all.induct)
  case (1 n fuel ff os stop fmt all_del s)
  then show ?case by (auto intro: exI[of _ "obj_list (d_store s)"])
next
  case (3 n fuel ff os stop fmt h all_del s)
  show ?case
  proof (cases "stop (d_clk s)")
    case True
    with "3.prems"(1) show ?thesis by (auto intro: exI[of _ "obj_list (d_store s)"])
  next
    case False
    have ok: "objs_ok nxt (obj_list (d_store (tick s)))" "length (obj_list (d_store (tick s))) < fuel"
      using "3.prems" by simp_all
    obtain s1 b where s1: "remove_object fuel ff os stop fmt h (tick s) = Some (s1, b)"
      using remove_object_total[OF ok] by blast
    note r = remove_then_unlink[OF ok s1]
    let ?s2 = "if b then del_obj h s1 else s1"
    have ok1: "objs_ok nxt (obj_list (d_store s1))" using r(3) by (simp add: del_rel_def)
    have ok2: "objs_ok nxt (obj_list (d_store ?s2))" "keys ?s2 \<subseteq> keys s" "\<exists>objs. d_store ?s2 = (d_store s)\<lparr>obj_list := objs\<rparr>"
      using r(1) by (simp_all add: del_rel_def)
    have sub: "subseq (handles_of (obj_list (d_store s1))) (handles_of (obj_list (d_store s)))"
      "subseq (handles_of (obj_list (d_store ?s2))) (handles_of (obj_list (d_store s)))"
      "subseq (handles_of (obj_list (d_store ?s2))) (handles_of (obj_list (d_store s1)))"
      using r(1,3) del_obj_list[OF ok1, of h] by (auto simp: del_rel_def intro!: subseq_map)
    have sz: "length (obj_list (d_store ?s2)) < fuel" using list_emb_length[OF sub(2)] "3.prems"(2) by simp
    have nw: "behind k (handles_of (obj_list (d_store ?s2))) < n" if k: "successor h (obj_list (d_store s1)) = Some k" for k
    proof -
      have "distinct (handles_of (obj_list (d_store s1)))" using ok1 by (simp add: objs_ok_def)
      note behind_subseq[OF sub(3), of k] behind_successor[OF this k] behind_subseq[OF sub(1), of h]
      with "3.prems"(3)[OF refl] show ?thesis by linarith
    qed
    have "\<exists>s' r. delete_all n fuel ff os stop fmt (successor h (obj_list (d_store s1)))
        (all_del \<and> keeps_all_del (d_resp s1)) ?s2 = Some (s', r)
      \<and> objs_ok nxt (obj_list (d_store s')) \<and> keys s' \<subseteq> keys ?s2 \<and> (\<exists>objs. d_store s' = (d_store ?s2)\<lparr>obj_list := objs\<rparr>)"
      by (rule "3.IH"[OF False s1 refl refl ok2(1) sz nw])
    then obtain s' r objs' where s': "delete_all n fuel ff os stop fmt (successor h (obj_list (d_store s1)))
        (all_del \<and> keeps_all_del (d_resp s1)) ?s2 = Some (s', r)" "objs_ok nxt (obj_list (d_store s'))" "keys s' \<subseteq> keys ?s2"
      "d_store s' = (d_store ?s2)\<lparr>obj_list := objs'\<rparr>" by blast
    moreover obtain objs where "d_store ?s2 = (d_store s)\<lparr>obj_list := objs\<rparr>" using ok2(3) by blast
    with s'(4) have "\<exists>objs. d_store s' = (d_store s)\<lparr>obj_list := objs\<rparr>" by auto
    ultimately show ?thesis using False s1 ok2(2) by auto
  qed
qed simp

text \<open>Every call of the delete operation returns, keeps the invariant and adds nothing.\<close>

lemma delete_total:
  assumes "objs_ok nxt (obj_list (d_store s))" "length (obj_list (d_store s)) < fuel"
  shows "\<exists>s' r. entity_delete_obj_mtp_store fuel ff e stop h fmt s = Some (s', r)
     \<and> objs_ok nxt (obj_list (d_store s')) \<and> keys s' \<subseteq> keys s \<and> (\<exists>objs. d_store s' = (d_store s)\<lparr>obj_list := objs\<rparr>)"
proof -
  let ?s = "s\<lparr>d_one := False\<rparr>" and ?objs = "obj_list (d_store s)"
  let ?node = "case ?objs of [] \<Rightarrow> None | obj # _ \<Rightarrow> Some (obj_handle obj)"
  have k: "keys ?s = keys s" by (rule keys_store) simp
  have ok: "objs_ok nxt (obj_list (d_store ?s))" "length (obj_list (d_store ?s)) < fuel" using assms by simp_all
  have same: "\<exists>objs. d_store ?s = (d_store s)\<lparr>obj_list := objs\<rparr>" by (auto intro: exI[of _ ?objs])
  consider (none) "access (s_info (d_store s)) = PTP_STORAGEACCESS_R \<or> h \<noteq> PTP_OBJECTHANDLE_ALL \<and> entity_get_object_from_store (d_store s) h = None"
    | (all) "access (s_info (d_store s)) \<noteq> PTP_STORAGEACCESS_R" "h = PTP_OBJECTHANDLE_ALL"
    | (one) "access (s_info (d_store s)) \<noteq> PTP_STORAGEACCESS_R" "h \<noteq> PTP_OBJECTHANDLE_ALL" "entity_get_object_from_store (d_store s) h \<noteq> None"
    by blast
  then show ?thesis
  proof cases
    case none
    then have "\<exists>r. entity_delete_obj_mtp_store fuel ff e stop h fmt s = Some (?s, r)"
      by (auto simp: entity_delete_obj_mtp_store_def Let_def)
    with ok(1) k same show ?thesis by blast
  next
    case all
    have "behind x (handles_of (obj_list (d_store ?s))) < length ?objs" if "?node = Some x" for x
      using that by (auto simp: behind_def split: list.splits)
    from delete_all_total[where node = ?node and ff = ff and os = "e_os e" and stop = stop and fmt = fmt and all_del = True, OF ok this] obtain s' r where
      "delete_all (length ?objs) fuel ff (e_os e) stop fmt ?node True ?s = Some (s', r)"
      "objs_ok nxt (obj_list (d_store s'))" "keys s' \<subseteq> keys s" "\<exists>objs. d_store s' = (d_store s)\<lparr>obj_list := objs\<rparr>"
      unfolding k by auto
    with all show ?thesis by (auto simp: entity_delete_obj_mtp_store_def Let_def)
  next
    case one
    obtain s1 b where s1: "remove_object fuel ff (e_os e) stop PTP_FORMATCODE_NOTUSED h ?s = Some (s1, b)"
      using remove_object_total[OF ok] by blast
    let ?s2 = "if b then del_obj h s1 else s1"
    have "entity_delete_obj_mtp_store fuel ff e stop h fmt s
        = Some (?s2, if b then PTP_RESPONSE_OK else final_response (keeps_all_del (d_resp s1)) s1)"
      using one s1 by (auto simp: entity_delete_obj_mtp_store_def Let_def)
    with remove_then_unlink(1)[OF ok s1] k show ?thesis unfolding del_rel_def by auto
  qed
qed

section \<open>Listing by depth\<close>

definition child_handles_fmt :: "mtp_obj list \<Rightarrow> u32 \<Rightarrow> u32 \<Rightarrow> u32 list" where
  "child_handles_fmt objs h fmt = handles_of (filter (\<lambda>obj. case obj_info obj of
       None \<Rightarrow> False | Some i \<Rightarrow> h_parent i = h \<and> (ucast (obj_fmt i) = fmt \<or> fmt = PTP_FORMATCODE_NOTUSED)) objs)"

text \<open>The specification: the handle, then its children in store order, down to the depth.\<close>

primrec depth_handles :: "nat \<Rightarrow> mtp_obj list \<Rightarrow> u32 \<Rightarrow> u32 \<Rightarrow> u32 list" where
  "depth_handles 0 objs h fmt = (if h = PTP_OBJECTHANDLE_ROOT then [] else [h])"
| "depth_handles (Suc d) objs h fmt = (if h = PTP_OBJECTHANDLE_ROOT then [] else [h])
     @ concat (map (\<lambda>c. depth_handles d objs c fmt) (child_handles_fmt objs h fmt))"

lemma child_handles_fmt_ok:
  assumes "objs_ok nxt (obj_list st)"
  shows "\<exists>a. entity_get_child_handles_with_same_format st h fmt (prop_alloc_ptparray UINT32_TYPE) = Some a
     \<and> ptparray_elems a = Some (child_handles_fmt (obj_list st) h fmt)"
proof -
  let ?Q = "\<lambda>obj. case obj_info obj of None \<Rightarrow> False
     | Some i \<Rightarrow> h_parent i = h \<and> (ucast (obj_fmt i) = fmt \<or> fmt = PTP_FORMATCODE_NOTUSED)"
  have "length (filter ?Q (obj_list st)) \<le> 2 ^ 29"
  proof -
    have "nxt \<le> 2 ^ 29" using assms by (simp add: objs_ok_def)
    with objs_ok_length[OF assms] length_filter_le[of ?Q "obj_list st"] show ?thesis by linarith
  qed
  with append_matching_ok[of "prop_alloc_ptparray UINT32_TYPE" ?Q "obj_list st" "\<lambda>obj. Some (?Q obj)"] alloc_handles
  obtain a where "append_matching (\<lambda>obj. Some (?Q obj)) (obj_list st) (prop_alloc_ptparray UINT32_TYPE) = Some a"
    "handle_array_inv a" "handle_list a = handles_of (filter ?Q (obj_list st))" by auto
  then show ?thesis
    using handle_array_Some[of a] by (auto simp: entity_get_child_handles_with_same_format_def child_handles_fmt_def)
qed

lemma append_handle_ok:
  assumes "handle_array_inv a" "length (handle_list a) < 2 ^ 29 \<or> h = 0"
  shows "\<exists>a'. (if h \<noteq> PTP_OBJECTHANDLE_ROOT then map_option fst (prop_append_ele_ptparray a h) else Some a) = Some a'
     \<and> handle_array_inv a' \<and> handle_list a' = handle_list a @ (if h = PTP_OBJECTHANDLE_ROOT then [] else [h])"
proof (cases "h = 0")
  case False
  with handles.append_law[OF assms(1), of h] assms(2) show ?thesis by auto
qed (use assms in simp)

lemma till_depth_ok:
  assumes "objs_ok nxt (obj_list st)" "handle_array_inv a" "h \<noteq> PTP_OBJECTHANDLE_ALL"
    "length (handle_list a) + length (depth_handles d (obj_list st) h fmt) \<le> 2 ^ 29"
  shows "\<exists>a'. till_depth d st h fmt a = Some a' \<and> handle_array_inv a'
     \<and> handle_list a' = handle_list a @ depth_handles d (obj_list st) h fmt"
  using assms(2-4)
proof (induction d arbitrary: h a)
  case 0
  then have "length (handle_list a) < 2 ^ 29 \<or> h = 0" by (auto split: if_splits)
  from append_handle_ok[OF "0.prems"(1) this] "0.prems"(2) show ?case by simp
next
  case (Suc d)
  have "length (handle_list a) < 2 ^ 29 \<or> h = 0" using Suc.prems(3) by (auto split: if_splits)
  from append_handle_ok[OF Suc.prems(1) this] obtain a1 where a1:
    "(if h \<noteq> PTP_OBJECTHANDLE_ROOT then map_option fst (prop_append_ele_ptparray a h) else Some a) = Some a1"
    "handle_array_inv a1" "handle_list a1 = handle_list a @ (if h = PTP_OBJECTHANDLE_ROOT then [] else [h])" by blast
  obtain ca where ca: "entity_get_child_handles_with_same_format st h fmt (prop_alloc_ptparray UINT32_TYPE) = Some ca"
    "ptparray_elems ca = Some (child_handles_fmt (obj_list st) h fmt)" using child_handles_fmt_ok[OF assms(1)] by blast
  have loop: "\<exists>a'. foldM (\<lambda>c a. till_depth d st c fmt a) hs b = Some a' \<and> handle_array_inv a'
      \<and> handle_list a' = handle_list b @ concat (map (\<lambda>c. depth_handles d (obj_list st) c fmt) hs)"
    if "handle_array_inv b" "\<And>c. c \<in> set hs \<Longrightarrow> c \<noteq> PTP_OBJECTHANDLE_ALL"
      "length (handle_list b) + length (concat (map (\<lambda>c. depth_handles d (obj_list st) c fmt) hs)) \<le> 2 ^ 29" for hs b
    using that
  proof (induction hs arbitrary: b)
    case (Cons c cs)
    have "length (handle_list b) + length (depth_handles d (obj_list st) c fmt) \<le> 2 ^ 29" using Cons.prems(3) by simp
    with Suc.IH[OF Cons.prems(1)] Cons.prems(2) obtain b1 where b1: "till_depth d st c fmt b = Some b1" "handle_array_inv b1"
      "handle_list b1 = handle_list b @ depth_handles d (obj_list st) c fmt" by auto
    with Cons.IH[OF b1(2)] Cons.prems(2,3) show ?case by auto
  qed simp
  have "c \<noteq> PTP_OBJECTHANDLE_ALL" if "c \<in> set (child_handles_fmt (obj_list st) h fmt)" for c
  proof -
    from that obtain x where "x \<in> set (obj_list st)" "c = obj_handle x" by (auto simp: child_handles_fmt_def)
    with objs_okD(6)[OF assms(1)] have "unat c < 2 ^ 29" by blast
    then show ?thesis by auto
  qed
  with loop[OF a1(2)] a1(3) Suc.prems(3) ca a1(1) Suc.prems(2) show ?case by auto
qed

section \<open>Properties\<close>


text \<open>Deleting all objects of a well-formed store visits every object at most once and
  terminates; the store stays well formed and no object is added.\<close>

lemma delete_all_terminates:
  assumes "objs_ok nxt (obj_list (d_store s))" "length (obj_list (d_store s)) < fuel"
  shows "\<exists>s' r. entity_delete_obj_mtp_store fuel ff e stop PTP_OBJECTHANDLE_ALL fmt s = Some (s', r)
     \<and> objs_ok nxt (obj_list (d_store s')) \<and> keys s' \<subseteq> keys s"
  using delete_total[OF assms, of ff e stop PTP_OBJECTHANDLE_ALL fmt] by blast

text \<open>listing the handles below an object (or the root) down to a depth yields, behind what the array
  already holds, exactly the preorder listing of the subtree restricted to the requested format.\<close>

lemma till_depth_preorder:
  assumes "objs_ok nxt (obj_list st)" "handle_array_inv a" "h \<noteq> PTP_OBJECTHANDLE_ALL"
    "length (handle_list a) + length (depth_handles (unat depth) (obj_list st) h fmt) \<le> 2 ^ 29"
  shows "\<exists>a'. entity_get_objects_from_store_till_depth st h fmt depth a = Some a' \<and> handle_array_inv a'
     \<and> handle_list a' = handle_list a @ depth_handles (unat depth) (obj_list st) h fmt"
  using till_depth_ok[OF assms] by (simp add: entity_get_objects_from_store_till_depth_def)

text \<open>A store with two nested folders and a file in the inner one.\<close>

definition sample_obj :: "u32 \<Rightarrow> u32 \<Rightarrow> u16 \<Rightarrow> string \<Rightarrow> mtp_obj" where
  "sample_obj h parent fmt path = \<lparr>obj_handle = h, obj_info = Some (zero_info\<lparr>h_parent := parent, obj_fmt := fmt\<rparr>),
     file_path = Some path, child_array = zero_child_array, propval_list = []\<rparr>"

definition sample_store :: mtp_store where
  "sample_store = card_store\<lparr>obj_list :=
     [sample_obj 1 0 PTP_FMT_ASSOCIATION ''/media/card/d'', sample_obj 2 1 PTP_FMT_ASSOCIATION ''/media/card/d/e'',
      sample_obj 3 2 PTP_FMT_UNDEF ''/media/card/d/e/f'']\<rparr>"

definition sample_state :: "unit del_state" where
  "sample_state = \<lparr>d_store = sample_store, d_fs = (), d_last = [], d_resp = 0, d_one = False, d_clk = 0\<rparr>"

lemma sample_ok: "objs_ok 4 (obj_list sample_store)"
  by (simp add: objs_ok_def obj_ok_def sample_store_def sample_obj_def zero_child_array_inv zero_info_def card_store_def)


lemma delete_all_terminates_witness:
  "\<exists>s' r. entity_delete_obj_mtp_store 4 4 card_env (\<lambda>n. n = 2) PTP_OBJECTHANDLE_ALL 0 sample_state = Some (s', r)
     \<and> objs_ok 4 (obj_list (d_store s')) \<and> keys s' \<subseteq> keys sample_state"
  by (rule delete_all_terminates) (simp_all add: sample_state_def sample_ok, simp add: sample_store_def)

lemma till_depth_preorder_witness:
  "\<exists>a'. entity_get_objects_from_store_till_depth sample_store 0 0 2 (prop_alloc_ptparray UINT32_TYPE) = Some a'
     \<and> handle_array_inv a'
     \<and> handle_list a' = handle_list (prop_alloc_ptparray UINT32_TYPE) @ depth_handles (unat (2 :: u32)) (obj_list sample_store) 0 0"
proof (rule till_depth_preorder[OF sample_ok alloc_handles(1)])
  have "depth_handles (unat (2 :: u32)) (obj_list sample_store) 0 0 = [1, 2]" by code_simp
  then show "length (handle_list (prop_alloc_ptparray UINT32_TYPE))
      + length (depth_handles (unat (2 :: u32)) (obj_list sample_store) 0 0) \<le> 2 ^ 29"
    using alloc_handles(2) by simp
qed simp

text \<open>When the file system refuses to remove a file with an error other than a permission error, the
  object stays in the store but the delete operation reports OK.\<close>

lemma delete_error_reported_ok:
  "map_option (\<lambda>(s', r). (handles_of (obj_list (d_store s')), r))
     (entity_delete_obj_mtp_store 4 4 (card_env\<lparr>e_os := card_os\<lparr>os_remove := \<lambda>_ _. ((), Some EOTHER)\<rparr>\<rparr>)
        (\<lambda>_. False) 3 0 sample_state)
   = Some ([1, 2, 3], PTP_RESPONSE_OK)"
  by code_simp

text \<open>The ancestor test does not descend into folders: an object two levels below a folder is not
  recognised as lying in it, although its direct parent is.\<close>

lemma ancestor_test_misses_grandparent:
  "entity_check_if_B_parent_of_A 4 sample_store 3 2 = Some True
   \<and> entity_check_if_B_parent_of_A 4 sample_store 3 1 = Some False"
  by code_simp

end
