(* ===== verification/Device.thy ===== *)
theory Device
  imports Store_Del
begin

text \<open>
  The device of src/entity/mtp_device.c: its information dataset, the array of
  storages with installation and removal, the lookups that range over all
  storages, and deletion.  The property table that _init_mtp_device builds and
  the global data that the operations share with the store (file system, next
  object handle, last deleted path, looks at the status flags) are explicit.
\<close>

section \<open>Data\<close>

abbreviation (input) MAX_NUM_DEVICE_STORES :: nat where "MAX_NUM_DEVICE_STORES \<equiv> 1"
abbreviation (input) MTP_STANDARD_VERSION :: u16 where "MTP_STANDARD_VERSION \<equiv> 0x64"
abbreviation (input) MTP_VENDOR_EXTN_ID :: u32 where "MTP_VENDOR_EXTN_ID \<equiv> 0x06"
abbreviation (input) MTP_VENDOR_EXTN_VERSION :: u16 where "MTP_VENDOR_EXTN_VERSION \<equiv> 0x64"
abbreviation (input) PTP_FUNCTIONMODE_SLEEP :: u16 where "PTP_FUNCTIONMODE_SLEEP \<equiv> 1"

datatype device_status = DEVICE_STATUSOK | DEVICE_DEVICEERROR

datatype device_phase =
  DEVICE_PHASE_NOTREADY | DEVICE_PHASE_IDLE | DEVICE_PHASE_DATAIN | DEVICE_PHASE_DATAOUT | DEVICE_PHASE_RESPONSE

record device_info =
  std_version :: u16
  vendor_extn_id :: u32
  vendor_extn_version :: u16
  vendor_extn_desc :: ptp_string
  functional_mode :: u16
  ops_supported :: "u16 list"
  events_supported :: "u16 list"
  capture_fmts :: "u16 list"
  object_fmts :: "u16 list"
  manufacturer :: ptp_string
  model :: ptp_string
  device_version :: ptp_string
  serial_no :: ptp_string

record mtp_device =
  status :: device_status
  phase :: device_phase
  dev_info :: device_info
  store_list :: "mtp_store list"
  num_stores :: u8
  default_store_id :: u32
  default_hparent :: u32
  is_mounted :: bool

definition g_ops_supported :: "u16 list" where
  "g_ops_supported =
     [PTP_OPCODE_GETDEVICEINFO, PTP_OPCODE_OPENSESSION, PTP_OPCODE_CLOSESESSION, PTP_OPCODE_GETSTORAGEIDS,
      PTP_OPCODE_GETSTORAGEINFO, PTP_OPCODE_GETOBJECTHANDLES, PTP_OPCODE_GETOBJECTINFO, PTP_OPCODE_GETOBJECT,
      PTP_OPCODE_DELETEOBJECT, PTP_OPCODE_SENDOBJECTINFO, PTP_OPCODE_SENDOBJECT, PTP_OPCODE_GETPARTIALOBJECT,
      MTP_OPCODE_GETOBJECTPROPDESC, MTP_OPCODE_GETOBJECTPROPVALUE, MTP_OPCODE_SETOBJECTPROPVALUE,
      PTP_OC_ANDROID_BEGINEDITOBJECT, PTP_OC_ANDROID_ENDEDITOBJECT, PTP_OC_ANDROID_GETPARTIALOBJECT,
      PTP_OC_ANDROID_SENDPARTIALOBJECT]"

definition g_event_supported :: "u16 list" where
  "g_event_supported = [PTP_EVENTCODE_OBJECTADDED, PTP_EVENTCODE_OBJECTREMOVED]"

definition g_capture_fmts :: "u16 list" where
  "g_capture_fmts = [0]"

definition g_object_fmts :: "u16 list" where
  "g_object_fmts = [PTP_FMT_ASSOCIATION]"

section \<open>Initialisation\<close>

text \<open>The static variables start with all bytes zero; a null pointer to the stores is an empty array.\<close>

definition zero_store :: mtp_store where
  "zero_store = \<lparr>root_path = None, s_id = 0,
     s_info = \<lparr>store_type = 0, fs_type = 0, access = 0, capacity = 0, free_space = 0, free_space_in_objs = 0,
               store_desc = zero_string, vol_label = zero_string\<rparr>, obj_list = [], is_hidden = False\<rparr>"

definition zero_device :: mtp_device where
  "zero_device = \<lparr>status = DEVICE_STATUSOK, phase = DEVICE_PHASE_NOTREADY,
     dev_info = \<lparr>std_version = 0, vendor_extn_id = 0, vendor_extn_version = 0, vendor_extn_desc = zero_string,
       functional_mode = 0, ops_supported = [], events_supported = [], capture_fmts = [], object_fmts = [],
       manufacturer = zero_string, model = zero_string, device_version = zero_string, serial_no = zero_string\<rparr>,
     store_list = [], num_stores = 0, default_store_id = 0, default_hparent = 0, is_mounted = False\<rparr>"

text \<open>One text of the device information, converted through the shared buffer wtemp.\<close>

definition info_string :: "'fs env \<Rightarrow> u16 list \<Rightarrow> ptp_string \<Rightarrow> string \<Rightarrow> (u16 list \<times> ptp_string) option" where
  "info_string e wtemp s tx = do {
     (w, _) \<leftarrow> util_utf8_to_utf16 (e_to16 e) True wtemp 256 tx;
     s' \<leftarrow> prop_copy_wchar_to_ptpstring (s\<lparr>num_chars := 0\<rparr>) (Some w);
     Some (w, s') }"

definition init_mtp_device :: "'fs env \<Rightarrow> mtp_store list \<Rightarrow> mtp_device \<Rightarrow> (mtp_device \<times> obj_prop_desc list) option" where
  "init_mtp_device e g_store_list d = do {
     props \<leftarrow> prop_build_supp_props_default (e_to16 e) (e_junk e);
     let info = dev_info d;
     (w1, desc) \<leftarrow> info_string e (replicate 256 0) (vendor_extn_desc info) ''microsoft.com:1.0;android.com:1.0; '';
     (w2, manu) \<leftarrow> info_string e w1 (manufacturer info) ''Collabora'';
     (w3, mdl) \<leftarrow> info_string e w2 (model info) ''DUMMY MODEL'';
     (w4, ver) \<leftarrow> info_string e w3 (device_version info) ''devv_DUMMY_VERSION'';
     (w5, ser) \<leftarrow> info_string e w4 (serial_no info) ''DUMMY_SERIAL'';
     Some (d\<lparr>status := DEVICE_STATUSOK, phase := DEVICE_PHASE_IDLE, num_stores := 0, store_list := g_store_list,
             default_store_id := MTP_EXTERNAL_STORE_ID, default_hparent := PTP_OBJECTHANDLE_ROOT,
             dev_info := \<lparr>std_version = MTP_STANDARD_VERSION, vendor_extn_id = MTP_VENDOR_EXTN_ID,
               vendor_extn_version = MTP_VENDOR_EXTN_VERSION, vendor_extn_desc = desc,
               functional_mode = PTP_FUNCTIONMODE_SLEEP, ops_supported = g_ops_supported,
               events_supported = g_event_supported, capture_fmts = g_capture_fmts,
               object_fmts = g_object_fmts, manufacturer = manu, model = mdl, device_version = ver,
               serial_no = ser\<rparr>\<rparr>, props) }"

definition reset_mtp_device :: "mtp_device \<Rightarrow> mtp_device" where
  "reset_mtp_device d = d\<lparr>status := DEVICE_STATUSOK, phase := DEVICE_PHASE_IDLE\<rparr>"

section \<open>The information dataset\<close>

text \<open>The sizes of the code arrays are compile-time constants.\<close>

definition get_device_info_size :: "device_info \<Rightarrow> u32" where
  "get_device_info_size info =
     2 + 4 + 2 + prop_size_ptpstring (Some (vendor_extn_desc info)) + 2
     + 4 + of_nat (2 * length g_ops_supported) + 4 + of_nat (2 * length g_event_supported) + 4
     + 4 + of_nat (2 * length g_capture_fmts) + 4 + of_nat (2 * length g_object_fmts)
     + prop_size_ptpstring (Some (manufacturer info)) + prop_size_ptpstring (Some (model info))
     + prop_size_ptpstring (Some (device_version info)) + prop_size_ptpstring (Some (serial_no info))"

text \<open>A text is packed without a look at the count that the packer returns.\<close>

definition pk_text :: "ptp_string \<Rightarrow> packer" where
  "pk_text s = map_option (\<lambda>(bs, n). (take (unat n) bs, True)) (prop_pack_ptpstring s (prop_size_ptpstring (Some s)))"

text \<open>A counted array of codes; reading past the array is undefined.\<close>

definition pk_codes :: "nat \<Rightarrow> u16 list \<Rightarrow> packer" where
  "pk_codes n cs =
     (if n \<le> length cs
      then pk_bytes (le_bytes 4 (of_nat n :: u32) @ concat (map (le_bytes 2) (take n cs))) else None)"

definition pack_device_info :: "device_info \<Rightarrow> u32 \<Rightarrow> (u8 list \<times> u32) option" where
  "pack_device_info info buf_sz =
     (if buf_sz < get_device_info_size info then Some ([], 0)
      else pk_run (pk_seq
        [pk_bytes (le_bytes 2 (std_version info)), pk_bytes (le_bytes 4 (vendor_extn_id info)),
         pk_bytes (le_bytes 2 (vendor_extn_version info)), pk_text (vendor_extn_desc info),
         pk_bytes (le_bytes 2 (functional_mode info)),
         pk_codes (length g_ops_supported) (ops_supported info),
         pk_codes (length g_event_supported) (events_supported info),
         pk_bytes (le_bytes 4 (0 :: u32)),
         pk_codes (length g_capture_fmts) (capture_fmts info),
         pk_codes (length g_object_fmts) (object_fmts info),
         pk_text (manufacturer info), pk_text (model info), pk_text (device_version info),
         pk_text (serial_no info)]))"

section \<open>Storages\<close>

abbreviation stores :: "mtp_device \<Rightarrow> mtp_store list" where
  "stores d \<equiv> take (unat (num_stores d)) (store_list d)"

text \<open>
  The first storage with the identifier is emptied, the storages behind it
  move down by one and the last slot is cleared.
\<close>

fun index_where :: "('a \<Rightarrow> bool) \<Rightarrow> 'a list \<Rightarrow> nat option" where
  "index_where P [] = None"
| "index_where P (x # xs) = (if P x then Some 0 else map_option Suc (index_where P xs))"

definition clear_store_data :: "'fs env \<Rightarrow> 'fs \<Rightarrow> u32 \<Rightarrow> mtp_device \<Rightarrow> (mtp_device \<times> mtp_err) option" where
  "clear_store_data e fs sid d =
     (case index_where (\<lambda>st. s_id st = sid) (stores d) of
        None \<Rightarrow> Some (d, MTP_ERROR_GENERAL)
      | Some i \<Rightarrow> do {
          let count = unat (num_stores d);
          let st = (entity_destroy_mtp_store (store_list d ! i))\<lparr>s_id := 0, is_hidden := False, root_path := None\<rparr>;
          l \<leftarrow> foldM (\<lambda>k l. do {
                 dst \<leftarrow> entity_copy_store_data e fs (l ! k) (l ! Suc k);
                 Some (l[k := dst]) }) [i..<count - 1] ((store_list d)[i := st]);
          let l' = l[count - 1 := (l ! (count - 1))\<lparr>s_id := 0, root_path := None, is_hidden := False, obj_list := []\<rparr>];
          Some (d\<lparr>store_list := l', num_stores := num_stores d - 1\<rparr>, MTP_ERROR_NONE) })"

definition add_store_to_device :: "'fs env \<Rightarrow> 'fs \<Rightarrow> mtp_device \<Rightarrow> (mtp_device \<times> bool) option" where
  "add_store_to_device e fs d =
     (case util_get_file_attrs (e_os e) fs util_get_external_path of
        None \<Rightarrow> Some (d, False)
      | Some attrs \<Rightarrow>
          if attribute attrs = MTP_FILE_ATTR_INVALID \<or> attribute attrs AND MTP_FILE_ATTR_MODE_DIR = 0
          then Some (d, False)
          else if MAX_NUM_DEVICE_STORES < unat (num_stores d) + 1 then Some (d, False)
          else (let k = unat (num_stores d)
                in if length (store_list d) \<le> k then None
                   else do {
                     (st, ok) \<leftarrow> entity_init_mtp_store e fs (str (serial_no (dev_info d))) (store_list d ! k)
                                  MTP_EXTERNAL_STORE_ID util_get_external_path;
                     let d1 = d\<lparr>store_list := (store_list d)[k := st]\<rparr>;
                     Some (if ok then (d1\<lparr>num_stores := num_stores d + 1, is_mounted := True\<rparr>, True)
                           else (d1, False)) }))"

definition remove_store_from_device :: "'fs env \<Rightarrow> 'fs \<Rightarrow> mtp_device \<Rightarrow> (mtp_device \<times> bool) option" where
  "remove_store_from_device e fs d =
     (case store_list d of
        [] \<Rightarrow> None
      | st # _ \<Rightarrow> do {
          (d1, _) \<leftarrow> clear_store_data e fs (s_id st) d;
          Some (d1\<lparr>is_mounted := False\<rparr>, True) })"

definition device_install_storage :: "'fs env \<Rightarrow> 'fs \<Rightarrow> mtp_device \<Rightarrow> mtp_device option" where
  "device_install_storage e fs d =
     (if is_mounted d then Some d else map_option fst (add_store_to_device e fs d))"

definition device_uninstall_storage :: "'fs env \<Rightarrow> 'fs \<Rightarrow> mtp_device \<Rightarrow> mtp_device option" where
  "device_uninstall_storage e fs d =
     (if is_mounted d then map_option fst (remove_store_from_device e fs d) else Some d)"

section \<open>Lookups\<close>

definition device_get_store :: "mtp_device \<Rightarrow> u32 \<Rightarrow> mtp_store option" where
  "device_get_store d sid = find (\<lambda>st. s_id st = sid) (stores d)"

definition device_get_store_ids :: "mtp_device \<Rightarrow> ptp_array \<Rightarrow> (ptp_array \<times> u32) option" where
  "device_get_store_ids d arr = do {
     a \<leftarrow> foldM (\<lambda>st a. if is_hidden st then Some a else map_option fst (prop_append_ele_ptparray a (s_id st)))
            (rev (stores d)) arr;
     Some (a, num_ele a) }"

fun first_some :: "('a \<Rightarrow> 'b option) \<Rightarrow> 'a list \<Rightarrow> 'b option" where
  "first_some f [] = None"
| "first_some f (x # xs) = (case f x of None \<Rightarrow> first_some f xs | Some y \<Rightarrow> Some y)"

definition device_get_object_with_handle :: "mtp_device \<Rightarrow> u32 \<Rightarrow> mtp_obj option" where
  "device_get_object_with_handle d h = first_some (\<lambda>st. entity_get_object_from_store st h) (stores d)"

definition device_get_object_with_path :: "mtp_device \<Rightarrow> string \<Rightarrow> mtp_obj option" where
  "device_get_object_with_path d p = first_some (\<lambda>st. entity_get_object_from_store_by_path st p) (stores d)"

text \<open>A storage is named by its index, so that it can be changed in place.\<close>

definition device_get_store_containing_obj :: "mtp_device \<Rightarrow> u32 \<Rightarrow> nat option" where
  "device_get_store_containing_obj d h =
     index_where (\<lambda>st. entity_get_object_from_store st h \<noteq> None) (stores d)"

definition device_get_store_at_index :: "mtp_device \<Rightarrow> u32 \<Rightarrow> mtp_store option" where
  "device_get_store_at_index d i = (if unat i < length (stores d) then Some (store_list d ! unat i) else None)"

section \<open>Deletion\<close>

record 'fs glob =
  g_dev :: mtp_device
  g_fs :: 'fs
  g_next :: u32
  g_last :: string
  g_clk :: nat

abbreviation upd_store :: "nat \<Rightarrow> mtp_store \<Rightarrow> ('fs, 'x) glob_scheme \<Rightarrow> ('fs, 'x) glob_scheme" where
  "upd_store i st g \<equiv> g\<lparr>g_dev := (g_dev g)\<lparr>store_list := (store_list (g_dev g))[i := st]\<rparr>\<rparr>"

definition delete_in_store ::
    "nat \<Rightarrow> nat \<Rightarrow> 'fs env \<Rightarrow> (nat \<Rightarrow> bool) \<Rightarrow> u32 \<Rightarrow> u32 \<Rightarrow> nat \<Rightarrow> ('fs, 'x) glob_scheme \<Rightarrow> (('fs, 'x) glob_scheme \<times> u16) option" where
  "delete_in_store fuel ff e stop h fmt i g = do {
     (s, r) \<leftarrow> entity_delete_obj_mtp_store fuel ff e stop h fmt
                \<lparr>d_store = store_list (g_dev g) ! i, d_fs = g_fs g, d_last = g_last g, d_resp = 0,
                 d_one = False, d_clk = g_clk g\<rparr>;
     Some (upd_store i (d_store s) (g\<lparr>g_fs := d_fs s, g_last := d_last s, g_clk := d_clk s\<rparr>), r) }"

text \<open>The accumulated answers: whether all was deleted, and whether something was.\<close>

definition delete_outcome :: "u16 \<Rightarrow> bool \<times> bool \<Rightarrow> bool \<times> bool" where
  "delete_outcome r ao =
     (if r = PTP_RESPONSE_STORE_READONLY then (False, snd ao)
      else if r = PTP_RESPONSE_PARTIAL_DELETION then (False, True)
      else if r = PTP_RESPONSE_OBJ_WRITEPROTECTED \<or> r = PTP_RESPONSE_ACCESSDENIED then (False, snd ao)
      else (fst ao, True))"

definition device_delete_object ::
    "nat \<Rightarrow> nat \<Rightarrow> 'fs env \<Rightarrow> (nat \<Rightarrow> bool) \<Rightarrow> u32 \<Rightarrow> u32 \<Rightarrow> ('fs, 'x) glob_scheme \<Rightarrow> (('fs, 'x) glob_scheme \<times> u16) option" where
  "device_delete_object fuel ff e stop h fmt g =
     (if h \<noteq> PTP_OBJECTHANDLE_ALL then
        (case device_get_store_containing_obj (g_dev g) h of
           None \<Rightarrow> Some (g, PTP_RESPONSE_INVALID_OBJ_HANDLE)
         | Some i \<Rightarrow> delete_in_store fuel ff e stop h fmt i g)
      else do {
        (g1, r, all_del, atlst_one) \<leftarrow>
          foldM (\<lambda>i (g, r, ao). do {
              (g', r') \<leftarrow> delete_in_store fuel ff e stop h fmt i g;
              Some (g', r', delete_outcome r' ao) })
            [0..<length (stores (g_dev g))] (g, PTP_RESPONSE_OK, True, False);
        Some (g1, if all_del then PTP_RESPONSE_OK
                  else if atlst_one then PTP_RESPONSE_PARTIAL_DELETION else r) })"

section \<open>Facts on the information dataset\<close>

lemma copy_wchar_text:
  assumes "length (str s) = 255" "0 \<notin> set ws" "ws \<noteq> []" "length ws < 255"
  shows "\<exists>s'. prop_copy_wchar_to_ptpstring s (Some (ws @ 0 # rest)) = Some s' \<and> ptpstring_inv s'
     \<and> ptpstring_units s' = ws @ [0]"
  using assms copy_char_finish_spec[OF assms(1), of ws]
  by (simp add: prop_copy_wchar_to_ptpstring_def scan_wstr_spec)

definition ascii_text :: "string \<Rightarrow> bool" where
  "ascii_text s \<longleftrightarrow> (\<forall>c\<in>set s. 0 < (of_char c :: nat) \<and> (of_char c :: nat) < 128)"

lemma info_string_ok:
  assumes "ascii_conv (e_to16 e)" "ascii_text tx" "tx \<noteq> []" "length tx < 255"
    and "length wtemp = 256" "length (str s) = 255"
  shows "\<exists>w s'. info_string e wtemp s tx = Some (w, s') \<and> length w = 256 \<and> ptpstring_inv s'
     \<and> ptpstring_units s' = map wchar_of tx @ [0]"
proof -
  note conv = ascii_conv_Some[OF assms(1) assms(2)[unfolded ascii_text_def]]
  define rest where "rest = replicate (255 - length tx) (0 :: u16)"
  have r: "replicate (256 - length tx) 0 = 0 # rest"
    using assms(4) by (cases "256 - length tx") (auto simp: rest_def replicate_eqI)
  have "util_utf8_to_utf16 (e_to16 e) True wtemp 256 tx = Some (map wchar_of tx @ 0 # rest, length tx)"
    using utf8_to_utf16_fits[of "e_to16 e" tx, OF conv(1), of 256 wtemp] conv(2) assms(4,5) by (simp add: r)
  moreover have "\<exists>s'. prop_copy_wchar_to_ptpstring (s\<lparr>num_chars := 0\<rparr>) (Some (map wchar_of tx @ 0 # rest)) = Some s'
      \<and> ptpstring_inv s' \<and> ptpstring_units s' = map wchar_of tx @ [0]"
    using assms(3,4,6) conv(2) by (intro copy_wchar_text) auto
  moreover have "length (map wchar_of tx @ 0 # rest) = 256" using assms(4) by (simp add: rest_def)
  ultimately show ?thesis by (auto simp: info_string_def)
qed

definition codes_bytes :: "u16 list \<Rightarrow> u8 list" where
  "codes_bytes cs = le_bytes 4 (of_nat (length cs) :: u32) @ concat (map (le_bytes 2) cs)"

definition device_info_bytes :: "device_info \<Rightarrow> u8 list" where
  "device_info_bytes info =
     le_bytes 2 (std_version info) @ le_bytes 4 (vendor_extn_id info) @ le_bytes 2 (vendor_extn_version info)
     @ ptpstring_bytes (vendor_extn_desc info) @ le_bytes 2 (functional_mode info)
     @ codes_bytes g_ops_supported @ codes_bytes g_event_supported @ le_bytes 4 (0 :: u32)
     @ codes_bytes g_capture_fmts @ codes_bytes g_object_fmts
     @ ptpstring_bytes (manufacturer info) @ ptpstring_bytes (model info)
     @ ptpstring_bytes (device_version info) @ ptpstring_bytes (serial_no info)"

definition info_ok :: "device_info \<Rightarrow> bool" where
  "info_ok info \<longleftrightarrow> ptpstring_inv (vendor_extn_desc info) \<and> ptpstring_inv (manufacturer info)
     \<and> ptpstring_inv (model info) \<and> ptpstring_inv (device_version info) \<and> ptpstring_inv (serial_no info)
     \<and> ops_supported info = g_ops_supported \<and> events_supported info = g_event_supported
     \<and> capture_fmts info = g_capture_fmts \<and> object_fmts info = g_object_fmts"

lemma pk_text_ok:
  "ptpstring_inv s \<Longrightarrow> pk_text s = Some (ptpstring_bytes s, True)"
  using num_chars_le[of s] pack_ptpstring_bytes[of s "prop_size_ptpstring (Some s)"] ptpstring_bytes_length[of s]
  by (simp add: pk_text_def ptpstring_inv_def)

lemma pk_codes_ok: "pk_codes (length cs) cs = Some (codes_bytes cs, True)"
  by (simp add: pk_codes_def codes_bytes_def pk_bytes_def)

lemma codes_bytes_length: "length (codes_bytes cs) = 4 + 2 * length cs"
  by (simp add: codes_bytes_def length_concat comp_def sum_list_triv)

lemma text_bytes_length: "ptpstring_inv s \<Longrightarrow> length (ptpstring_bytes s) = 2 * unat (num_chars s) + 1"
  by (intro ptpstring_bytes_length num_chars_le) (simp add: ptpstring_inv_def)

lemma device_info_size:
  assumes "info_ok info"
  shows "unat (get_device_info_size info) = length (device_info_bytes info)"
proof -
  let ?n = "\<lambda>s. unat (num_chars s)"
  have sz: "prop_size_ptpstring (Some s) = of_nat (2 * ?n s + 1)" for s
    by (metis of_nat_unat_word unat_size_ptpstring)
  have "get_device_info_size info = of_nat (length (device_info_bytes info))"
    using assms unfolding get_device_info_size_def device_info_bytes_def info_ok_def sz
    by (simp add: codes_bytes_length text_bytes_length)
  moreover have "?n s < 256" for s :: ptp_string by (rule unat_u8_less)
  then have "?n (vendor_extn_desc info) < 256" "?n (manufacturer info) < 256" "?n (model info) < 256"
    "?n (device_version info) < 256" "?n (serial_no info) < 256" by blast+
  then have "length (device_info_bytes info) < 2 ^ 32"
    using assms unfolding device_info_bytes_def info_ok_def
    by (simp add: codes_bytes_length text_bytes_length g_ops_supported_def g_event_supported_def
        g_capture_fmts_def g_object_fmts_def)
  ultimately show ?thesis by (simp add: unat_of_nat_eq_small)
qed

lemma pack_device_info_ok:
  assumes "info_ok info" "get_device_info_size info \<le> sz"
  shows "pack_device_info info sz = Some (device_info_bytes info, get_device_info_size info)"
proof -
  have "pk_seq
        [pk_bytes (le_bytes 2 (std_version info)), pk_bytes (le_bytes 4 (vendor_extn_id info)),
         pk_bytes (le_bytes 2 (vendor_extn_version info)), pk_text (vendor_extn_desc info),
         pk_bytes (le_bytes 2 (functional_mode info)),
         pk_codes (length g_ops_supported) (ops_supported info),
         pk_codes (length g_event_supported) (events_supported info),
         pk_bytes (le_bytes 4 (0 :: u32)),
         pk_codes (length g_capture_fmts) (capture_fmts info),
         pk_codes (length g_object_fmts) (object_fmts info),
         pk_text (manufacturer info), pk_text (model info), pk_text (device_version info),
         pk_text (serial_no info)] = Some (device_info_bytes info, True)"
    using assms(1) by (simp add: info_ok_def pk_text_ok pk_codes_ok pk_bytes_def device_info_bytes_def)
  moreover have "of_nat (length (device_info_bytes info)) = get_device_info_size info"
    by (simp add: of_nat_unat_word flip: device_info_size[OF assms(1)])
  ultimately show ?thesis
    using assms(2) by (auto simp: pack_device_info_def pk_run_def)
qed

lemma init_mtp_device_ok:
  assumes "ascii_conv (e_to16 e)" "length (e_junk e) = 255" "length g_list = MAX_NUM_DEVICE_STORES"
    and "info_strs = [vendor_extn_desc, manufacturer, model, device_version, serial_no]"
    and "\<forall>f\<in>set info_strs. length (str (f (dev_info d0))) = 255"
  shows "\<exists>d props. init_mtp_device e g_list d0 = Some (d, props) \<and> info_ok (dev_info d)
     \<and> store_list d = g_list \<and> num_stores d = 0 \<and> phase d = DEVICE_PHASE_IDLE \<and> is_mounted d = is_mounted d0
     \<and> map (\<lambda>f. ptpstring_units (f (dev_info d))) info_strs
       = map (\<lambda>t. map wchar_of t @ [0]) [''microsoft.com:1.0;android.com:1.0; '', ''Collabora'', ''DUMMY MODEL'',
           ''devv_DUMMY_VERSION'', ''DUMMY_SERIAL'']"
proof -
  obtain props where props: "prop_build_supp_props_default (e_to16 e) (e_junk e) = Some props"
    using build_table_ok[OF assms(2,1)] by blast
  have i: "\<exists>w s'. info_string e wtemp s tx = Some (w, s') \<and> length w = 256 \<and> ptpstring_inv s'
     \<and> ptpstring_units s' = map wchar_of tx @ [0]"
    if "ascii_text tx" "tx \<noteq> []" "length tx < 255" "length wtemp = 256" "length (str s) = 255" for wtemp s tx
    using info_string_ok[OF assms(1)] that by blast
  let ?i = "dev_info d0"
  from assms(4,5) have l: "length (str (vendor_extn_desc ?i)) = 255" "length (str (manufacturer ?i)) = 255"
    "length (str (model ?i)) = 255" "length (str (device_version ?i)) = 255" "length (str (serial_no ?i)) = 255"
    by simp_all
  obtain w1 s1 where 1: "info_string e (replicate 256 0) (vendor_extn_desc ?i) ''microsoft.com:1.0;android.com:1.0; '' = Some (w1, s1)"
    "length w1 = 256" "ptpstring_inv s1" "ptpstring_units s1 = map wchar_of ''microsoft.com:1.0;android.com:1.0; '' @ [0]"
    using i[of "''microsoft.com:1.0;android.com:1.0; ''" "replicate 256 0" "vendor_extn_desc ?i"] l(1)
    by (auto simp: ascii_text_def)
  obtain w2 s2 where 2: "info_string e w1 (manufacturer ?i) ''Collabora'' = Some (w2, s2)" "length w2 = 256"
    "ptpstring_inv s2" "ptpstring_units s2 = map wchar_of ''Collabora'' @ [0]"
    using i[of "''Collabora''" w1 "manufacturer ?i"] l(2) 1(2) by (auto simp: ascii_text_def)
  obtain w3 s3 where 3: "info_string e w2 (model ?i) ''DUMMY MODEL'' = Some (w3, s3)" "length w3 = 256"
    "ptpstring_inv s3" "ptpstring_units s3 = map wchar_of ''DUMMY MODEL'' @ [0]"
    using i[of "''DUMMY MODEL''" w2 "model ?i"] l(3) 2(2) by (auto simp: ascii_text_def)
  obtain w4 s4 where 4: "info_string e w3 (device_version ?i) ''devv_DUMMY_VERSION'' = Some (w4, s4)" "length w4 = 256"
    "ptpstring_inv s4" "ptpstring_units s4 = map wchar_of ''devv_DUMMY_VERSION'' @ [0]"
    using i[of "''devv_DUMMY_VERSION''" w3 "device_version ?i"] l(4) 3(2) by (auto simp: ascii_text_def)
  obtain w5 s5 where 5: "info_string e w4 (serial_no ?i) ''DUMMY_SERIAL'' = Some (w5, s5)" "length w5 = 256"
    "ptpstring_inv s5" "ptpstring_units s5 = map wchar_of ''DUMMY_SERIAL'' @ [0]"
    using i[of "''DUMMY_SERIAL''" w4 "serial_no ?i"] l(5) 4(2) by (auto simp: ascii_text_def)
  show ?thesis
    using props 1 2 3 4 5 assms(4) by (simp add: init_mtp_device_def info_ok_def)
qed

section \<open>Facts on the storages\<close>

text \<open>
  What the code relies on about the conversion to UTF-16: it never produces
  more units than there are bytes, and no terminator inside the text.
\<close>

definition utf16_conv :: "(string \<Rightarrow> u16 list option) \<Rightarrow> bool" where
  "utf16_conv conv \<longleftrightarrow> (\<forall>s ws. conv s = Some ws \<longrightarrow> length ws \<le> length s \<and> 0 \<notin> set ws)"

definition dev_ok :: "mtp_device \<Rightarrow> bool" where
  "dev_ok d \<longleftrightarrow> length (store_list d) = MAX_NUM_DEVICE_STORES \<and> info_ok (dev_info d)
     \<and> num_stores d = (if is_mounted d then 1 else 0)
     \<and> (is_mounted d \<longrightarrow> s_id (hd (store_list d)) = MTP_EXTERNAL_STORE_ID)"

lemma dev_ok_stores:
  assumes "dev_ok d"
  shows "stores d = (if is_mounted d then [hd (store_list d)] else [])" "store_list d = [hd (store_list d)]"
  using assms by (cases "store_list d"; auto simp: dev_ok_def)+

lemma scan_wstr_full: "n \<le> length s \<Longrightarrow> \<exists>ws. scan_wstr n s = Some ws"
proof (induction n s rule: scan_wstr.induct)
  case (3 n c s)
  then show ?case by auto
qed simp_all

lemma to16_terminated:
  assumes "utf16_conv conv" "length tx < n"
  shows "\<exists>ws r k. util_utf8_to_utf16 conv True (replicate n 0) n tx = Some (ws @ 0 # r, k) \<and> 0 \<notin> set ws"
proof (cases "conv tx")
  case None
  moreover obtain m where "n = Suc m" using assms(2) by (cases n) auto
  ultimately have "util_utf8_to_utf16 conv True (replicate n 0) n tx = Some ([] @ 0 # replicate m 0, 0)"
    by (simp add: util_utf8_to_utf16_def)
  then show ?thesis by fastforce
next
  case (Some ws)
  with assms have ws: "length ws < n" "0 \<notin> set ws" by (force simp: utf16_conv_def)+
  moreover from ws have "replicate (n - length ws) 0 = (0 :: u16) # replicate (n - length ws - 1) 0"
    by (cases "n - length ws") auto
  ultimately show ?thesis using utf8_to_utf16_fits[of conv tx ws n "replicate n 0"] Some by auto
qed

lemma copy_wchar_total:
  assumes "length (str s) = 255" "0 \<notin> set ws"
  shows "\<exists>s'. prop_copy_wchar_to_ptpstring s (Some (ws @ 0 # r)) = Some s' \<and> ptpstring_inv s'"
  using copy_char_finish_spec[OF assms(1), of "take 255 ws"] assms
  by (auto simp: prop_copy_wchar_to_ptpstring_def scan_wstr_spec ptpstring_inv_def)

lemma init_mtp_store_ok:
  assumes "utf16_conv (e_to16 e)" "length serial = 255"
  shows "\<exists>st'. entity_init_mtp_store e fs serial st MTP_EXTERNAL_STORE_ID path = Some (st', True)
     \<and> s_id st' = MTP_EXTERNAL_STORE_ID \<and> root_path st' = Some path \<and> obj_list st' = [] \<and> \<not> is_hidden st'
     \<and> access (s_info st') = PTP_STORAGEACCESS_RWD
     \<and> ptpstring_inv (store_desc (s_info st')) \<and> ptpstring_inv (vol_label (s_info st'))"
proof -
  obtain ser where ser: "scan_wstr 255 serial = Some ser" using scan_wstr_full[of 255 serial] assms(2) by auto
  define label where "label = g_strlcpy (fst (util_utf16_to_utf8 (e_to8 e) 33 ser) @ ''-20001'') 129"
  have ll: "length label < 129" by (simp add: label_def g_strlcpy_def)
  obtain lw lr lk where lw: "util_utf8_to_utf16 (e_to16 e) True (replicate 129 0) 129 label = Some (lw @ 0 # lr, lk)" "0 \<notin> set lw"
    using to16_terminated[OF assms(1) ll] by blast
  obtain dw dr dk where dw: "util_utf8_to_utf16 (e_to16 e) True (replicate 129 0) 129 ''Card Storage'' = Some (dw @ 0 # dr, dk)" "0 \<notin> set dw"
    using to16_terminated[OF assms(1), of "''Card Storage''" 129] by auto
  define info where "info = entity_update_store_info_run_time e fs init_store_info (Some path)"
  have len: "length (str (store_desc info)) = 255" "length (str (vol_label info)) = 255"
    by (auto simp: info_def entity_update_store_info_run_time_def init_store_info_def zero_string_def split: option.split)
  obtain s1 where s1: "prop_copy_wchar_to_ptpstring (store_desc info) (Some (dw @ 0 # dr)) = Some s1" "ptpstring_inv s1"
    using copy_wchar_total[OF len(1) dw(2)] by blast
  obtain s2 where s2: "prop_copy_wchar_to_ptpstring (vol_label info) (Some (lw @ 0 # lr)) = Some s2" "ptpstring_inv s2"
    using copy_wchar_total[OF len(2) lw(2)] by blast
  show ?thesis
    using ser lw(1) dw(1) s1 s2
    by (simp add: entity_init_mtp_store_def init_store_info_params_def Let_def flip: label_def info_def)
qed

text \<open>Installing the storage never leaves the array of storages; the storage is mounted
  afterwards exactly if it was before or its root is a directory, and a newly mounted storage is empty,
  visible, writable and found under its identifier.\<close>

lemma install_storage_spec:
  assumes "dev_ok d" "utf16_conv (e_to16 e)"
  shows "\<exists>d'. device_install_storage e fs d = Some d' \<and> dev_ok d' \<and> phase d' = phase d
     \<and> (is_mounted d' \<longleftrightarrow> is_mounted d \<or> map_option st_kind (os_stat (e_os e) fs util_get_external_path) = Some S_IFDIR)
     \<and> (is_mounted d \<longrightarrow> d' = d)
     \<and> (is_mounted d' \<and> \<not> is_mounted d \<longrightarrow>
          (\<exists>st. device_get_store d' MTP_EXTERNAL_STORE_ID = Some st \<and> obj_list st = [] \<and> \<not> is_hidden st
             \<and> root_path st = Some util_get_external_path \<and> access (s_info st) = PTP_STORAGEACCESS_RWD))"
proof (cases "is_mounted d")
  case True
  with assms(1) show ?thesis by (simp add: device_install_storage_def)
next
  case False
  with assms(1) have n: "num_stores d = 0" by (simp add: dev_ok_def)
  obtain st0 where sl: "store_list d = [st0]" using dev_ok_stores(2)[OF assms(1)] by metis
  from assms(1) have ser: "length (str (serial_no (dev_info d))) = 255"
    by (simp add: dev_ok_def info_ok_def ptpstring_inv_def)
  obtain st where st: "entity_init_mtp_store e fs (str (serial_no (dev_info d))) st0
      MTP_EXTERNAL_STORE_ID util_get_external_path = Some (st, True)"
    "s_id st = MTP_EXTERNAL_STORE_ID" "root_path st = Some util_get_external_path" "obj_list st = []"
    "\<not> is_hidden st" "access (s_info st) = PTP_STORAGEACCESS_RWD"
    using init_mtp_store_ok[OF assms(2) ser] by blast
  define d' where "d' = d\<lparr>store_list := [st], num_stores := 1, is_mounted := True\<rparr>"
  show ?thesis
  proof (cases "map_option st_kind (os_stat (e_os e) fs util_get_external_path) = Some S_IFDIR")
    case dir: True
    then obtain i where "os_stat (e_os e) fs util_get_external_path = Some i" "st_kind i = S_IFDIR" by auto
    with False n st(1) have "device_install_storage e fs d = Some d'"
      by (simp add: device_install_storage_def add_store_to_device_def util_get_file_attrs_def d'_def sl)
    with dir False n st(2-) assms(1) show ?thesis
      by (simp add: d'_def dev_ok_def device_get_store_def)
  next
    case nodir: False
    then have "device_install_storage e fs d = Some d"
      using False by (auto simp: device_install_storage_def add_store_to_device_def util_get_file_attrs_def
          split: option.split file_kind.split)
    with nodir False assms(1) show ?thesis by auto
  qed
qed

text \<open>Uninstalling stays in the array, unmounts the storage and leaves a device in which no
  storage and no object can be found any more.\<close>

lemma uninstall_storage_spec:
  assumes "dev_ok d"
  shows "\<exists>d'. device_uninstall_storage e fs d = Some d' \<and> dev_ok d' \<and> \<not> is_mounted d'
     \<and> (\<forall>sid. device_get_store d' sid = None) \<and> (\<forall>h. device_get_object_with_handle d' h = None)
     \<and> obj_list (hd (store_list d')) = (if is_mounted d then [] else obj_list (hd (store_list d)))"
proof (cases "is_mounted d")
  case False
  with dev_ok_stores(1)[OF assms] have "stores d = []" by simp
  then have "device_get_store d sid = None" "device_get_object_with_handle d h = None" for sid h
    unfolding device_get_store_def device_get_object_with_handle_def by (simp_all only: find.simps first_some.simps)
  with False assms show ?thesis by (simp add: device_uninstall_storage_def)
next
  case True
  obtain st where sl: "store_list d = [st]" using dev_ok_stores(2)[OF assms] by metis
  from True assms have "num_stores d = 1" by (simp add: dev_ok_def)
  with True sl assms show ?thesis
    by (simp add: device_uninstall_storage_def remove_store_from_device_def clear_store_data_def
        dev_ok_def device_get_store_def device_get_object_with_handle_def)
qed

text \<open>C37: initialisation gives a device in a consistent state whose information dataset packs into
  exactly the announced number of bytes, refuses smaller buffers, and lists the supported operations.\<close>

theorem device_info_exact:
  assumes "ascii_conv (e_to16 e)" "length (e_junk e) = 255"
  shows "\<exists>d props bs. init_mtp_device e [zero_store] zero_device = Some (d, props) \<and> dev_ok d
     \<and> (\<forall>sz. pack_device_info (dev_info d) sz =
          Some (if sz < get_device_info_size (dev_info d) then ([], 0) else (bs, get_device_info_size (dev_info d))))
     \<and> length bs = 261 \<and> unat (get_device_info_size (dev_info d)) = 261
     \<and> take 42 (drop 83 bs) = le_bytes 4 (19 :: u32) @ concat (map (le_bytes 2) g_ops_supported)"
proof -
  define strs :: "(device_info \<Rightarrow> ptp_string) list" where "strs = [vendor_extn_desc, manufacturer, model, device_version, serial_no]"
  have "\<forall>f\<in>set strs. length (str (f (dev_info zero_device))) = 255"
    by (simp add: strs_def zero_device_def zero_string_def)
  from init_mtp_device_ok[OF assms _ strs_def this, of "[zero_store]"] obtain d props where
    d: "init_mtp_device e [zero_store] zero_device = Some (d, props)" "info_ok (dev_info d)"
      "store_list d = [zero_store]" "num_stores d = 0" "\<not> is_mounted d"
    and u: "map (\<lambda>f. ptpstring_units (f (dev_info d))) strs
       = map (\<lambda>t. map wchar_of t @ [0]) [''microsoft.com:1.0;android.com:1.0; '', ''Collabora'', ''DUMMY MODEL'',
           ''devv_DUMMY_VERSION'', ''DUMMY_SERIAL'']"
    by (auto simp: zero_device_def)
  let ?i = "dev_info d"
  have n: "unat (num_chars s) = length (ptpstring_units s)" if "ptpstring_inv s" for s
    using that ptpstring_units_length[of s] by (simp add: ptpstring_inv_def)
  from u d(2) have c: "unat (num_chars (vendor_extn_desc ?i)) = 36" "unat (num_chars (manufacturer ?i)) = 10"
    "unat (num_chars (model ?i)) = 12" "unat (num_chars (device_version ?i)) = 19" "unat (num_chars (serial_no ?i)) = 13"
    by (auto simp: strs_def info_ok_def n)
  have len: "length (device_info_bytes ?i) = 261"
    using d(2) c by (simp add: device_info_bytes_def info_ok_def codes_bytes_length text_bytes_length
        g_ops_supported_def g_event_supported_def g_capture_fmts_def g_object_fmts_def)
  moreover have "take 42 (drop 83 (device_info_bytes ?i)) = codes_bytes g_ops_supported"
    using d(2) c by (simp add: device_info_bytes_def info_ok_def codes_bytes_length text_bytes_length
        g_ops_supported_def)
  moreover have "pack_device_info ?i sz = Some (if sz < get_device_info_size ?i then ([], 0)
      else (device_info_bytes ?i, get_device_info_size ?i))" for sz
    using pack_device_info_ok[OF d(2), of sz] by (auto simp: pack_device_info_def)
  moreover have "dev_ok d" using d by (simp add: dev_ok_def)
  moreover have "codes_bytes g_ops_supported = le_bytes 4 (19 :: u32) @ concat (map (le_bytes 2) g_ops_supported)"
    by (simp add: codes_bytes_def g_ops_supported_def)
  ultimately show ?thesis using d(1) device_info_size[OF d(2)] by auto
qed

text \<open>A conversion of ASCII texts and a file system in which the root of the storage is a directory.\<close>

definition ascii_to16 :: "string \<Rightarrow> u16 list option" where
  "ascii_to16 s = (if ascii_text s then Some (map wchar_of s) else None)"

definition dir_os :: "unit os" where
  "dir_os = demo_os\<lparr>os_stat := \<lambda>_ _. Some \<lparr>st_kind = S_IFDIR, st_writable = True, st_size = 4096, st_ctime = 0, st_mtime = 0\<rparr>\<rparr>"

definition dir_env :: "unit env" where
  "dir_env = demo_env\<lparr>e_to16 := ascii_to16, e_os := dir_os\<rparr>"

lemma ascii_to16_conv: "ascii_conv ascii_to16" "utf16_conv ascii_to16"
  using wchar_of_nonzero
  by (fastforce simp: ascii_conv_def utf16_conv_def ascii_to16_def ascii_text_def split: if_splits)+

theorem device_info_exact_witness:
  "\<exists>d props bs. init_mtp_device dir_env [zero_store] zero_device = Some (d, props) \<and> dev_ok d
     \<and> (\<forall>sz. pack_device_info (dev_info d) sz =
          Some (if sz < get_device_info_size (dev_info d) then ([], 0) else (bs, get_device_info_size (dev_info d))))
     \<and> length bs = 261 \<and> unat (get_device_info_size (dev_info d)) = 261
     \<and> take 42 (drop 83 bs) = le_bytes 4 (19 :: u32) @ concat (map (le_bytes 2) g_ops_supported)"
  by (rule device_info_exact) (simp_all add: dir_env_def demo_env_def ascii_to16_conv)

text \<open>A consistent device, not mounted.\<close>

definition bare_device :: mtp_device where
  "bare_device = zero_device\<lparr>store_list := [zero_store], dev_info := (dev_info zero_device)\<lparr>
     ops_supported := g_ops_supported, events_supported := g_event_supported, capture_fmts := g_capture_fmts,
     object_fmts := g_object_fmts\<rparr>\<rparr>"

lemma bare_device_ok: "dev_ok bare_device"
  by (simp add: bare_device_def dev_ok_def info_ok_def zero_device_def ptpstring_inv_def zero_string_def)

lemma install_storage_spec_witness:
  "\<exists>d'. device_install_storage dir_env () bare_device = Some d' \<and> dev_ok d' \<and> is_mounted d'"
  using install_storage_spec[OF bare_device_ok, of dir_env "()"]
  by (auto simp: dir_env_def dir_os_def demo_env_def demo_os_def ascii_to16_conv)

lemma uninstall_storage_spec_witness:
  "\<exists>d'. device_uninstall_storage dir_env () (bare_device\<lparr>is_mounted := True, num_stores := 1,
       store_list := [card_store\<lparr>s_id := MTP_EXTERNAL_STORE_ID\<rparr>]\<rparr>) = Some d' \<and> dev_ok d' \<and> \<not> is_mounted d'"
proof -
  have "dev_ok (bare_device\<lparr>is_mounted := True, num_stores := 1, store_list := [card_store\<lparr>s_id := MTP_EXTERNAL_STORE_ID\<rparr>]\<rparr>)"
    using bare_device_ok by (simp add: dev_ok_def bare_device_def)
  from uninstall_storage_spec[OF this, of dir_env "()"] show ?thesis by (elim exE conjE) (intro exI conjI)
qed

end
