(* ===== verification/Hutil.thy ===== *)
theory Hutil
  imports Device
begin

text \<open>
  The services behind the command handlers, src/mtp_cmd_handler_util.c, and
  the renaming of object paths of src/entity/mtp_object.c that they need.  The
  global variables of the program are the record sys, what comes from outside
  is the record conf: the environment, the queue towards the USB thread, the
  flags that other threads may set at each look, the configured sizes, the
  names chosen for temporary files, the size of the type mtp_dword (unsigned
  long) and the fuel for walks over object trees.
  The calls of the handlers use the build configuration of mtp_config.h.
\<close>

section \<open>Global state\<close>

datatype mtp_op_state =
    MTP_STATE_STOPPED | MTP_STATE_INITIALIZING | MTP_STATE_READY_SERVICE | MTP_STATE_ONSERVICE
  | MTP_STATE_DATA_TRANSFER_DL | MTP_STATE_DATA_PROCESSING

text \<open>The enumeration values are ordered; the code compares them.\<close>

primrec op_rank :: "mtp_op_state \<Rightarrow> nat" where
  "op_rank MTP_STATE_STOPPED = 0"
| "op_rank MTP_STATE_INITIALIZING = 1"
| "op_rank MTP_STATE_READY_SERVICE = 2"
| "op_rank MTP_STATE_ONSERVICE = 3"
| "op_rank MTP_STATE_DATA_TRANSFER_DL = 4"
| "op_rank MTP_STATE_DATA_PROCESSING = 5"

instantiation mtp_op_state :: linorder
begin

definition less_eq_mtp_op_state :: "mtp_op_state \<Rightarrow> mtp_op_state \<Rightarrow> bool" where
  "less_eq_mtp_op_state a b \<longleftrightarrow> op_rank a \<le> op_rank b"

definition less_mtp_op_state :: "mtp_op_state \<Rightarrow> mtp_op_state \<Rightarrow> bool" where
  "less_mtp_op_state a b \<longleftrightarrow> op_rank a < op_rank b"

instance
proof
  fix a b c :: mtp_op_state
  show "a \<le> a" by (simp add: less_eq_mtp_op_state_def)
  show "a < b \<longleftrightarrow> a \<le> b \<and> \<not> b \<le> a" by (auto simp: less_eq_mtp_op_state_def less_mtp_op_state_def)
  show "a \<le> b \<Longrightarrow> b \<le> c \<Longrightarrow> a \<le> c" by (simp add: less_eq_mtp_op_state_def)
  show "a \<le> b \<Longrightarrow> b \<le> a \<Longrightarrow> a = b" by (cases a; cases b; simp add: less_eq_mtp_op_state_def)
  show "a \<le> b \<or> b \<le> a" by (auto simp: less_eq_mtp_op_state_def)
qed

end

datatype event_code =
    EVENT_CANCEL_INITIALIZATION | EVENT_START_MAIN_OP | EVENT_CLOSE | EVENT_USB_REMOVED | EVENT_OBJECT_ADDED
  | EVENT_OBJECT_REMOVED | EVENT_START_DATAIN | EVENT_DONE_DATAIN | EVENT_START_DATAOUT | EVENT_DONE_DATAOUT
  | EVENT_MAX

record mtp_event =
  ev_action :: event_code
  ev_param1 :: u64
  ev_param2 :: u64
  ev_param3 :: u64

record data_4send_object =
  so_store_id :: u32
  so_h_parent :: u32
  so_obj_handle :: u32
  so_is_valid :: bool
  so_is_data_sent :: bool
  so_file_size :: u64
  so_obj :: "mtp_obj option"

record mtp_handler =
  usb_cmd :: cmd_container
  data4_send_obj :: data_4send_object
  session_id :: u32
  last_opcode :: u32
  last_fmt_code :: u16

record 'fs sys = "'fs glob" +
  g_hdlr :: mtp_handler
  g_ftemp :: temp_file
  g_props :: "obj_prop_desc list"
  g_interdep :: "interdep_prop_config list"
  g_txq :: msgq
  g_ehq :: "mtp_event list"
  g_op_state :: mtp_op_state
  g_ctrl :: u32
  g_created :: string
  g_moved :: string
  g_copied :: string
  g_copy_src :: string
  g_copy_dst :: string
  g_full_enum :: bool
  g_send_object :: bool
  g_send_partial :: bool
  g_watch :: "string list"

record 'fs conf =
  c_env :: "'fs env"
  c_snd :: msgsnd
  c_tx_size :: u32
  c_stop :: "nat \<Rightarrow> bool"
  c_ctrl :: "nat \<Rightarrow> u32"
  c_fuel :: nat
  c_ff :: nat
  c_rx_size :: u32
  c_read_file :: u32
  c_write_file :: u32
  c_pkt_len :: u32
  c_dword :: nat
  c_tmp :: "nat \<Rightarrow> string"

abbreviation c_os :: "'fs conf \<Rightarrow> 'fs os" where "c_os c \<equiv> e_os (c_env c)"

section \<open>Storages\<close>

abbreviation (input) PTP_PROTECTIONSTATUS_NOPROTECTION :: u16 where "PTP_PROTECTIONSTATUS_NOPROTECTION \<equiv> 0"
abbreviation (input) MTP_PROTECTIONSTATUS_NONTRANSFERABLE_DATA :: u16 where
  "MTP_PROTECTIONSTATUS_NONTRANSFERABLE_DATA \<equiv> 0x8003"

definition store_index :: "mtp_device \<Rightarrow> u32 \<Rightarrow> nat option" where
  "store_index d sid = index_where (\<lambda>st. s_id st = sid) (stores d)"

definition refresh_store :: "'fs conf \<Rightarrow> nat \<Rightarrow> 'fs sys \<Rightarrow> 'fs sys" where
  "refresh_store c i s =
     (let st = store_list (g_dev s) ! i
      in upd_store i (st\<lparr>s_info := entity_update_store_info_run_time (c_env c) (g_fs s) (s_info st) (root_path st)\<rparr>) s)"

definition hutil_get_storage_entry :: "'fs conf \<Rightarrow> u32 \<Rightarrow> 'fs sys \<Rightarrow> ('fs sys \<times> store_info option) option" where
  "hutil_get_storage_entry c sid s =
     (case store_index (g_dev s) sid of
        None \<Rightarrow> Some (s, None)
      | Some i \<Rightarrow> do {
          let s1 = refresh_store c i s;
          let info = s_info (store_list (g_dev s1) ! i);
          d \<leftarrow> prop_copy_ptpstring zero_string (store_desc info);
          v \<leftarrow> prop_copy_ptpstring zero_string (vol_label info);
          Some (s1, Some \<lparr>store_type = store_type info, fs_type = fs_type info, access = access info,
                         capacity = capacity info, free_space = free_space info,
                         free_space_in_objs = free_space_in_objs info, store_desc = d, vol_label = v\<rparr>) })"

definition hutil_get_storage_ids :: "mtp_device \<Rightarrow> ptp_array \<Rightarrow> (ptp_array \<times> mtp_err) option" where
  "hutil_get_storage_ids d arr = do {
     (a, n) \<leftarrow> device_get_store_ids d arr;
     Some (a, if n = ucast (num_stores d) then MTP_ERROR_NONE else MTP_ERROR_GENERAL) }"

definition hutil_get_storage_info_size :: "store_info \<Rightarrow> u32" where
  "hutil_get_storage_info_size info =
     2 + 2 + 8 + 4 + 8 + 2 + prop_size_ptpstring (Some (store_desc info)) + prop_size_ptpstring (Some (vol_label info))"

section \<open>Adding an object\<close>

definition MTP_TEMP_FILE :: string where
  "MTP_TEMP_FILE = ''.mtptemp.tmp''"

text \<open>The folder the new object goes to: the root of the storage or the path of the parent.\<close>

definition parent_dir :: "mtp_store \<Rightarrow> mtp_obj option \<Rightarrow> string option" where
  "parent_dir st par = (case par of None \<Rightarrow> root_path st | Some p \<Rightarrow> file_path p)"

definition new_object :: "u32 \<Rightarrow> obj_info \<Rightarrow> mtp_obj" where
  "new_object h info =
     \<lparr>obj_handle = h,
      obj_info = Some (if store_id info = MTP_EXTERNAL_STORE_ID \<or> obj_fmt info = PTP_FMT_ASSOCIATION
                       then info\<lparr>protcn_status := PTP_PROTECTIONSTATUS_NOPROTECTION\<rparr> else info),
      file_path = None, child_array = zero_child_array, propval_list = []\<rparr>"

text \<open>
  The name goes to UTF-16 and back.  The flag file_exist of the loop over
  candidate names is never set, so the loop body runs once.
\<close>

definition new_path :: "'fs conf \<Rightarrow> string \<Rightarrow> u32 \<Rightarrow> string \<Rightarrow> (string option \<times> bool) option" where
  "new_path c file_name h dir = do {
     (w, _) \<leftarrow> util_utf8_to_utf16 (e_to16 (c_env c)) True (replicate (MTP_MAX_PATHNAME_SIZE + 1) 0)
                (MTP_MAX_PATHNAME_SIZE + 1)
                (if file_name = [] then ''Tmp_'' @ pad_dec 4 (unat h) @ ''.dat'' else file_name);
     n \<leftarrow> util_wchar_len w;
     Some (util_create_path (MTP_MAX_PATHNAME_SIZE + 1) dir
             (fst (util_utf16_to_utf8 (e_to8 (c_env c)) (MTP_MAX_PATHNAME_SIZE + 1) (take n w)))) }"

text \<open>A folder, or an empty file for an association type that is not a folder, is created at once.\<close>

definition create_association :: "'fs conf \<Rightarrow> obj_info \<Rightarrow> string \<Rightarrow> 'fs sys \<Rightarrow> 'fs sys \<times> bool" where
  "create_association c info path s =
     (if association_type info \<noteq> PTP_ASSOCIATIONTYPE_UNDEFINED \<and> association_type info \<noteq> PTP_ASSOCIATIONTYPE_FOLDER
      then (case os_create (c_os c) (g_fs s) path of (fs', r) \<Rightarrow> (s\<lparr>g_fs := fs'\<rparr>, r = None))
      else (case util_dir_create (c_os c) (g_fs s) path of
              (fs', True, _) \<Rightarrow> (s\<lparr>g_fs := fs', g_created := g_strlcpy path (MTP_MAX_PATHNAME_SIZE + 1)\<rparr>, True)
            | (fs', False, _) \<Rightarrow> (s\<lparr>g_fs := fs', g_created := []\<rparr>, False)))"

definition add_object_body ::
    "'fs conf \<Rightarrow> obj_info \<Rightarrow> string \<Rightarrow> mtp_obj option \<Rightarrow> nat \<Rightarrow> 'fs sys \<Rightarrow> ('fs sys \<times> mtp_err \<times> mtp_obj option) option" where
  "add_object_body c info file_name par i s = do {
     let st = store_list (g_dev s) ! i;
     let obj = new_object (g_next s) info;
     let s1 = s\<lparr>g_next := g_next s + 1\<rparr>;
     dir \<leftarrow> parent_dir st par;
     (p, ok) \<leftarrow> new_path c file_name (g_next s) dir;
     if \<not> ok then Some (s1, MTP_ERROR_GENERAL, None)
     else do {
       path \<leftarrow> p;
       root \<leftarrow> root_path st;
       let (tp, tok) = util_create_path (length root + length MTP_TEMP_FILE + 2) root MTP_TEMP_FILE;
       let s2 = s1\<lparr>g_ftemp := (g_ftemp s1)\<lparr>filepath := (case tp of None \<Rightarrow> Some [] | Some t \<Rightarrow> Some t)\<rparr>\<rparr>;
       if \<not> tok then Some (s2, MTP_ERROR_GENERAL, None)
       else (let obj' = entity_set_object_file_path obj path
             in if obj_fmt info = PTP_FMT_ASSOCIATION then
                  (case create_association c info path s2 of
                     (s3, False) \<Rightarrow> Some (s3, MTP_ERROR_GENERAL, None)
                   | (s3, True) \<Rightarrow> do {
                       (st', added) \<leftarrow> entity_add_object_to_store st obj';
                       Some (if added then (upd_store i st' s3, MTP_ERROR_NONE, Some obj')
                             else (s3, MTP_ERROR_STORE_FULL, None)) })
                else Some (upd_store i (st\<lparr>s_info := (s_info st)\<lparr>free_space := free_space (s_info st) - file_size info\<rparr>\<rparr>) s2,
                           MTP_ERROR_NONE, Some obj')) } }"

definition hutil_add_object_entry ::
    "'fs conf \<Rightarrow> obj_info \<Rightarrow> string \<Rightarrow> 'fs sys \<Rightarrow> ('fs sys \<times> mtp_err \<times> mtp_obj option) option" where
  "hutil_add_object_entry c info file_name s =
     (let enter = (\<lambda>par.
        case store_index (g_dev s) (store_id info) of
          None \<Rightarrow> Some (s, MTP_ERROR_GENERAL, None)
        | Some i \<Rightarrow>
            if free_space (s_info (store_list (g_dev s) ! i)) < file_size info
            then Some (s, MTP_ERROR_STORE_FULL, None)
            else add_object_body c info file_name par i s)
      in if h_parent info = PTP_OBJECTHANDLE_ROOT then enter None
         else (case device_get_object_with_handle (g_dev s) (h_parent info) of
                 None \<Rightarrow> Some (s, MTP_ERROR_INVALID_OBJECTHANDLE, None)
               | Some par \<Rightarrow> do {
                   pinfo \<leftarrow> obj_info par;
                   if obj_fmt pinfo \<noteq> PTP_FMT_ASSOCIATION then Some (s, MTP_ERROR_INVALID_PARENT, None)
                   else enter (Some par) }))"

section \<open>Removing, reading and writing objects\<close>

definition err_of_response :: "u16 \<Rightarrow> mtp_err" where
  "err_of_response r =
     (if r = PTP_RESPONSE_OK then MTP_ERROR_NONE
      else if r = PTP_RESPONSE_STORE_READONLY then MTP_ERROR_STORE_READ_ONLY
      else if r = PTP_RESPONSE_PARTIAL_DELETION then MTP_ERROR_PARTIAL_DELETION
      else if r = PTP_RESPONSE_OBJ_WRITEPROTECTED then MTP_ERROR_OBJECT_WRITE_PROTECTED
      else if r = PTP_RESPONSE_ACCESSDENIED then MTP_ERROR_ACCESS_DENIED
      else if r = PTP_RESPONSE_INVALID_OBJ_HANDLE then MTP_ERROR_INVALID_OBJECTHANDLE
      else MTP_ERROR_GENERAL)"

definition hutil_remove_object_entry :: "'fs conf \<Rightarrow> u32 \<Rightarrow> u32 \<Rightarrow> 'fs sys \<Rightarrow> ('fs sys \<times> mtp_err) option" where
  "hutil_remove_object_entry c h fmt s = do {
     (s1, r) \<leftarrow> device_delete_object (c_fuel c) (c_ff c) (c_env c) (c_stop c) h fmt s;
     Some (s1, err_of_response r) }"

definition hutil_get_object_entry :: "mtp_device \<Rightarrow> u32 \<Rightarrow> mtp_obj option" where
  "hutil_get_object_entry d h =
     (case device_get_object_with_handle d h of
        None \<Rightarrow> None
      | Some obj \<Rightarrow> if obj_info obj = None then None else Some obj)"

definition hutil_get_object_entry_size :: "mtp_device \<Rightarrow> u32 \<Rightarrow> (u64 + mtp_err) option" where
  "hutil_get_object_entry_size d h =
     (case device_get_object_with_handle d h of
        None \<Rightarrow> Some (Inr MTP_ERROR_INVALID_OBJECTHANDLE)
      | Some obj \<Rightarrow> do { info \<leftarrow> obj_info obj; Some (Inl (file_size info)) })"

text \<open>Seeking past the end succeeds; the read then returns fewer bytes than requested.\<close>

definition hutil_read_file_data_from_offset ::
    "'fs conf \<Rightarrow> u32 \<Rightarrow> u32 \<Rightarrow> u32 \<Rightarrow> 'fs sys \<Rightarrow> ('fs sys \<times> (u8 list + mtp_err)) option" where
  "hutil_read_file_data_from_offset c h offset n s =
     (case device_get_object_with_handle (g_dev s) h of
        None \<Rightarrow> Some (s, Inr MTP_ERROR_INVALID_OBJECTHANDLE)
      | Some obj \<Rightarrow> do {
          info \<leftarrow> obj_info obj;
          if protcn_status info = MTP_PROTECTIONSTATUS_NONTRANSFERABLE_DATA
          then Some (s, Inr MTP_ERROR_GENERAL)
          else do {
            p \<leftarrow> file_path obj;
            let fname = g_strlcpy p (MTP_MAX_PATHNAME_SIZE + 1);
            let s1 = s\<lparr>g_copy_src := fname\<rparr>;
            (case os_content (c_os c) (g_fs s) fname of
               Inr _ \<Rightarrow> Some (s1, Inr MTP_ERROR_GENERAL)
             | Inl (content, _) \<Rightarrow>
                 (let d = take (unat n) (drop (unat offset) content)
                  in Some (s1, if length d = unat n then Inl d else Inr MTP_ERROR_GENERAL))) } })"

definition hutil_write_file_data ::
    "'fs conf \<Rightarrow> u32 \<Rightarrow> mtp_obj option \<Rightarrow> string \<Rightarrow> 'fs sys \<Rightarrow> ('fs sys \<times> mtp_err) option" where
  "hutil_write_file_data c sid mobj fpath s =
     (case mobj of
        None \<Rightarrow> Some (s, MTP_ERROR_INVALID_PARAM)
      | Some obj \<Rightarrow>
          if obj_info obj = None then Some (s, MTP_ERROR_INVALID_PARAM)
          else (case store_index (g_dev s) sid of
                  None \<Rightarrow> Some (s, MTP_ERROR_INVALID_OBJECT_INFO)
                | Some i \<Rightarrow> do {
                    p \<leftarrow> file_path obj;
                    if os_stat (c_os c) (g_fs s) fpath = None then Some (s, MTP_ERROR_GENERAL)
                    else (case util_file_move (c_os c) (g_fs s) fpath (g_strlcpy p (MTP_MAX_PATHNAME_SIZE + 1)) of
                            (fs', False, _) \<Rightarrow> Some (s\<lparr>g_fs := fs', g_moved := []\<rparr>, MTP_ERROR_STORE_FULL)
                          | (fs', True, _) \<Rightarrow> do {
                              (st', _) \<leftarrow> entity_add_object_to_store (store_list (g_dev s) ! i) obj;
                              Some (upd_store i st'
                                      (s\<lparr>g_fs := fs', g_moved := g_strlcpy fpath (MTP_MAX_PATHNAME_SIZE + 1)\<rparr>),
                                    MTP_ERROR_NONE) }) }))"

section \<open>Listing handles\<close>

definition enumerate_store :: "'fs conf \<Rightarrow> nat \<Rightarrow> 'fs sys \<Rightarrow> 'fs sys option" where
  "enumerate_store c i s =
     (let st = store_list (g_dev s) ! i
      in if obj_list st \<noteq> [] then Some s
         else do {
           en \<leftarrow> entity_store_recursive_enum_folder_objects (c_fuel c) (c_env c) (g_fs s) (c_stop c) None
                   \<lparr>en_store = st, en_next = g_next s, en_clk = g_clk s, en_watch = g_watch s\<rparr>;
           Some (upd_store i (en_store en)
                   (s\<lparr>g_next := en_next en, g_clk := en_clk en, g_watch := en_watch en\<rparr>)) })"

definition hutil_get_object_handles ::
    "'fs conf \<Rightarrow> u32 \<Rightarrow> u32 \<Rightarrow> u32 \<Rightarrow> ptp_array \<Rightarrow> 'fs sys \<Rightarrow> ('fs sys \<times> ptp_array \<times> mtp_err) option" where
  "hutil_get_object_handles c sid fmt parent arr s = do {
     s1 \<leftarrow> (if parent = PTP_OBJECTHANDLE_ALL \<or> parent = PTP_OBJECTHANDLE_ROOT
            then map_option (\<lambda>s'. s'\<lparr>g_full_enum := True\<rparr>)
                   (foldM (enumerate_store c) [0..<length (stores (g_dev s))] s)
            else Some s);
     let d = g_dev s1;
     if sid = PTP_STORAGEID_ALL \<and> parent = PTP_OBJECTHANDLE_ROOT then do {
       a \<leftarrow> foldM (\<lambda>st a. entity_get_objects_from_store_by_format st fmt a) (stores d) arr;
       Some (s1, a, MTP_ERROR_NONE) }
     else if sid = PTP_STORAGEID_ALL \<and> parent = PTP_OBJECTHANDLE_ALL then do {
       a \<leftarrow> foldM (\<lambda>st a. entity_get_child_handles_with_same_format st PTP_OBJECTHANDLE_ROOT fmt a) (stores d) arr;
       Some (s1, a, MTP_ERROR_NONE) }
     else (case device_get_store d sid of
             None \<Rightarrow> Some (s1, arr, MTP_ERROR_INVALID_STORE)
           | Some st \<Rightarrow> do {
               a \<leftarrow> (if parent = PTP_OBJECTHANDLE_ROOT then entity_get_objects_from_store_by_format st fmt arr
                     else entity_get_child_handles_with_same_format st
                            (if parent = PTP_OBJECTHANDLE_ALL then PTP_OBJECTHANDLE_ROOT else parent) fmt arr);
               Some (s1, a, MTP_ERROR_NONE) }) }"

section \<open>ObjectInfo from the host\<close>

text \<open>
  prev is the storage of the object information that was announced before and
  not consumed.  A parser that finds the buffer too short returns zero, which
  is compared with the size like any other count.
\<close>

definition construct_in_store ::
    "'fs conf \<Rightarrow> u32 \<Rightarrow> u32 \<Rightarrow> u8 list \<Rightarrow> u32 \<Rightarrow> 'fs sys \<Rightarrow> ('fs sys \<times> mtp_err \<times> mtp_obj option) option" where
  "construct_in_store c sid parent d_bytes d_sz s =
     (case device_get_store (g_dev s) sid of
        None \<Rightarrow> Some (s, MTP_ERROR_INVALID_STORE, None)
      | Some st \<Rightarrow>
          if access (s_info st) = PTP_STORAGEACCESS_R then Some (s, MTP_ERROR_STORE_READ_ONLY, None)
          else if free_space (s_info st) = 0 \<or> capacity (s_info st) < free_space (s_info st)
          then Some (s, MTP_ERROR_STORE_FULL, None)
          else do {
            parsed \<leftarrow> entity_parse_raw_obj_info (c_env c) d_bytes d_sz zero_info (MTP_MAX_FILENAME_SIZE + 1);
            let (info, fname, n) = (case parsed of None \<Rightarrow> (zero_info, [], 0) | Some r \<Rightarrow> r);
            if n \<noteq> unat d_sz then Some (s, MTP_ERROR_INVALID_OBJECT_INFO, None)
            else do {
              (s2, er, obj) \<leftarrow> hutil_add_object_entry c (info\<lparr>store_id := sid, h_parent := parent\<rparr>) fname s;
              Some (s2, if er \<in> {MTP_ERROR_NONE, MTP_ERROR_STORE_FULL, MTP_ERROR_INVALID_OBJECTHANDLE,
                                 MTP_ERROR_INVALID_PARENT} then er else MTP_ERROR_GENERAL, obj) } })"

definition hutil_construct_object_entry ::
    "'fs conf \<Rightarrow> u32 \<Rightarrow> u32 \<Rightarrow> u32 option \<Rightarrow> u8 list \<Rightarrow> u32 \<Rightarrow> 'fs sys \<Rightarrow> ('fs sys \<times> mtp_err \<times> mtp_obj option) option" where
  "hutil_construct_object_entry c sid0 parent0 prev d_bytes d_sz s =
     (if sid0 = 0 \<and> default_store_id (g_dev s) = 0 then Some (s, MTP_ERROR_STORE_NOT_AVAILABLE, None)
      else if sid0 = 0 \<and> parent0 \<noteq> 0 then Some (s, MTP_ERROR_INVALID_PARAM, None)
      else construct_in_store c (if sid0 = 0 then default_store_id (g_dev s) else sid0)
             (if parent0 = 0 then default_hparent (g_dev s)
              else if parent0 = 0xFFFFFFFF then PTP_OBJECTHANDLE_ROOT else parent0)
             d_bytes d_sz
             (case Option.bind prev (store_index (g_dev s)) of None \<Rightarrow> s | Some j \<Rightarrow> refresh_store c j s))"

section \<open>Renaming\<close>

text \<open>strstr: the text behind the first occurrence of a needle.\<close>

fun after_first :: "string \<Rightarrow> string \<Rightarrow> string option" where
  "after_first needle [] = (if needle = [] then Some [] else None)"
| "after_first needle (c # cs) =
     (if take (length needle) (c # cs) = needle then Some (drop (length needle) (c # cs))
      else after_first needle cs)"

definition lower_char :: "char \<Rightarrow> char" where
  "lower_char ch = (let n = (of_char ch :: nat) in if 65 \<le> n \<and> n \<le> 90 then char_of (n + 32) else ch)"

definition strcasecmp_eq :: "string \<Rightarrow> string \<Rightarrow> bool" where
  "strcasecmp_eq a b \<longleftrightarrow> map lower_char a = map lower_char b"

definition wide_len :: "'fs conf \<Rightarrow> string \<Rightarrow> nat option" where
  "wide_len c p = do {
     (w, _) \<leftarrow> util_utf8_to_utf16 (e_to16 (c_env c)) True (replicate (2 * MTP_MAX_PATHNAME_SIZE + 1) 0)
                (2 * MTP_MAX_PATHNAME_SIZE + 1) p;
     util_wchar_len w }"

text \<open>
  The new path of a child: None when it does not contain the old path of the
  folder, and otherwise the path or the refusal.
\<close>

definition child_dest :: "'fs conf \<Rightarrow> string \<Rightarrow> string \<Rightarrow> string \<Rightarrow> string option option option" where
  "child_dest c src dest child_path =
     (case after_first src child_path of
        None \<Rightarrow> Some None
      | Some tail \<Rightarrow> do {
          n \<leftarrow> wide_len c src;
          let d = g_strlcpy dest (MTP_MAX_PATHNAME_SIZE + 1);
          Some (Some (if n < MTP_MAX_PATHNAME_SIZE - 1 \<and> length d + length tail < MTP_MAX_PATHNAME_SIZE
                      then Some (d @ tail) else None)) })"

text \<open>
  The loop over the children; the index has 16 bits, so with 65536 children or
  more the loop does not end (None).
\<close>

fun check_children ::
    "'fs conf \<Rightarrow> (mtp_obj \<Rightarrow> string \<Rightarrow> string \<Rightarrow> 'fs \<Rightarrow> ('fs \<times> bool) option) \<Rightarrow> mtp_store \<Rightarrow> string \<Rightarrow> string \<Rightarrow>
     u32 list \<Rightarrow> 'fs \<Rightarrow> ('fs \<times> bool) option" where
  "check_children c rec st src dest [] fs = Some (fs, True)"
| "check_children c rec st src dest (h # hs) fs =
     (case entity_get_object_from_store st h of
        None \<Rightarrow> check_children c rec st src dest hs fs
      | Some child \<Rightarrow> do {
          p \<leftarrow> file_path child;
          (case util_is_file_opened (c_os c) fs p of
             (fs1, True) \<Rightarrow> Some (fs1, False)
           | (fs1, False) \<Rightarrow> do {
               n \<leftarrow> wide_len c (g_strlcpy p (MTP_MAX_PATHNAME_SIZE + 1));
               if MTP_MAX_PATHNAME_SIZE - 1 < n then Some (fs1, False)
               else do {
                 r \<leftarrow> child_dest c src dest p;
                 (case r of
                    None \<Rightarrow> check_children c rec st src dest hs fs1
                  | Some None \<Rightarrow> Some (fs1, False)
                  | Some (Some d) \<Rightarrow> do {
                      (fs2, ok) \<leftarrow> rec child (g_strlcpy p (MTP_MAX_PATHNAME_SIZE + 1)) d fs1;
                      if ok then check_children c rec st src dest hs fs2 else Some (fs2, False) }) } }) })"

fun entity_check_child_obj_path ::
    "nat \<Rightarrow> 'fs conf \<Rightarrow> mtp_device \<Rightarrow> mtp_obj \<Rightarrow> string \<Rightarrow> string \<Rightarrow> 'fs \<Rightarrow> ('fs \<times> bool) option" where
  "entity_check_child_obj_path 0 c d obj src dest fs = None"
| "entity_check_child_obj_path (Suc fuel) c d obj src dest fs =
     (if MTP_MAX_PATHNAME_SIZE - 1 < length dest \<or> MTP_MAX_PATHNAME_SIZE - 1 < length src then Some (fs, False)
      else (case device_get_store_containing_obj d (obj_handle obj) of
              None \<Rightarrow> Some (fs, False)
            | Some i \<Rightarrow> do {
                let st = store_list d ! i;
                arr \<leftarrow> entity_get_child_handles st (obj_handle obj) (prop_alloc_ptparray UINT32_TYPE);
                hs \<leftarrow> ptparray_elems arr;
                (fs1, ok) \<leftarrow> check_children c (entity_check_child_obj_path fuel c d) st src dest (take 65536 hs) fs;
                if ok \<and> 65536 \<le> length hs then None else Some (fs1, ok) }))"

text \<open>
  Setting the paths: a path that does not fit frees the child although it
  stays in the list of the store, which is undefined from then on (None); the
  check above excludes it.
\<close>

fun set_children ::
    "(u32 \<Rightarrow> string \<Rightarrow> string \<Rightarrow> mtp_store \<Rightarrow> (mtp_store \<times> bool) option) \<Rightarrow> string \<Rightarrow> string \<Rightarrow> u32 list \<Rightarrow>
     mtp_store \<Rightarrow> mtp_store option" where
  "set_children rec src dest [] st = Some st"
| "set_children rec src dest (h # hs) st =
     (case entity_get_object_from_store st h of
        None \<Rightarrow> set_children rec src dest hs st
      | Some child \<Rightarrow> do {
          p \<leftarrow> file_path child;
          (case after_first src p of
             None \<Rightarrow> set_children rec src dest hs st
           | Some tail \<Rightarrow> do {
               let d = g_strlcpy dest (MTP_MAX_PATHNAME_SIZE + 1) @ tail;
               if MTP_MAX_PATHNAME_SIZE + 1 \<le> length d then None
               else do {
                 let st1 = st\<lparr>obj_list := update_obj h (\<lambda>ob. entity_set_object_file_path ob d) (obj_list st)\<rparr>;
                 (case obj_info child of
                    None \<Rightarrow> set_children rec src dest hs st1
                  | Some info \<Rightarrow>
                      if obj_fmt info = PTP_FMT_ASSOCIATION then do {
                        (st2, ok) \<leftarrow> rec h (g_strlcpy p (MTP_MAX_PATHNAME_SIZE + 1)) d st1;
                        if ok then set_children rec src dest hs st2 else None }
                      else set_children rec src dest hs st1) } }) })"

fun entity_set_child_object_path ::
    "nat \<Rightarrow> u32 \<Rightarrow> string \<Rightarrow> string \<Rightarrow> mtp_store \<Rightarrow> (mtp_store \<times> bool) option" where
  "entity_set_child_object_path 0 h src dest st = None"
| "entity_set_child_object_path (Suc fuel) h src dest st =
     (if entity_get_object_from_store st h = None then Some (st, False)
      else do {
        arr \<leftarrow> entity_get_child_handles st h (prop_alloc_ptparray UINT32_TYPE);
        hs \<leftarrow> ptparray_elems arr;
        st1 \<leftarrow> set_children (entity_set_child_object_path fuel) src dest (take 65536 hs) st;
        if 65536 \<le> length hs then None else Some (st1, True) })"

section \<open>Setting a property\<close>

definition extension :: "string \<Rightarrow> string" where
  "extension p = (case util_get_file_extn p of None \<Rightarrow> [] | Some x \<Rightarrow> x)"

definition rename_object :: "'fs conf \<Rightarrow> mtp_obj \<Rightarrow> string \<Rightarrow> string \<Rightarrow> 'fs sys \<Rightarrow> ('fs sys \<times> mtp_err) option" where
  "rename_object c obj orig dest s =
     (if \<not> strcasecmp_eq (extension orig) (extension dest) then Some (s, MTP_ERROR_INVALID_OBJECT_PROP_FORMAT)
      else do {
        (fs1, ok) \<leftarrow> entity_check_child_obj_path (c_fuel c) c (g_dev s) obj orig dest (g_fs s);
        let s1 = s\<lparr>g_fs := fs1\<rparr>;
        if \<not> ok then Some (s1, MTP_ERROR_GENERAL)
        else (case util_file_move (c_os c) fs1 orig dest of
                (fs2, False, er) \<Rightarrow>
                  Some (s1\<lparr>g_fs := fs2, g_moved := g_strlcpy orig (MTP_MAX_PATHNAME_SIZE + 1)\<rparr>,
                        if er = Some EACCES then MTP_ERROR_ACCESS_DENIED else MTP_ERROR_GENERAL)
              | (fs2, True, _) \<Rightarrow> do {
                  i \<leftarrow> device_get_store_containing_obj (g_dev s) (obj_handle obj);
                  let st = store_list (g_dev s) ! i;
                  let st1 = st\<lparr>obj_list := update_obj (obj_handle obj) (\<lambda>ob. entity_set_object_file_path ob dest) (obj_list st)\<rparr>;
                  (st2, ok2) \<leftarrow> entity_set_child_object_path (c_fuel c) (obj_handle obj) orig dest st1;
                  Some (upd_store i st2 (s1\<lparr>g_fs := fs2, g_moved := g_strlcpy orig (MTP_MAX_PATHNAME_SIZE + 1)\<rparr>),
                        if ok2 then MTP_ERROR_NONE else MTP_ERROR_INVALID_OBJECT_PROP_FORMAT) }) })"

definition update_file_name ::
    "'fs conf \<Rightarrow> mtp_obj \<Rightarrow> u8 list \<Rightarrow> u32 \<Rightarrow> 'fs sys \<Rightarrow> ('fs sys \<times> mtp_err) option" where
  "update_file_name c obj buf buf_sz s = do {
     (fname, _) \<leftarrow> prop_parse_rawstring zero_string buf buf_sz;
     ws \<leftarrow> scan_wstr MAX_PTP_STRING_CHARS (str fname);
     let name = fst (util_utf16_to_utf8 (e_to8 (c_env c)) (MTP_MAX_PATHNAME_SIZE + 1) ws);
     p \<leftarrow> file_path obj;
     let orig = g_strlcpy p (MTP_MAX_PATHNAME_SIZE + 1);
     let parent = (case util_get_parent_path orig of None \<Rightarrow> [] | Some q \<Rightarrow> q);
     (case util_create_path (MTP_MAX_PATHNAME_SIZE + 1) parent name of
        (Some dest, True) \<Rightarrow>
          if strcasecmp_eq orig dest then Some (s, MTP_ERROR_NONE) else rename_object c obj orig dest s
      | _ \<Rightarrow> Some (s, MTP_ERROR_ACCESS_DENIED)) }"

text \<open>The call of the handler passes no data type and no place for the size.\<close>

definition hutil_update_object_property ::
    "'fs conf \<Rightarrow> u32 \<Rightarrow> u32 \<Rightarrow> u8 list option \<Rightarrow> u32 \<Rightarrow> 'fs sys \<Rightarrow> ('fs sys \<times> mtp_err) option" where
  "hutil_update_object_property c h propcode mbuf buf_sz s =
     (case mbuf of
        None \<Rightarrow> Some (s, MTP_ERROR_INVALID_PARAM)
      | Some buf \<Rightarrow>
          (case device_get_object_with_handle (g_dev s) h of
             None \<Rightarrow> Some (s, MTP_ERROR_INVALID_OBJECTHANDLE)
           | Some obj \<Rightarrow>
               (case obj_info obj of
                  None \<Rightarrow> Some (s, MTP_ERROR_INVALID_OBJECTHANDLE)
                | Some info \<Rightarrow> do {
                    p \<leftarrow> file_path obj;
                    (case util_is_file_opened (c_os c) (g_fs s) p of
                       (fs1, True) \<Rightarrow> Some (s\<lparr>g_fs := fs1\<rparr>, MTP_ERROR_GENERAL)
                     | (fs1, False) \<Rightarrow>
                         (let s1 = s\<lparr>g_fs := fs1\<rparr>
                          in case prop_get_obj_prop_desc (g_props s) propcode of
                               None \<Rightarrow> Some (s1, MTP_ERROR_INVALID_OBJ_PROP_CODE)
                             | Some pd \<Rightarrow>
                                 if get_set (propinfo pd) = PTP_PROPGETSET_GETONLY then Some (s1, MTP_ERROR_ACCESS_DENIED)
                                 else if propcode = ucast MTP_OBJ_PROPERTYCODE_OBJECTFILENAME
                                 then update_file_name c obj buf buf_sz s1
                                 else if propcode = ucast MTP_OBJ_PROPERTYCODE_ASSOCIATIONTYPE then do {
                                   w \<leftarrow> rd_word buf 0 2;
                                   i \<leftarrow> device_get_store_containing_obj (g_dev s1) h;
                                   let st = store_list (g_dev s1) ! i;
                                   Some (upd_store i (st\<lparr>obj_list := update_obj h
                                           (\<lambda>ob. ob\<lparr>obj_info := Some (info\<lparr>association_type := w\<rparr>)\<rparr>) (obj_list st)\<rparr>) s1,
                                         MTP_ERROR_NONE) }
                                 else Some (s1, MTP_ERROR_NONE))) })))"

definition hutil_get_prop_desc :: "'fs sys \<Rightarrow> u32 \<Rightarrow> obj_prop_desc option" where
  "hutil_get_prop_desc s propcode = prop_get_obj_prop_desc (g_props s) propcode"

section \<open>References and interdependent properties\<close>

definition update_object :: "u32 \<Rightarrow> mtp_obj \<Rightarrow> 'fs sys \<Rightarrow> 'fs sys option" where
  "update_object h obj s = do {
     i \<leftarrow> device_get_store_containing_obj (g_dev s) h;
     let st = store_list (g_dev s) ! i;
     Some (upd_store i (st\<lparr>obj_list := update_obj h (\<lambda>_. obj) (obj_list st)\<rparr>) s) }"

definition hutil_remove_object_reference :: "u32 \<Rightarrow> u32 \<Rightarrow> 'fs sys \<Rightarrow> ('fs sys \<times> mtp_err) option" where
  "hutil_remove_object_reference h ref s =
     (case device_get_object_with_handle (g_dev s) h of
        None \<Rightarrow> Some (s, MTP_ERROR_NONE)
      | Some obj \<Rightarrow> do {
          (obj', _) \<leftarrow> entity_remove_reference_child_array obj ref;
          s1 \<leftarrow> update_object h obj' s;
          Some (s1, MTP_ERROR_NONE) })"

definition hutil_add_object_references_enhanced :: "u32 \<Rightarrow> u8 list \<Rightarrow> u32 \<Rightarrow> 'fs sys \<Rightarrow> ('fs sys \<times> mtp_err) option" where
  "hutil_add_object_references_enhanced h buf buf_sz s =
     (case device_get_object_with_handle (g_dev s) h of
        None \<Rightarrow> Some (s, MTP_ERROR_NONE)
      | Some obj \<Rightarrow> do {
          (obj', ok) \<leftarrow> entity_set_reference_child_array obj buf buf_sz;
          s1 \<leftarrow> update_object h obj' s;
          Some (s1, if ok then MTP_ERROR_NONE else MTP_ERROR_GENERAL) })"

definition hutil_get_interdep_prop_config_list_size :: "'fs sys \<Rightarrow> u32 \<Rightarrow> u32 option" where
  "hutil_get_interdep_prop_config_list_size s fmt = prop_get_size_interdep_proplist (g_interdep s) fmt"

definition hutil_get_interdep_prop_config_list_data :: "'fs sys \<Rightarrow> u32 \<Rightarrow> u32 \<Rightarrow> (u8 list \<times> mtp_err) option" where
  "hutil_get_interdep_prop_config_list_data s list_sz fmt = do {
     (bs, n) \<leftarrow> prop_pack_interdep_proplist (g_interdep s) fmt list_sz;
     Some (bs, if n = list_sz then MTP_ERROR_NONE else MTP_ERROR_GENERAL) }"

end
