(* ===== verification/Handler.thy ===== *)
theory Handler
  imports Hutil
begin

text \<open>
  The command handlers of src/mtp_cmd_handler.c, one definition per handler.
  A handler reads the command block kept in the handler record, works on the
  global state and queues a data container and a response for the USB thread.
  None is undefined behaviour (or fuel that ran out in a walk over objects).
  A control event that the USB thread may raise at any time is read through
  take_ctrl, which consults the oracle c_ctrl of the configuration.
\<close>

section \<open>Responses\<close>

definition get_param :: "'fs sys \<Rightarrow> u32 \<Rightarrow> u32 option" where
  "get_param s i = hdlr_get_param_cmd_container (usb_cmd (g_hdlr s)) i"

definition any_param :: "'fs sys \<Rightarrow> u32 list \<Rightarrow> bool option" where
  "any_param s is = map_option (\<lambda>ps. \<exists>p\<in>set ps. p \<noteq> 0) (those (map (get_param s) is))"

definition set_phase :: "device_phase \<Rightarrow> 'fs sys \<Rightarrow> 'fs sys" where
  "set_phase ph s = s\<lparr>g_dev := (g_dev s)\<lparr>phase := ph\<rparr>\<rparr>"

definition upd_hdlr :: "(mtp_handler \<Rightarrow> mtp_handler) \<Rightarrow> 'fs sys \<Rightarrow> 'fs sys" where
  "upd_hdlr f s = s\<lparr>g_hdlr := f (g_hdlr s)\<rparr>"

definition cmd_hdlr_send_response ::
    "'fs conf \<Rightarrow> u16 \<Rightarrow> u32 \<Rightarrow> u32 list option \<Rightarrow> 'fs sys \<Rightarrow> ('fs sys \<times> bool) option" where
  "cmd_hdlr_send_response c resp num ps s = do {
     (blk, _) \<leftarrow> hdlr_add_param_resp_container
                  (hdlr_resp_container_init zero_cmd resp (tid (usb_cmd (g_hdlr s)))) num ps;
     (q, ok) \<leftarrow> hdlr_send_resp_container (c_snd c) (c_tx_size c) (g_txq s) blk;
     Some (set_phase DEVICE_PHASE_IDLE (s\<lparr>g_txq := q\<rparr>), ok) }"

definition cmd_hdlr_send_response_code :: "'fs conf \<Rightarrow> u16 \<Rightarrow> 'fs sys \<Rightarrow> 'fs sys option" where
  "cmd_hdlr_send_response_code c resp s = map_option fst (cmd_hdlr_send_response c resp 0 None s)"

definition zero_send_object :: data_4send_object where
  "zero_send_object = \<lparr>so_store_id = 0, so_h_parent = 0, so_obj_handle = 0, so_is_valid = False,
     so_is_data_sent = False, so_file_size = 0, so_obj = None\<rparr>"

definition cmd_hdlr_reset_cmd :: "'fs sys \<Rightarrow> 'fs sys" where
  "cmd_hdlr_reset_cmd s = s\<lparr>g_hdlr := \<lparr>usb_cmd = zero_cmd, data4_send_obj = zero_send_object, session_id = 0,
     last_opcode = 0, last_fmt_code = 0\<rparr>\<rparr>"

text \<open>The look at the control event: it is consumed.\<close>

definition take_ctrl :: "'fs conf \<Rightarrow> 'fs sys \<Rightarrow> u32 \<times> 'fs sys" where
  "take_ctrl c s =
     (if c_ctrl c (g_clk s) \<noteq> 0 then c_ctrl c (g_clk s) else g_ctrl s,
      s\<lparr>g_ctrl := 0, g_clk := Suc (g_clk s)\<rparr>)"

section \<open>Data phases towards the host\<close>

definition zero_data :: data_container where
  "zero_data = cmd_container.extend zero_cmd \<lparr>cdata = None\<rparr>"

definition data_container_for :: "'fs sys \<Rightarrow> data_container" where
  "data_container_for s = hdlr_init_data_container zero_data (code (usb_cmd (g_hdlr s))) (tid (usb_cmd (g_hdlr s)))"

text \<open>Writing behind the header of an allocated container.\<close>

definition fill_payload :: "data_container \<Rightarrow> u8 list \<Rightarrow> data_container option" where
  "fill_payload blk bs = do {
     d \<leftarrow> cdata blk;
     if header_size + length bs \<le> length d
     then Some (blk\<lparr>cdata := Some (take header_size d @ bs @ drop (header_size + length bs) d)\<rparr>) else None }"

text \<open>Sending the container: OK is answered, or the phase is left at NOTREADY without an answer.\<close>

definition send_data_then_ok :: "'fs conf \<Rightarrow> data_container \<Rightarrow> 'fs sys \<Rightarrow> 'fs sys option" where
  "send_data_then_ok c blk s = do {
     (q, ok) \<leftarrow> hdlr_send_data_container (c_snd c) (c_tx_size c) (g_txq s) blk;
     let s1 = set_phase DEVICE_PHASE_DATAIN (s\<lparr>g_txq := q\<rparr>);
     if ok then cmd_hdlr_send_response_code c PTP_RESPONSE_OK s1 else Some (set_phase DEVICE_PHASE_NOTREADY s1) }"

text \<open>
  The common end of the handlers that answer with a packed dataset: the
  container is allocated for the announced size, and a packer that returns
  another count is answered with a general error.
\<close>

definition send_dataset :: "'fs conf \<Rightarrow> u32 \<Rightarrow> (u8 list \<times> u32) \<Rightarrow> 'fs sys \<Rightarrow> 'fs sys option" where
  "send_dataset c num_bytes packed s = do {
     (blk, ok) \<leftarrow> hdlr_alloc_buf_data_container (data_container_for s) num_bytes (ucast num_bytes);
     if \<not> ok then cmd_hdlr_send_response_code c PTP_RESPONSE_GEN_ERROR s
     else do {
       blk' \<leftarrow> fill_payload blk (fst packed);
       if snd packed = num_bytes then send_data_then_ok c blk' s
       else cmd_hdlr_send_response_code c PTP_RESPONSE_GEN_ERROR s } }"

section \<open>Sessions\<close>

definition open_session :: "'fs conf \<Rightarrow> 'fs sys \<Rightarrow> 'fs sys option" where
  "open_session c s = do {
     extra \<leftarrow> any_param s [1, 2];
     if extra then cmd_hdlr_send_response_code c PTP_RESPONSE_PARAM_NOTSUPPORTED s
     else do {
       sid \<leftarrow> get_param s 0;
       if sid = 0 \<or> tid (usb_cmd (g_hdlr s)) \<noteq> 0 then cmd_hdlr_send_response_code c PTP_RESPONSE_INVALIDPARAM s
       else if session_id (g_hdlr s) \<noteq> 0
       then map_option fst (cmd_hdlr_send_response c PTP_RESPONSE_SESSIONALREADYOPENED 1 (Some [session_id (g_hdlr s)]) s)
       else cmd_hdlr_send_response_code c PTP_RESPONSE_OK (upd_hdlr (\<lambda>h. h\<lparr>session_id := sid\<rparr>) s) } }"

definition close_session :: "'fs conf \<Rightarrow> 'fs sys \<Rightarrow> 'fs sys option" where
  "close_session c s = do {
     extra \<leftarrow> any_param s [0, 1, 2];
     if extra then cmd_hdlr_send_response_code c PTP_RESPONSE_PARAM_NOTSUPPORTED s
     else if session_id (g_hdlr s) \<noteq> 0
     then cmd_hdlr_send_response_code c PTP_RESPONSE_OK (upd_hdlr (\<lambda>h. h\<lparr>session_id := 0\<rparr>) s)
     else cmd_hdlr_send_response_code c PTP_RESPONSE_SESSIONNOTOPEN s }"

definition reset_device :: "'fs conf \<Rightarrow> 'fs sys \<Rightarrow> 'fs sys option" where
  "reset_device c s = do {
     extra \<leftarrow> any_param s [0, 1, 2];
     cmd_hdlr_send_response_code c (if extra then PTP_RESPONSE_PARAM_NOTSUPPORTED else PTP_RESPONSE_OK) s }"

definition power_down :: "'fs conf \<Rightarrow> 'fs sys \<Rightarrow> 'fs sys option" where
  "power_down c s = do {
     extra \<leftarrow> any_param s [0, 1, 2];
     if extra then cmd_hdlr_send_response_code c PTP_RESPONSE_PARAM_NOTSUPPORTED s
     else map_option cmd_hdlr_reset_cmd (cmd_hdlr_send_response_code c PTP_RESPONSE_OK s) }"

definition begin_end_edit_object :: "'fs conf \<Rightarrow> 'fs sys \<Rightarrow> 'fs sys option" where
  "begin_end_edit_object c s = cmd_hdlr_send_response_code c PTP_RESPONSE_OK s"

definition vendor_command1 :: "'fs conf \<Rightarrow> 'fs sys \<Rightarrow> 'fs sys option" where
  "vendor_command1 c s = do {
     _ \<leftarrow> get_param s 0;
     cmd_hdlr_send_response_code c PTP_RESPONSE_GEN_ERROR s }"

section \<open>Datasets\<close>

definition get_object_prop_desc :: "'fs conf \<Rightarrow> 'fs sys \<Rightarrow> 'fs sys option" where
  "get_object_prop_desc c s = do {
     extra \<leftarrow> any_param s [2];
     if extra then cmd_hdlr_send_response_code c PTP_RESPONSE_PARAM_NOTSUPPORTED s
     else do {
       prop_id \<leftarrow> get_param s 0;
       _ \<leftarrow> get_param s 1;
       (case hutil_get_prop_desc s prop_id of
          None \<Rightarrow> cmd_hdlr_send_response_code c PTP_RESPONSE_PROP_NOTSUPPORTED s
        | Some prop \<Rightarrow> do {
            n \<leftarrow> prop_size_obj_prop_desc prop;
            packed \<leftarrow> prop_pack_obj_prop_desc prop n;
            send_dataset c n packed s }) } }"

definition get_device_info :: "'fs conf \<Rightarrow> 'fs sys \<Rightarrow> 'fs sys option" where
  "get_device_info c s = do {
     extra \<leftarrow> any_param s [0, 1, 2];
     if extra \<or> (session_id (g_hdlr s) = 0 \<and> tid (usb_cmd (g_hdlr s)) \<noteq> 0)
     then cmd_hdlr_send_response_code c PTP_RESPONSE_PARAM_NOTSUPPORTED s
     else do {
       let n = get_device_info_size (dev_info (g_dev s));
       packed \<leftarrow> pack_device_info (dev_info (g_dev s)) n;
       send_dataset c n packed s } }"

definition get_storage_info :: "'fs conf \<Rightarrow> 'fs sys \<Rightarrow> 'fs sys option" where
  "get_storage_info c s = do {
     extra \<leftarrow> any_param s [1, 2];
     if extra then cmd_hdlr_send_response_code c PTP_RESPONSE_PARAM_NOTSUPPORTED s
     else do {
       sid \<leftarrow> get_param s 0;
       (s1, r) \<leftarrow> hutil_get_storage_entry c sid s;
       (case r of
          None \<Rightarrow> cmd_hdlr_send_response_code c PTP_RESPONSE_INVALID_STORE_ID s1
        | Some info \<Rightarrow> do {
            let n = hutil_get_storage_info_size info;
            packed \<leftarrow> entity_pack_store_info info n;
            send_dataset c n packed s1 }) } }"

definition get_object_info :: "'fs conf \<Rightarrow> 'fs sys \<Rightarrow> 'fs sys option" where
  "get_object_info c s = do {
     extra \<leftarrow> any_param s [1, 2];
     if extra then cmd_hdlr_send_response_code c PTP_RESPONSE_PARAM_NOTSUPPORTED s
     else do {
       h \<leftarrow> get_param s 0;
       (case hutil_get_object_entry (g_dev s) h of
          None \<Rightarrow> cmd_hdlr_send_response_code c PTP_RESPONSE_INVALID_OBJ_HANDLE s
        | Some obj \<Rightarrow> do {
            p \<leftarrow> file_path obj;
            let f_name = util_get_file_name p;
            if MTP_MAX_FILENAME_SIZE < length f_name then None
            else do {
              (w, _) \<leftarrow> util_utf8_to_utf16 (e_to16 (c_env c)) True (replicate (MTP_MAX_FILENAME_SIZE + 1) 0)
                         (MTP_MAX_FILENAME_SIZE + 1) f_name;
              name \<leftarrow> prop_copy_wchar_to_ptpstring zero_string (Some w);
              n \<leftarrow> entity_get_object_info_size (c_env c) (g_fs s) obj name;
              packed \<leftarrow> entity_pack_obj_info (c_env c) (g_fs s) obj name n;
              send_dataset c n packed s } }) } }"

text \<open>The arrays are packed without a look at the count; a failed transfer is answered here.\<close>

definition get_storage_ids :: "'fs conf \<Rightarrow> 'fs sys \<Rightarrow> 'fs sys option" where
  "get_storage_ids c s = do {
     extra \<leftarrow> any_param s [0, 1, 2];
     if extra then cmd_hdlr_send_response_code c PTP_RESPONSE_PARAM_NOTSUPPORTED s
     else do {
       (ids, er) \<leftarrow> hutil_get_storage_ids (g_dev s) (prop_alloc_ptparray UINT32_TYPE);
       if er \<noteq> MTP_ERROR_NONE then cmd_hdlr_send_response_code c PTP_RESPONSE_GEN_ERROR s
       else do {
         let n = prop_get_size_ptparray ids;
         (blk, ok) \<leftarrow> hdlr_alloc_buf_data_container (data_container_for s) n (ucast n);
         if \<not> ok then cmd_hdlr_send_response_code c PTP_RESPONSE_GEN_ERROR s
         else do {
           (bs, _) \<leftarrow> prop_pack_ptparray ids n;
           blk' \<leftarrow> fill_payload blk bs;
           (q, sent) \<leftarrow> hdlr_send_data_container (c_snd c) (c_tx_size c) (g_txq s) blk';
           cmd_hdlr_send_response_code c (if sent then PTP_RESPONSE_OK else PTP_RESPONSE_GEN_ERROR)
             (s\<lparr>g_txq := q\<rparr>) } } } }"

definition handles_response :: "mtp_err \<Rightarrow> u16" where
  "handles_response er =
     (case er of
        MTP_ERROR_INVALID_STORE \<Rightarrow> PTP_RESPONSE_INVALID_STORE_ID
      | MTP_ERROR_INVALID_OBJECTHANDLE \<Rightarrow> PTP_RESPONSE_INVALID_OBJ_HANDLE
      | MTP_ERROR_INVALID_PARENT \<Rightarrow> PTP_RESPONSE_INVALIDPARENT
      | MTP_ERROR_STORE_NOT_AVAILABLE \<Rightarrow> PTP_RESPONSE_STORENOTAVAILABLE
      | MTP_ERROR_NONE \<Rightarrow> PTP_RESPONSE_OK
      | _ \<Rightarrow> PTP_RESPONSE_GEN_ERROR)"

definition get_object_handles :: "'fs conf \<Rightarrow> 'fs sys \<Rightarrow> 'fs sys option" where
  "get_object_handles c s = do {
     sid \<leftarrow> get_param s 0;
     fmt \<leftarrow> get_param s 1;
     parent \<leftarrow> get_param s 2;
     (s1, arr, er) \<leftarrow> hutil_get_object_handles c sid fmt parent (prop_alloc_ptparray UINT32_TYPE) s;
     let resp = handles_response er;
     if resp \<noteq> PTP_RESPONSE_OK then cmd_hdlr_send_response_code c resp s1
     else do {
       let n = prop_get_size_ptparray arr;
       (blk, ok) \<leftarrow> hdlr_alloc_buf_data_container (data_container_for s1) n (ucast n);
       if \<not> ok then cmd_hdlr_send_response_code c PTP_RESPONSE_GEN_ERROR s1
       else do {
         (bs, _) \<leftarrow> prop_pack_ptparray arr n;
         blk' \<leftarrow> fill_payload blk bs;
         send_data_then_ok c blk' s1 } } }"

definition get_interdep_prop_desc :: "'fs conf \<Rightarrow> 'fs sys \<Rightarrow> 'fs sys option" where
  "get_interdep_prop_desc c s = do {
     extra \<leftarrow> any_param s [1, 2];
     if extra then cmd_hdlr_send_response_code c PTP_RESPONSE_PARAM_NOTSUPPORTED s
     else do {
       fmt \<leftarrow> get_param s 0;
       if fmt = 0 \<or> fmt = 0xFFFFFFFF then cmd_hdlr_send_response_code c PTP_RESPONSE_INVALIDCODEFORMAT s
       else do {
         n \<leftarrow> hutil_get_interdep_prop_config_list_size s fmt;
         (blk, ok) \<leftarrow> hdlr_alloc_buf_data_container (data_container_for s) n (ucast n);
         (bs, er) \<leftarrow> hutil_get_interdep_prop_config_list_data s n fmt;
         if er \<noteq> MTP_ERROR_NONE \<or> \<not> ok then cmd_hdlr_send_response_code c PTP_RESPONSE_GEN_ERROR s
         else do {
           blk' \<leftarrow> fill_payload blk bs;
           send_data_then_ok c blk' s } } } }"

section \<open>Reading objects\<close>

text \<open>
  The loop that sends the rest of a file: content is what is still to be read.
  Every read takes the configured size, although the buffer of a small first
  packet is smaller; reading more than it holds is None.
\<close>

function get_object_loop ::
    "'fs conf \<Rightarrow> u64 \<Rightarrow> nat \<Rightarrow> u8 list \<Rightarrow> u64 \<Rightarrow> 'fs sys \<Rightarrow> ('fs sys \<times> u16) option" where
  "get_object_loop c total_len buf_len content sent s =
     (if \<not> sent < total_len then Some (s, PTP_RESPONSE_OK)
      else (let rd = take (unat (c_read_file c)) content
            in if rd = [] then Some (set_phase DEVICE_PHASE_NOTREADY s, PTP_RESPONSE_INCOMPLETETRANSFER)
               else if buf_len < length rd then None
               else (case take_ctrl c s of
                       (ev, s1) \<Rightarrow>
                         if ev = ucast PTP_EVENTCODE_CANCELTRANSACTION
                         then Some (set_phase DEVICE_PHASE_NOTREADY s1, PTP_RESPONSE_INCOMPLETETRANSFER)
                         else (case hdlr_send_bulk_data (c_snd c) (c_tx_size c) (g_txq s1) rd (of_nat (length rd)) of
                                 None \<Rightarrow> None
                               | Some (q, ok) \<Rightarrow>
                                   if \<not> ok
                                   then Some (set_phase DEVICE_PHASE_NOTREADY (s1\<lparr>g_txq := q\<rparr>),
                                              PTP_RESPONSE_INCOMPLETETRANSFER)
                                   else get_object_loop c total_len buf_len
                                          (drop (unat (c_read_file c)) content) (sent + of_nat (length rd))
                                          (s1\<lparr>g_txq := q\<rparr>)))))"
  by pat_completeness auto
termination
  by (relation "measure (\<lambda>(c, t, b, content, sent, s). length content)") (auto simp: Let_def)

declare get_object_loop.simps [simp del]

text \<open>The transfer of an open file: the first packet carries the header.\<close>

definition transfer_file ::
    "'fs conf \<Rightarrow> data_container \<Rightarrow> u32 \<Rightarrow> u64 \<Rightarrow> u8 list \<Rightarrow> 'fs sys \<Rightarrow> ('fs sys \<times> u16) option" where
  "transfer_file c blk packet_len total_len content s =
     (let rd = take (unat packet_len) content
      in if rd = [] then Some (set_phase DEVICE_PHASE_NOTREADY s, PTP_RESPONSE_INCOMPLETETRANSFER)
         else do {
           blk' \<leftarrow> fill_payload blk rd;
           d \<leftarrow> cdata blk';
           let (ev, s1) = take_ctrl c s;
           if ev = ucast PTP_EVENTCODE_CANCELTRANSACTION
           then Some (set_phase DEVICE_PHASE_NOTREADY s1, PTP_RESPONSE_INCOMPLETETRANSFER)
           else do {
             (q, ok) \<leftarrow> hdlr_send_bulk_data (c_snd c) (c_tx_size c) (g_txq s1) d (len blk');
             if \<not> ok then Some (set_phase DEVICE_PHASE_NOTREADY (s1\<lparr>g_txq := q\<rparr>), PTP_RESPONSE_INCOMPLETETRANSFER)
             else get_object_loop c total_len (length d) (drop (unat packet_len) content)
                    (of_nat header_size + of_nat (length rd)) (s1\<lparr>g_txq := q\<rparr>) } })"

definition get_object :: "'fs conf \<Rightarrow> 'fs sys \<Rightarrow> 'fs sys option" where
  "get_object c s = do {
     extra \<leftarrow> any_param s [1, 2];
     if extra then cmd_hdlr_send_response_code c PTP_RESPONSE_PARAM_NOTSUPPORTED s
     else do {
       h \<leftarrow> get_param s 0;
       (case device_get_object_with_handle (g_dev s) h of
          None \<Rightarrow> cmd_hdlr_send_response_code c PTP_RESPONSE_INVALID_OBJ_HANDLE s
        | Some obj \<Rightarrow> do {
            info \<leftarrow> obj_info obj;
            path \<leftarrow> file_path obj;
            let num_bytes = file_size info;
            let total_len = num_bytes + of_nat header_size;
            let packet_len = (if total_len < ucast (c_read_file c) then ucast num_bytes
                              else c_read_file c - of_nat header_size);
            (blk, ok) \<leftarrow> hdlr_alloc_buf_data_container (data_container_for s) packet_len num_bytes;
            if \<not> ok then cmd_hdlr_send_response_code c PTP_RESPONSE_GEN_ERROR s
            else (case os_content (c_os c) (g_fs s) path of
                    Inr er \<Rightarrow> cmd_hdlr_send_response_code c
                                (if er = EACCES then PTP_RESPONSE_ACCESSDENIED else PTP_RESPONSE_GEN_ERROR)
                                (set_phase DEVICE_PHASE_NOTREADY s)
                  | Inl (content, _) \<Rightarrow> do {
                      (s1, resp) \<leftarrow> transfer_file c blk packet_len total_len content
                                     (set_phase DEVICE_PHASE_DATAIN s);
                      cmd_hdlr_send_response_code c resp s1 }) }) } }"

definition partial_bytes :: "u64 \<Rightarrow> u32 \<Rightarrow> u32 \<Rightarrow> u32" where
  "partial_bytes f_size offset data_sz =
     (if f_size - ucast offset < ucast data_sz then ucast (f_size - ucast offset) else data_sz)"

definition get_partial_object :: "'fs conf \<Rightarrow> 'fs sys \<Rightarrow> 'fs sys option" where
  "get_partial_object c s = do {
     offset \<leftarrow> get_param s 1;
     data_sz \<leftarrow> get_param s 2;
     h \<leftarrow> get_param s 0;
     r \<leftarrow> hutil_get_object_entry_size (g_dev s) h;
     (case r of
        Inr er \<Rightarrow> cmd_hdlr_send_response_code c
                    (if er = MTP_ERROR_INVALID_OBJECTHANDLE then PTP_RESPONSE_INVALID_OBJ_HANDLE
                     else PTP_RESPONSE_GEN_ERROR) s
      | Inl f_size \<Rightarrow> do {
          let send_bytes = partial_bytes f_size offset data_sz;
          (blk, ok) \<leftarrow> hdlr_alloc_buf_data_container (data_container_for s) send_bytes (ucast send_bytes);
          if \<not> ok then cmd_hdlr_send_response_code c PTP_RESPONSE_GEN_ERROR s
          else do {
            (s1, rd) \<leftarrow> hutil_read_file_data_from_offset c h offset send_bytes s;
            (case rd of
               Inr er \<Rightarrow> cmd_hdlr_send_response_code c
                           (if er = MTP_ERROR_INVALID_OBJECTHANDLE then PTP_RESPONSE_INVALID_OBJ_HANDLE
                            else PTP_RESPONSE_GEN_ERROR) s1
             | Inl bs \<Rightarrow> do {
                 blk' \<leftarrow> fill_payload blk bs;
                 (q, sent) \<leftarrow> hdlr_send_data_container (c_snd c) (c_tx_size c) (g_txq s1) blk';
                 let s2 = set_phase DEVICE_PHASE_DATAIN (s1\<lparr>g_txq := q\<rparr>);
                 if \<not> sent then Some (set_phase DEVICE_PHASE_NOTREADY s2)
                 else do {
                   let s3 = (if (ucast send_bytes + of_nat header_size :: u64) mod ucast (c_pkt_len c) = 0
                             then s2\<lparr>g_txq := transport_send_zlp (c_snd c) (g_txq s2)\<rparr> else s2);
                   map_option fst (cmd_hdlr_send_response c PTP_RESPONSE_OK 1 (Some [send_bytes]) s3) } }) } }) }"

section \<open>Data phases from the host\<close>

definition prop_response :: "mtp_err \<Rightarrow> u16" where
  "prop_response er =
     (case er of
        MTP_ERROR_ACCESS_DENIED \<Rightarrow> PTP_RESPONSE_ACCESSDENIED
      | MTP_ERROR_INVALID_OBJECTHANDLE \<Rightarrow> PTP_RESPONSE_INVALID_OBJ_HANDLE
      | MTP_ERROR_INVALID_OBJ_PROP_CODE \<Rightarrow> PTP_RESPONSE_PROP_NOTSUPPORTED
      | MTP_ERROR_GENERAL \<Rightarrow> PTP_RESPONSE_GEN_ERROR
      | MTP_ERROR_NONE \<Rightarrow> PTP_RESPONSE_OK
      | _ \<Rightarrow> PTP_RESPONSE_INVALIDPROPVALUE)"

abbreviation (input) MTP_MAX_PROP_DATASIZE :: u32 where "MTP_MAX_PROP_DATASIZE \<equiv> 1000000"
abbreviation (input) MAX_SIZE_IN_BYTES_OF_OBJECT_INFO :: u32 where "MAX_SIZE_IN_BYTES_OF_OBJECT_INFO \<equiv> 32000"

definition receive_data :: "'fs conf \<Rightarrow> u32 \<Rightarrow> 'fs sys \<Rightarrow> ('fs sys \<times> data_container \<times> bool) option" where
  "receive_data c max_bytes s = do {
     (blk, ok, fs', ft') \<leftarrow> hdlr_rcv_data_container (c_os c) (g_fs s) (g_ftemp s) (data_container_for s) max_bytes;
     Some (s\<lparr>g_fs := fs', g_ftemp := ft'\<rparr>, blk, ok) }"

definition set_object_prop_value :: "'fs conf \<Rightarrow> 'fs sys \<Rightarrow> 'fs sys option" where
  "set_object_prop_value c s = do {
     h \<leftarrow> get_param s 0;
     prop_id \<leftarrow> get_param s 1;
     extra \<leftarrow> any_param s [2];
     if extra then cmd_hdlr_send_response_code c PTP_RESPONSE_PARAM_NOTSUPPORTED s
     else do {
       (s1, blk, ok) \<leftarrow> receive_data c MTP_MAX_PROP_DATASIZE (set_phase DEVICE_PHASE_DATAOUT s);
       if \<not> ok then cmd_hdlr_send_response_code c PTP_RESPONSE_INVALIDPROPVALUE (set_phase DEVICE_PHASE_IDLE s1)
       else do {
         (s2, er) \<leftarrow> hutil_update_object_property c h prop_id (hdlr_get_payload_data blk)
                       (hdlr_get_payload_size blk) s1;
         cmd_hdlr_send_response_code c (prop_response er) s2 } } }"

definition info_response :: "mtp_err \<Rightarrow> u16" where
  "info_response er =
     (case er of
        MTP_ERROR_NONE \<Rightarrow> PTP_RESPONSE_OK
      | MTP_ERROR_STORE_NOT_AVAILABLE \<Rightarrow> PTP_RESPONSE_STORENOTAVAILABLE
      | MTP_ERROR_INVALID_PARAM \<Rightarrow> PTP_RESPONSE_PARAM_NOTSUPPORTED
      | MTP_ERROR_INVALID_STORE \<Rightarrow> PTP_RESPONSE_INVALID_STORE_ID
      | MTP_ERROR_STORE_READ_ONLY \<Rightarrow> PTP_RESPONSE_STORE_READONLY
      | MTP_ERROR_STORE_FULL \<Rightarrow> PTP_RESPONSE_STOREFULL
      | MTP_ERROR_INVALID_OBJECT_INFO \<Rightarrow> MTP_RESPONSECODE_INVALIDDATASET
      | MTP_ERROR_INVALID_OBJECTHANDLE \<Rightarrow> PTP_RESPONSE_INVALID_OBJ_HANDLE
      | MTP_ERROR_INVALID_PARENT \<Rightarrow> PTP_RESPONSE_INVALIDPARENT
      | MTP_ERROR_ACCESS_DENIED \<Rightarrow> PTP_RESPONSE_ACCESSDENIED
      | _ \<Rightarrow> PTP_RESPONSE_GEN_ERROR)"

text \<open>What is remembered of an accepted ObjectInfo dataset for the SendObject that follows.\<close>

definition announce :: "u32 \<Rightarrow> u32 \<Rightarrow> mtp_obj \<Rightarrow> obj_info \<Rightarrow> data_4send_object \<Rightarrow> data_4send_object" where
  "announce sid parent obj info d =
     (if obj_fmt info = PTP_FMT_ASSOCIATION
      then d\<lparr>so_obj := None, so_is_valid := False, so_obj_handle := obj_handle obj, so_h_parent := parent,
             so_store_id := sid\<rparr>
      else d\<lparr>so_is_valid := True, so_obj_handle := obj_handle obj, so_h_parent := parent, so_store_id := sid,
             so_obj := Some obj, so_file_size := file_size info\<rparr>)"

definition answer_object_info ::
    "'fs conf \<Rightarrow> u32 \<Rightarrow> u32 \<Rightarrow> mtp_err \<Rightarrow> mtp_obj option \<Rightarrow> 'fs sys \<Rightarrow> 'fs sys option" where
  "answer_object_info c sid parent er mobj s =
     (if er \<noteq> MTP_ERROR_NONE then cmd_hdlr_send_response_code c (info_response er) s
      else do {
        obj \<leftarrow> mobj;
        info \<leftarrow> obj_info obj;
        let s1 = upd_hdlr (\<lambda>hd. hd\<lparr>data4_send_obj := announce sid parent obj info (data4_send_obj hd),
                                   last_fmt_code := obj_fmt info\<rparr>) s;
        map_option fst (cmd_hdlr_send_response c PTP_RESPONSE_OK 3
          (Some [sid, if parent \<noteq> PTP_OBJECTHANDLE_ROOT then parent else 0xFFFFFFFF, obj_handle obj]) s1) })"

definition send_object_info :: "'fs conf \<Rightarrow> 'fs sys \<Rightarrow> 'fs sys option" where
  "send_object_info c s = do {
     p0 \<leftarrow> get_param s 0;
     let sid = (if p0 = 0 then default_store_id (g_dev s) else p0);
     parent \<leftarrow> get_param s 1;
     extra \<leftarrow> any_param s [2];
     if extra then
       (if phase (g_dev s) \<noteq> DEVICE_PHASE_NOTREADY
        then cmd_hdlr_send_response_code c PTP_RESPONSE_PARAM_NOTSUPPORTED s else Some s)
     else do {
       (s1, blk, ok) \<leftarrow> receive_data c MAX_SIZE_IN_BYTES_OF_OBJECT_INFO (set_phase DEVICE_PHASE_DATAOUT s);
       if \<not> ok then Some (set_phase DEVICE_PHASE_NOTREADY s1)
       else do {
         let so = data4_send_obj (g_hdlr s1);
         let prev = (if so_is_valid so then Some (so_store_id so) else None);
         let s2 = (if so_is_valid so
                   then upd_hdlr (\<lambda>hd. hd\<lparr>data4_send_obj := (data4_send_obj hd)\<lparr>so_obj := None\<rparr>\<rparr>) s1 else s1);
         payl \<leftarrow> hdlr_get_payload_data blk;
         (s3, er, mobj) \<leftarrow> hutil_construct_object_entry c sid parent prev payl (hdlr_get_payload_size blk) s2;
         answer_object_info c sid parent er mobj
           (upd_hdlr (\<lambda>hd. hd\<lparr>data4_send_obj := (data4_send_obj hd)\<lparr>so_is_valid := False\<rparr>\<rparr>) s3) } } }"

definition write_response :: "mtp_err \<Rightarrow> u16" where
  "write_response er =
     (case er of
        MTP_ERROR_INVALID_OBJECT_INFO \<Rightarrow> PTP_RESPONSE_NOVALID_OBJINFO
      | MTP_ERROR_NONE \<Rightarrow> PTP_RESPONSE_OK
      | MTP_ERROR_STORE_FULL \<Rightarrow> PTP_RESPONSE_STOREFULL
      | _ \<Rightarrow> PTP_RESPONSE_GEN_ERROR)"

text \<open>Without a received file the path of the caller stays the empty text it was initialised with.\<close>

definition send_object :: "'fs conf \<Rightarrow> 'fs sys \<Rightarrow> 'fs sys option" where
  "send_object c s = do {
     extra \<leftarrow> any_param s [0, 1, 2];
     if extra then cmd_hdlr_send_response_code c PTP_RESPONSE_INVALIDPARAM (set_phase DEVICE_PHASE_NOTREADY s)
     else do {
       let s0 = set_phase DEVICE_PHASE_DATAOUT s;
       (blk, ok, path, ft') \<leftarrow> hdlr_rcv_file_in_data_container (c_os c) (g_fs s0) (g_ftemp s0)
                                (data_container_for s0) (MTP_MAX_PATHNAME_SIZE + 1);
       let s1 = s0\<lparr>g_ftemp := ft'\<rparr>;
       if \<not> ok then cmd_hdlr_send_response_code c PTP_RESPONSE_GEN_ERROR (set_phase DEVICE_PHASE_IDLE s1)
       else do {
         let so = data4_send_obj (g_hdlr s1);
         (s2, er) \<leftarrow> hutil_write_file_data c (so_store_id so) (so_obj so)
                       (case path of None \<Rightarrow> [] | Some p \<Rightarrow> p) s1;
         s3 \<leftarrow> cmd_hdlr_send_response_code c (write_response er) s2;
         Some (upd_hdlr (\<lambda>hd. hd\<lparr>data4_send_obj := (data4_send_obj hd)\<lparr>so_obj := None, so_is_valid := False\<rparr>\<rparr>) s3) } } }"

text \<open>The container of the code is allocated but never sent.\<close>

definition send_partial_object :: "'fs conf \<Rightarrow> 'fs sys \<Rightarrow> 'fs sys option" where
  "send_partial_object c s = do {
     _ \<leftarrow> any_param s [1, 2, 0];
     cmd_hdlr_send_response_code c PTP_RESPONSE_OK (set_phase DEVICE_PHASE_DATAIN s) }"

section \<open>Deletion\<close>

definition delete_response :: "mtp_err \<Rightarrow> u16" where
  "delete_response er =
     (case er of
        MTP_ERROR_NONE \<Rightarrow> PTP_RESPONSE_OK
      | MTP_ERROR_STORE_READ_ONLY \<Rightarrow> PTP_RESPONSE_STORE_READONLY
      | MTP_ERROR_PARTIAL_DELETION \<Rightarrow> PTP_RESPONSE_PARTIAL_DELETION
      | MTP_ERROR_OBJECT_WRITE_PROTECTED \<Rightarrow> PTP_RESPONSE_OBJ_WRITEPROTECTED
      | MTP_ERROR_ACCESS_DENIED \<Rightarrow> PTP_RESPONSE_ACCESSDENIED
      | MTP_ERROR_INVALID_OBJECTHANDLE \<Rightarrow> PTP_RESPONSE_INVALID_OBJ_HANDLE
      | _ \<Rightarrow> PTP_RESPONSE_GEN_ERROR)"

definition delete_object :: "'fs conf \<Rightarrow> 'fs sys \<Rightarrow> 'fs sys option" where
  "delete_object c s = do {
     extra \<leftarrow> any_param s [2];
     if extra then cmd_hdlr_send_response_code c PTP_RESPONSE_PARAM_NOTSUPPORTED s
     else do {
       h \<leftarrow> get_param s 0;
       fmt \<leftarrow> get_param s 1;
       if fmt \<noteq> PTP_FORMATCODE_NOTUSED \<and> h \<noteq> PTP_OBJECTHANDLE_ALL
       then cmd_hdlr_send_response_code c PTP_RESPONSE_INVALID_OBJ_FMTCODE s
       else do {
         (s1, er) \<leftarrow> hutil_remove_object_entry c h fmt (s\<lparr>g_op_state := MTP_STATE_DATA_PROCESSING\<rparr>);
         cmd_hdlr_send_response_code c (delete_response er) (s1\<lparr>g_op_state := MTP_STATE_ONSERVICE\<rparr>) } } }"

end
