(* ===== verification/Dispatch.thy ===== *)
theory Dispatch
  imports Handler
begin

text \<open>
  The rest of src/mtp_cmd_handler.c: the dispatcher over operation codes, the
  reception of a data phase into a temporary file, and the callback that the
  file-descriptor thread calls for every packet that the USB thread queues.
  A packet is the list of its bytes.
\<close>

section \<open>Dispatching a command\<close>

abbreviation cmd_code :: "'fs sys \<Rightarrow> u16" where
  "cmd_code s \<equiv> code (usb_cmd (g_hdlr s))"

definition eh_send_event_req_to_eh_thread :: "event_code \<Rightarrow> u64 \<Rightarrow> u64 \<Rightarrow> u64 \<Rightarrow> 'fs sys \<Rightarrow> 'fs sys" where
  "eh_send_event_req_to_eh_thread action p1 p2 p3 s =
     s\<lparr>g_ehq := g_ehq s @ [\<lparr>ev_action = action, ev_param1 = p1, ev_param2 = p2, ev_param3 = p3\<rparr>]\<rparr>"

text \<open>In the command phase of a SendObject the path of the temporary file decides where the data go.\<close>

definition mark_send_object :: "'fs sys \<Rightarrow> 'fs sys" where
  "mark_send_object s =
     (case filepath (g_ftemp s) of
        None \<Rightarrow> s
      | Some p \<Rightarrow>
          if (case util_get_parent_path p of None \<Rightarrow> [] | Some q \<Rightarrow> q) \<noteq> ''/tmp''
          then s\<lparr>g_send_object := True\<rparr> else s)"

text \<open>
  The commands with a data phase from the host: in the IDLE phase they only
  wait for the data (the second component is False, the tail of the dispatcher
  is skipped); afterwards they are executed.
\<close>

definition data_out_command :: "'fs conf \<Rightarrow> 'fs sys \<Rightarrow> ('fs sys \<times> bool) option" where
  "data_out_command c s =
     (if phase (g_dev s) = DEVICE_PHASE_IDLE then
        (let s1 = (if cmd_code s = PTP_OPCODE_SENDOBJECT
                   then eh_send_event_req_to_eh_thread EVENT_START_DATAOUT 0 0 0
                          (eh_send_event_req_to_eh_thread EVENT_START_DATAOUT 0 0 0 (mark_send_object s))
                   else s)
         in Some (set_phase DEVICE_PHASE_DATAOUT s1, False))
      else if cmd_code s = PTP_OPCODE_SENDOBJECTINFO then do { s1 \<leftarrow> send_object_info c s; Some (s1, True) }
      else if cmd_code s = PTP_OPCODE_SENDOBJECT then do {
        s1 \<leftarrow> send_object c s;
        Some (eh_send_event_req_to_eh_thread EVENT_DONE_DATAOUT 0 0 0 (s1\<lparr>g_send_object := False\<rparr>), True) }
      else do { s1 \<leftarrow> set_object_prop_value c s; Some (s1, True) })"

definition send_partial_command :: "'fs conf \<Rightarrow> 'fs sys \<Rightarrow> ('fs sys \<times> bool) option" where
  "send_partial_command c s =
     (if phase (g_dev s) = DEVICE_PHASE_IDLE then
        Some (set_phase DEVICE_PHASE_DATAOUT (eh_send_event_req_to_eh_thread EVENT_START_DATAOUT 0 0 0 s), False)
      else (case util_file_copy (c_os c) (g_fs s) (g_copy_src s) (g_copy_dst s) of
              (fs', _) \<Rightarrow> do {
                s1 \<leftarrow> send_partial_object c (s\<lparr>g_fs := fs'\<rparr>);
                Some (eh_send_event_req_to_eh_thread EVENT_DONE_DATAOUT 0 0 0
                        (s1\<lparr>g_send_object := False, g_send_partial := True\<rparr>), True) }))"

definition session_command :: "'fs conf \<Rightarrow> 'fs sys \<Rightarrow> ('fs sys \<times> bool) option" where
  "session_command c s =
     (let run = (\<lambda>h. map_option (\<lambda>s1. (s1, True)) (h c s)); op = cmd_code s
      in if op = PTP_OPCODE_CLOSESESSION then run close_session
         else if op = PTP_OPCODE_GETSTORAGEIDS then run get_storage_ids
         else if op = PTP_OPCODE_GETSTORAGEINFO then run get_storage_info
         else if op = PTP_OPCODE_GETOBJECTHANDLES then run get_object_handles
         else if op = PTP_OPCODE_GETOBJECTINFO then run get_object_info
         else if op = PTP_OPCODE_GETOBJECT then do {
           s1 \<leftarrow> get_object c (eh_send_event_req_to_eh_thread EVENT_START_DATAIN 0 0 0 s);
           Some (eh_send_event_req_to_eh_thread EVENT_DONE_DATAIN 0 0 0 s1, True) }
         else if op = PTP_OPCODE_DELETEOBJECT then run delete_object
         else if op = PTP_OC_ANDROID_GETPARTIALOBJECT \<or> op = PTP_OPCODE_GETPARTIALOBJECT then run get_partial_object
         else if op = PTP_OPCODE_RESETDEVICE then run reset_device
         else if op = MTP_OPCODE_GETOBJECTPROPDESC then run get_object_prop_desc
         else if op = PTP_OPCODE_POWERDOWN then run power_down
         else if op = MTP_OPCODE_GETINTERDEPPROPDESC then run get_interdep_prop_desc
         else if op = PTP_CODE_VENDOR_OP1 then run vendor_command1
         else if op = PTP_OPCODE_SENDOBJECTINFO \<or> op = PTP_OPCODE_SENDOBJECT \<or> op = MTP_OPCODE_SETOBJECTPROPVALUE
         then data_out_command c s
         else if op = PTP_OC_ANDROID_BEGINEDITOBJECT \<or> op = PTP_OC_ANDROID_ENDEDITOBJECT
         then run begin_end_edit_object
         else if op = PTP_OC_ANDROID_SENDPARTIALOBJECT then send_partial_command c s
         else run (\<lambda>c. cmd_hdlr_send_response_code c PTP_RESPONSE_OP_NOT_SUPPORTED))"

text \<open>
  The label DONE: an announced object that another command overtakes gives its
  reserved space back, under a condition on the flag is_data_sent.
\<close>

definition finish_command :: "'fs sys \<Rightarrow> 'fs sys" where
  "finish_command s =
     (let h = g_hdlr s; so = data4_send_obj h;
          s1 = (if last_opcode h = ucast PTP_OPCODE_SENDOBJECTINFO \<and> last_fmt_code h \<noteq> PTP_FMT_ASSOCIATION
                   \<and> last_fmt_code h \<noteq> PTP_FMT_UNDEF \<and> cmd_code s \<noteq> PTP_OPCODE_SENDOBJECT
                   \<and> so_is_valid so \<and> so_is_data_sent so
                then upd_hdlr (\<lambda>hd. hd\<lparr>data4_send_obj := zero_send_object\<rparr>)
                       (case store_index (g_dev s) (so_store_id so) of
                          None \<Rightarrow> s
                        | Some i \<Rightarrow>
                            (let st = store_list (g_dev s) ! i
                             in upd_store i (st\<lparr>s_info := (s_info st)\<lparr>free_space :=
                                   free_space (s_info st) + so_file_size so\<rparr>\<rparr>) s))
                else s)
      in upd_hdlr (\<lambda>hd. hd\<lparr>last_opcode := ucast (cmd_code s)\<rparr>) s1)"

definition process_commands :: "'fs conf \<Rightarrow> cmd_container \<Rightarrow> 'fs sys \<Rightarrow> 'fs sys option" where
  "process_commands c cmd s = do {
     ucmd \<leftarrow> hdlr_copy_cmd_container cmd (usb_cmd (g_hdlr s));
     let s0 = upd_hdlr (\<lambda>hd. hd\<lparr>usb_cmd := ucmd\<rparr>) s;
     (s1, fin) \<leftarrow>
       (if cmd_code s0 = PTP_OPCODE_GETDEVICEINFO then do { s1 \<leftarrow> get_device_info c s0; Some (s1, True) }
        else if cmd_code s0 = PTP_OPCODE_OPENSESSION then do { s1 \<leftarrow> open_session c s0; Some (s1, True) }
        else if session_id (g_hdlr s0) = 0 then do {
          s1 \<leftarrow> cmd_hdlr_send_response_code c PTP_RESPONSE_SESSIONNOTOPEN s0;
          Some (set_phase DEVICE_PHASE_IDLE s1, True) }
        else session_command c s0);
     Some (if fin then finish_command s1 else s1) }"

section \<open>Receiving a data phase\<close>

definition upd_ftemp :: "(temp_file \<Rightarrow> temp_file) \<Rightarrow> 'fs sys \<Rightarrow> 'fs sys" where
  "upd_ftemp f s = s\<lparr>g_ftemp := f (g_ftemp s)\<rparr>"

text \<open>
  At the end of the data phase the last packet is tried as a command block
  before the saved one.
\<close>

definition finish_receiving_file_packets :: "'fs conf \<Rightarrow> u8 list \<Rightarrow> 'fs sys \<Rightarrow> 'fs sys option" where
  "finish_receiving_file_packets c pkt s0 = do {
     let s = upd_ftemp (\<lambda>t. t\<lparr>data_count := 0\<rparr>) s0;
     direct \<leftarrow> hdlr_validate_cmd_container pkt (of_nat (length pkt));
     saved \<leftarrow> (if direct then Some True
               else hdlr_validate_cmd_container (cmd_buf (g_ftemp s)) (cmd_size (g_ftemp s)));
     if \<not> saved then Some (set_phase DEVICE_PHASE_IDLE s)
     else do {
       cmd \<leftarrow> hdlr_copy_cmd_container_unknown_params (if direct then pkt else cmd_buf (g_ftemp s)) zero_cmd;
       process_commands c cmd (s\<lparr>g_op_state := MTP_STATE_ONSERVICE\<rparr>) } }"

text \<open>Opening the file and storing the payload of the first packet.\<close>

definition store_first_packet :: "'fs conf \<Rightarrow> u8 list \<Rightarrow> string \<Rightarrow> 'fs sys \<Rightarrow> 'fs sys option" where
  "store_first_packet c pkt path s =
     (case os_create (c_os c) (g_fs s) path of
        (fs', Some _) \<Rightarrow>
          finish_receiving_file_packets c pkt (upd_ftemp (\<lambda>t. t\<lparr>fhandle := None\<rparr>) (s\<lparr>g_fs := fs'\<rparr>))
      | (fs', None) \<Rightarrow> do {
          hdr \<leftarrow> rd_header pkt;
          hb \<leftarrow> over_write (header_buf (g_ftemp s)) (take header_size pkt);
          let fsz = h_len hdr - of_nat header_size;
          let dsz = of_nat (length pkt) - of_nat header_size;
          let s1 = upd_ftemp (\<lambda>t. t\<lparr>fhandle := Some path, header_buf := hb, tfile_size := fsz\<rparr>) (s\<lparr>g_fs := fs'\<rparr>);
          if dsz = fsz then
            finish_receiving_file_packets c pkt
              (upd_ftemp (\<lambda>t. t\<lparr>data_size := 0, fhandle := None\<rparr>)
                (s1\<lparr>g_fs := fst (os_append (c_os c) fs' path (drop header_size pkt))\<rparr>))
          else do {
            tb \<leftarrow> over_write (temp_buff (g_ftemp s1)) (drop header_size pkt);
            Some (upd_ftemp (\<lambda>t. t\<lparr>data_size := dsz, data_count := data_count t + 1, size_remaining := dsz,
                                   temp_buff := tb\<rparr>) s1) } })"

definition receive_temp_file_first_packet :: "'fs conf \<Rightarrow> u8 list \<Rightarrow> 'fs sys \<Rightarrow> 'fs sys option" where
  "receive_temp_file_first_packet c pkt s = do {
     let s1 = (s\<lparr>g_op_state := MTP_STATE_DATA_TRANSFER_DL\<rparr>);
     let s2 = (if g_send_object s then s1 else upd_ftemp (\<lambda>t. t\<lparr>filepath := Some (c_tmp c (g_clk s))\<rparr>) s1);
     path \<leftarrow> filepath (g_ftemp s2);
     let present = (os_stat (c_os c) (g_fs s2) path \<noteq> None);
     let s3 = (if present then upd_ftemp (\<lambda>t. t\<lparr>fhandle := None\<rparr>) s2 else s2);
     let (fs3, rm) = (if present then os_remove (c_os c) (g_fs s3) path else (g_fs s3, None));
     let s4 = s3\<lparr>g_fs := fs3\<rparr>;
     if rm \<noteq> None then finish_receiving_file_packets c pkt s4 else store_first_packet c pkt path s4 }"

text \<open>Writing the filled part of the buffer to the open file; short writes are only logged.\<close>

definition flush_temp :: "'fs conf \<Rightarrow> 'fs sys \<Rightarrow> 'fs sys option" where
  "flush_temp c s = do {
     let t = g_ftemp s;
     path \<leftarrow> fhandle t;
     if length (temp_buff t) < unat (data_size t) then None
     else Some (upd_ftemp (\<lambda>t. t\<lparr>data_size := 0\<rparr>)
                  (s\<lparr>g_fs := fst (os_append (c_os c) (g_fs s) path (take (unat (data_size t)) (temp_buff t)))\<rparr>)) }"

definition put_temp :: "u8 list \<Rightarrow> temp_file \<Rightarrow> temp_file option" where
  "put_temp pkt t =
     (let k = unat (data_size t)
      in if k + length pkt \<le> length (temp_buff t)
         then Some (t\<lparr>temp_buff := take k (temp_buff t) @ pkt @ drop (k + length pkt) (temp_buff t),
                      data_size := data_size t + of_nat (length pkt)\<rparr>)
         else None)"

definition receive_temp_file_next_packets :: "'fs conf \<Rightarrow> u8 list \<Rightarrow> 'fs sys \<Rightarrow> 'fs sys option" where
  "receive_temp_file_next_packets c pkt s = do {
     let n = (of_nat (length pkt) :: u32);
     let s1 = upd_ftemp (\<lambda>t. t\<lparr>data_count := data_count t + 1, size_remaining := size_remaining t + n\<rparr>) s;
     s2 \<leftarrow> (if c_write_file c < data_size (g_ftemp s1) + n then flush_temp c s1 else Some s1);
     t3 \<leftarrow> put_temp pkt (g_ftemp s2);
     let s3 = s2\<lparr>g_ftemp := t3\<rparr>;
     if n < c_rx_size c \<or> size_remaining t3 = tfile_size t3 then do {
       s4 \<leftarrow> flush_temp c s3;
       finish_receiving_file_packets c pkt (upd_ftemp (\<lambda>t. t\<lparr>fhandle := None\<rparr>) s4) }
     else Some s3 }"

section \<open>The callback\<close>

text \<open>
  After a cancel request the end of the packet is searched for a command block
  with zero to four parameters of the size of an unsigned long.  The look at a place before the packet, and a
  memcpy between overlapping areas, are None.
\<close>

fun find_command :: "nat \<Rightarrow> u8 list \<Rightarrow> nat list \<Rightarrow> u8 list option" where
  "find_command w buf [] = Some buf"
| "find_command w buf (i # is) =
     (let n = header_size + w * i
      in if length buf < n then None
         else do {
           l \<leftarrow> rd_word buf (length buf - n) 4;
           t \<leftarrow> rd_word buf (length buf - n + 4) 2;
           if (l :: u32) = of_nat n \<and> (t :: u16) = CONTAINER_CMD_BLK
           then (if length buf \<noteq> n \<and> length buf - n < n then None else Some (drop (length buf - n) buf))
           else find_command w buf is })"

definition cancel_transfer :: "'fs conf \<Rightarrow> 'fs sys \<Rightarrow> 'fs sys option" where
  "cancel_transfer c s0 =
     (let s = s0\<lparr>g_ctrl := 0, g_op_state := MTP_STATE_ONSERVICE\<rparr>
      in case fhandle (g_ftemp s) of
           None \<Rightarrow> Some s
         | Some _ \<Rightarrow> do {
             p \<leftarrow> filepath (g_ftemp s);
             Some (upd_ftemp (\<lambda>t. t\<lparr>fhandle := None\<rparr>) (s\<lparr>g_fs := fst (os_remove (c_os c) (g_fs s) p)\<rparr>)) })"

text \<open>The control requests; the packet that remains to be processed, if any.\<close>

definition process_control :: "'fs conf \<Rightarrow> u8 list \<Rightarrow> 'fs sys \<Rightarrow> ('fs sys \<times> u8 list option) option" where
  "process_control c pkt s0 =
     (case take_ctrl c s0 of
        (ev, s) \<Rightarrow>
          if ev = ucast PTP_EVENTCODE_CANCELTRANSACTION then
            (let s1 = set_phase DEVICE_PHASE_IDLE (s\<lparr>g_ctrl := ucast PTP_EVENTCODE_CANCELTRANSACTION\<rparr>)
             in if of_nat (length pkt) = c_rx_size c \<or> length pkt < header_size then Some (s1, None)
                else do {
                  pkt' \<leftarrow> find_command (c_dword c) pkt [0..<MAX_MTP_PARAMS];
                  s2 \<leftarrow> cancel_transfer c s1;
                  Some (s2, Some pkt') })
          else if ev = ucast PTP_EVENTCODE_DEVICERESET then
            Some (upd_hdlr (\<lambda>hd. hd\<lparr>session_id := 0\<rparr>)
                    (set_phase DEVICE_PHASE_IDLE (s\<lparr>g_ctrl := 0, g_op_state := MTP_STATE_ONSERVICE\<rparr>)), Some pkt)
          else Some (s, Some pkt))"

definition process_packet :: "'fs conf \<Rightarrow> u8 list \<Rightarrow> 'fs sys \<Rightarrow> 'fs sys option" where
  "process_packet c pkt s =
     (if phase (g_dev s) = DEVICE_PHASE_IDLE then do {
        valid \<leftarrow> hdlr_validate_cmd_container pkt (of_nat (length pkt));
        if \<not> valid then Some (set_phase DEVICE_PHASE_NOTREADY s)
        else do {
          t \<leftarrow> transport_save_cmd_buffer (g_ftemp s) pkt (of_nat (length pkt));
          cmd \<leftarrow> hdlr_copy_cmd_container_unknown_params pkt zero_cmd;
          process_commands c cmd (s\<lparr>g_ftemp := t\<rparr>) } }
      else if phase (g_dev s) = DEVICE_PHASE_DATAOUT then
        (if data_count (g_ftemp s) = 0 then receive_temp_file_first_packet c pkt s
         else receive_temp_file_next_packets c pkt s)
      else Some (set_phase DEVICE_PHASE_IDLE (s\<lparr>g_op_state := MTP_STATE_ONSERVICE\<rparr>)))"

definition receive_mq_data_cb :: "'fs conf \<Rightarrow> u8 list \<Rightarrow> 'fs sys \<Rightarrow> 'fs sys option" where
  "receive_mq_data_cb c pkt s =
     (if g_op_state s < MTP_STATE_READY_SERVICE then Some s
      else do {
        (s1, rest) \<leftarrow> process_control c pkt s;
        (case rest of None \<Rightarrow> Some s1 | Some pkt' \<Rightarrow> process_packet c pkt' s1) })"

end
