(* ===== verification/Scenario.thy ===== *)
theory Scenario
  imports Dispatch
begin

text \<open>
  A concrete configuration: an operating system that keeps files in memory, a
  queue that takes every packet, the sizes of the shipped configuration, and a
  mounted storage with one file in it.  The witnesses of the theorems about
  commands and transfers are evaluated here.
\<close>

type_synonym ram = "string \<rightharpoonup> u8 list"

definition ram_remove :: "ram \<Rightarrow> string \<Rightarrow> ram os_result" where
  "ram_remove fs p = (if fs p = None then (fs, Some ENOENT) else (fs(p := None), None))"

definition ram_rename :: "ram \<Rightarrow> string \<Rightarrow> string \<Rightarrow> ram os_result" where
  "ram_rename fs p q = (case fs p of None \<Rightarrow> (fs, Some ENOENT) | Some bs \<Rightarrow> (fs(p := None, q \<mapsto> bs), None))"

definition ram_append :: "ram \<Rightarrow> string \<Rightarrow> u8 list \<Rightarrow> ram \<times> nat" where
  "ram_append fs p bs = (fs(p \<mapsto> (case fs p of None \<Rightarrow> [] | Some old \<Rightarrow> old) @ bs), length bs)"

definition ram_os :: "ram os" where
  "ram_os = \<lparr>os_stat = \<lambda>fs p. map_option (\<lambda>bs. \<lparr>st_kind = S_IFREG, st_writable = True, st_size = of_nat (length bs),
       st_ctime = 0, st_mtime = 0\<rparr>) (fs p),
     os_statfs = \<lambda>_ _. Some \<lparr>f_bsize = 4096, f_blocks = 1000, f_bavail = 500\<rparr>, os_readdir = \<lambda>_ _. Some [],
     os_remove = ram_remove, os_unlink = ram_remove, os_rmdir = ram_remove, os_mkdir = \<lambda>fs _. (fs, None),
     os_rename = ram_rename, os_chmod = \<lambda>fs _ _. (fs, None), os_create = \<lambda>fs p. (fs(p \<mapsto> []), None),
     os_content = \<lambda>fs p. (case fs p of None \<Rightarrow> Inr ENOENT | Some bs \<Rightarrow> Inl (bs, False)), os_append = ram_append, os_errno = \<lambda>_. ENOSPC\<rparr>"

definition ram_env :: "ram env" where
  "ram_env = \<lparr>e_os = ram_os,
     e_localtime = \<lambda>_. Some \<lparr>tm_year = 117, tm_mon = 4, tm_mday = 9, tm_hour = 7, tm_min = 30, tm_sec = 5\<rparr>,
     e_to16 = ascii_to16, e_to8 = \<lambda>ws. Some (map (\<lambda>w. char_of (unat w)) ws), e_junk = replicate 255 0, e_kw = [0]\<rparr>"

definition ram_conf :: "ram conf" where
  "ram_conf = \<lparr>c_env = ram_env, c_snd = \<lambda>_ _. True, c_tx_size = 4096, c_stop = \<lambda>_. False, c_ctrl = \<lambda>_. 0,
     c_fuel = 1000, c_ff = 1000, c_rx_size = 4096, c_read_file = 524288, c_write_file = 524288, c_pkt_len = 512, c_dword = 8,
     c_tmp = \<lambda>n. ''/tmp/.mtptemp.tmp''\<rparr>"

definition idle_temp :: temp_file where
  "idle_temp = \<lparr>cmd_buf = replicate 36 0, header_buf = replicate 13 0, cmd_size = 0, data_size = 0, data_count = 0,
     fhandle = None, filepath = None, tfile_size = 0, size_remaining = 0, temp_buff = replicate 524288 0\<rparr>"

definition file_obj :: mtp_obj where
  "file_obj = demo_obj\<lparr>obj_info := Some (demo_info\<lparr>file_size := 5\<rparr>)\<rparr>"

definition mounted_device :: mtp_device where
  "mounted_device = bare_device\<lparr>phase := DEVICE_PHASE_IDLE, is_mounted := True, num_stores := 1,
     store_list := [card_store\<lparr>obj_list := [file_obj]\<rparr>]\<rparr>"

definition ready_sys :: "ram sys" where
  "ready_sys = \<lparr>g_dev = mounted_device, g_fs = [''/media/card/a.jpg'' \<mapsto> [1, 2, 3, 4, 5]], g_next = 10, g_last = [], g_clk = 0,
     g_hdlr = \<lparr>usb_cmd = zero_cmd, data4_send_obj = zero_send_object, session_id = 1, last_opcode = 0, last_fmt_code = 0\<rparr>,
     g_ftemp = idle_temp, g_props = [], g_interdep = [], g_txq = [], g_ehq = [], g_op_state = MTP_STATE_ONSERVICE,
     g_ctrl = 0, g_created = [], g_moved = [], g_copied = [], g_copy_src = [], g_copy_dst = [], g_full_enum = False, g_send_object = False,
     g_send_partial = False, g_watch = []\<rparr>"

text \<open>A command with transaction number 7.\<close>

definition command :: "u16 \<Rightarrow> u32 list \<Rightarrow> cmd_container" where
  "command cd ps = \<lparr>len = of_nat (12 + 4 * length ps), ctype = CONTAINER_CMD_BLK, code = cd, tid = 7,
     params = ps @ replicate (5 - length ps) 0, no_param = of_nat (length ps)\<rparr>"

lemmas scenario_defs = ram_conf_def ram_env_def ram_os_def ram_remove_def ram_rename_def ram_append_def idle_temp_def
  file_obj_def demo_obj_def demo_info_def mounted_device_def bare_device_def zero_device_def card_store_def ready_sys_def zero_cmd_def

end
