(* ===== verification/Protocol.thy ===== *)
theory Protocol
  imports Scenario
begin

text \<open>
  The protocol that the handlers follow: with a queue that accepts its packets
  every command is answered by exactly one response, behind at most one data
  phase of its own.  The contract of a handler is the locale answering, which
  every handler of theory Handler interprets; the dispatcher is its client.
\<close>

section \<open>Responses as packets\<close>

definition accepting :: "'fs conf \<Rightarrow> bool" where
  "accepting c \<longleftrightarrow> (\<forall>q p. c_snd c q p) \<and> 36 \<le> unat (c_tx_size c)"

definition resp_bytes :: "u16 \<Rightarrow> u32 \<Rightarrow> u32 list \<Rightarrow> u8 list" where
  "resp_bytes r t args =
     header_bytes (of_nat (12 + 4 * length args)) CONTAINER_RESP_BLK r t @ concat (map (le_bytes 4) args)"

definition resp_pkt :: "u16 \<Rightarrow> u32 \<Rightarrow> u32 list \<Rightarrow> msgq_ptr" where
  "resp_pkt r t args = mk_pkt MTP_DATA_PACKET (resp_bytes r t args)"

lemma send_pkt_ok:
  assumes "accepting c" "unat n \<le> length buf"
  shows "\<exists>ps. transport_send_pkt_to_tx_mq (c_snd c) (c_tx_size c) q buf n = Some (q @ ps, n)
     \<and> payload ps = take (unat n) buf"
proof (cases "n = 0")
  case False
  have "0 < unat (c_tx_size c)" using assms(1) by (simp add: accepting_def)
  from send_pkt_loop_ok[where snd_ok = "c_snd c", OF _ this assms(2), of q] assms(1) False show ?thesis
    by (auto simp: transport_send_pkt_to_tx_mq_def accepting_def)
qed (simp add: transport_send_pkt_to_tx_mq_def)

lemma send_pkt_single:
  assumes "accepting c" "unat n \<le> length buf" "0 < unat n" "unat n \<le> 36"
  shows "transport_send_pkt_to_tx_mq (c_snd c) (c_tx_size c) q buf n =
     Some (q @ [mk_pkt MTP_DATA_PACKET (take (unat n) buf)], n)"
proof -
  have n: "n \<noteq> 0" using assms(3) by auto
  have "send_pkt_loop (c_snd c) (unat (c_tx_size c)) q buf (unat n) =
      Some (q @ [mk_pkt MTP_DATA_PACKET (take (unat n) buf)], True)"
  proof (cases "unat n < unat (c_tx_size c)")
    case True
    with assms show ?thesis
      by (subst send_pkt_loop.simps)
        (simp add: accepting_def util_msgq_send_def Let_def, simp add: send_pkt_loop.simps)
  next
    case False
    with assms have "unat (c_tx_size c) = unat n" by (simp add: accepting_def)
    with assms show ?thesis
      by (subst send_pkt_loop.simps)
        (simp add: accepting_def util_msgq_send_def Let_def, simp add: send_pkt_loop.simps)
  qed
  with n show ?thesis by (simp add: transport_send_pkt_to_tx_mq_def)
qed

lemma send_bulk_ok:
  assumes "accepting c" "unat n \<le> length buf"
  shows "\<exists>ps. transport_send_bulk_pkt_to_tx_mq (c_snd c) (c_tx_size c) q buf n = Some (q @ ps, n)
     \<and> payload ps = take (unat n) buf"
proof (cases "n = 0")
  case False
  have "0 < unat (c_tx_size c)" using assms(1) by (simp add: accepting_def)
  moreover have "0 < unat n" using False by (simp add: unat_gt_0)
  ultimately show ?thesis
    using send_bulk_loop_ok[where snd_ok = "c_snd c" and sent = 0 and buf = buf, of "unat (c_tx_size c)" "unat n" q]
      assms False
    by (auto simp: transport_send_bulk_pkt_to_tx_mq_def accepting_def)
qed (simp add: transport_send_bulk_pkt_to_tx_mq_def)

lemma resp_cmd_bytes:
  assumes "length args \<le> 5" "length ps = 5"
  shows "take (12 + 4 * length args)
     (cmd_bytes \<lparr>len = l, ctype = t, code = cd, tid = i, params = args @ drop (length args) ps, no_param = np\<rparr>)
     = header_bytes l t cd i @ concat (map (le_bytes 4) args)"
proof -
  have "length (concat (map (le_bytes 4) args)) = 4 * length args"
    by (simp add: length_concat comp_def sum_list_triv)
  then show ?thesis using assms by (simp add: cmd_bytes_def)
qed

lemma send_response_ok:
  assumes "accepting c" "length args \<le> 5" "n = of_nat (length args)" "ps = Some args \<or> args = []"
  shows "cmd_hdlr_send_response c r n ps s =
     Some (set_phase DEVICE_PHASE_IDLE (s\<lparr>g_txq := g_txq s @ [resp_pkt r (tid (usb_cmd (g_hdlr s))) args]\<rparr>), True)"
proof -
  have n: "unat n = length args" using assms(2,3) by (simp add: unat_of_nat_eq_small)
  have l: "12 + 4 * n = (of_nat (12 + 4 * length args) :: u32)" using assms(3) by simp
  have ul: "unat (of_nat (12 + 4 * length args) :: u32) = 12 + 4 * length args"
    using assms(2) by (intro unat_of_nat_eq_small) simp
  let ?blk = "\<lparr>len = of_nat (12 + 4 * length args), ctype = CONTAINER_RESP_BLK, code = r,
      tid = tid (usb_cmd (g_hdlr s)), params = args @ drop (length args) (replicate 5 0), no_param = n\<rparr>"
  have add: "hdlr_add_param_resp_container
      (hdlr_resp_container_init zero_cmd r (tid (usb_cmd (g_hdlr s)))) n ps = Some (?blk, True)"
    using assms n l by (auto simp: hdlr_add_param_resp_container_def hdlr_resp_container_init_def
        hdlr_init_cmd_container_def zero_cmd_def word_less_nat_alt Let_def)
  have len: "12 + 4 * length args \<le> length (cmd_bytes ?blk)"
    using assms(2) by (simp add: cmd_bytes_def length_concat comp_def sum_list_triv)
  have "hdlr_send_resp_container (c_snd c) (c_tx_size c) (g_txq s) ?blk =
      Some (g_txq s @ [resp_pkt r (tid (usb_cmd (g_hdlr s))) args], True)"
    using send_pkt_single[OF assms(1), of "of_nat (12 + 4 * length args)" "cmd_bytes ?blk" "g_txq s"]
      len ul assms(2) resp_cmd_bytes[of args "replicate 5 0"]
    by (simp add: hdlr_send_resp_container_def resp_pkt_def resp_bytes_def)
  with add show ?thesis by (simp add: cmd_hdlr_send_response_def)
qed

lemma send_response_code_ok [simp]:
  "accepting c \<Longrightarrow> cmd_hdlr_send_response_code c r s =
     Some (set_phase DEVICE_PHASE_IDLE (s\<lparr>g_txq := g_txq s @ [resp_pkt r (tid (usb_cmd (g_hdlr s))) []]\<rparr>))"
  by (simp add: cmd_hdlr_send_response_code_def send_response_ok[of c "[]"])

lemma set_phase_sel [simp]:
  "phase (g_dev (set_phase ph s)) = ph" "g_txq (set_phase ph s) = g_txq s" "g_hdlr (set_phase ph s) = g_hdlr s"
  "g_ftemp (set_phase ph s) = g_ftemp s" "g_fs (set_phase ph s) = g_fs s" "g_send_object (set_phase ph s) = g_send_object s"
  "store_list (g_dev (set_phase ph s)) = store_list (g_dev s)" "num_stores (g_dev (set_phase ph s)) = num_stores (g_dev s)"
  "g_next (set_phase ph s) = g_next s" "g_props (set_phase ph s) = g_props s"
  by (simp_all add: set_phase_def)

section \<open>Frames of the services\<close>

text \<open>The services behind the handlers leave the command and the queue alone.\<close>

definition temp_kept :: "temp_file \<Rightarrow> temp_file \<Rightarrow> bool" where
  "temp_kept t t' \<longleftrightarrow> length (cmd_buf t') = length (cmd_buf t) \<and> length (header_buf t') = length (header_buf t)
     \<and> length (temp_buff t') = length (temp_buff t) \<and> (data_count t = 0 \<longrightarrow> data_count t' = 0)"

lemma temp_kept_simps [simp]:
  "temp_kept t t" "temp_kept t (t'\<lparr>filepath := p\<rparr>) = temp_kept t t'" "temp_kept t (t'\<lparr>data_size := k\<rparr>) = temp_kept t t'"
  "temp_kept t (t'\<lparr>fhandle := h\<rparr>) = temp_kept t t'" "temp_kept t (t'\<lparr>tfile_size := k\<rparr>) = temp_kept t t'"
  "temp_kept t t' \<Longrightarrow> temp_kept t (t'\<lparr>data_count := 0\<rparr>)"
  by (simp_all add: temp_kept_def)

definition steady :: "'fs sys \<Rightarrow> 'fs sys \<Rightarrow> bool" where
  "steady s s' \<longleftrightarrow> temp_kept (g_ftemp s) (g_ftemp s') \<and> length (params (usb_cmd (g_hdlr s'))) \<in> {5, length (params (usb_cmd (g_hdlr s)))}
     \<and> (so_is_data_sent (data4_send_obj (g_hdlr s')) \<longrightarrow> so_is_data_sent (data4_send_obj (g_hdlr s)))"

lemma steady_refl [simp]: "steady s s"
  by (simp add: steady_def temp_kept_def)

lemma steady_trans: "steady s s1 \<Longrightarrow> steady s1 s2 \<Longrightarrow> steady s s2"
  by (auto simp: steady_def temp_kept_def)

lemma steady_upd [simp]:
  "steady s (s1\<lparr>g_dev := d\<rparr>) = steady s s1" "steady s (s1\<lparr>g_fs := fs\<rparr>) = steady s s1" "steady s (s1\<lparr>g_next := n\<rparr>) = steady s s1"
  "steady s (s1\<lparr>g_last := l\<rparr>) = steady s s1" "steady s (s1\<lparr>g_clk := n'\<rparr>) = steady s s1" "steady s (s1\<lparr>g_txq := q\<rparr>) = steady s s1"
  "steady s (s1\<lparr>g_created := p\<rparr>) = steady s s1" "steady s (s1\<lparr>g_moved := p\<rparr>) = steady s s1"
  "steady s (s1\<lparr>g_copy_src := p\<rparr>) = steady s s1" "steady s (s1\<lparr>g_watch := w\<rparr>) = steady s s1"
  "steady s (s1\<lparr>g_full_enum := b\<rparr>) = steady s s1" "steady s (s1\<lparr>g_op_state := st\<rparr>) = steady s s1"
  "steady s (s1\<lparr>g_ctrl := v\<rparr>) = steady s s1" "steady s (s1\<lparr>g_send_object := b\<rparr>) = steady s s1"
  "steady s (s1\<lparr>g_send_partial := b\<rparr>) = steady s s1" "steady s (s1\<lparr>g_ehq := ev\<rparr>) = steady s s1"
  "steady s (set_phase ph s1) = steady s s1" "steady (set_phase ph s) s1 = steady s s1" "steady (s\<lparr>g_fs := fs\<rparr>) s1 = steady s s1"
  "steady (s\<lparr>g_ehq := ev\<rparr>) s1 = steady s s1" "steady (s\<lparr>g_op_state := st\<rparr>) s1 = steady s s1"
  "steady s (s1\<lparr>g_hdlr := (g_hdlr s1)\<lparr>session_id := i\<rparr>\<rparr>) = steady s s1"
  "steady s (s1\<lparr>g_hdlr := (g_hdlr s1)\<lparr>last_opcode := i\<rparr>\<rparr>) = steady s s1"
  by (simp_all add: steady_def temp_kept_def)

definition kept :: "'fs sys \<Rightarrow> 'fs sys \<Rightarrow> bool" where
  "kept s s' \<longleftrightarrow> usb_cmd (g_hdlr s') = usb_cmd (g_hdlr s) \<and> session_id (g_hdlr s') = session_id (g_hdlr s) \<and> g_txq s' = g_txq s \<and> steady s s'"

lemma kept_refl [simp]: "kept s s"
  by (simp add: kept_def)

lemma kept_trans [trans]: "kept s s1 \<Longrightarrow> kept s1 s2 \<Longrightarrow> kept s s2"
  by (auto simp: kept_def intro: steady_trans)

lemma kept_set_phase [simp]: "kept s (set_phase ph s1) = kept s s1" "kept (set_phase ph s) s1 = kept s s1"
  by (simp_all add: kept_def)

lemmas run_simps = Let_def Option.bind_eq_Some_conv

lemma kept_upd [simp]:
  "kept s (s1\<lparr>g_dev := d\<rparr>) = kept s s1" "kept s (s1\<lparr>g_fs := fs\<rparr>) = kept s s1" "kept s (s1\<lparr>g_next := n\<rparr>) = kept s s1"
  "kept s (s1\<lparr>g_last := l\<rparr>) = kept s s1" "kept s (s1\<lparr>g_clk := n'\<rparr>) = kept s s1"
  "kept s (s1\<lparr>g_created := p\<rparr>) = kept s s1" "kept s (s1\<lparr>g_moved := p\<rparr>) = kept s s1"
  "kept s (s1\<lparr>g_copy_src := p\<rparr>) = kept s s1" "kept s (s1\<lparr>g_watch := w\<rparr>) = kept s s1"
  "kept s (s1\<lparr>g_full_enum := b\<rparr>) = kept s s1" "kept s (s1\<lparr>g_op_state := st\<rparr>) = kept s s1"
  "kept s (s1\<lparr>g_ctrl := v\<rparr>) = kept s s1" "kept s (s1\<lparr>g_send_object := b\<rparr>) = kept s s1"
  "kept s (s1\<lparr>g_send_partial := b\<rparr>) = kept s s1" "kept s (s1\<lparr>g_ehq := ev\<rparr>) = kept s s1"
  by (simp_all add: kept_def)

lemma kept_temp [simp]: "kept s s1 \<Longrightarrow> temp_kept (g_ftemp s) t \<Longrightarrow> kept s (s1\<lparr>g_ftemp := t\<rparr>)"
  by (simp add: kept_def steady_def)

lemma delete_in_store_kept [kept_rules]:
  "ensures (delete_in_store fuel ff e stop h fmt i (s :: 'fs sys)) (\<lambda>(s1, _). kept s s1)"
  by (auto simp: delete_in_store_def intro!: ensuresI)

lemma storage_entry_kept [kept_rules]: "ensures (hutil_get_storage_entry c sid s) (\<lambda>(s1, _). kept s s1)"
  by (auto simp: hutil_get_storage_entry_def refresh_store_def Let_def intro!: ensuresI split: option.split)

lemma foldM_ensures:
  assumes "I s" "\<And>x s. I s \<Longrightarrow> ensures (f x s) I"
  shows "ensures (foldM f xs s) I"
  using foldM_kept[of f xs s _ I] assms by (auto simp: ensures_def)

lemma device_delete_kept [kept_rules]:
  "ensures (device_delete_object fuel ff e stop h fmt (s :: 'fs sys)) (\<lambda>(s1, _). kept s s1)"
proof (cases "h = PTP_OBJECTHANDLE_ALL")
  case True
  have loop: "ensures (foldM (\<lambda>i (g :: 'fs sys, r :: u16, ao). do {
              (g', r') \<leftarrow> delete_in_store fuel ff e stop h fmt i g;
              Some (g', r', delete_outcome r' ao) })
            is (s, PTP_RESPONSE_OK, True, False)) (\<lambda>(s1, _). kept s s1)" for "is"
    by (rule foldM_ensures) (auto intro!: ensures_mono[OF delete_in_store_kept], metis kept_trans)
  have "device_delete_object fuel ff e stop h fmt s = do {
        (g1, r, all_del, atlst_one) \<leftarrow>
          foldM (\<lambda>i (g, r, ao). do {
              (g', r') \<leftarrow> delete_in_store fuel ff e stop h fmt i g;
              Some (g', r', delete_outcome r' ao) })
            [0..<length (stores (g_dev s))] (s, PTP_RESPONSE_OK, True, False);
        Some (g1, if all_del then PTP_RESPONSE_OK
                  else if atlst_one then PTP_RESPONSE_PARTIAL_DELETION else r) }"
    using True by (simp add: device_delete_object_def)
  then show ?thesis by (auto intro!: ensures_mono[OF loop] simp del: length_take)
qed (auto simp: device_delete_object_def intro!: delete_in_store_kept split: option.split)

lemma remove_entry_kept [kept_rules]: "ensures (hutil_remove_object_entry c h fmt s) (\<lambda>(s1, _). kept s s1)"
  by (auto simp: hutil_remove_object_entry_def intro!: ensures_mono[OF device_delete_kept])

lemma read_file_kept [kept_rules]: "ensures (hutil_read_file_data_from_offset c h off n s) (\<lambda>(s1, _). kept s s1)"
  by (auto simp: hutil_read_file_data_from_offset_def Let_def intro!: ensuresI split: option.split sum.split)

lemma write_file_kept [kept_rules]: "ensures (hutil_write_file_data c sid mobj fpath s) (\<lambda>(s1, _). kept s s1)"
  by (auto simp: hutil_write_file_data_def intro!: ensuresI split: option.split bool.split prod.split)

lemma enumerate_kept: "ensures (enumerate_store c i s) (kept s)"
  by (auto simp: enumerate_store_def Let_def intro!: ensuresI)

lemma object_handles_kept [kept_rules]:
  "ensures (hutil_get_object_handles c sid fmt par arr s) (\<lambda>(s1, _). kept s s1)"
proof -
  have "ensures (foldM (enumerate_store c) is s) (kept s)" for "is"
    by (rule foldM_ensures) (auto intro!: ensures_mono[OF enumerate_kept] intro: kept_trans)
  then have "ensures (if par = PTP_OBJECTHANDLE_ALL \<or> par = PTP_OBJECTHANDLE_ROOT
        then map_option (\<lambda>s'. s'\<lparr>g_full_enum := True\<rparr>) (foldM (enumerate_store c) [0..<length (stores (g_dev s))] s)
        else Some s) (kept s)" by simp
  then show ?thesis
    by (auto simp: hutil_get_object_handles_def Let_def intro!: ensuresI elim!: ensures_mono split: option.split simp del: ensures_simps(4))
qed

lemma create_association_kept: "kept s (fst (create_association c info path s))"
  by (auto simp: create_association_def split: prod.split bool.split)

lemma add_object_body_kept: "ensures (add_object_body c info fname par i s) (\<lambda>(s1, _). kept s s1)"
proof -
  have assoc: "kept s s3" if "create_association c info path t = (s3, ok)" "kept s t" for path t s3 ok
    using create_association_kept[of t c info path] that by (auto intro: kept_trans)
  show ?thesis
    by (auto simp: add_object_body_def Let_def intro!: ensuresI split: prod.split bool.split dest!: assoc)
qed

lemma add_object_entry_kept: "ensures (hutil_add_object_entry c info fname s) (\<lambda>(s1, _). kept s s1)"
  by (auto simp: hutil_add_object_entry_def Let_def intro!: ensuresI split: option.split
      dest: ensuresD[OF add_object_body_kept])

lemma refresh_kept: "kept s (refresh_store c i t) = kept s t"
  by (simp add: refresh_store_def Let_def)

lemma construct_in_store_kept:
  "ensures (construct_in_store c sid par bs n s) (\<lambda>(s1, _). kept s s1)"
  by (auto simp: construct_in_store_def Let_def intro!: ensuresI split: option.split prod.split
      dest: ensuresD[OF add_object_entry_kept])

lemma construct_kept [kept_rules]:
  "ensures (hutil_construct_object_entry c sid par prev bs n s) (\<lambda>(s1, _). kept s s1)"
proof -
  let ?s1 = "case Option.bind prev (store_index (g_dev s)) of None \<Rightarrow> s | Some j \<Rightarrow> refresh_store c j s"
  have k: "kept s ?s1" by (simp add: refresh_kept split: option.split)
  have "ensures (construct_in_store c sid' par' bs n ?s1) (\<lambda>(s1, _). kept s s1)" for sid' par'
    by (rule ensures_mono[OF construct_in_store_kept]) (use k in \<open>auto intro: kept_trans\<close>)
  then show ?thesis
    unfolding hutil_construct_object_entry_def by simp
qed

lemma rename_kept: "ensures (rename_object c obj orig dest s) (\<lambda>(s1, _). kept s s1)"
  by (auto simp: rename_object_def Let_def intro!: ensuresI split: prod.split bool.split)

lemma update_name_kept: "ensures (update_file_name c obj buf n s) (\<lambda>(s1, _). kept s s1)"
  by (auto simp: update_file_name_def Let_def intro!: ensuresI split: prod.split bool.split option.split
      dest: ensuresD[OF rename_kept])

lemma update_property_kept [kept_rules]:
  "ensures (hutil_update_object_property c h pc mbuf n s) (\<lambda>(s1, _). kept s s1)"
proof -
  have "kept s s1" if "update_file_name c obj buf n (s\<lparr>g_fs := fs1\<rparr>) = Some (s1, r)" for obj buf fs1 s1 r
    using ensuresD[OF update_name_kept that] by (simp add: kept_def)
  then show ?thesis
    by (auto simp: hutil_update_object_property_def Let_def intro!: ensuresI split: prod.split bool.split option.split)
qed

lemma receive_data_kept [kept_rules]: "ensures (receive_data c n s) (\<lambda>(s1, _). kept s s1)"
  by (auto simp: receive_data_def hdlr_rcv_data_container_def transport_rcv_temp_file_data_def Let_def
      intro!: ensuresI split: option.splits sum.splits if_splits)

section \<open>The contract of a handler\<close>

text \<open>
  A data phase of a command is a sequence of packets whose bytes start with a
  data header that carries the code and the transaction of the command.
\<close>

definition data_phase :: "cmd_container \<Rightarrow> msgq \<Rightarrow> bool" where
  "data_phase cmd ps \<longleftrightarrow> ps = [] \<or> (\<exists>l rest. payload ps = header_bytes l CONTAINER_DATA_BLK (code cmd) (tid cmd) @ rest)"

definition sent :: "'fs sys \<Rightarrow> 'fs sys \<Rightarrow> bool" where
  "sent s s1 \<longleftrightarrow> steady s s1 \<and> usb_cmd (g_hdlr s1) = usb_cmd (g_hdlr s) \<and> session_id (g_hdlr s1) = session_id (g_hdlr s)
     \<and> (\<exists>ps. g_txq s1 = g_txq s @ ps \<and> data_phase (usb_cmd (g_hdlr s)) ps)"

text \<open>An answer that leaves session i behind; without it the session is the one before.\<close>

definition answered_in :: "u32 \<Rightarrow> 'fs sys \<Rightarrow> 'fs sys \<Rightarrow> bool" where
  "answered_in i s s' \<longleftrightarrow> steady s s' \<and> phase (g_dev s') = DEVICE_PHASE_IDLE \<and> session_id (g_hdlr s') = i
     \<and> (\<exists>ps r args. length args \<le> 5 \<and> data_phase (usb_cmd (g_hdlr s)) ps
          \<and> g_txq s' = g_txq s @ ps @ [resp_pkt r (tid (usb_cmd (g_hdlr s))) args])"

abbreviation answered :: "'fs sys \<Rightarrow> 'fs sys \<Rightarrow> bool" where
  "answered s \<equiv> answered_in (session_id (g_hdlr s)) s"

lemma kept_sent: "kept s s1 \<Longrightarrow> sent s s1"
  by (auto simp: kept_def sent_def data_phase_def)

lemma answer_args:
  assumes "accepting c" "sent s s1" "length args \<le> 5" "n = of_nat (length args)"
  shows "ensures (cmd_hdlr_send_response c r n (Some args) s1) (\<lambda>(s', _). answered s s')"
  using assms send_response_ok[OF assms(1,3,4), of "Some args" r s1]
  by (auto simp: answered_in_def sent_def)

lemma answer_code:
  assumes "accepting c" "sent s s1"
  shows "ensures (cmd_hdlr_send_response_code c r s1) (answered s)"
proof -
  obtain ps where "g_txq s1 = g_txq s @ ps" "data_phase (usb_cmd (g_hdlr s)) ps" "usb_cmd (g_hdlr s1) = usb_cmd (g_hdlr s)"
    "session_id (g_hdlr s1) = session_id (g_hdlr s)" "steady s s1" using assms(2) by (auto simp: sent_def)
  then show ?thesis
    using assms(1) by (auto simp: answered_in_def intro!: exI[of _ ps] exI[of _ r] exI[of _ "[]"])
qed

lemma answer_kept:
  "accepting c \<Longrightarrow> kept s s1 \<Longrightarrow> ensures (cmd_hdlr_send_response_code c r s1) (answered s)"
  by (intro answer_code kept_sent)

text \<open>Containers that were allocated for a command.\<close>

definition data_block :: "'fs sys \<Rightarrow> data_container \<Rightarrow> bool" where
  "data_block s blk \<longleftrightarrow> (\<exists>l rest. cdata blk = Some (header_bytes l CONTAINER_DATA_BLK (cmd_code s) (tid (usb_cmd (g_hdlr s))) @ rest)
     \<and> unat (len blk) = 12 + length rest)"

lemma alloc_data_block:
  "ensures (hdlr_alloc_buf_data_container (data_container_for s) n k) (\<lambda>(blk, ok). ok \<longrightarrow> data_block s blk)"
  by (auto simp: hdlr_alloc_buf_data_container_def data_container_for_def hdlr_init_data_container_def
      hdlr_init_cmd_container_def data_block_def Let_def)

lemma fill_data_block:
  "data_block s blk \<Longrightarrow> ensures (fill_payload blk bs) (data_block s)"
  by (auto simp: fill_payload_def data_block_def intro!: exI)

lemma data_block_kept: "kept s s1 \<Longrightarrow> data_block s1 = data_block s"
  by (auto simp: data_block_def kept_def)

lemma header_bytes_nonempty [simp]: "header_bytes l ty cd t \<noteq> []"
  using length_header_bytes[of l ty cd t] by fastforce

lemma send_block_sent:
  assumes "accepting c" "data_block s blk"
  shows "ensures (hdlr_send_data_container (c_snd c) (c_tx_size c) (g_txq s) blk)
     (\<lambda>(q, ok). ok \<and> (\<exists>ps. q = g_txq s @ ps \<and> ps \<noteq> [] \<and> data_phase (usb_cmd (g_hdlr s)) ps))"
proof -
  obtain l rest where d: "cdata blk = Some (header_bytes l CONTAINER_DATA_BLK (cmd_code s) (tid (usb_cmd (g_hdlr s))) @ rest)"
    "unat (len blk) = 12 + length rest" using assms(2) by (auto simp: data_block_def)
  with send_pkt_ok[OF assms(1), of "len blk" "the (cdata blk)" "g_txq s"] obtain ps where
    "transport_send_pkt_to_tx_mq (c_snd c) (c_tx_size c) (g_txq s) (the (cdata blk)) (len blk) = Some (g_txq s @ ps, len blk)"
    "payload ps = the (cdata blk)" by auto
  with d show ?thesis by (auto simp: hdlr_send_data_container_def data_phase_def)
qed

lemma send_data_answers:
  assumes "accepting c" "kept s s1" "data_block s blk"
  shows "ensures (send_data_then_ok c blk s1) (answered s)"
proof -
  have q: "g_txq s1 = g_txq s" "usb_cmd (g_hdlr s1) = usb_cmd (g_hdlr s)" "session_id (g_hdlr s1) = session_id (g_hdlr s)" "steady s s1" using assms(2) by (simp_all add: kept_def)
  have "ensures (hdlr_send_data_container (c_snd c) (c_tx_size c) (g_txq s1) blk)
     (\<lambda>(q, ok). ok \<and> sent s (set_phase DEVICE_PHASE_DATAIN (s1\<lparr>g_txq := q\<rparr>)))"
    unfolding q(1) by (rule ensures_mono[OF send_block_sent[OF assms(1,3)]]) (auto simp: sent_def q)
  then show ?thesis
    by (auto simp: send_data_then_ok_def Let_def elim!: ensures_mono simp del: send_response_code_ok
        intro: answer_code[OF assms(1)])
qed

lemma send_dataset_answers:
  assumes "accepting c" "kept s s1"
  shows "ensures (send_dataset c n packed s1) (answered s)"
proof -
  have b: "data_block s1 = data_block s" by (rule data_block_kept[OF assms(2)])
  have "ensures (send_data_then_ok c blk' s1) (answered s)" if "fill_payload blk bs = Some blk'" "data_block s blk" for blk bs blk'
    using send_data_answers[OF assms] ensuresD[OF fill_data_block[OF that(2)] that(1)] by simp
  then show ?thesis
    using answer_kept[OF assms] unfolding send_dataset_def
    by (auto simp: b simp del: send_response_code_ok intro!: ensures_mono[OF alloc_data_block] ensuresI[of "fill_payload _ _"])
qed

text \<open>
  The contract of a handler, with the session it leaves behind; the handlers
  that have nothing to do with sessions leave the one they found.
\<close>

locale command_handler =
  fixes run :: "'fs conf \<Rightarrow> 'fs sys \<Rightarrow> 'fs sys option" and next_session :: "'fs sys \<Rightarrow> u32"
  assumes answers: "accepting c \<Longrightarrow> ensures (run c s) (answered_in (next_session s) s)"
begin

lemma finishes: "accepting c \<Longrightarrow> ensures (run c s) (\<lambda>s'. phase (g_dev s') = DEVICE_PHASE_IDLE \<and> session_id (g_hdlr s') = next_session s)"
  by (rule ensures_mono[OF answers]) (simp_all add: answered_in_def)

end

locale answering = command_handler run "\<lambda>s. session_id (g_hdlr s)"
  for run :: "'fs conf \<Rightarrow> 'fs sys \<Rightarrow> 'fs sys option"
begin

text \<open>Requests to the event thread around a handler do not matter.\<close>

lemma bracketed:
  assumes "accepting c"
  shows "ensures (run c (eh_send_event_req_to_eh_thread ev p q r s))
     (\<lambda>s'. answered s (eh_send_event_req_to_eh_thread ev' p' q' r' s'))"
  using ensures_mono[OF answers[OF assms, of "eh_send_event_req_to_eh_thread ev p q r s"]]
  by (auto simp: answered_in_def eh_send_event_req_to_eh_thread_def)

end

section \<open>The handlers\<close>

lemmas answer_rules = answer_kept send_dataset_answers

text \<open>Steps of a handler that only compute.\<close>

lemmas pure_steps = ensuresI[of "any_param _ _"] ensuresI[of "get_param _ _"] ensuresI[of "prop_size_obj_prop_desc _"]
  ensuresI[of "prop_pack_obj_prop_desc _ _"] ensuresI[of "pack_device_info _ _"] ensuresI[of "entity_pack_store_info _ _"]
  ensuresI[of "file_path _"] ensuresI[of "util_utf8_to_utf16 _ _ _ _ _"] ensuresI[of "prop_copy_wchar_to_ptpstring _ _"]
  ensuresI[of "entity_get_object_info_size _ _ _ _"] ensuresI[of "entity_pack_obj_info _ _ _ _ _"]
  ensuresI[of "hutil_get_storage_ids _ _"] ensuresI[of "prop_pack_ptparray _ _"] ensuresI[of "obj_info _"]
  ensuresI[of "hutil_get_interdep_prop_config_list_size _ _"] ensuresI[of "hutil_get_interdep_prop_config_list_data _ _ _"]
  ensuresI[of "hutil_get_object_entry_size _ _"] ensuresI[of "hdlr_get_payload_data _"]

lemma announce_sent [simp]: "so_is_data_sent (announce sid par obj info d) = so_is_data_sent d"
  by (simp add: announce_def)

text \<open>An update of the handler record that is none of the business of command and session.\<close>

definition bookkeeping :: "(mtp_handler \<Rightarrow> mtp_handler) \<Rightarrow> mtp_handler \<Rightarrow> bool" where
  "bookkeeping f h \<longleftrightarrow> usb_cmd (f h) = usb_cmd h \<and> session_id (f h) = session_id h
     \<and> (so_is_data_sent (data4_send_obj (f h)) \<longrightarrow> so_is_data_sent (data4_send_obj h))"

lemma bookkeeping_upd:
  "kept s s1 \<Longrightarrow> bookkeeping f (g_hdlr s1) \<Longrightarrow> kept s (upd_hdlr f s1)"
  "answered_in i s s1 \<Longrightarrow> bookkeeping f (g_hdlr s1) \<Longrightarrow> answered_in i s (upd_hdlr f s1)"
  by (auto simp: bookkeeping_def kept_def answered_in_def steady_def upd_hdlr_def)

lemmas handler_kept [simp] = bookkeeping_upd[unfolded bookkeeping_def]

subsection \<open>Sessions\<close>

definition opened :: "'fs sys \<Rightarrow> u32" where
  "opened s =
     (case get_param s 0 of
        Some sid \<Rightarrow>
          if any_param s [1, 2] = Some False \<and> tid (usb_cmd (g_hdlr s)) = 0 \<and> session_id (g_hdlr s) = 0
          then sid else session_id (g_hdlr s)
      | None \<Rightarrow> session_id (g_hdlr s))"

definition closed :: "'fs sys \<Rightarrow> u32" where
  "closed s = (if any_param s [0, 1, 2] = Some False then 0 else session_id (g_hdlr s))"

lemma answer_session:
  assumes "accepting c"
  shows "ensures (cmd_hdlr_send_response_code c r (upd_hdlr (\<lambda>h. h\<lparr>session_id := i\<rparr>) s)) (answered_in i s)"
  using answer_code[OF assms kept_sent[OF kept_refl], of r "upd_hdlr (\<lambda>h. h\<lparr>session_id := i\<rparr>) s"]
  by (rule ensures_mono) (simp add: answered_in_def upd_hdlr_def steady_def)

interpretation open_session: command_handler open_session opened
proof
  fix c :: "'fs conf" and s :: "'fs sys"
  assume a: "accepting c"
  have code: "ensures (cmd_hdlr_send_response_code c r s) (answered s)" for r by (rule answer_kept[OF a]) simp
  have args: "ensures (cmd_hdlr_send_response c r 1 (Some [i]) s) (\<lambda>x. answered s (fst x))" for r i
    using answer_args[OF a kept_sent[OF kept_refl], of "[i]" 1 r s] by (simp add: case_prod_unfold)
  show "ensures (open_session c s) (answered_in (opened s) s)"
    using code args answer_session[OF a]
    by (auto simp: open_session_def opened_def split: option.split intro!: pure_steps simp del: send_response_code_ok)
qed

interpretation close_session: command_handler close_session closed
proof
  fix c :: "'fs conf" and s :: "'fs sys"
  assume a: "accepting c"
  have code: "ensures (cmd_hdlr_send_response_code c r s) (answered s)" for r by (rule answer_kept[OF a]) simp
  show "ensures (close_session c s) (answered_in (closed s) s)"
    using code answer_session[OF a]
    by (auto simp: close_session_def closed_def intro!: pure_steps simp del: send_response_code_ok)
qed

interpretation power_down: command_handler power_down closed
proof
  fix c :: "'fs conf" and s :: "'fs sys"
  assume a: "accepting c"
  have code: "ensures (cmd_hdlr_send_response_code c r s) (answered s)" for r by (rule answer_kept[OF a]) simp
  have reset: "answered_in 0 s (cmd_hdlr_reset_cmd t)" if "answered s t" for t
    using that by (auto simp: answered_in_def cmd_hdlr_reset_cmd_def steady_def zero_cmd_def zero_send_object_def)
  show "ensures (power_down c s) (answered_in (closed s) s)"
    using code ensures_mono[OF code reset]
    by (auto simp: power_down_def closed_def intro!: pure_steps simp del: send_response_code_ok)
qed

subsection \<open>Commands without objects\<close>

interpretation reset_device: answering reset_device
  by unfold_locales (auto simp: reset_device_def intro!: pure_steps answer_rules simp del: send_response_code_ok)

interpretation begin_end_edit_object: answering begin_end_edit_object
  by unfold_locales (auto simp: begin_end_edit_object_def intro!: answer_rules simp del: send_response_code_ok)

interpretation vendor_command1: answering vendor_command1
  by unfold_locales (auto simp: vendor_command1_def intro!: pure_steps answer_rules simp del: send_response_code_ok)

interpretation send_partial_object: answering send_partial_object
  by unfold_locales (auto simp: send_partial_object_def intro!: pure_steps answer_rules simp del: send_response_code_ok)

interpretation get_object_prop_desc: answering get_object_prop_desc
  by unfold_locales (auto simp: get_object_prop_desc_def split: option.split
      intro!: pure_steps answer_rules simp del: send_response_code_ok)

interpretation get_device_info: answering get_device_info
proof
  fix c :: "'fs conf" and s :: "'fs sys"
  assume a: "accepting c"
  have "ensures (cmd_hdlr_send_response_code c r s) (answered s)" "ensures (send_dataset c n packed s) (answered s)" for r n packed
    by (rule answer_rules[OF a], simp)+
  then show "ensures (get_device_info c s) (answered s)"
    by (auto simp: get_device_info_def Let_def intro!: pure_steps simp del: send_response_code_ok)
qed

interpretation get_storage_info: answering get_storage_info
  by unfold_locales (auto simp: get_storage_info_def Let_def split: option.split
      intro!: pure_steps ensures_mono[OF storage_entry_kept] answer_rules simp del: send_response_code_ok)

interpretation get_object_info: answering get_object_info
  by unfold_locales (auto simp: get_object_info_def Let_def split: option.split
      intro!: pure_steps answer_rules simp del: send_response_code_ok)

interpretation get_storage_ids: answering get_storage_ids
proof
  fix c :: "'fs conf" and s :: "'fs sys"
  assume a: "accepting c"
  have "ensures (hdlr_send_data_container (c_snd c) (c_tx_size c) (g_txq s) blk')
      (\<lambda>x. ensures (case x of (q, ok) \<Rightarrow>
          cmd_hdlr_send_response_code c (if ok then PTP_RESPONSE_OK else PTP_RESPONSE_GEN_ERROR) (s\<lparr>g_txq := q\<rparr>)) (answered s))"
    if "data_block s blk'" for blk'
    by (rule ensures_mono[OF send_block_sent[OF a that]])
      (auto simp: sent_def simp del: send_response_code_ok intro!: answer_code[OF a])
  then show "ensures (get_storage_ids c s) (answered s)"
    by (auto simp: get_storage_ids_def Let_def intro!: pure_steps answer_rules[OF a] ensures_mono[OF alloc_data_block]
        ensures_mono[OF fill_data_block] simp del: send_response_code_ok)
qed

interpretation get_object_handles: answering get_object_handles
proof
  fix c :: "'fs conf" and s :: "'fs sys"
  assume a: "accepting c"
  show "ensures (get_object_handles c s) (answered s)"
    by (auto simp: get_object_handles_def Let_def intro!: pure_steps answer_rules[OF a] ensures_mono[OF object_handles_kept]
        ensures_mono[OF alloc_data_block] ensures_mono[OF fill_data_block] send_data_answers[OF a] simp: data_block_kept simp del: send_response_code_ok)
qed

interpretation get_interdep_prop_desc: answering get_interdep_prop_desc
  by unfold_locales (auto simp: get_interdep_prop_desc_def Let_def intro!: pure_steps answer_rules
      ensures_mono[OF alloc_data_block] ensures_mono[OF fill_data_block] send_data_answers simp del: send_response_code_ok)

subsection \<open>Reading files\<close>

lemma take_ctrl_kept [simp]: "kept s (snd (take_ctrl c s1)) = kept s s1" "sent s (snd (take_ctrl c s1)) = sent s s1"
  by (simp_all add: take_ctrl_def kept_def sent_def)

lemma sent_set_phase [simp]: "sent s (set_phase ph s1) = sent s s1"
  by (simp add: sent_def)

lemma data_phase_append: "data_phase cmd ps \<Longrightarrow> ps \<noteq> [] \<Longrightarrow> data_phase cmd (ps @ ps')"
  by (auto simp: data_phase_def)

text \<open>The packets of a data phase that has begun; the loop only adds to them.\<close>

definition begun :: "'fs sys \<Rightarrow> 'fs sys \<Rightarrow> bool" where
  "begun s s1 \<longleftrightarrow> steady s s1 \<and> usb_cmd (g_hdlr s1) = usb_cmd (g_hdlr s) \<and> session_id (g_hdlr s1) = session_id (g_hdlr s)
     \<and> (\<exists>ps. g_txq s1 = g_txq s @ ps \<and> ps \<noteq> [] \<and> data_phase (usb_cmd (g_hdlr s)) ps)"

lemma begun_sent: "begun s s1 \<Longrightarrow> sent s s1"
  by (auto simp: begun_def sent_def)

lemma begun_more: "begun s s1 \<Longrightarrow> begun s (s1\<lparr>g_txq := g_txq s1 @ ps\<rparr>)"
  by (auto simp: begun_def intro!: data_phase_append)

lemma send_bulk_data_ok:
  assumes "accepting c" "unat n \<le> length d"
  shows "\<exists>ps. hdlr_send_bulk_data (c_snd c) (c_tx_size c) q d n = Some (q @ ps, True) \<and> payload ps = take (unat n) d"
  using send_bulk_ok[OF assms, of q] by (auto simp: hdlr_send_bulk_data_def)

lemma get_object_loop_sent:
  assumes "accepting c" "begun s s1"
  shows "ensures (get_object_loop c total_len buf_len content n s1) (\<lambda>(s2, _). sent s s2)"
  using assms
proof (induction c total_len buf_len content n s1 rule: get_object_loop.induct)
  case (1 c total_len buf_len content n s1)
  let ?rd = "take (unat (c_read_file c)) content"
  obtain ev s2 where ctrl: "take_ctrl c s1 = (ev, s2)" by fastforce
  then have b: "begun s s2" using 1(3) by (auto simp: take_ctrl_def begun_def)
  have lt: "unat (c_read_file c) < 2 ^ LENGTH(32)" by (rule unsigned_less)
  have "unat (of_nat (length ?rd) :: u32) = length ?rd" using lt by (intro unat_of_nat_eq_small) simp
  then obtain ps where q: "hdlr_send_bulk_data (c_snd c) (c_tx_size c) (g_txq s2) ?rd (of_nat (length ?rd)) = Some (g_txq s2 @ ps, True)"
    using send_bulk_data_ok[OF 1(2), of "of_nat (length ?rd)" ?rd "g_txq s2"] by auto
  show ?case
    by (subst get_object_loop.simps)
      (use 1 ctrl q begun_more[OF b, of ps] begun_sent[OF b] begun_sent[OF 1(3)] in \<open>auto simp: Let_def\<close>)
qed

lemma transfer_file_sent:
  assumes a: "accepting c" and k: "kept s s1" and d: "data_block s blk"
  shows "ensures (transfer_file c blk n total_len content s1) (\<lambda>(s2, _). sent s s2)"
proof -
  obtain ev s2 where ctrl: "take_ctrl c s1 = (ev, s2)" by fastforce
  then have k2: "kept s s2" using k by (auto simp: take_ctrl_def)
  have bulk: "ensures (hdlr_send_bulk_data (c_snd c) (c_tx_size c) (g_txq s2) d (len blk'))
      (\<lambda>(q, ok). ok \<and> begun s (s2\<lparr>g_txq := q\<rparr>))" if blk: "data_block s blk'" "cdata blk' = Some d" for blk' d
  proof -
    obtain l rest where d: "d = header_bytes l CONTAINER_DATA_BLK (cmd_code s) (tid (usb_cmd (g_hdlr s))) @ rest"
      "unat (len blk') = length d" using blk by (auto simp: data_block_def)
    with send_bulk_data_ok[OF a, of "len blk'" d "g_txq s2"] obtain ps where
      "hdlr_send_bulk_data (c_snd c) (c_tx_size c) (g_txq s2) d (len blk') = Some (g_txq s2 @ ps, True)" "payload ps = d" by auto
    moreover have "ps \<noteq> []" using calculation(2) d(1) by auto
    ultimately show ?thesis
      using k2 d(1) by (auto simp: begun_def kept_def data_phase_def)
  qed
  show ?thesis
    using k k2 d ctrl
    by (auto simp: transfer_file_def Let_def kept_sent intro!: ensures_mono[OF fill_data_block[OF d]] ensuresI[of "cdata _"]
       get_object_loop_sent[OF a] ensures_mono[OF bulk])
qed

interpretation get_object: answering get_object
proof
  fix c :: "'fs conf" and s :: "'fs sys"
  assume a: "accepting c"
  have "ensures (transfer_file c blk n total_len content (set_phase DEVICE_PHASE_DATAIN s))
      (\<lambda>x. ensures (case x of (s1, r) \<Rightarrow> cmd_hdlr_send_response_code c r s1) (answered s))"
    if "data_block s blk" for blk n total_len content
    by (rule ensures_mono[OF transfer_file_sent[OF a _ that]]) (auto simp del: send_response_code_ok intro!: answer_code[OF a])
  then show "ensures (get_object c s) (answered s)"
    by (auto simp: get_object_def Let_def intro!: pure_steps answer_rules[OF a] ensures_mono[OF alloc_data_block]
        split: option.split sum.split simp del: send_response_code_ok)
qed

lemma zlp_sent: "begun s s1 \<Longrightarrow> sent s (s1\<lparr>g_txq := transport_send_zlp snd_ok (g_txq s1)\<rparr>)"
  by (auto simp: sent_def begun_def transport_send_zlp_def util_msgq_send_def intro!: data_phase_append)

interpretation get_partial_object: answering get_partial_object
proof
  fix c :: "'fs conf" and s :: "'fs sys"
  assume a: "accepting c"
  have args: "ensures (cmd_hdlr_send_response c PTP_RESPONSE_OK 1 (Some [n]) t) (\<lambda>x. answered s (fst x))" if "sent s t" for n t
    using answer_args[OF a that, of "[n]" 1] by (simp add: case_prod_unfold)
  have zlp: "ensures (cmd_hdlr_send_response c PTP_RESPONSE_OK 1 (Some [n]) (t\<lparr>g_txq := transport_send_zlp (c_snd c) q\<rparr>))
      (\<lambda>x. answered s (fst x))" if "begun s t" "g_txq t = q" for n t q
    using args[OF zlp_sent[OF that(1)]] that(2) by simp
  have tail: "ensures (hdlr_send_data_container (c_snd c) (c_tx_size c) (g_txq s1) blk)
      (\<lambda>(q, ok). ok \<and> begun s (set_phase DEVICE_PHASE_DATAIN (s1\<lparr>g_txq := q\<rparr>)))" if "data_block s blk" "kept s s1" for blk s1
    using ensures_mono[OF send_block_sent[OF a that(1)]] that(2) by (auto simp: begun_def kept_def)
  show "ensures (get_partial_object c s) (answered s)"
    by (auto simp: get_partial_object_def Let_def case_prod_unfold
        intro!: pure_steps zlp args[OF begun_sent, of "set_phase _ _"] answer_rules[OF a] ensures_mono[OF read_file_kept] ensures_mono[OF fill_data_block]
        ensures_mono[OF tail] ensures_mono[OF alloc_data_block] split: option.split sum.split
        simp del: send_response_code_ok)
qed

subsection \<open>Commands with a data phase from the host\<close>

interpretation set_object_prop_value: answering set_object_prop_value
proof
  fix c :: "'fs conf" and s :: "'fs sys"
  assume a: "accepting c"
  have rcv: "ensures (receive_data c n (set_phase ph s)) (\<lambda>(s1, _). kept s s1)" for n ph
    using receive_data_kept[of c n "set_phase ph s"] by simp
  have upd: "ensures (hutil_update_object_property c h pc mbuf n s1) (\<lambda>(s2, _). kept s s2)" if "kept s s1" for h pc mbuf n s1
    by (rule ensures_mono[OF update_property_kept]) (use that in \<open>auto intro: kept_trans\<close>)
  show "ensures (set_object_prop_value c s) (answered s)"
    by (auto simp: set_object_prop_value_def Let_def intro!: pure_steps answer_rules[OF a]
        ensures_mono[OF rcv] ensures_mono[OF upd] simp del: send_response_code_ok)
qed

interpretation delete_object: answering delete_object
proof
  fix c :: "'fs conf" and s :: "'fs sys"
  assume a: "accepting c"
  have "ensures (hutil_remove_object_entry c h fmt (s\<lparr>g_op_state := MTP_STATE_DATA_PROCESSING\<rparr>))
      (\<lambda>x. ensures (case x of (s1, er) \<Rightarrow> cmd_hdlr_send_response_code c (delete_response er) (s1\<lparr>g_op_state := MTP_STATE_ONSERVICE\<rparr>)) (answered s))" for h fmt
    by (rule ensures_mono[OF remove_entry_kept])
     (auto simp: kept_def simp del: send_response_code_ok intro!: answer_rules[OF a])
  then show "ensures (delete_object c s) (answered s)"
    by (auto simp: delete_object_def intro!: pure_steps answer_rules[OF a] simp del: send_response_code_ok)
qed

interpretation send_object: answering send_object
proof
  fix c :: "'fs conf" and s :: "'fs sys"
  assume a: "accepting c"
  have wr: "ensures (hutil_write_file_data c sid mobj p s1)
     (\<lambda>x. ensures (case x of (s2, er) \<Rightarrow> do {
         s3 \<leftarrow> cmd_hdlr_send_response_code c (write_response er) s2;
         Some (upd_hdlr (\<lambda>hd. hd\<lparr>data4_send_obj := (data4_send_obj hd)\<lparr>so_obj := None, so_is_valid := False\<rparr>\<rparr>) s3) })
       (answered s))" if "kept s s1" for sid mobj p s1
    by (rule ensures_mono[OF write_file_kept])
     (auto simp del: send_response_code_ok intro!: ensures_mono[OF answer_kept[OF a kept_trans[OF that]]])
  have rcv: "ensures (hdlr_rcv_file_in_data_container os fs ft dst n) (\<lambda>(_, _, _, ft'). temp_kept ft ft')" for os :: "'fs os" and fs ft dst n
    by (auto simp: hdlr_rcv_file_in_data_container_def transport_rcv_temp_file_info_def Let_def intro!: ensuresI[of "rd_header _"] split: option.split)
  show "ensures (send_object c s) (answered s)"
    using wr by (auto simp: send_object_def Let_def intro!: pure_steps answer_rules[OF a] ensures_mono[OF rcv] simp del: send_response_code_ok)
qed

text \<open>SendObjectInfo is the exception: a data phase that cannot be read is left without an answer.\<close>

definition unanswered :: "'fs sys \<Rightarrow> 'fs sys \<Rightarrow> bool" where
  "unanswered s s' \<longleftrightarrow> steady s s' \<and> phase (g_dev s') = DEVICE_PHASE_NOTREADY \<and> g_txq s' = g_txq s \<and> session_id (g_hdlr s') = session_id (g_hdlr s)"

lemma answer_object_info_answers:
  assumes "accepting c" "kept s s1"
  shows "ensures (answer_object_info c sid par er mobj s1) (answered s)"
proof -
  have "ensures (cmd_hdlr_send_response c PTP_RESPONSE_OK 3 (Some [x, y, z]) t) (\<lambda>r. answered s (fst r))" if "kept s t" for x y z t
    using answer_args[OF assms(1) kept_sent[OF that], of "[x, y, z]" 3] by (simp add: case_prod_unfold)
  note args = this
  show ?thesis
    using assms by (auto simp: answer_object_info_def Let_def intro!: pure_steps ensuresI[of mobj] answer_rules args simp del: send_response_code_ok)
qed

lemma send_object_info_answers:
  assumes "accepting c"
  shows "ensures (send_object_info c s) (\<lambda>s'. answered s s' \<or> unanswered s s')"
proof -
  have rcv: "ensures (receive_data c n (set_phase ph s)) (\<lambda>(s1, _). kept s s1)" for n ph
    using receive_data_kept[of c n "set_phase ph s"] by simp
  have con: "ensures (hutil_construct_object_entry c sid par prev bs n s1) (\<lambda>(s2, _). kept s s2)" if "kept s s1" for sid par prev bs n s1
    by (rule ensures_mono[OF construct_kept]) (use that in \<open>auto intro: kept_trans\<close>)
  note code = ensures_mono[OF answer_kept[OF assms]] and info = ensures_mono[OF answer_object_info_answers[OF assms]]
  show ?thesis
    by (auto simp: send_object_info_def Let_def simp del: send_response_code_ok intro!: pure_steps code info
        ensures_mono[OF rcv] ensures_mono[OF con])
      (simp_all, simp_all add: unanswered_def kept_def)
qed

section \<open>The dispatcher\<close>

lemma answered_upd_event [simp]: "answered_in i s (eh_send_event_req_to_eh_thread ev p q r s1) = answered_in i s s1"
  "answered_in i (s\<lparr>g_fs := fs\<rparr>) s1 = answered_in i s s1" "answered_in i s (s1\<lparr>g_send_object := b\<rparr>) = answered_in i s s1"
  "answered_in i s (s1\<lparr>g_send_object := b, g_send_partial := b'\<rparr>) = answered_in i s s1"
  "answered_in i (eh_send_event_req_to_eh_thread ev p q r s) s1 = answered_in i s s1"
  by (simp_all add: answered_in_def eh_send_event_req_to_eh_thread_def)

text \<open>What a command may end in, beside an answer.\<close>

definition data_out_codes :: "u16 set" where
  "data_out_codes = {PTP_OPCODE_SENDOBJECTINFO, PTP_OPCODE_SENDOBJECT, MTP_OPCODE_SETOBJECTPROPVALUE, PTP_OC_ANDROID_SENDPARTIALOBJECT}"

definition waiting :: "'fs sys \<Rightarrow> 'fs sys \<Rightarrow> bool" where
  "waiting s s' \<longleftrightarrow> steady s s' \<and> cmd_code s \<in> data_out_codes \<and> phase (g_dev s) = DEVICE_PHASE_IDLE
     \<and> phase (g_dev s') = DEVICE_PHASE_DATAOUT \<and> g_txq s' = g_txq s \<and> session_id (g_hdlr s') = session_id (g_hdlr s)"

definition stuck :: "'fs sys \<Rightarrow> 'fs sys \<Rightarrow> bool" where
  "stuck s s' \<longleftrightarrow> cmd_code s = PTP_OPCODE_SENDOBJECTINFO \<and> phase (g_dev s) \<noteq> DEVICE_PHASE_IDLE \<and> unanswered s s'"

lemma mark_send_object_sel [simp]: "g_txq (mark_send_object s) = g_txq s" "g_hdlr (mark_send_object s) = g_hdlr s" "g_ftemp (mark_send_object s) = g_ftemp s"
  by (simp_all add: mark_send_object_def split: option.split)

lemma waits_for_data:
  "cmd_code s \<in> data_out_codes \<Longrightarrow> phase (g_dev s) = DEVICE_PHASE_IDLE \<Longrightarrow> g_txq s1 = g_txq s \<Longrightarrow> g_hdlr s1 = g_hdlr s \<Longrightarrow> g_ftemp s1 = g_ftemp s \<Longrightarrow> waiting s (set_phase DEVICE_PHASE_DATAOUT s1)"
  by (simp add: waiting_def steady_def)

lemma data_out_outcome:
  assumes "accepting c" "cmd_code s \<in> data_out_codes"
  shows "ensures (data_out_command c s) (\<lambda>(s', fin). if fin then answered s s' \<or> stuck s s' else waiting s s')"
proof (cases "phase (g_dev s) = DEVICE_PHASE_IDLE")
  case True
  with assms(2) show ?thesis
    by (auto simp: data_out_command_def Let_def eh_send_event_req_to_eh_thread_def intro!: waits_for_data)
next
  case False
  note rules = ensures_mono[OF send_object_info_answers[OF assms(1)]] ensures_mono[OF send_object.answers[OF assms(1)]]
    ensures_mono[OF set_object_prop_value.answers[OF assms(1)]]
  from False show ?thesis
    by (auto simp: data_out_command_def stuck_def intro!: rules)
qed

lemma send_partial_outcome:
  assumes "accepting c" "cmd_code s \<in> data_out_codes"
  shows "ensures (send_partial_command c s) (\<lambda>(s', fin). if fin then answered s s' \<or> stuck s s' else waiting s s')"
proof (cases "phase (g_dev s) = DEVICE_PHASE_IDLE")
  case True
  with assms(2) show ?thesis
    by (auto simp: send_partial_command_def eh_send_event_req_to_eh_thread_def intro!: waits_for_data)
next
  case False
  then show ?thesis
    by (auto simp: send_partial_command_def split: prod.split intro!: ensures_mono[OF send_partial_object.answers[OF assms(1)]])
qed

lemmas command_answers = get_storage_ids.answers get_storage_info.answers get_object_handles.answers
  get_object_info.answers delete_object.answers get_partial_object.answers reset_device.answers get_object_prop_desc.answers
  get_interdep_prop_desc.answers vendor_command1.answers begin_end_edit_object.answers

lemma ensures_if: "(b \<Longrightarrow> ensures x Q) \<Longrightarrow> (\<not> b \<Longrightarrow> ensures y Q) \<Longrightarrow> ensures (if b then x else y) Q"
  by simp

text \<open>The session after a command inside a session.\<close>

definition session_after :: "'fs sys \<Rightarrow> u32" where
  "session_after s = (if cmd_code s = PTP_OPCODE_CLOSESESSION \<or> cmd_code s = PTP_OPCODE_POWERDOWN then closed s else session_id (g_hdlr s))"

definition outcome :: "'fs sys \<Rightarrow> 'fs sys \<times> bool \<Rightarrow> bool" where
  "outcome s r = (case r of (s', fin) \<Rightarrow> if fin then answered_in (session_after s) s s' \<or> stuck s s' else waiting s s')"

lemma outcome_run:
  assumes "ensures (h c s) (answered_in (session_after s) s)"
  shows "ensures (map_option (\<lambda>s1. (s1, True)) (h c s)) (outcome s)"
  using assms by (auto simp: outcome_def elim: ensures_mono)

lemma session_outcome:
  assumes a: "accepting c"
  shows "ensures (session_command c s) (outcome s)"
proof (cases "cmd_code s = PTP_OPCODE_CLOSESESSION \<or> cmd_code s = PTP_OPCODE_POWERDOWN")
  case True
  then have "session_after s = closed s" by (simp add: session_after_def)
  then have "ensures (close_session c s) (answered_in (session_after s) s)" "ensures (power_down c s) (answered_in (session_after s) s)"
    using close_session.answers[OF a] power_down.answers[OF a] by simp_all
  with True show ?thesis
    by (auto simp: session_command_def simp del: ensures_simps intro!: outcome_run)
next
  case False
  then have keep: "session_after s = session_id (g_hdlr s)" by (simp add: session_after_def)
  have run: "ensures (map_option (\<lambda>s1. (s1, True)) (h c s)) (outcome s)"
    if "ensures (h c s) (answered s)" for h :: "'a conf \<Rightarrow> 'a sys \<Rightarrow> 'a sys option"
    using outcome_run[of h c s] that unfolding keep .
  have "ensures (Option.bind (get_object c (eh_send_event_req_to_eh_thread ev p q r s))
     (\<lambda>s1. Some (eh_send_event_req_to_eh_thread ev' p' q' r' s1, True))) (outcome s)" for ev p q r ev' p' q' r'
    using ensures_mono[OF get_object.bracketed[OF a, of ev p q r s ev' p' q' r']] by (auto simp: outcome_def keep)
  moreover have "ensures (data_out_command c s) (outcome s)" "ensures (send_partial_command c s) (outcome s)" if "cmd_code s \<in> data_out_codes"
    using data_out_outcome[OF a that] send_partial_outcome[OF a that] by (auto simp: outcome_def keep elim!: ensures_mono)
  moreover have "ensures (cmd_hdlr_send_response_code c r s) (answered s)" for r
    by (rule answer_kept[OF a]) simp
  ultimately show ?thesis
    using False unfolding session_command_def Let_def
    by (intro ensures_if run command_answers[OF a]) (auto simp: data_out_codes_def)
qed

lemma finish_command_sel [simp]:
  "g_txq (finish_command s) = g_txq s" "phase (g_dev (finish_command s)) = phase (g_dev s)"
  "session_id (g_hdlr (finish_command s)) = session_id (g_hdlr s)"
  by (simp_all add: finish_command_def upd_hdlr_def Let_def split: option.split)

lemma finish_steady: "steady s t \<Longrightarrow> steady s (finish_command t)"
  by (auto simp: steady_def finish_command_def upd_hdlr_def zero_send_object_def Let_def split: option.split)

lemma finish_outcome [simp]:
  "answered_in i s t \<Longrightarrow> answered_in i s (finish_command t)" "stuck s t \<Longrightarrow> stuck s (finish_command t)"
  by (simp_all add: answered_in_def stuck_def unanswered_def finish_steady)

lemma answered_idle [simp]: "answered_in i s t \<Longrightarrow> answered_in i s (set_phase DEVICE_PHASE_IDLE t)"
  by (simp add: answered_in_def)

definition next_session :: "'fs sys \<Rightarrow> u32" where
  "next_session s =
     (if cmd_code s = PTP_OPCODE_OPENSESSION then opened s
      else if cmd_code s = PTP_OPCODE_GETDEVICEINFO \<or> session_id (g_hdlr s) = 0 then session_id (g_hdlr s)
      else session_after s)"

lemma process_commands_outcome:
  assumes a: "accepting c" and run: "process_commands c cmd s = Some s'"
    and s0: "hdlr_copy_cmd_container cmd (usb_cmd (g_hdlr s)) = Some ucmd" "s0 = upd_hdlr (\<lambda>hd. hd\<lparr>usb_cmd := ucmd\<rparr>) s"
  shows "answered_in (next_session s0) s0 s' \<or> stuck s0 s' \<or> waiting s0 s'"
proof -
  have no: "ensures (cmd_hdlr_send_response_code c r s0) (answered s0)" for r
    by (rule answer_kept[OF a]) simp
  have "ensures (process_commands c cmd s) (\<lambda>s'. answered_in (next_session s0) s0 s' \<or> stuck s0 s' \<or> waiting s0 s')"
    by (auto simp: process_commands_def s0(1) Let_def next_session_def outcome_def simp flip: s0(2) simp del: send_response_code_ok intro!: ensures_mono[OF session_outcome[OF a]] ensures_mono[OF get_device_info.answers[OF a]]
       ensures_mono[OF open_session.answers[OF a]] ensures_mono[OF no])
  then show ?thesis using run by (rule ensuresD)
qed

text \<open>The parameters of a command are read from its copy; those that it does not have are zero.\<close>

definition prm :: "cmd_container \<Rightarrow> nat \<Rightarrow> u32" where
  "prm cmd i = (if i < unat (no_param cmd) then params cmd ! i else 0)"

lemma copied_command:
  assumes "hdlr_copy_cmd_container cmd old = Some ucmd"
  shows "code ucmd = code cmd" "tid ucmd = tid cmd" "hdlr_get_param_cmd_container ucmd i = Some (prm cmd (unat i))"
  using assms
  by (auto simp: hdlr_copy_cmd_container_def hdlr_get_param_cmd_container_def prm_def Let_def nth_append word_less_nat_alt split: if_splits)

lemma process_commands_copies:
  assumes "process_commands c cmd s = Some s'"
  obtains ucmd where "hdlr_copy_cmd_container cmd (usb_cmd (g_hdlr s)) = Some ucmd"
  using assms by (auto simp: process_commands_def bind_eq_Some_conv)

text \<open>What a command leaves of the buffers of the transfer.\<close>

lemma process_commands_steady:
  assumes "accepting c" "process_commands c cmd s = Some s'"
  shows "steady s s'"
proof -
  obtain ucmd where u: "hdlr_copy_cmd_container cmd (usb_cmd (g_hdlr s)) = Some ucmd"
    using process_commands_copies[OF assms(2)] .
  let ?s0 = "upd_hdlr (\<lambda>hd. hd\<lparr>usb_cmd := ucmd\<rparr>) s"
  have "length (params ucmd) = length (params (usb_cmd (g_hdlr s)))"
    using u by (auto simp: hdlr_copy_cmd_container_def Let_def split: if_splits)
  then have "steady s ?s0" by (simp add: steady_def upd_hdlr_def)
  moreover have "steady ?s0 s'"
    using process_commands_outcome[OF assms u refl] by (auto simp: answered_in_def stuck_def unanswered_def waiting_def)
  ultimately show ?thesis by (rule steady_trans)
qed


text \<open>
  The session as an abstract machine: OpenSession opens a session when there is
  none, CloseSession and PowerDown end it, nothing else touches it.
\<close>

definition session_spec :: "cmd_container \<Rightarrow> u32 \<Rightarrow> u32" where
  "session_spec cmd cur =
     (if code cmd = PTP_OPCODE_OPENSESSION then
        (if prm cmd 1 = 0 \<and> prm cmd 2 = 0 \<and> tid cmd = 0 \<and> cur = 0 then prm cmd 0 else cur)
      else if (code cmd = PTP_OPCODE_CLOSESESSION \<or> code cmd = PTP_OPCODE_POWERDOWN) \<and> prm cmd 0 = 0 \<and> prm cmd 1 = 0 \<and> prm cmd 2 = 0
      then 0 else cur)"

text \<open>C2: the session is refined by every command: whatever the handler does, the session identifier after a
  dispatched command is the one the abstract machine gives, so that only OpenSession, CloseSession and
  PowerDown change it, and only without surplus parameters.\<close>

theorem process_commands_session:
  assumes "accepting c" "process_commands c cmd s = Some s'"
  shows "session_id (g_hdlr s') = session_spec cmd (session_id (g_hdlr s))"
proof -
  obtain ucmd where u: "hdlr_copy_cmd_container cmd (usb_cmd (g_hdlr s)) = Some ucmd"
    using process_commands_copies[OF assms(2)] .
  let ?s0 = "upd_hdlr (\<lambda>hd. hd\<lparr>usb_cmd := ucmd\<rparr>) s"
  have s0: "usb_cmd (g_hdlr ?s0) = ucmd" "session_id (g_hdlr ?s0) = session_id (g_hdlr s)" by (simp_all add: upd_hdlr_def)
  have "next_session ?s0 = session_spec cmd (session_id (g_hdlr s))"
    by (simp add: next_session_def session_after_def opened_def closed_def session_spec_def any_param_def get_param_def s0 copied_command[OF u])
  moreover have "session_spec cmd (session_id (g_hdlr s)) = session_id (g_hdlr s)" if "code cmd \<in> data_out_codes"
    using that by (auto simp: session_spec_def data_out_codes_def)
  ultimately show ?thesis
    using process_commands_outcome[OF assms u refl]
    by (auto simp: answered_in_def stuck_def unanswered_def waiting_def s0 copied_command[OF u] data_out_codes_def)
qed

subsection \<open>Witnesses\<close>

lemma ram_accepting: "accepting ram_conf"
  by (simp add: accepting_def ram_conf_def)

lemma close_session_runs: "\<exists>s'. process_commands ram_conf (command PTP_OPCODE_CLOSESESSION []) ready_sys = Some s'"
  using ram_accepting
  by (simp add: process_commands_def hdlr_copy_cmd_container_def command_def session_command_def close_session_def
      any_param_def get_param_def hdlr_get_param_cmd_container_def upd_hdlr_def ready_sys_def zero_cmd_def)


theorem process_commands_session_witness:
  "\<exists>s'. process_commands ram_conf (command PTP_OPCODE_CLOSESESSION []) ready_sys = Some s'
     \<and> session_id (g_hdlr ready_sys) = 1 \<and> session_id (g_hdlr s') = 0"
proof -
  obtain s' where s': "process_commands ram_conf (command PTP_OPCODE_CLOSESESSION []) ready_sys = Some s'"
    using close_session_runs by blast
  from process_commands_session[OF ram_accepting this] show ?thesis
    using s' by (simp add: session_spec_def command_def prm_def ready_sys_def)
qed

end
