(* ===== verification/Commands.thy ===== *)
theory Commands
  imports Protocol
begin

text \<open>
  What single commands do, seen from the host: the packets that a GetObject or
  a GetPartialObject puts on the wire, the gate in front of a session, and the
  life of a session.  A file system in memory serves as the operating system of
  the witnesses.
\<close>

section \<open>Transferring a file\<close>

lemma unat_add_of_nat:
  "unat (w :: 'a::len word) + k < 2 ^ LENGTH('a) \<Longrightarrow> unat (w + of_nat k) = unat w + k"
  by (simp add: unat_word_ariths unat_of_nat_eq_small)

text \<open>No cancel request arrives during the command.\<close>

definition quiet :: "'fs conf \<Rightarrow> 'fs sys \<Rightarrow> bool" where
  "quiet c s \<longleftrightarrow> (\<forall>n. c_ctrl c n \<noteq> ucast PTP_EVENTCODE_CANCELTRANSACTION) \<and> g_ctrl s \<noteq> ucast PTP_EVENTCODE_CANCELTRANSACTION"

lemma quiet_take_ctrl:
  assumes "quiet c s" "take_ctrl c s = (ev, s1)"
  shows "ev \<noteq> ucast PTP_EVENTCODE_CANCELTRANSACTION" "quiet c s1" "kept s s1" "g_fs s1 = g_fs s"
  using assms by (auto simp: quiet_def take_ctrl_def split: if_splits)

lemma quiet_upd [simp]: "quiet c (s\<lparr>g_txq := q\<rparr>) = quiet c s" "quiet c (set_phase ph s) = quiet c s"
  by (simp_all add: quiet_def set_phase_def)

lemma get_object_loop_delivers:
  assumes "accepting c" "quiet c s" "unat n + length content = unat total_len" "0 < unat (c_read_file c)"
    "content = [] \<or> unat (c_read_file c) \<le> buf_len"
  shows "\<exists>s' ps. get_object_loop c total_len buf_len content n s = Some (s', PTP_RESPONSE_OK)
     \<and> g_txq s' = g_txq s @ ps \<and> payload ps = content \<and> usb_cmd (g_hdlr s') = usb_cmd (g_hdlr s)"
  using assms
proof (induction c total_len buf_len content n s rule: get_object_loop.induct)
  case (1 c total_len buf_len content n s)
  show ?case
  proof (cases "content = []")
    case True
    with 1(4) show ?thesis
      by (subst get_object_loop.simps) (auto simp: word_less_nat_alt intro!: exI[of _ "[]"])
  next
    case False
    let ?rd = "take (unat (c_read_file c)) content"
    obtain ev s1 where ctrl: "take_ctrl c s = (ev, s1)" by fastforce
    note q = quiet_take_ctrl[OF 1(3) ctrl]
    have lt: "unat (c_read_file c) < 2 ^ LENGTH(32)" by (rule unsigned_less)
    have "unat (of_nat (length ?rd) :: u32) = length ?rd" using lt by (intro unat_of_nat_eq_small) simp
    then obtain ps where ps: "hdlr_send_bulk_data (c_snd c) (c_tx_size c) (g_txq s1) ?rd (of_nat (length ?rd)) = Some (g_txq s1 @ ps, True)"
      "payload ps = ?rd"
      using send_bulk_data_ok[OF 1(2), of "of_nat (length ?rd)" ?rd "g_txq s1"] by (auto simp del: length_take take_take)
    have rd: "?rd \<noteq> []" "length ?rd \<le> buf_len" using False 1(5,6) by auto
    have go: "n < total_len" using 1(4) False by (cases content) (simp_all add: word_less_nat_alt)
    have bound: "unat n + length ?rd \<le> unat total_len" using 1(4) by simp
    also have "unat total_len < 2 ^ LENGTH(64)" by (rule unsigned_less)
    finally have n: "unat (n + of_nat (length ?rd)) = unat n + length ?rd"
      by (intro unat_add_of_nat) simp
    have "unat (n + of_nat (length ?rd)) + length (drop (unat (c_read_file c)) content) = unat total_len"
      using n 1(4) by simp
    from 1(1)[OF _ refl rd(1) _ ctrl[symmetric] _ ps(1) refl _ 1(2) _ this 1(5)] go rd q 1(6) obtain s' qs where
      "get_object_loop c total_len buf_len (drop (unat (c_read_file c)) content) (n + of_nat (length ?rd)) (s1\<lparr>g_txq := g_txq s1 @ ps\<rparr>)
         = Some (s', PTP_RESPONSE_OK)" "g_txq s' = g_txq s1 @ ps @ qs" "payload qs = drop (unat (c_read_file c)) content"
      "usb_cmd (g_hdlr s') = usb_cmd (g_hdlr s1)" by auto
    moreover have "g_txq s1 = g_txq s" "usb_cmd (g_hdlr s1) = usb_cmd (g_hdlr s)" using q(3) by (simp_all add: kept_def)
    ultimately show ?thesis
      using go rd q(1) ctrl ps by (subst get_object_loop.simps) (auto simp: Let_def intro!: exI[of _ "ps @ qs"])
  qed
qed

lemma transfer_file_delivers:
  assumes a: "accepting c" and q: "quiet c s" and blk: "cdata blk = Some (hd12 @ replicate (unat n) 0)" "length hd12 = 12"
    "unat (len blk) = unat n + 12"
    and n: "0 < unat n" "unat n \<le> length content" "unat total_len = 12 + length content" "0 < unat (c_read_file c)"
    "unat n = length content \<or> unat (c_read_file c) = unat n + 12"
  shows "\<exists>s' ps. transfer_file c blk n total_len content s = Some (s', PTP_RESPONSE_OK)
     \<and> g_txq s' = g_txq s @ ps \<and> payload ps = hd12 @ content \<and> usb_cmd (g_hdlr s') = usb_cmd (g_hdlr s)"
proof -
  let ?rd = "take (unat n) content" and ?d = "hd12 @ take (unat n) content"
  obtain ev s1 where ctrl: "take_ctrl c s = (ev, s1)" by fastforce
  note q1 = quiet_take_ctrl[OF q ctrl]
  have s1: "g_txq s1 = g_txq s" "usb_cmd (g_hdlr s1) = usb_cmd (g_hdlr s)" using q1(3) by (simp_all add: kept_def)
  have rd: "length ?rd = unat n" "?rd \<noteq> []" using n(1,2) by auto
  have fill: "fill_payload blk ?rd = Some (blk\<lparr>cdata := Some ?d\<rparr>)"
    using blk n(2) by (simp add: fill_payload_def)
  obtain ps where ps: "hdlr_send_bulk_data (c_snd c) (c_tx_size c) (g_txq s1) ?d (len blk) = Some (g_txq s1 @ ps, True)" "payload ps = ?d"
    using send_bulk_data_ok[OF a, of "len blk" ?d "g_txq s1"] blk n(2) by auto
  have "length ?d = 12 + unat n" using blk(2) n(2) by simp
  moreover have "unat (12 + of_nat (length ?rd) :: u64) = 12 + unat n"
    using unat_u32_less[of n] unat_add_of_nat[of "12 :: u64" "length ?rd"] unfolding rd(1) by simp
  ultimately obtain s' qs where
    "get_object_loop c total_len (length ?d) (drop (unat n) content) (12 + of_nat (length ?rd)) (s1\<lparr>g_txq := g_txq s1 @ ps\<rparr>) = Some (s', PTP_RESPONSE_OK)"
    "g_txq s' = g_txq s1 @ ps @ qs" "payload qs = drop (unat n) content" "usb_cmd (g_hdlr s') = usb_cmd (g_hdlr s1)"
    using get_object_loop_delivers[OF a, of "s1\<lparr>g_txq := g_txq s1 @ ps\<rparr>" "12 + of_nat (length ?rd)" "drop (unat n) content" total_len "length ?d"]
      q1(2) n rd by auto
  with fill ps ctrl q1(1) rd s1 show ?thesis
    by (auto simp: transfer_file_def Let_def)
qed

lemma data_container_for_sel [simp]:
  "ctype (data_container_for s) = CONTAINER_DATA_BLK" "code (data_container_for s) = cmd_code s"
  "tid (data_container_for s) = tid (usb_cmd (g_hdlr s))"
  by (simp_all add: data_container_for_def hdlr_init_data_container_def hdlr_init_cmd_container_def)

text \<open>The size of the first packet.\<close>

lemma first_packet:
  fixes k :: u64 and r :: u32
  assumes "0 < unat k" "unat k + 12 < 2 ^ 64" "12 < unat r"
    "n = (if k + 12 < ucast r then ucast k else r - 12)"
  shows "0 < unat n" "unat n \<le> unat k" "unat n + 12 < 2 ^ 32" "unat n = unat k \<or> unat r = unat n + 12" "unat (k + 12) = unat k + 12"
proof -
  show k: "unat (k + 12) = unat k + 12" using assms(2) by (subst unat_add_lem[THEN iffD1]) simp_all
  have r: "unat (ucast r :: u64) = unat r" by (rule unat_ucast_up) simp
  have s: "unat (r - 12) = unat r - 12" using assms(3) by (simp add: unat_sub word_le_nat_alt)
  have lt: "unat r < 2 ^ 32" using unat_u32_less[of r] by simp
  have "0 < unat n \<and> unat n \<le> unat k \<and> unat n + 12 < 2 ^ 32 \<and> (unat n = unat k \<or> unat r = unat n + 12)"
  proof (cases "k + 12 < ucast r")
    case True
    then have "unat k + 12 < unat r" using k r by (simp add: word_less_nat_alt)
    with True lt assms(1,4) show ?thesis by (simp add: unat_ucast_small)
  next
    case False
    then have "unat r \<le> unat k + 12" using k r by (simp add: word_less_nat_alt)
    with False s lt assms(3,4) show ?thesis by simp
  qed
  then show "0 < unat n" "unat n \<le> unat k" "unat n + 12 < 2 ^ 32" "unat n = unat k \<or> unat r = unat n + 12" by auto
qed

text \<open>C7: a GetObject for an existing, non-empty file whose recorded size is its size puts exactly the data
  phase and an OK response on the queue: a data header with the code and the transaction of the command and
  the size of the container (twelve more than the file, saturated at 0xFFFFFFFF), then every byte of the file
  in order, whatever the packet sizes and however many reads the file takes, and the device is idle again.\<close>

theorem get_object_delivers:
  assumes "accepting c" "quiet c s" "12 < unat (c_read_file c)"
    and "any_param s [1, 2] = Some False" "get_param s 0 = Some h"
    and "device_get_object_with_handle (g_dev s) h = Some obj" "obj_info obj = Some info" "file_path obj = Some path"
    and "os_content (c_os c) (g_fs s) path = Inl (content, e)" "content \<noteq> []"
    and "unat (file_size info) = length content" "length content + 12 < 2 ^ 63"
  shows "\<exists>s' ps. get_object c s = Some s' \<and> phase (g_dev s') = DEVICE_PHASE_IDLE
     \<and> g_txq s' = g_txq s @ ps @ [resp_pkt PTP_RESPONSE_OK (tid (usb_cmd (g_hdlr s))) []]
     \<and> payload ps = header_bytes (of_nat (min (length content + 12) 0xFFFFFFFF)) CONTAINER_DATA_BLK
          (code (usb_cmd (g_hdlr s))) (tid (usb_cmd (g_hdlr s))) @ content"
proof -
  define n where "n = (if file_size info + 12 < ucast (c_read_file c) then ucast (file_size info) else c_read_file c - 12)"
  have pos: "0 < unat (file_size info)" "unat (file_size info) + 12 < 2 ^ 64" using assms(10-12) by auto
  note f = first_packet[OF pos assms(3) n_def]
  have "unat (file_size info) < 2 ^ 63" using assms(11,12) by simp
  from unat_sat_len[OF this] have "unat (sat_len (file_size info)) = min (length content + 12) 0xFFFFFFFF"
    using assms(11) by simp
  from arg_cong[OF this, of "of_nat :: nat \<Rightarrow> u32"] have l: "sat_len (file_size info) = of_nat (min (length content + 12) 0xFFFFFFFF)"
    unfolding of_nat_unat_word .
  let ?hd = "header_bytes (sat_len (file_size info)) CONTAINER_DATA_BLK (cmd_code s) (tid (usb_cmd (g_hdlr s)))"
  have len: "unat (file_size info + 12) = 12 + length content" "unat n \<le> length content" "unat n = length content \<or> unat (c_read_file c) = unat n + 12"
    using f assms(11) by auto
  obtain blk where blk: "hdlr_alloc_buf_data_container (data_container_for s) n (file_size info) = Some (blk, True)"
    "cdata blk = Some (?hd @ replicate (unat n) 0)" "unat (len blk) = unat n + 12"
    using alloc_buf_ok(1)[OF f(3), of "data_container_for s" "file_size info"] alloc_buf_ok(2)[OF f(3)] by auto
  have q: "quiet c (set_phase DEVICE_PHASE_DATAIN s)" "0 < unat (c_read_file c)" using assms(2,3) by simp_all
  from transfer_file_delivers[OF assms(1) q(1) blk(2) length_header_bytes blk(3) f(1) len(2,1) q(2) len(3)] obtain s' ps where
    "transfer_file c blk n (file_size info + 12) content (set_phase DEVICE_PHASE_DATAIN s) = Some (s', PTP_RESPONSE_OK)"
    "g_txq s' = g_txq s @ ps" "payload ps = ?hd @ content" "usb_cmd (g_hdlr s') = usb_cmd (g_hdlr s)"
    by auto
  with assms blk(1) l show ?thesis
    by (auto simp: get_object_def Let_def n_def)
qed

section \<open>Reading a part of a file\<close>

lemma partial_bytes_min:
  assumes "unat offset \<le> unat f_size"
  shows "unat (partial_bytes f_size offset data_sz) = min (unat data_sz) (unat f_size - unat offset)"
proof -
  have u: "unat (ucast w :: u64) = unat w" for w :: u32 by (rule unat_ucast_up) simp
  have d: "unat (f_size - ucast offset) = unat f_size - unat offset"
    using assms by (simp add: unat_sub word_le_nat_alt u)
  have "unat (ucast (f_size - ucast offset) :: u32) = unat f_size - unat offset" if "unat f_size - unat offset < unat data_sz"
    using that d unat_u32_less[of data_sz] by (subst unat_ucast_small) simp_all
  then show ?thesis using d by (auto simp: partial_bytes_def word_less_nat_alt u)
qed

lemma send_block_exact:
  assumes "accepting c" "cdata blk = Some d" "unat (len blk) = length d"
  shows "\<exists>ps. hdlr_send_data_container (c_snd c) (c_tx_size c) q blk = Some (q @ ps, True) \<and> payload ps = d"
  using send_pkt_ok[OF assms(1), of "len blk" d q] assms(2,3) by (auto simp: hdlr_send_data_container_def)

lemma zlp_packets: "accepting c \<Longrightarrow> \<exists>zs. transport_send_zlp (c_snd c) q = q @ zs \<and> payload zs = []"
  by (auto simp: transport_send_zlp_def util_msgq_send_def accepting_def mk_pkt_def)

text \<open>C8: a GetPartialObject at an offset within an existing file answers with exactly the slice of the file
  that starts there and has the requested length, cut at the end of the file: the data phase is a header with
  the size of the slice plus twelve followed by these bytes (and possibly an empty packet), and the OK response
  carries their number.\<close>

theorem get_partial_object_slice:
  assumes "accepting c"
    and "get_param s 0 = Some h" "get_param s 1 = Some offset" "get_param s 2 = Some data_sz"
    and "device_get_object_with_handle (g_dev s) h = Some obj" "obj_info obj = Some info" "file_path obj = Some path"
    and "protcn_status info \<noteq> MTP_PROTECTIONSTATUS_NONTRANSFERABLE_DATA" "length path \<le> MTP_MAX_PATHNAME_SIZE"
    and "os_content (c_os c) (g_fs s) path = Inl (content, e)" "unat (file_size info) = length content"
    and "unat offset \<le> length content" "n = min (unat data_sz) (length content - unat offset)" "n + 12 < 2 ^ 32"
  shows "\<exists>s' ps. get_partial_object c s = Some s' \<and> phase (g_dev s') = DEVICE_PHASE_IDLE
     \<and> g_txq s' = g_txq s @ ps @ [resp_pkt PTP_RESPONSE_OK (tid (usb_cmd (g_hdlr s))) [of_nat n]]
     \<and> payload ps = header_bytes (of_nat (n + 12)) CONTAINER_DATA_BLK
          (code (usb_cmd (g_hdlr s))) (tid (usb_cmd (g_hdlr s))) @ take n (drop (unat offset) content)"
proof -
  let ?k = "partial_bytes (file_size info) offset data_sz"
  have k: "unat ?k = n" using partial_bytes_min[of offset "file_size info" data_sz] assms(11-13) by simp
  have kn: "?k = of_nat n" using k by (metis of_nat_unat_word)
  have f: "unat ?k + 12 < 2 ^ 32" using k assms(14) by simp
  have "unat (sat_len (ucast ?k)) = n + 12"
    using unat_sat_len[of "ucast ?k"] unat_ucast_up[of ?k, where ?'b = 64] k assms(14) by simp
  then have l: "sat_len (ucast ?k) = of_nat (n + 12)" by (metis of_nat_unat_word)
  let ?hd = "header_bytes (of_nat (n + 12)) CONTAINER_DATA_BLK (cmd_code s) (tid (usb_cmd (g_hdlr s)))"
  let ?bs = "take n (drop (unat offset) content)"
  have bs: "length ?bs = n" using assms(12,13) by simp
  obtain blk where blk: "hdlr_alloc_buf_data_container (data_container_for s) ?k (ucast ?k) = Some (blk, True)"
    "cdata blk = Some (?hd @ replicate n 0)" "unat (len blk) = n + 12"
    using alloc_buf_ok(1)[OF f, of "data_container_for s" "ucast ?k"] alloc_buf_ok(2)[OF f] k l by auto
  have path: "g_strlcpy path (MTP_MAX_PATHNAME_SIZE + 1) = path" using assms(9) by (simp add: g_strlcpy_def)
  have rd: "hutil_read_file_data_from_offset c h offset ?k s = Some (s\<lparr>g_copy_src := path\<rparr>, Inl ?bs)"
    using assms path k bs by (simp add: hutil_read_file_data_from_offset_def)
  have fill: "fill_payload blk ?bs = Some (blk\<lparr>cdata := Some (?hd @ ?bs)\<rparr>)"
    using blk bs by (simp add: fill_payload_def)
  obtain ps where ps: "hdlr_send_data_container (c_snd c) (c_tx_size c) (g_txq s) (blk\<lparr>cdata := Some (?hd @ ?bs)\<rparr>)
      = Some (g_txq s @ ps, True)" "payload ps = ?hd @ ?bs"
    using send_block_exact[OF assms(1), of "blk\<lparr>cdata := Some (?hd @ ?bs)\<rparr>" "?hd @ ?bs" "g_txq s"] blk bs by auto
  define s2 where "s2 = set_phase DEVICE_PHASE_DATAIN (s\<lparr>g_copy_src := path, g_txq := g_txq s @ ps\<rparr>)"
  have ans: "cmd_hdlr_send_response c PTP_RESPONSE_OK 1 (Some [?k]) s3 = Some (set_phase DEVICE_PHASE_IDLE
      (s3\<lparr>g_txq := g_txq s3 @ [resp_pkt PTP_RESPONSE_OK (tid (usb_cmd (g_hdlr s3))) [of_nat n]]\<rparr>), True)" for s3
    using send_response_ok[OF assms(1), of "[?k]" 1 "Some [?k]" PTP_RESPONSE_OK s3] kn by simp
  obtain zs where zs: "transport_send_zlp (c_snd c) (g_txq s2) = g_txq s2 @ zs" "payload zs = []"
    using zlp_packets[OF assms(1)] by blast
  have s2: "g_txq s2 = g_txq s @ ps" "usb_cmd (g_hdlr s2) = usb_cmd (g_hdlr s)" by (simp_all add: s2_def)
  obtain s3 rs where s3: "s3 = (if (ucast ?k + 12 :: u64) mod ucast (c_pkt_len c) = 0
      then s2\<lparr>g_txq := transport_send_zlp (c_snd c) (g_txq s2)\<rparr> else s2)" "g_txq s3 = g_txq s @ ps @ rs" "payload rs = []"
    "usb_cmd (g_hdlr s3) = usb_cmd (g_hdlr s)"
    using s2 zs by (cases "(ucast ?k + 12 :: u64) mod ucast (c_pkt_len c) = 0") auto
  have run: "get_partial_object c s = map_option fst (cmd_hdlr_send_response c PTP_RESPONSE_OK 1 (Some [?k]) s3)"
    using assms(2-6) blk(1) rd fill ps(1) unfolding s3(1) s2_def
    by (simp add: get_partial_object_def hutil_get_object_entry_size_def Let_def)
  show ?thesis
    using s3(2-4) ps(2) unfolding run ans by (auto intro!: exI[of _ "ps @ rs"])
qed

text \<open>C38: a GetPartialObject that would transfer more than 0xFFFFFFF4 bytes has no defined behaviour: the size
  of the container wraps around, the header is written over a buffer that is too small for it.\<close>

theorem get_partial_object_overrun:
  assumes "get_param s 0 = Some h" "get_param s 1 = Some offset" "get_param s 2 = Some data_sz"
    and "device_get_object_with_handle (g_dev s) h = Some obj" "obj_info obj = Some info"
    and "unat offset \<le> unat (file_size info)" "2 ^ 32 - 12 < min (unat data_sz) (unat (file_size info) - unat offset)"
  shows "get_partial_object c s = None"
proof -
  let ?k = "partial_bytes (file_size info) offset data_sz"
  have "2 ^ 32 - 12 < unat ?k" using partial_bytes_min[OF assms(6)] assms(7) by simp
  moreover have "unat (?k + 12) = (unat ?k + 12) mod 2 ^ 32" by (simp add: unat_word_ariths)
  moreover have "unat ?k < 2 ^ 32" using unat_u32_less[of ?k] by simp
  ultimately have "unat (?k + 12) = unat ?k + 12 - 2 ^ 32" by (simp add: mod_if)
  then have "0 < unat (?k + 12)" "unat (?k + 12) < 12" using \<open>2 ^ 32 - 12 < unat ?k\<close> \<open>unat ?k < 2 ^ 32\<close> by simp_all
  then have "hdlr_alloc_buf_data_container (data_container_for s) ?k (ucast ?k) = None"
    by (auto simp: hdlr_alloc_buf_data_container_def Let_def)
  then show ?thesis
    using assms by (simp add: get_partial_object_def hutil_get_object_entry_size_def Let_def)
qed

section \<open>Sessions\<close>

lemma map_update_same [simp]: "(map f xs)[i := f (xs ! i)] = map f xs"
  by (metis list_update_id map_update)

lemma finish_objects [simp]:
  "g_fs (finish_command s) = g_fs s" "map obj_list (store_list (g_dev (finish_command s))) = map obj_list (store_list (g_dev s))"
  by (auto simp: finish_command_def upd_hdlr_def Let_def map_update split: option.split)

text \<open>C14: outside a session every command but GetDeviceInfo and OpenSession is answered with
  SessionNotOpen, once and without parameters, and has no other effect on files, objects or the session.\<close>

theorem session_required:
  assumes "accepting c" "session_id (g_hdlr s) = 0" "code cmd \<noteq> PTP_OPCODE_GETDEVICEINFO" "code cmd \<noteq> PTP_OPCODE_OPENSESSION"
    and "unat (no_param cmd) \<le> length (params cmd)" "unat (no_param cmd) \<le> length (params (usb_cmd (g_hdlr s)))"
  shows "\<exists>s'. process_commands c cmd s = Some s' \<and> g_txq s' = g_txq s @ [resp_pkt PTP_RESPONSE_SESSIONNOTOPEN (tid cmd) []]
     \<and> phase (g_dev s') = DEVICE_PHASE_IDLE \<and> session_id (g_hdlr s') = 0 \<and> g_fs s' = g_fs s
     \<and> map obj_list (store_list (g_dev s')) = map obj_list (store_list (g_dev s))"
  using assms by (auto simp: process_commands_def hdlr_copy_cmd_container_def upd_hdlr_def Let_def)

section \<open>Witnesses\<close>

text \<open>A mounted device that has received a command for object 9.\<close>

definition asked :: "u16 \<Rightarrow> u32 list \<Rightarrow> ram sys" where
  "asked cd ps = upd_hdlr (\<lambda>hd. hd\<lparr>usb_cmd := command cd ps\<rparr>) ready_sys"

lemma asked_sel [simp]:
  "usb_cmd (g_hdlr (asked cd ps)) = command cd ps" "g_dev (asked cd ps) = mounted_device" "g_txq (asked cd ps) = []"
  "g_fs (asked cd ps) = [''/media/card/a.jpg'' \<mapsto> [1, 2, 3, 4, 5]]" "g_ctrl (asked cd ps) = 0"
  by (simp_all add: asked_def upd_hdlr_def ready_sys_def)

lemma asked_object: "device_get_object_with_handle mounted_device 9 = Some file_obj"
  by (simp add: device_get_object_with_handle_def mounted_device_def entity_get_object_from_store_def card_store_def
    file_obj_def demo_obj_def)

lemma asked_param:
  "get_param (asked cd [a]) 0 = Some a" "any_param (asked cd [a]) [1, 2] = Some False"
  "get_param (asked cd [a, b, d]) 0 = Some a" "get_param (asked cd [a, b, d]) 1 = Some b" "get_param (asked cd [a, b, d]) 2 = Some d"
  by (simp_all add: any_param_def get_param_def hdlr_get_param_cmd_container_def command_def)

lemma file_obj_sel:
  "obj_info file_obj = Some (demo_info\<lparr>file_size := 5\<rparr>)" "file_path file_obj = Some ''/media/card/a.jpg''"
  by (simp_all add: file_obj_def demo_obj_def)

lemma asked_content: "os_content (c_os ram_conf) (g_fs (asked cd ps)) ''/media/card/a.jpg'' = Inl ([1, 2, 3, 4, 5], False)"
  by (simp add: ram_conf_def ram_env_def ram_os_def)

theorem get_object_delivers_witness:
  "\<exists>s' ps. get_object ram_conf (asked PTP_OPCODE_GETOBJECT [9]) = Some s' \<and> phase (g_dev s') = DEVICE_PHASE_IDLE
     \<and> g_txq s' = ps @ [resp_pkt PTP_RESPONSE_OK 7 []]
     \<and> payload ps = header_bytes 17 CONTAINER_DATA_BLK PTP_OPCODE_GETOBJECT 7 @ [1, 2, 3, 4, 5]"
  using get_object_delivers[of ram_conf "asked PTP_OPCODE_GETOBJECT [9]" 9 file_obj _ _ "[1, 2, 3, 4, 5]" False,
      OF ram_accepting _ _ asked_param(2,1) _ file_obj_sel asked_content]
  by (simp add: asked_object quiet_def ram_conf_def command_def)

theorem get_partial_object_slice_witness:
  "\<exists>s' ps. get_partial_object ram_conf (asked PTP_OPCODE_GETPARTIALOBJECT [9, 2, 100]) = Some s'
     \<and> phase (g_dev s') = DEVICE_PHASE_IDLE \<and> g_txq s' = ps @ [resp_pkt PTP_RESPONSE_OK 7 [3]]
     \<and> payload ps = header_bytes 15 CONTAINER_DATA_BLK PTP_OPCODE_GETPARTIALOBJECT 7 @ [3, 4, 5]"
  using get_partial_object_slice[of ram_conf "asked PTP_OPCODE_GETPARTIALOBJECT [9, 2, 100]" 9 2 100 file_obj _ _ "[1, 2, 3, 4, 5]" False 3,
      OF ram_accepting asked_param(3,4,5) _ file_obj_sel _ _ asked_content]
  by (simp add: asked_object command_def demo_info_def zero_info_def)

theorem get_partial_object_overrun_witness:
  "get_partial_object ram_conf (upd_store 0 (card_store\<lparr>obj_list := [demo_obj]\<rparr>) (asked PTP_OPCODE_GETPARTIALOBJECT [9, 0, 0xFFFFFFFF])) = None"
  by (rule get_partial_object_overrun[where h = 9 and offset = 0 and data_sz = "0xFFFFFFFF" and obj = demo_obj and info = demo_info])
    (simp_all add: get_param_def hdlr_get_param_cmd_container_def command_def device_get_object_with_handle_def
      mounted_device_def entity_get_object_from_store_def card_store_def demo_obj_def demo_info_def)

theorem session_required_witness:
  "\<exists>s'. process_commands ram_conf (command PTP_OPCODE_DELETEOBJECT [9]) (cmd_hdlr_reset_cmd ready_sys) = Some s'
     \<and> g_txq s' = [resp_pkt PTP_RESPONSE_SESSIONNOTOPEN 7 []] \<and> g_fs s' = g_fs ready_sys"
  using session_required[of ram_conf "cmd_hdlr_reset_cmd ready_sys" "command PTP_OPCODE_DELETEOBJECT [9]"] ram_accepting
  by (auto simp: cmd_hdlr_reset_cmd_def command_def zero_cmd_def ready_sys_def)

end
