(* ===== verification/Receiving.thy ===== *)
theory Receiving
  imports Commands
begin

text \<open>
  The data phase from the host: packet after packet arrives at the callback,
  is collected in the buffer of the temporary file and written out when the
  buffer is full; with the last packet the command that was waiting is run.
  The theorems show that the file holds exactly the bytes that the host sent,
  and which packets break this.
\<close>

section \<open>Files that keep what is written\<close>

definition reliable :: "'fs os \<Rightarrow> string \<Rightarrow> bool" where
  "reliable os p \<longleftrightarrow>
     (\<forall>fs. snd (os_create os fs p) = None \<and> os_content os (fst (os_create os fs p)) p = Inl ([], False))
   \<and> (\<forall>fs old bs. os_content os fs p = Inl (old, False) \<longrightarrow> os_content os (fst (os_append os fs p bs)) p = Inl (old @ bs, False))
   \<and> (\<forall>fs. os_stat os fs p \<noteq> None \<longrightarrow> snd (os_remove os fs p) = None)"

text \<open>No control request arrives.\<close>

definition undisturbed :: "'fs conf \<Rightarrow> 'fs sys \<Rightarrow> bool" where
  "undisturbed c s \<longleftrightarrow> (\<forall>n. c_ctrl c n = 0) \<and> g_ctrl s = 0"

lemma undisturbed_control:
  "undisturbed c s \<Longrightarrow> process_control c pkt s = Some (s\<lparr>g_clk := Suc (g_clk s)\<rparr>, Some pkt)"
  by (simp add: process_control_def take_ctrl_def undisturbed_def)

text \<open>The sizes of a configuration: a packet fits into the buffer, and no counter wraps around.\<close>

definition sizes_ok :: "'fs conf \<Rightarrow> 'fs sys \<Rightarrow> bool" where
  "sizes_ok c s \<longleftrightarrow> 12 < unat (c_rx_size c) \<and> unat (c_rx_size c) \<le> unat (c_write_file c)
     \<and> unat (c_write_file c) + unat (c_rx_size c) < 2 ^ 32 \<and> length (temp_buff (g_ftemp s)) = unat (c_write_file c)"

section \<open>One packet\<close>

text \<open>The bytes received so far are the file and the filled part of the buffer.\<close>

definition buffered :: "'fs conf \<Rightarrow> string \<Rightarrow> u8 list \<Rightarrow> 'fs sys \<Rightarrow> bool" where
  "buffered c path got s \<longleftrightarrow>
     fhandle (g_ftemp s) = Some path \<and> filepath (g_ftemp s) = Some path
   \<and> (\<exists>old. os_content (c_os c) (g_fs s) path = Inl (old, False)
        \<and> got = old @ take (unat (data_size (g_ftemp s))) (temp_buff (g_ftemp s)))
   \<and> unat (data_size (g_ftemp s)) \<le> unat (c_write_file c)"

definition receiving :: "'fs conf \<Rightarrow> string \<Rightarrow> nat \<Rightarrow> u8 list \<Rightarrow> 'fs sys \<Rightarrow> bool" where
  "receiving c path tot got s \<longleftrightarrow> buffered c path got s
   \<and> unat (size_remaining (g_ftemp s)) = length got \<and> unat (tfile_size (g_ftemp s)) = tot
   \<and> 0 < unat (data_count (g_ftemp s)) \<and> unat (data_count (g_ftemp s)) \<le> length got + 1"

text \<open>What a packet leaves alone.\<close>

definition framed :: "'fs sys \<Rightarrow> 'fs sys \<Rightarrow> bool" where
  "framed s s' \<longleftrightarrow> g_dev s' = g_dev s \<and> g_hdlr s' = g_hdlr s \<and> g_txq s' = g_txq s \<and> g_send_object s' = g_send_object s
     \<and> g_ctrl s' = g_ctrl s \<and> cmd_buf (g_ftemp s') = cmd_buf (g_ftemp s) \<and> cmd_size (g_ftemp s') = cmd_size (g_ftemp s)
     \<and> header_buf (g_ftemp s') = header_buf (g_ftemp s) \<and> length (temp_buff (g_ftemp s')) = length (temp_buff (g_ftemp s))"

lemma framed_trans [trans]: "framed s s1 \<Longrightarrow> framed s1 s2 \<Longrightarrow> framed s s2"
  by (simp add: framed_def)

lemma flush_temp_spec:
  assumes "reliable (c_os c) path" "fhandle (g_ftemp s) = Some path" "os_content (c_os c) (g_fs s) path = Inl (old, False)"
    "unat (data_size (g_ftemp s)) \<le> length (temp_buff (g_ftemp s))"
  shows "\<exists>s'. flush_temp c s = Some s' \<and> framed s s' \<and> g_ftemp s' = (g_ftemp s)\<lparr>data_size := 0\<rparr> \<and> g_op_state s' = g_op_state s
     \<and> os_content (c_os c) (g_fs s') path = Inl (old @ take (unat (data_size (g_ftemp s))) (temp_buff (g_ftemp s)), False)"
  using assms by (auto simp: flush_temp_def upd_ftemp_def framed_def reliable_def Let_def)

text \<open>Making room: the buffer is written out when the packet does not fit under the limit.\<close>

lemma make_room:
  assumes r: "reliable (c_os c) path" and z: "sizes_ok c s" and st: "buffered c path got s" and k: "k \<le> unat (c_rx_size c)"
  shows "\<exists>s' old. (if c_write_file c < data_size (g_ftemp s) + of_nat k then flush_temp c s else Some s) = Some s' \<and> framed s s'
     \<and> (\<exists>d. g_ftemp s' = (g_ftemp s)\<lparr>data_size := d\<rparr>) \<and> g_op_state s' = g_op_state s
     \<and> os_content (c_os c) (g_fs s') path = Inl (old, False)
     \<and> got = old @ take (unat (data_size (g_ftemp s'))) (temp_buff (g_ftemp s'))
     \<and> unat (data_size (g_ftemp s')) + k \<le> unat (c_write_file c)"
proof -
  obtain old where old: "os_content (c_os c) (g_fs s) path = Inl (old, False)"
    "got = old @ take (unat (data_size (g_ftemp s))) (temp_buff (g_ftemp s))" using st by (auto simp: buffered_def)
  have d: "unat (data_size (g_ftemp s)) \<le> unat (c_write_file c)" using st by (simp add: buffered_def)
  have sum: "unat (data_size (g_ftemp s) + of_nat k) = unat (data_size (g_ftemp s)) + k"
    using d k z by (intro unat_add_of_nat) (simp add: sizes_ok_def)
  show ?thesis
  proof (cases "c_write_file c < data_size (g_ftemp s) + of_nat k")
    case True
    have "unat (data_size (g_ftemp s)) \<le> length (temp_buff (g_ftemp s))" using d z by (simp add: sizes_ok_def)
    from flush_temp_spec[OF r _ old(1) this] st obtain s' where
      "flush_temp c s = Some s'" "framed s s'" "g_ftemp s' = (g_ftemp s)\<lparr>data_size := 0\<rparr>" "g_op_state s' = g_op_state s"
      "os_content (c_os c) (g_fs s') path = Inl (got, False)" by (auto simp: buffered_def old)
    with True k z show ?thesis by (auto simp: sizes_ok_def)
  next
    case False
    then have "unat (data_size (g_ftemp s)) + k \<le> unat (c_write_file c)" using sum by (simp add: word_less_nat_alt)
    with False old show ?thesis
      by (auto simp: framed_def intro!: exI[of _ old] exI[of _ "data_size (g_ftemp s)"])
  qed
qed

lemma put_temp_spec:
  assumes "unat (data_size t) + length pkt \<le> length (temp_buff t)" "length (temp_buff t) < 2 ^ 32"
  shows "\<exists>t'. put_temp pkt t = Some t' \<and> t' = t\<lparr>temp_buff := temp_buff t', data_size := data_size t'\<rparr>
     \<and> unat (data_size t') = unat (data_size t) + length pkt \<and> length (temp_buff t') = length (temp_buff t)
     \<and> take (unat (data_size t')) (temp_buff t') = take (unat (data_size t)) (temp_buff t) @ pkt"
proof -
  have u: "unat (data_size t + of_nat (length pkt)) = unat (data_size t) + length pkt"
    using assms by (intro unat_add_of_nat) simp
  show ?thesis using assms by (auto simp: put_temp_def Let_def u)
qed

lemma add_packet:
  assumes b: "buffered c path got s" and z: "sizes_ok c s" and room: "unat (data_size (g_ftemp s)) + length pkt \<le> unat (c_write_file c)"
  shows "\<exists>t. put_temp pkt (g_ftemp s) = Some t \<and> t = (g_ftemp s)\<lparr>temp_buff := temp_buff t, data_size := data_size t\<rparr>
     \<and> framed s (s\<lparr>g_ftemp := t\<rparr>) \<and> buffered c path (got @ pkt) (s\<lparr>g_ftemp := t\<rparr>)"
proof -
  obtain t where t: "put_temp pkt (g_ftemp s) = Some t" "t = (g_ftemp s)\<lparr>temp_buff := temp_buff t, data_size := data_size t\<rparr>"
    "unat (data_size t) = unat (data_size (g_ftemp s)) + length pkt" "length (temp_buff t) = length (temp_buff (g_ftemp s))"
    "take (unat (data_size t)) (temp_buff t) = take (unat (data_size (g_ftemp s))) (temp_buff (g_ftemp s)) @ pkt"
    using put_temp_spec[of "g_ftemp s" pkt] room z by (auto simp: sizes_ok_def)
  have sel: "fhandle t = fhandle (g_ftemp s)" "filepath t = filepath (g_ftemp s)" "cmd_buf t = cmd_buf (g_ftemp s)"
    "cmd_size t = cmd_size (g_ftemp s)" "header_buf t = header_buf (g_ftemp s)"
    by (subst t(2), simp)+
  then show ?thesis using b t room by (auto simp: framed_def buffered_def intro!: exI[of _ t])
qed

definition counted :: "nat \<Rightarrow> nat \<Rightarrow> temp_file \<Rightarrow> bool" where
  "counted tot k t \<longleftrightarrow> unat (size_remaining t) = k \<and> unat (tfile_size t) = tot \<and> 0 < unat (data_count t) \<and> unat (data_count t) \<le> k + 1"

lemma receiving_counted: "receiving c path tot got s \<longleftrightarrow> buffered c path got s \<and> counted tot (length got) (g_ftemp s)"
  by (auto simp: receiving_def counted_def)

lemma count_packet:
  assumes "counted tot k t" "k + length pkt \<le> tot" "tot + 12 < 2 ^ 32" "pkt \<noteq> []"
  shows "counted tot (k + length pkt) (t\<lparr>data_count := data_count t + 1, size_remaining := size_remaining t + of_nat (length pkt)\<rparr>)"
proof -
  have l: "0 < length pkt" using assms(4) by simp
  have "unat (size_remaining t + of_nat (length pkt)) = k + length pkt" "unat (data_count t + 1) = unat (data_count t) + 1"
    using assms l unat_add_of_nat[of "size_remaining t" "length pkt"] unat_add_of_nat[of "data_count t" 1]
    by (auto simp: counted_def)
  then show ?thesis using assms(1,4) by (cases pkt) (simp_all add: counted_def)
qed

lemma collect_packet:
  assumes r: "reliable (c_os c) path" and z: "sizes_ok c s" and st: "receiving c path tot got s"
    and pkt: "length pkt \<le> unat (c_rx_size c)" "pkt \<noteq> []" "length got + length pkt \<le> tot" "tot + 12 < 2 ^ 32"
  shows "\<exists>s'. framed s s' \<and> g_op_state s' = g_op_state s \<and> receiving c path tot (got @ pkt) s'
     \<and> receive_temp_file_next_packets c pkt s =
         (if length pkt < unat (c_rx_size c) \<or> length got + length pkt = tot
          then do { s4 \<leftarrow> flush_temp c s'; finish_receiving_file_packets c pkt (upd_ftemp (\<lambda>t. t\<lparr>fhandle := None\<rparr>) s4) }
          else Some s')"
proof -
  let ?n = "of_nat (length pkt) :: u32"
  define s1 where "s1 = upd_ftemp (\<lambda>t. t\<lparr>data_count := data_count t + 1, size_remaining := size_remaining t + ?n\<rparr>) s"
  have n: "unat ?n = length pkt" using pkt by (intro unat_of_nat_eq_small) simp
  have f1: "framed s s1" "g_op_state s1 = g_op_state s" "sizes_ok c s1" "buffered c path got s1"
    using z st by (simp_all add: s1_def framed_def upd_ftemp_def sizes_ok_def receiving_def buffered_def)
  have c1: "counted tot (length got + length pkt) (g_ftemp s1)"
    using count_packet[OF _ pkt(3,4,2)] st by (simp add: s1_def upd_ftemp_def receiving_counted)
  from make_room[OF r f1(3,4) pkt(1)] obtain s2 old d where
    s2: "(if c_write_file c < data_size (g_ftemp s1) + ?n then flush_temp c s1 else Some s1) = Some s2" "framed s1 s2"
    "g_ftemp s2 = (g_ftemp s1)\<lparr>data_size := d\<rparr>" "g_op_state s2 = g_op_state s1" "os_content (c_os c) (g_fs s2) path = Inl (old, False)"
    "got = old @ take (unat (data_size (g_ftemp s2))) (temp_buff (g_ftemp s2))" "unat (data_size (g_ftemp s2)) + length pkt \<le> unat (c_write_file c)"
    by blast
  have z2: "sizes_ok c s2" using s2(2) f1(3) by (simp add: framed_def sizes_ok_def)
  have b2: "buffered c path got s2" using s2 f1(4) by (simp add: buffered_def)
  obtain t where t: "put_temp pkt (g_ftemp s2) = Some t" "t = (g_ftemp s2)\<lparr>temp_buff := temp_buff t, data_size := data_size t\<rparr>"
    "framed s2 (s2\<lparr>g_ftemp := t\<rparr>)" "buffered c path (got @ pkt) (s2\<lparr>g_ftemp := t\<rparr>)" using add_packet[OF b2 z2 s2(7)] by blast
  have cnt: "counted tot (length got + length pkt) t" using c1 by (subst t(2)) (simp add: s2(3) counted_def)
  let ?s3 = "s2\<lparr>g_ftemp := t\<rparr>"
  have "framed s ?s3" using framed_trans[OF framed_trans[OF f1(1) s2(2)] t(3)] .
  moreover have "receiving c path tot (got @ pkt) ?s3" using t(4) cnt by (simp add: receiving_counted)
  moreover have "(?n < c_rx_size c \<or> size_remaining t = tfile_size t) = (length pkt < unat (c_rx_size c) \<or> length got + length pkt = tot)"
    using cnt n by (auto simp: word_less_nat_alt counted_def word_unat_eq_iff)
  ultimately show ?thesis
    using s2(1,4) f1(2) t(1) unfolding receive_temp_file_next_packets_def Let_def s1_def[symmetric]
    by (intro exI[of _ ?s3]) simp
qed

lemma next_packet:
  assumes r: "reliable (c_os c) path" and z: "sizes_ok c s" and st: "receiving c path tot got s"
    and pkt: "length pkt \<le> unat (c_rx_size c)" "pkt \<noteq> []" "length got + length pkt \<le> tot" "tot + 12 < 2 ^ 32"
  shows "\<exists>s'. framed s s' \<and> filepath (g_ftemp s') = Some path \<and>
     (if length pkt < unat (c_rx_size c) \<or> length got + length pkt = tot
      then receive_temp_file_next_packets c pkt s = finish_receiving_file_packets c pkt s'
        \<and> os_content (c_os c) (g_fs s') path = Inl (got @ pkt, False)
      else receive_temp_file_next_packets c pkt s = Some s' \<and> receiving c path tot (got @ pkt) s' \<and> g_op_state s' = g_op_state s)"
proof -
  from collect_packet[OF assms] obtain s1 where s1: "framed s s1" "g_op_state s1 = g_op_state s" "receiving c path tot (got @ pkt) s1"
    "receive_temp_file_next_packets c pkt s =
         (if length pkt < unat (c_rx_size c) \<or> length got + length pkt = tot
          then do { s4 \<leftarrow> flush_temp c s1; finish_receiving_file_packets c pkt (upd_ftemp (\<lambda>t. t\<lparr>fhandle := None\<rparr>) s4) }
          else Some s1)" by blast
  obtain old where old: "os_content (c_os c) (g_fs s1) path = Inl (old, False)" "got @ pkt = old @ take (unat (data_size (g_ftemp s1))) (temp_buff (g_ftemp s1))"
    "fhandle (g_ftemp s1) = Some path" "filepath (g_ftemp s1) = Some path" "unat (data_size (g_ftemp s1)) \<le> unat (c_write_file c)"
    using s1(3) by (auto simp: receiving_def buffered_def)
  have "unat (data_size (g_ftemp s1)) \<le> length (temp_buff (g_ftemp s1))" using old(5) s1(1) z by (simp add: sizes_ok_def framed_def)
  from flush_temp_spec[OF r old(3,1) this] obtain s4 where
    s4: "flush_temp c s1 = Some s4" "framed s1 s4" "g_ftemp s4 = (g_ftemp s1)\<lparr>data_size := 0\<rparr>"
    "os_content (c_os c) (g_fs s4) path = Inl (got @ pkt, False)" unfolding old(2) by blast
  show ?thesis
  proof (cases "length pkt < unat (c_rx_size c) \<or> length got + length pkt = tot")
    case True
    let ?s' = "upd_ftemp (\<lambda>t. t\<lparr>fhandle := None\<rparr>) s4"
    have "framed s ?s'" using framed_trans[OF s1(1) s4(2)] by (simp add: framed_def upd_ftemp_def)
    with True s1(4) s4 old(4) show ?thesis by (intro exI[of _ ?s']) (simp add: upd_ftemp_def)
  next
    case False
    with s1 old(4) show ?thesis by (intro exI[of _ s1]) simp
  qed
qed

section \<open>The whole data phase\<close>

lemma bind_foldM_Nil [simp]: "Option.bind m (foldM f []) = m"
  by (cases m) simp_all

definition ready :: "'fs conf \<Rightarrow> 'fs sys \<Rightarrow> bool" where
  "ready c s \<longleftrightarrow> undisturbed c s \<and> MTP_STATE_READY_SERVICE \<le> g_op_state s \<and> phase (g_dev s) = DEVICE_PHASE_DATAOUT \<and> sizes_ok c s"

lemma ready_framed: "ready c s \<Longrightarrow> framed s s' \<Longrightarrow> g_op_state s' = g_op_state s \<Longrightarrow> ready c s'"
  by (simp add: ready_def framed_def undisturbed_def sizes_ok_def)

lemma ready_callback:
  assumes "ready c s"
  shows "receive_mq_data_cb c pkt s =
     (if data_count (g_ftemp s) = 0 then receive_temp_file_first_packet c pkt (s\<lparr>g_clk := Suc (g_clk s)\<rparr>)
      else receive_temp_file_next_packets c pkt (s\<lparr>g_clk := Suc (g_clk s)\<rparr>))"
  using assms by (auto simp: receive_mq_data_cb_def ready_def undisturbed_control process_packet_def)

lemma clock_irrelevant [simp]:
  "ready c (s\<lparr>g_clk := n\<rparr>) = ready c s" "receiving c path tot got (s\<lparr>g_clk := n\<rparr>) = receiving c path tot got s"
  "framed (s\<lparr>g_clk := n\<rparr>) s' = framed s s'" "sizes_ok c (s\<lparr>g_clk := n\<rparr>) = sizes_ok c s"
  by (simp_all add: ready_def undisturbed_def sizes_ok_def receiving_def buffered_def framed_def)

lemma middle_packets:
  assumes "reliable (c_os c) path" "ready c s" "receiving c path tot got s" "tot + 12 < 2 ^ 32"
    "\<forall>m\<in>set mids. length m = unat (c_rx_size c)" "length got + length (concat mids) < tot"
  shows "\<exists>s'. foldM (receive_mq_data_cb c) mids s = Some s' \<and> framed s s' \<and> ready c s' \<and> receiving c path tot (got @ concat mids) s'"
  using assms
proof (induction mids arbitrary: got s)
  case (Cons m mids)
  have z: "sizes_ok c s" using Cons.prems(2) by (simp add: ready_def)
  have m: "length m = unat (c_rx_size c)" "m \<noteq> []" "length got + length m < tot" using Cons.prems z by (auto simp: sizes_ok_def)
  have cnt: "data_count (g_ftemp s) \<noteq> 0" using Cons.prems(3) by (auto simp: receiving_def)
  from next_packet[OF Cons.prems(1), of "s\<lparr>g_clk := Suc (g_clk s)\<rparr>" tot got m] m z Cons.prems(3,4) obtain s1 where
    s1: "framed s s1" "receive_temp_file_next_packets c m (s\<lparr>g_clk := Suc (g_clk s)\<rparr>) = Some s1" "receiving c path tot (got @ m) s1"
    "g_op_state s1 = g_op_state s" by auto
  have "ready c s1" by (rule ready_framed[OF Cons.prems(2) s1(1,4)])
  from Cons.IH[OF Cons.prems(1) this s1(3) Cons.prems(4)] Cons.prems(5,6) obtain s2 where
    "foldM (receive_mq_data_cb c) mids s1 = Some s2" "framed s1 s2" "ready c s2" "receiving c path tot (got @ concat (m # mids)) s2"
    by auto
  then show ?case using s1 cnt framed_trans[OF s1(1)] by (auto simp: ready_callback[OF Cons.prems(2)])
qed (auto simp: framed_def)

text \<open>The file that the data go to.\<close>

definition destination :: "'fs conf \<Rightarrow> 'fs sys \<Rightarrow> string option" where
  "destination c s = (if g_send_object s then filepath (g_ftemp s) else Some (c_tmp c (Suc (g_clk s))))"

lemma fresh_file:
  assumes "reliable os path"
  obtains fs1 fs2 where "(if os_stat os fs path \<noteq> None then os_remove os fs path else (fs, None)) = (fs1, None)"
    "os_create os fs1 path = (fs2, None)" "os_content os fs2 path = Inl ([], False)"
proof -
  define fs1 where "fs1 = (if os_stat os fs path \<noteq> None then fst (os_remove os fs path) else fs)"
  have "(if os_stat os fs path \<noteq> None then os_remove os fs path else (fs, None)) = (fs1, None)"
    using assms by (auto simp: fs1_def reliable_def prod_eq_iff)
  moreover have "os_create os fs1 path = (fst (os_create os fs1 path), None)" "os_content os (fst (os_create os fs1 path)) path = Inl ([], False)"
    using assms by (simp_all add: reliable_def prod_eq_iff)
  ultimately show thesis by (rule that)
qed

lemma first_packet_opens:
  assumes r: "reliable (c_os c) path" and z: "ready c s" "data_count (g_ftemp s) = 0" "destination c s = Some path"
    and hb: "12 \<le> length (header_buf (g_ftemp s))"
    and pkt: "pkt = header_bytes (of_nat (12 + tot)) ty cd ti @ d0" "length pkt \<le> unat (c_rx_size c)" "tot + 12 < 2 ^ 32" "length d0 < tot"
  shows "\<exists>s'. receive_mq_data_cb c pkt s = Some s' \<and> ready c s' \<and> receiving c path tot d0 s'
     \<and> take 12 (header_buf (g_ftemp s')) = header_bytes (of_nat (12 + tot)) ty cd ti
     \<and> g_dev s' = g_dev s \<and> g_hdlr s' = g_hdlr s \<and> g_txq s' = g_txq s
     \<and> cmd_buf (g_ftemp s') = cmd_buf (g_ftemp s) \<and> cmd_size (g_ftemp s') = cmd_size (g_ftemp s)"
proof -
  let ?hd = "header_bytes (of_nat (12 + tot)) ty cd ti"
  define s1 where "s1 = (if g_send_object s then s else upd_ftemp (\<lambda>t. t\<lparr>filepath := Some path\<rparr>) s)
      \<lparr>g_clk := Suc (g_clk s), g_op_state := MTP_STATE_DATA_TRANSFER_DL\<rparr>"
  have p: "filepath (g_ftemp s1) = Some path" using z(3) by (auto simp: s1_def destination_def upd_ftemp_def)
  obtain fs1 fs2 where rm: "(if os_stat (c_os c) (g_fs s) path \<noteq> None then os_remove (c_os c) (g_fs s) path else (g_fs s, None)) = (fs1, None)"
    and fs2: "os_create (c_os c) fs1 path = (fs2, None)" "os_content (c_os c) fs2 path = Inl ([], False)"
    by (rule fresh_file[OF r])
  have l: "unat (of_nat (12 + tot) - 12 :: u32) = tot" "unat (of_nat (length pkt) - 12 :: u32) = length d0"
    using pkt unat_of_nat_eq_small[where 'a = 32] by (simp_all add: unat_of_nat_eq_small)
  then have ne: "of_nat (length pkt) - 12 \<noteq> (of_nat (12 + tot) - 12 :: u32)" using pkt(4) by auto
  have fit: "length d0 \<le> length (temp_buff (g_ftemp s))" using pkt(1,2) z(1) by (simp add: ready_def sizes_ok_def)
  define s2 where "s2 = upd_ftemp (\<lambda>t. t\<lparr>fhandle := Some path, header_buf := ?hd @ drop 12 (header_buf t), tfile_size := of_nat (12 + tot) - 12,
      data_size := of_nat (length pkt) - 12, data_count := 1, size_remaining := of_nat (length pkt) - 12,
      temp_buff := d0 @ drop (length d0) (temp_buff t)\<rparr>) (s1\<lparr>g_fs := fs2\<rparr>)"
  have "receive_mq_data_cb c pkt s = Some s2"
    using z p rm fs2(1) ne fit hb pkt(1)
    by (auto simp: ready_callback[OF z(1)] receive_temp_file_first_packet_def store_first_packet_def s2_def s1_def destination_def upd_ftemp_def over_write_def Let_def split: if_splits)
  moreover have "ready c s2" using z(1) fit by (auto simp: s2_def s1_def ready_def undisturbed_def sizes_ok_def upd_ftemp_def less_eq_mtp_op_state_def)
  moreover have "receiving c path tot d0 s2" using fs2(2) p l pkt(2) z(1) fit
    by (auto simp: s2_def receiving_def buffered_def upd_ftemp_def ready_def sizes_ok_def)
  moreover have "take 12 (header_buf (g_ftemp s2)) = ?hd" by (simp add: s2_def upd_ftemp_def)
  moreover have "g_dev s2 = g_dev s \<and> g_hdlr s2 = g_hdlr s \<and> g_txq s2 = g_txq s
     \<and> cmd_buf (g_ftemp s2) = cmd_buf (g_ftemp s) \<and> cmd_size (g_ftemp s2) = cmd_size (g_ftemp s)"
    by (simp add: s2_def s1_def upd_ftemp_def)
  ultimately show ?thesis by blast
qed

lemma single_packet_writes:
  assumes r: "reliable (c_os c) path" and z: "ready c s" "data_count (g_ftemp s) = 0" "destination c s = Some path"
    and hb: "12 \<le> length (header_buf (g_ftemp s))"
    and pkt: "pkt = header_bytes (of_nat (12 + length d)) ty cd ti @ d" "length d + 12 < 2 ^ 32"
  shows "\<exists>s'. receive_mq_data_cb c pkt s = finish_receiving_file_packets c pkt s'
     \<and> os_content (c_os c) (g_fs s') path = Inl (d, False) \<and> filepath (g_ftemp s') = Some path
     \<and> take 12 (header_buf (g_ftemp s')) = header_bytes (of_nat (12 + length d)) ty cd ti
     \<and> g_dev s' = g_dev s \<and> g_hdlr s' = g_hdlr s \<and> g_txq s' = g_txq s
     \<and> cmd_buf (g_ftemp s') = cmd_buf (g_ftemp s) \<and> cmd_size (g_ftemp s') = cmd_size (g_ftemp s)"
proof -
  let ?hd = "header_bytes (of_nat (12 + length d)) ty cd ti"
  obtain fs1 fs2 where rm: "(if os_stat (c_os c) (g_fs s) path \<noteq> None then os_remove (c_os c) (g_fs s) path else (g_fs s, None)) = (fs1, None)"
    and fs2: "os_create (c_os c) fs1 path = (fs2, None)" "os_content (c_os c) fs2 path = Inl ([], False)"
    by (rule fresh_file[OF r])
  define fs3 where "fs3 = fst (os_append (c_os c) fs2 path d)"
  have fs3: "os_content (c_os c) fs3 path = Inl (d, False)" using r fs2(2) by (auto simp: fs3_def reliable_def)
  define s2 where "s2 = upd_ftemp (\<lambda>t. t\<lparr>filepath := Some path, fhandle := None, header_buf := ?hd @ drop 12 (header_buf t),
      tfile_size := of_nat (12 + length d) - 12, data_size := 0\<rparr>)
      (s\<lparr>g_fs := fs3, g_clk := Suc (g_clk s), g_op_state := MTP_STATE_DATA_TRANSFER_DL\<rparr>)"
  have "receive_mq_data_cb c pkt s = finish_receiving_file_packets c pkt s2"
    using z rm fs2(1) hb pkt(1)
    by (auto simp: ready_callback[OF z(1)] receive_temp_file_first_packet_def store_first_packet_def s2_def fs3_def destination_def upd_ftemp_def over_write_def Let_def split: if_splits
        intro!: arg_cong[of _ _ "finish_receiving_file_packets c _"] sys.equality temp_file.equality)
  then show ?thesis using fs3 by (auto simp: s2_def upd_ftemp_def)
qed

text \<open>The packets in which a data phase may arrive.\<close>

definition packets_of :: "nat \<Rightarrow> u8 list \<Rightarrow> u8 list \<Rightarrow> u8 list list \<Rightarrow> bool" where
  "packets_of rx hdr data pkts \<longleftrightarrow>
     (pkts = [hdr @ data] \<and> length (hdr @ data) \<le> rx)
   \<or> (\<exists>d0 mids lst. pkts = (hdr @ d0) # mids @ [lst] \<and> data = d0 @ concat mids @ lst \<and> length (hdr @ d0) \<le> rx
        \<and> (\<forall>m\<in>set mids. length m = rx) \<and> lst \<noteq> [] \<and> length lst \<le> rx)"

lemma data_phase_collected:
  assumes r: "reliable (c_os c) path" and z: "ready c s" "data_count (g_ftemp s) = 0" "destination c s = Some path"
    and hb: "12 \<le> length (header_buf (g_ftemp s))" and tot: "length data + 12 < 2 ^ 32"
    and pkts: "packets_of (unat (c_rx_size c)) (header_bytes (of_nat (12 + length data)) ty cd ti) data pkts"
  shows "\<exists>s'. foldM (receive_mq_data_cb c) pkts s = finish_receiving_file_packets c (last pkts) s'
     \<and> os_content (c_os c) (g_fs s') path = Inl (data, False) \<and> filepath (g_ftemp s') = Some path
     \<and> take 12 (header_buf (g_ftemp s')) = header_bytes (of_nat (12 + length data)) ty cd ti
     \<and> g_dev s' = g_dev s \<and> g_hdlr s' = g_hdlr s \<and> g_txq s' = g_txq s
     \<and> cmd_buf (g_ftemp s') = cmd_buf (g_ftemp s) \<and> cmd_size (g_ftemp s') = cmd_size (g_ftemp s)"
proof (cases "pkts = [header_bytes (of_nat (12 + length data)) ty cd ti @ data]")
  case True
  with single_packet_writes[OF r z hb refl tot] show ?thesis by (auto cong: Option.bind_cong)
next
  case False
  let ?hd = "header_bytes (of_nat (12 + length data)) ty cd ti"
  obtain d0 mids lst where p: "pkts = (?hd @ d0) # mids @ [lst]" "data = d0 @ concat mids @ lst" "length (?hd @ d0) \<le> unat (c_rx_size c)"
    "\<forall>m\<in>set mids. length m = unat (c_rx_size c)" "lst \<noteq> []" "length lst \<le> unat (c_rx_size c)"
    using pkts False by (auto simp: packets_of_def)
  have lt: "length d0 < length data" "length d0 + length (concat mids) < length data" using p(2,5) by auto
  from first_packet_opens[OF r z hb refl p(3) tot lt(1)] obtain s1 where
    s1: "receive_mq_data_cb c (?hd @ d0) s = Some s1" "ready c s1" "receiving c path (length data) d0 s1"
    "take 12 (header_buf (g_ftemp s1)) = ?hd" "g_dev s1 = g_dev s" "g_hdlr s1 = g_hdlr s" "g_txq s1 = g_txq s"
    "cmd_buf (g_ftemp s1) = cmd_buf (g_ftemp s)" "cmd_size (g_ftemp s1) = cmd_size (g_ftemp s)" by blast
  from middle_packets[OF r s1(2,3) tot p(4) lt(2)] obtain s2 where
    s2: "foldM (receive_mq_data_cb c) mids s1 = Some s2" "framed s1 s2" "ready c s2" "receiving c path (length data) (d0 @ concat mids) s2"
    by blast
  have cnt: "data_count (g_ftemp s2) \<noteq> 0" using s2(4) by (auto simp: receiving_def)
  have "sizes_ok c s2" using s2(3) by (simp add: ready_def)
  with next_packet[OF r, of "s2\<lparr>g_clk := Suc (g_clk s2)\<rparr>" "length data" "d0 @ concat mids" lst] s2(4) p(2,5,6) tot obtain s3 where
    s3: "framed s2 s3" "filepath (g_ftemp s3) = Some path" "os_content (c_os c) (g_fs s3) path = Inl (data, False)"
    "receive_temp_file_next_packets c lst (s2\<lparr>g_clk := Suc (g_clk s2)\<rparr>) = finish_receiving_file_packets c lst s3"
    by auto
  have "foldM (receive_mq_data_cb c) pkts s = finish_receiving_file_packets c (last pkts) s3"
    using s1(1) s2(1) s3(4) cnt by (simp add: p(1) ready_callback[OF s2(3)] foldM_append)
  moreover have "framed s1 s3" by (rule framed_trans[OF s2(2) s3(1)])
  ultimately show ?thesis using s1 s3(2,3) by (auto simp: framed_def)
qed

lemma finish_runs:
  assumes "hdlr_validate_cmd_container pkt (of_nat (length pkt)) = Some direct"
    and "\<not> direct \<Longrightarrow> hdlr_validate_cmd_container (cmd_buf (g_ftemp s)) (cmd_size (g_ftemp s)) = Some True"
    and "hdlr_copy_cmd_container_unknown_params (if direct then pkt else cmd_buf (g_ftemp s)) zero_cmd = Some cmd"
  shows "finish_receiving_file_packets c pkt s =
     process_commands c cmd (upd_ftemp (\<lambda>t. t\<lparr>data_count := 0\<rparr>) s\<lparr>g_op_state := MTP_STATE_ONSERVICE\<rparr>)"
  using assms by (cases direct) (auto simp: finish_receiving_file_packets_def upd_ftemp_def Let_def)

text \<open>C3: a data phase that arrives packet by packet is reassembled: when its header announces the right
  length, the packets between the first and the last are full, and the last one does not itself look like a
  command, the callback collects all of it in the temporary file, byte for byte and in order, whatever the
  size of the transfer and of the buffer, and then runs the command that was waiting, in an otherwise
  unchanged state.\<close>

theorem data_phase_reassembled:
  assumes "reliable (c_os c) path" "ready c s" "data_count (g_ftemp s) = 0" "destination c s = Some path"
    and "12 \<le> length (header_buf (g_ftemp s))" "length data + 12 < 2 ^ 32"
    and "packets_of (unat (c_rx_size c)) (header_bytes (of_nat (12 + length data)) ty cd ti) data pkts"
    and "hdlr_validate_cmd_container (last pkts) (of_nat (length (last pkts))) = Some False"
    and "hdlr_validate_cmd_container (cmd_buf (g_ftemp s)) (cmd_size (g_ftemp s)) = Some True"
    and "hdlr_copy_cmd_container_unknown_params (cmd_buf (g_ftemp s)) zero_cmd = Some cmd"
  shows "\<exists>s'. foldM (receive_mq_data_cb c) pkts s = process_commands c cmd s'
     \<and> os_content (c_os c) (g_fs s') path = Inl (data, False) \<and> filepath (g_ftemp s') = Some path
     \<and> take 12 (header_buf (g_ftemp s')) = header_bytes (of_nat (12 + length data)) ty cd ti
     \<and> data_count (g_ftemp s') = 0 \<and> g_dev s' = g_dev s \<and> g_hdlr s' = g_hdlr s \<and> g_txq s' = g_txq s"
proof -
  from data_phase_collected[OF assms(1-7)] obtain s1 where
    s1: "foldM (receive_mq_data_cb c) pkts s = finish_receiving_file_packets c (last pkts) s1"
    "os_content (c_os c) (g_fs s1) path = Inl (data, False) \<and> filepath (g_ftemp s1) = Some path
     \<and> take 12 (header_buf (g_ftemp s1)) = header_bytes (of_nat (12 + length data)) ty cd ti
     \<and> g_dev s1 = g_dev s \<and> g_hdlr s1 = g_hdlr s \<and> g_txq s1 = g_txq s"
    "cmd_buf (g_ftemp s1) = cmd_buf (g_ftemp s)" "cmd_size (g_ftemp s1) = cmd_size (g_ftemp s)" by blast
  from finish_runs[of "last pkts" False s1 cmd c] s1(1,3,4) assms(8-10) have
    "foldM (receive_mq_data_cb c) pkts s = process_commands c cmd (upd_ftemp (\<lambda>t. t\<lparr>data_count := 0\<rparr>) s1\<lparr>g_op_state := MTP_STATE_ONSERVICE\<rparr>)"
    by simp
  with s1(2) show ?thesis
    by (intro exI[of _ "upd_ftemp (\<lambda>t. t\<lparr>data_count := 0\<rparr>) s1\<lparr>g_op_state := MTP_STATE_ONSERVICE\<rparr>"]) (simp add: upd_ftemp_def)
qed

text \<open>C39: data can pass for a command: when the last packet of a data phase happens to have the form of a
  command block, it is executed in place of the command that was waiting.\<close>

theorem data_executed_as_command:
  assumes "reliable (c_os c) path" "ready c s" "data_count (g_ftemp s) = 0" "destination c s = Some path"
    and "12 \<le> length (header_buf (g_ftemp s))" "length data + 12 < 2 ^ 32"
    and "packets_of (unat (c_rx_size c)) (header_bytes (of_nat (12 + length data)) ty cd ti) data pkts"
    and "hdlr_validate_cmd_container (last pkts) (of_nat (length (last pkts))) = Some True"
    and "hdlr_copy_cmd_container_unknown_params (last pkts) zero_cmd = Some cmd"
  shows "\<exists>s'. foldM (receive_mq_data_cb c) pkts s = process_commands c cmd s' \<and> g_hdlr s' = g_hdlr s"
proof -
  from data_phase_collected[OF assms(1-7)] obtain s1 where
    s1: "foldM (receive_mq_data_cb c) pkts s = finish_receiving_file_packets c (last pkts) s1" "g_hdlr s1 = g_hdlr s" by blast
  show ?thesis
    unfolding s1(1) by (subst finish_runs[OF assms(8)]) (use s1(2) assms(9) in \<open>auto simp: upd_ftemp_def\<close>)
qed

text \<open>a first packet of a data phase that is shorter than a header has no defined behaviour: the header is
  copied from behind its end.\<close>

lemma short_first_packet_undefined:
  assumes "reliable (c_os c) path" "ready c s" "data_count (g_ftemp s) = 0" "destination c s = Some path" "length pkt < 12"
  shows "receive_mq_data_cb c pkt s = None"
proof -
  have "rd_header pkt = None" using assms(5) by (cases "rd_header pkt") (auto simp: rd_header_def rd_word_def split: bind_splits if_splits)
  moreover obtain fs1 fs2 where "(if os_stat (c_os c) (g_fs s) path \<noteq> None then os_remove (c_os c) (g_fs s) path else (g_fs s, None)) = (fs1, None)"
    "os_create (c_os c) fs1 path = (fs2, None)" by (rule fresh_file[OF assms(1)])
  ultimately show ?thesis
    using assms(3,4)
    by (auto simp: ready_callback[OF assms(2)] receive_temp_file_first_packet_def store_first_packet_def destination_def upd_ftemp_def Let_def split: if_splits)
qed

section \<open>Witnesses\<close>

text \<open>Small packets and a small buffer; a SetObjectPropValue waits for its data.\<close>

definition small_conf :: "ram conf" where
  "small_conf = ram_conf\<lparr>c_rx_size := 16, c_write_file := 32\<rparr>"

definition saved_command :: "u8 list" where
  "saved_command = header_bytes 20 CONTAINER_CMD_BLK MTP_OPCODE_SETOBJECTPROPVALUE 7 @ le_bytes 4 (9 :: u32) @ le_bytes 4 (0xDC07 :: u32)"

definition waiting_sys :: "ram sys" where
  "waiting_sys = set_phase DEVICE_PHASE_DATAOUT (ready_sys\<lparr>g_ftemp := idle_temp\<lparr>temp_buff := replicate 32 0, cmd_buf := saved_command @ replicate 16 0,
     cmd_size := 20\<rparr>\<rparr>)"

abbreviation demo_header :: "u8 list" where
  "demo_header \<equiv> header_bytes 31 CONTAINER_DATA_BLK MTP_OPCODE_SETOBJECTPROPVALUE 7"

lemma ram_reliable: "reliable ram_os p"
  by (auto simp: reliable_def ram_os_def ram_append_def ram_remove_def split: option.splits)

lemma small_ready: "ready small_conf waiting_sys" "data_count (g_ftemp waiting_sys) = 0"
  "destination small_conf waiting_sys = Some ''/tmp/.mtptemp.tmp''" "header_buf (g_ftemp waiting_sys) = replicate 13 0"
  "reliable (c_os small_conf) ''/tmp/.mtptemp.tmp''"
  using ram_reliable
  by (simp_all add: ready_def undisturbed_def sizes_ok_def destination_def small_conf_def waiting_sys_def set_phase_def ready_sys_def
      idle_temp_def ram_conf_def ram_env_def less_eq_mtp_op_state_def)

lemma saved_command_copied:
  "hdlr_copy_cmd_container_unknown_params (saved_command @ replicate 16 0) zero_cmd = Some (command MTP_OPCODE_SETOBJECTPROPVALUE [9, 0xDC07])"
  by code_simp

theorem data_phase_reassembled_witness:
  "\<exists>s'. foldM (receive_mq_data_cb small_conf) [demo_header @ [1, 2], replicate 16 3, [4]] waiting_sys
       = process_commands small_conf (command MTP_OPCODE_SETOBJECTPROPVALUE [9, 0xDC07]) s'
     \<and> g_fs s' ''/tmp/.mtptemp.tmp'' = Some ([1, 2] @ replicate 16 3 @ [4])"
proof -
  have "\<exists>s'. foldM (receive_mq_data_cb small_conf) [demo_header @ [1, 2], replicate 16 3, [4]] waiting_sys
       = process_commands small_conf (command MTP_OPCODE_SETOBJECTPROPVALUE [9, 0xDC07]) s'
     \<and> os_content (c_os small_conf) (g_fs s') ''/tmp/.mtptemp.tmp'' = Inl ([1, 2] @ replicate 16 3 @ [4], False)
     \<and> filepath (g_ftemp s') = Some ''/tmp/.mtptemp.tmp''
     \<and> take 12 (header_buf (g_ftemp s')) = header_bytes (of_nat (12 + length ([1, 2] @ replicate 16 (3 :: u8) @ [4]))) CONTAINER_DATA_BLK MTP_OPCODE_SETOBJECTPROPVALUE 7
     \<and> data_count (g_ftemp s') = 0 \<and> g_dev s' = g_dev waiting_sys \<and> g_hdlr s' = g_hdlr waiting_sys \<and> g_txq s' = g_txq waiting_sys"
  proof (rule data_phase_reassembled[OF small_ready(5,1,2,3)])
    show "12 \<le> length (header_buf (g_ftemp waiting_sys))" by (simp add: small_ready)
    show "packets_of (unat (c_rx_size small_conf)) (header_bytes (of_nat (12 + length ([1, 2] @ replicate 16 (3 :: u8) @ [4]))) CONTAINER_DATA_BLK MTP_OPCODE_SETOBJECTPROPVALUE 7)
        ([1, 2] @ replicate 16 3 @ [4]) [demo_header @ [1, 2], replicate 16 3, [4]]"
      by (auto simp: packets_of_def small_conf_def intro!: exI[of _ "[1, 2]"] exI[of _ "[replicate 16 3]"] exI[of _ "[4]"])
    show "hdlr_validate_cmd_container (last [demo_header @ [1, 2], replicate 16 3, [4]]) (of_nat (length (last [demo_header @ [1, 2], replicate 16 3, [4]]))) = Some False"
      by (simp add: hdlr_validate_cmd_container_def)
    show "hdlr_validate_cmd_container (cmd_buf (g_ftemp waiting_sys)) (cmd_size (g_ftemp waiting_sys)) = Some True"
      by (simp add: hdlr_validate_cmd_container_def waiting_sys_def set_phase_def saved_command_def header_bytes_def le_bytes_unfold rd_word_def)
    show "hdlr_copy_cmd_container_unknown_params (cmd_buf (g_ftemp waiting_sys)) zero_cmd = Some (command MTP_OPCODE_SETOBJECTPROPVALUE [9, 0xDC07])"
      using saved_command_copied by (simp add: waiting_sys_def set_phase_def)
  qed simp
  then show ?thesis
    by (auto simp: small_conf_def ram_conf_def ram_env_def ram_os_def split: option.splits)
qed

lemma close_command_block:
  "hdlr_validate_cmd_container (header_bytes 12 CONTAINER_CMD_BLK PTP_OPCODE_CLOSESESSION 7) 12 = Some True"
  "hdlr_copy_cmd_container_unknown_params (header_bytes 12 CONTAINER_CMD_BLK PTP_OPCODE_CLOSESESSION 7) zero_cmd
     = Some (command PTP_OPCODE_CLOSESESSION [])"
  by code_simp+

theorem data_executed_as_command_witness:
  "\<exists>s'. foldM (receive_mq_data_cb small_conf) [header_bytes 26 CONTAINER_DATA_BLK MTP_OPCODE_SETOBJECTPROPVALUE 7 @ [1, 2],
         header_bytes 12 CONTAINER_CMD_BLK PTP_OPCODE_CLOSESESSION 7] waiting_sys
       = process_commands small_conf (command PTP_OPCODE_CLOSESESSION []) s' \<and> g_hdlr s' = g_hdlr waiting_sys"
proof (rule data_executed_as_command[OF small_ready(5,1,2,3), where data = "[1, 2] @ header_bytes 12 CONTAINER_CMD_BLK PTP_OPCODE_CLOSESESSION 7"])
  show "packets_of (unat (c_rx_size small_conf))
      (header_bytes (of_nat (12 + length ([1, 2] @ header_bytes 12 CONTAINER_CMD_BLK PTP_OPCODE_CLOSESESSION 7))) CONTAINER_DATA_BLK MTP_OPCODE_SETOBJECTPROPVALUE 7)
      ([1, 2] @ header_bytes 12 CONTAINER_CMD_BLK PTP_OPCODE_CLOSESESSION 7)
      [header_bytes 26 CONTAINER_DATA_BLK MTP_OPCODE_SETOBJECTPROPVALUE 7 @ [1, 2], header_bytes 12 CONTAINER_CMD_BLK PTP_OPCODE_CLOSESESSION 7]"
    by (auto simp: packets_of_def small_conf_def intro!: exI[of _ "[1, 2]"] exI[of _ "[]"] exI[of _ "header_bytes 12 CONTAINER_CMD_BLK PTP_OPCODE_CLOSESESSION 7"])
qed (simp_all add: small_ready close_command_block)

lemma short_first_packet_undefined_witness:
  "receive_mq_data_cb small_conf [12, 0, 0, 0, 2, 0] waiting_sys = None"
  by (rule short_first_packet_undefined[OF small_ready(5,1,2,3)]) simp

end
