(* ===== verification/Reach.thy ===== *)
theory Reach
  imports Receiving
begin

text \<open>
  The states that the packets of a host can lead to.  The callback is the only
  code that works on the buffers of a transfer; other threads change objects,
  files and queues between its calls.  The invariant of the reachable states
  gives the bounds of the buffers, so that no packet writes outside them.
\<close>

section \<open>The invariant\<close>

definition conf_ok :: "'fs conf \<Rightarrow> bool" where
  "conf_ok c \<longleftrightarrow> accepting c \<and> 12 < unat (c_rx_size c) \<and> unat (c_rx_size c) \<le> unat (c_write_file c)
     \<and> unat (c_write_file c) + unat (c_rx_size c) < 2 ^ 32"

definition buffers_ok :: "'fs conf \<Rightarrow> 'fs sys \<Rightarrow> bool" where
  "buffers_ok c s \<longleftrightarrow> length (cmd_buf (g_ftemp s)) = 36 \<and> length (header_buf (g_ftemp s)) = 13
     \<and> length (temp_buff (g_ftemp s)) = unat (c_write_file c) \<and> length (params (usb_cmd (g_hdlr s))) = 5
     \<and> \<not> so_is_data_sent (data4_send_obj (g_hdlr s))"

definition transfer_ok :: "'fs conf \<Rightarrow> 'fs sys \<Rightarrow> bool" where
  "transfer_ok c s \<longleftrightarrow> (phase (g_dev s) = DEVICE_PHASE_DATAOUT \<and> data_count (g_ftemp s) \<noteq> 0 \<longrightarrow>
     fhandle (g_ftemp s) \<noteq> None \<and> unat (data_size (g_ftemp s)) \<le> unat (c_write_file c))"

definition sys_inv :: "'fs conf \<Rightarrow> 'fs sys \<Rightarrow> bool" where
  "sys_inv c s \<longleftrightarrow> buffers_ok c s \<and> transfer_ok c s"

lemma buffers_ok_upd [simp]:
  "buffers_ok c (set_phase ph s) = buffers_ok c s" "buffers_ok c (s\<lparr>g_op_state := st\<rparr>) = buffers_ok c s"
  "buffers_ok c (s\<lparr>g_ctrl := v, g_op_state := st\<rparr>) = buffers_ok c s" "buffers_ok c (s\<lparr>g_fs := fs\<rparr>) = buffers_ok c s"
  "buffers_ok c (s\<lparr>g_clk := n\<rparr>) = buffers_ok c s" "buffers_ok c (s\<lparr>g_ctrl := v\<rparr>) = buffers_ok c s"
  "buffers_ok c (upd_hdlr (\<lambda>hd. hd\<lparr>session_id := i\<rparr>) s) = buffers_ok c s"
  by (simp_all add: buffers_ok_def set_phase_def upd_hdlr_def)

lemma buffers_ok_steady: "buffers_ok c s \<Longrightarrow> steady s s' \<Longrightarrow> buffers_ok c s'"
  by (auto simp: buffers_ok_def steady_def temp_kept_def)

lemma transfer_ok_idle [simp]: "phase (g_dev s) \<noteq> DEVICE_PHASE_DATAOUT \<Longrightarrow> transfer_ok c s" "data_count (g_ftemp s) = 0 \<Longrightarrow> transfer_ok c s"
  by (simp_all add: transfer_ok_def)

text \<open>A command starts with no packet counted, and so it ends.\<close>

lemma process_commands_inv:
  assumes "accepting c" "buffers_ok c s" "data_count (g_ftemp s) = 0"
  shows "ensures (process_commands c cmd s) (sys_inv c)"
proof (rule ensuresI)
  fix s' assume "process_commands c cmd s = Some s'"
  then have "steady s s'" by (rule process_commands_steady[OF assms(1)])
  moreover from this have "data_count (g_ftemp s') = 0" using assms(3) by (simp add: steady_def temp_kept_def)
  ultimately show "sys_inv c s'" using assms(2) by (auto simp: sys_inv_def intro: buffers_ok_steady)
qed

lemma finish_inv:
  assumes "accepting c" "buffers_ok c s"
  shows "ensures (finish_receiving_file_packets c pkt s) (sys_inv c)"
proof -
  let ?s = "upd_ftemp (\<lambda>t. t\<lparr>data_count := 0\<rparr>) s"
  have b: "buffers_ok c ?s" using assms(2) by (simp add: buffers_ok_def upd_ftemp_def)
  have z: "data_count (g_ftemp ?s) = 0" by (simp add: upd_ftemp_def)
  show ?thesis
    using b z by (auto simp: finish_receiving_file_packets_def Let_def sys_inv_def
      intro!: ensuresI[of "hdlr_validate_cmd_container _ _"] ensuresI[of "hdlr_copy_cmd_container_unknown_params _ _"]
        process_commands_inv[OF assms(1)])
qed

section \<open>Packets\<close>

text \<open>A packet is collected inside the buffer, or it ends the data phase.\<close>

lemma next_packet_bounded:
  assumes "conf_ok c" "buffers_ok c s" "fhandle (g_ftemp s) = Some path" "unat (data_size (g_ftemp s)) \<le> unat (c_write_file c)"
    "length pkt \<le> unat (c_rx_size c)"
  shows "\<exists>s'. buffers_ok c s' \<and> (receive_temp_file_next_packets c pkt s = finish_receiving_file_packets c pkt s'
     \<or> receive_temp_file_next_packets c pkt s = Some s' \<and> fhandle (g_ftemp s') \<noteq> None \<and> unat (data_size (g_ftemp s')) \<le> unat (c_write_file c))"
proof -
  let ?n = "of_nat (length pkt) :: u32"
  define s1 where "s1 = upd_ftemp (\<lambda>t. t\<lparr>data_count := data_count t + 1, size_remaining := size_remaining t + ?n\<rparr>) s"
  have s1: "buffers_ok c s1" "fhandle (g_ftemp s1) = Some path" "data_size (g_ftemp s1) = data_size (g_ftemp s)"
    "length (temp_buff (g_ftemp s1)) = unat (c_write_file c)"
    using assms(2,3) by (simp_all add: s1_def buffers_ok_def upd_ftemp_def)
  have sum: "unat (data_size (g_ftemp s1) + ?n) = unat (data_size (g_ftemp s)) + length pkt"
    using assms(1,4,5) s1(3) by (simp add: conf_ok_def unat_add_of_nat)
  obtain s2 where s2: "(if c_write_file c < data_size (g_ftemp s1) + ?n then flush_temp c s1 else Some s1) = Some s2"
    "buffers_ok c s2" "fhandle (g_ftemp s2) = Some path" "unat (data_size (g_ftemp s2)) + length pkt \<le> unat (c_write_file c)"
  proof (cases "c_write_file c < data_size (g_ftemp s1) + ?n")
    case True
    have "flush_temp c s1 = Some (upd_ftemp (\<lambda>t. t\<lparr>data_size := 0\<rparr>)
        (s1\<lparr>g_fs := fst (os_append (c_os c) (g_fs s1) path (take (unat (data_size (g_ftemp s1))) (temp_buff (g_ftemp s1))))\<rparr>))"
      using s1 assms(4) by (simp add: flush_temp_def)
    with True that s1(1,2) assms(1,5) show thesis by (auto simp: buffers_ok_def upd_ftemp_def conf_ok_def)
  next
    case False
    then have "unat (data_size (g_ftemp s1)) + length pkt \<le> unat (c_write_file c)" using sum s1(3) by (simp add: word_less_nat_alt)
    with False that s1(1,2) show thesis by simp
  qed
  have "length (temp_buff (g_ftemp s2)) < 2 ^ 32" using s2(2) assms(1) by (simp add: buffers_ok_def conf_ok_def)
  with s2(2,4) obtain t where t: "put_temp pkt (g_ftemp s2) = Some t" "t = (g_ftemp s2)\<lparr>temp_buff := temp_buff t, data_size := data_size t\<rparr>"
    "unat (data_size t) \<le> unat (c_write_file c)" "length (temp_buff t) = length (temp_buff (g_ftemp s2))"
    using put_temp_spec[of "g_ftemp s2" pkt] by (auto simp: buffers_ok_def)
  let ?s3 = "s2\<lparr>g_ftemp := t\<rparr>"
  have sel: "fhandle t = Some path" "cmd_buf t = cmd_buf (g_ftemp s2)" "header_buf t = header_buf (g_ftemp s2)"
    using s2(3) by (subst t(2), simp)+
  have b3: "buffers_ok c ?s3" using s2(2) sel t(4) by (simp add: buffers_ok_def)
  obtain s4 where s4: "flush_temp c ?s3 = Some s4" "buffers_ok c (upd_ftemp (\<lambda>t. t\<lparr>fhandle := None\<rparr>) s4)"
    using b3 sel(1) t(3) by (auto simp: flush_temp_def buffers_ok_def upd_ftemp_def Let_def)
  have run: "receive_temp_file_next_packets c pkt s = (if ?n < c_rx_size c \<or> size_remaining t = tfile_size t
      then finish_receiving_file_packets c pkt (upd_ftemp (\<lambda>t. t\<lparr>fhandle := None\<rparr>) s4) else Some ?s3)"
    using s2(1) t(1) s4(1) unfolding receive_temp_file_next_packets_def Let_def s1_def[symmetric] by simp
  show ?thesis unfolding run using b3 s4(2) sel(1) t(3) by auto
qed

lemma next_packet_inv:
  assumes "conf_ok c" "sys_inv c s" "phase (g_dev s) = DEVICE_PHASE_DATAOUT" "data_count (g_ftemp s) \<noteq> 0" "length pkt \<le> unat (c_rx_size c)"
  shows "ensures (receive_temp_file_next_packets c pkt s) (sys_inv c)"
proof -
  have "accepting c" "buffers_ok c s" using assms(1,2) by (simp_all add: conf_ok_def sys_inv_def)
  from assms(2-4) obtain path where "fhandle (g_ftemp s) = Some path" "unat (data_size (g_ftemp s)) \<le> unat (c_write_file c)"
    by (auto simp: sys_inv_def transfer_ok_def)
  from next_packet_bounded[OF assms(1) \<open>buffers_ok c s\<close> this assms(5)] show ?thesis
    using finish_inv[OF \<open>accepting c\<close>] by (auto simp: sys_inv_def transfer_ok_def)
qed

lemma buffers_ok_temp:
  "buffers_ok c s \<Longrightarrow> length (cmd_buf (f (g_ftemp s))) = 36 \<Longrightarrow> length (header_buf (f (g_ftemp s))) = 13 \<Longrightarrow>
     length (temp_buff (f (g_ftemp s))) = unat (c_write_file c) \<Longrightarrow> buffers_ok c (upd_ftemp f s)"
  by (simp add: buffers_ok_def upd_ftemp_def)

lemma first_packet_inv:
  assumes "conf_ok c" "buffers_ok c s" "length pkt \<le> unat (c_rx_size c)"
  shows "ensures (receive_temp_file_first_packet c pkt s) (sys_inv c)"
proof -
  have a: "accepting c" using assms(1) by (simp add: conf_ok_def)
  have d: "unat (of_nat (length pkt) - 12 :: u32) \<le> unat (c_write_file c)" if "12 \<le> length pkt"
  proof -
    have "unat (of_nat (length pkt) :: u32) = length pkt" using assms(1,3) by (intro unat_of_nat_eq_small) (simp add: conf_ok_def)
    then have "unat (of_nat (length pkt) - 12 :: u32) = length pkt - 12" using that by (simp add: unat_sub word_le_nat_alt)
    then show ?thesis using assms(1,3) by (auto simp: conf_ok_def)
  qed
  have h: "12 \<le> length pkt" if "rd_header pkt = Some hdr" for hdr
    using that by (auto simp: rd_header_def rd_word_def split: bind_splits if_splits)
  have core: "ensures (store_first_packet c pkt path t) (sys_inv c)" if "buffers_ok c t" for path t
    using that d h
    by (auto simp: store_first_packet_def Let_def sys_inv_def transfer_ok_def buffers_ok_def upd_ftemp_def over_write_def
        intro!: ensuresI[of "rd_header _"] finish_inv[OF a] split: prod.split option.split)
  have temp: "buffers_ok c (upd_ftemp (\<lambda>t. t\<lparr>filepath := p\<rparr>) t) = buffers_ok c t" "buffers_ok c (upd_ftemp (\<lambda>t. t\<lparr>fhandle := q\<rparr>) t) = buffers_ok c t" for p q t
    by (simp_all add: buffers_ok_def upd_ftemp_def)
  show ?thesis
    using assms(2)
    by (auto simp: receive_temp_file_first_packet_def Let_def temp intro!: ensuresI[of "filepath _"] core finish_inv[OF a] split: prod.split)
qed

lemma find_command_shorter: "ensures (find_command w buf is) (\<lambda>buf'. length buf' \<le> length buf)"
proof (induction "is")
  case (Cons i "is")
  then show ?case by (auto simp: Let_def intro!: ensuresI[of "rd_word _ _ _"])
qed simp

lemma process_control_inv:
  assumes "sys_inv c s" "length pkt \<le> unat (c_rx_size c)"
  shows "ensures (process_control c pkt s) (\<lambda>(s1, rest). sys_inv c s1 \<and> (\<forall>pkt'. rest = Some pkt' \<longrightarrow> length pkt' \<le> unat (c_rx_size c)))"
proof -
  obtain ev s1 where tc: "take_ctrl c s = (ev, s1)" by fastforce
  then have s1: "buffers_ok c s1" "g_dev s1 = g_dev s" "g_ftemp s1 = g_ftemp s"
    using assms(1) by (auto simp: take_ctrl_def sys_inv_def buffers_ok_def)
  have idle: "sys_inv c (set_phase DEVICE_PHASE_IDLE t)" if "buffers_ok c t" for t using that by (simp add: sys_inv_def)
  have cancel: "ensures (cancel_transfer c (set_phase DEVICE_PHASE_IDLE t)) (sys_inv c)" if "buffers_ok c t" for t
    using that by (auto simp: cancel_transfer_def Let_def sys_inv_def buffers_ok_def upd_ftemp_def
      intro!: ensuresI[of "filepath _"] split: option.split)
  have same: "sys_inv c s1" using assms(1) s1 by (simp add: sys_inv_def transfer_ok_def)
  have reset: "sys_inv c (upd_hdlr (\<lambda>hd. hd\<lparr>session_id := 0\<rparr>) (set_phase DEVICE_PHASE_IDLE t))" if "buffers_ok c t" for t
    using that by (simp add: sys_inv_def) (simp add: upd_hdlr_def)
  show ?thesis
    using tc same s1(1) assms(2)
    by (auto simp: process_control_def Let_def intro!: idle reset ensures_mono[OF find_command_shorter] ensures_mono[OF cancel])
qed

lemma process_packet_inv:
  assumes "conf_ok c" "sys_inv c s" "length pkt \<le> unat (c_rx_size c)"
  shows "ensures (process_packet c pkt s) (sys_inv c)"
proof -
  have a: "accepting c" "buffers_ok c s" using assms(1,2) by (simp_all add: conf_ok_def sys_inv_def)
  have save: "ensures (transport_save_cmd_buffer (g_ftemp s) pkt n) (\<lambda>t. buffers_ok c (s\<lparr>g_ftemp := t\<rparr>) \<and> data_count t = 0)" for n
    using a(2) by (auto simp: transport_save_cmd_buffer_def over_write_def buffers_ok_def)
  show ?thesis
    using a(2) first_packet_inv[OF assms(1) a(2) assms(3)] next_packet_inv[OF assms(1,2) _ _ assms(3)]
    by (auto simp: process_packet_def sys_inv_def[of _ "set_phase _ _"] intro!: ensuresI[of "hdlr_validate_cmd_container _ _"] ensures_mono[OF save]
        ensuresI[of "hdlr_copy_cmd_container_unknown_params _ _"] process_commands_inv[OF a(1)])
qed

lemma callback_inv:
  assumes "conf_ok c" "sys_inv c s" "length pkt \<le> unat (c_rx_size c)"
  shows "ensures (receive_mq_data_cb c pkt s) (sys_inv c)"
  using assms by (auto simp: receive_mq_data_cb_def intro!: ensures_mono[OF process_control_inv] process_packet_inv split: option.split)

section \<open>Reachable states\<close>

definition booted :: "'fs conf \<Rightarrow> 'fs sys \<Rightarrow> bool" where
  "booted c s \<longleftrightarrow> phase (g_dev s) = DEVICE_PHASE_IDLE \<and> usb_cmd (g_hdlr s) = zero_cmd \<and> data4_send_obj (g_hdlr s) = zero_send_object
     \<and> g_ftemp s = \<lparr>cmd_buf = replicate 36 0, header_buf = replicate 13 0, cmd_size = 0, data_size = 0, data_count = 0, fhandle = None,
         filepath = None, tfile_size = 0, size_remaining = 0, temp_buff = replicate (unat (c_write_file c)) 0\<rparr>"

text \<open>A step of another thread.\<close>

definition foreign :: "'fs sys \<Rightarrow> 'fs sys \<Rightarrow> bool" where
  "foreign s s' \<longleftrightarrow> g_ftemp s' = g_ftemp s \<and> g_hdlr s' = g_hdlr s \<and> phase (g_dev s') = phase (g_dev s)"

inductive reachable :: "'fs conf \<Rightarrow> 'fs sys \<Rightarrow> bool" for c where
  boot: "booted c s \<Longrightarrow> reachable c s"
| packet: "reachable c s \<Longrightarrow> length pkt \<le> unat (c_rx_size c) \<Longrightarrow> receive_mq_data_cb c pkt s = Some s' \<Longrightarrow> reachable c s'"
| other_thread: "reachable c s \<Longrightarrow> foreign s s' \<Longrightarrow> reachable c s'"

inductive_cases reachableE: "reachable c s"

lemma reachable_inv: "reachable c s \<Longrightarrow> conf_ok c \<Longrightarrow> sys_inv c s"
proof (induction rule: reachable.induct)
  case (boot s)
  then show ?case by (simp add: sys_inv_def buffers_ok_def booted_def zero_cmd_def zero_send_object_def)
next
  case (packet s pkt s')
  then show ?case using ensuresD[OF callback_inv] by blast
next
  case (other_thread s s')
  then show ?case by (simp add: sys_inv_def buffers_ok_def transfer_ok_def foreign_def)
qed

text \<open>C5: in every state that packets of the announced size can lead to, however they are cut, cancelled or
  malformed, and whatever other threads do in between, the buffers of the transfer keep their sizes, a data
  phase under way has an open file and no more bytes buffered than the buffer holds, the five parameters of
  the last command are there, and the mark for data that were sent is never set.\<close>

theorem reachable_buffers:
  assumes "conf_ok c" "reachable c s"
  shows "length (cmd_buf (g_ftemp s)) = 36 \<and> length (header_buf (g_ftemp s)) = 13
     \<and> length (temp_buff (g_ftemp s)) = unat (c_write_file c) \<and> length (params (usb_cmd (g_hdlr s))) = 5
     \<and> (phase (g_dev s) = DEVICE_PHASE_DATAOUT \<and> data_count (g_ftemp s) \<noteq> 0 \<longrightarrow>
          fhandle (g_ftemp s) \<noteq> None \<and> unat (data_size (g_ftemp s)) \<le> unat (c_write_file c))
     \<and> \<not> so_is_data_sent (data4_send_obj (g_hdlr s))"
  using reachable_inv[OF assms(2,1)] by (simp add: sys_inv_def buffers_ok_def transfer_ok_def)


section \<open>Witnesses\<close>

lemma small_conf_ok: "conf_ok small_conf"
  by (simp add: conf_ok_def small_conf_def ram_conf_def accepting_def)

text \<open>A device that has just started, a SetObjectPropValue, and the first packet of its data.\<close>

definition boot_sys :: "ram sys" where
  "boot_sys = ready_sys\<lparr>g_ftemp := idle_temp\<lparr>temp_buff := replicate 32 0\<rparr>\<rparr>"

lemma boot_reachable: "reachable small_conf boot_sys"
  by (rule reachable.boot) (simp add: booted_def boot_sys_def ready_sys_def mounted_device_def idle_temp_def small_conf_def)

theorem reachable_buffers_witness:
  "length (temp_buff (g_ftemp boot_sys)) = 32 \<and> \<not> so_is_data_sent (data4_send_obj (g_hdlr boot_sys))"
  using reachable_buffers[OF small_conf_ok boot_reachable] by (simp add: small_conf_def)

abbreviation demo_command :: "u8 list" where
  "demo_command \<equiv> header_bytes 16 CONTAINER_CMD_BLK MTP_OPCODE_SETOBJECTPROPVALUE 7 @ le_bytes 4 (9 :: u32)"

lemma demo_command_block:
  "hdlr_validate_cmd_container demo_command 16 = Some True"
  "hdlr_copy_cmd_container_unknown_params demo_command zero_cmd = Some (command MTP_OPCODE_SETOBJECTPROPVALUE [9])"
  by code_simp+

lemma set_prop_waits:
  assumes "code cmd = MTP_OPCODE_SETOBJECTPROPVALUE" "session_id (g_hdlr s) \<noteq> 0" "phase (g_dev s) = DEVICE_PHASE_IDLE"
    "hdlr_copy_cmd_container cmd (usb_cmd (g_hdlr s)) = Some ucmd" "code ucmd = code cmd"
  shows "process_commands c cmd s = Some (set_phase DEVICE_PHASE_DATAOUT (upd_hdlr (\<lambda>hd. hd\<lparr>usb_cmd := ucmd\<rparr>) s))"
  using assms by (simp add: process_commands_def session_command_def data_out_command_def upd_hdlr_def)

lemma boot_sel:
  "phase (g_dev boot_sys) = DEVICE_PHASE_IDLE" "g_op_state boot_sys = MTP_STATE_ONSERVICE" "session_id (g_hdlr boot_sys) = 1"
  "usb_cmd (g_hdlr boot_sys) = zero_cmd" "g_send_object boot_sys = False" "g_ctrl boot_sys = 0"
  "g_ftemp boot_sys = idle_temp\<lparr>temp_buff := replicate 32 0\<rparr>"
  by (simp_all add: boot_sys_def ready_sys_def mounted_device_def)

lemma boot_waits:
  "\<exists>s. receive_mq_data_cb small_conf demo_command boot_sys = Some s \<and> ready small_conf s \<and> data_count (g_ftemp s) = 0
     \<and> destination small_conf s = Some ''/tmp/.mtptemp.tmp'' \<and> 12 \<le> length (header_buf (g_ftemp s))"
proof -
  have u: "undisturbed small_conf boot_sys" by (simp add: undisturbed_def small_conf_def ram_conf_def boot_sel)
  obtain t where t: "transport_save_cmd_buffer (g_ftemp boot_sys) demo_command 16 = Some t" "data_count t = 0"
    "temp_buff t = replicate 32 0" "header_buf t = replicate 13 0"
    by (simp add: transport_save_cmd_buffer_def over_write_def boot_sel idle_temp_def)
  let ?b = "boot_sys\<lparr>g_clk := Suc (g_clk boot_sys), g_ftemp := t\<rparr>" and ?cmd = "command MTP_OPCODE_SETOBJECTPROPVALUE [9]"
  obtain ucmd where "hdlr_copy_cmd_container ?cmd zero_cmd = Some ucmd" "code ucmd = code ?cmd"
    by (simp add: hdlr_copy_cmd_container_def command_def zero_cmd_def)
  with set_prop_waits[of ?cmd ?b ucmd small_conf] have
    "process_commands small_conf ?cmd ?b = Some (set_phase DEVICE_PHASE_DATAOUT (upd_hdlr (\<lambda>hd. hd\<lparr>usb_cmd := ucmd\<rparr>) ?b))"
    by (simp add: boot_sel command_def)
  then have "receive_mq_data_cb small_conf demo_command boot_sys = Some (set_phase DEVICE_PHASE_DATAOUT (upd_hdlr (\<lambda>hd. hd\<lparr>usb_cmd := ucmd\<rparr>) ?b))"
    using demo_command_block t(1)
    by (simp add: receive_mq_data_cb_def undisturbed_control[OF u] process_packet_def boot_sel less_mtp_op_state_def)
  then show ?thesis
    using t u by (auto simp: ready_def undisturbed_def sizes_ok_def destination_def upd_hdlr_def set_phase_def boot_sel small_conf_def ram_conf_def less_eq_mtp_op_state_def)
qed


end
