(* ===== verification/Open_Files.thy ===== *)
theory Open_Files
  imports Prelude
begin

text \<open>
  The list of files that were created and not yet closed, in
  src/mtp_inoti_handler.c: doubly linked nodes in a heap, reached from the
  newest one through the links to the previous node.  None as a result is a
  dangling pointer.  The abstraction is the list of the recorded files, the
  newest first; the locale open_registry is the contract the event handler
  relies on.
\<close>

section \<open>Data and operations\<close>

record open_files_info =
  of_name :: string
  of_wd :: int
  of_previous :: "nat option"
  of_next :: "nat option"

record open_files =
  of_heap :: "nat \<rightharpoonup> open_files_info"
  g_open_files_list :: "nat option"

definition no_open_files :: open_files where
  "no_open_files = \<lparr>of_heap = Map.empty, g_open_files_list = None\<rparr>"

partial_function (option) find_open :: "(nat \<rightharpoonup> open_files_info) \<Rightarrow> nat option \<Rightarrow> int \<Rightarrow> string \<Rightarrow> nat option option" where
  "find_open h cur wd ename =
     (case cur of
        None \<Rightarrow> Some None
      | Some a \<Rightarrow> Option.bind (h a)
          (\<lambda>n. if of_wd n = wd \<and> of_name n = ename then Some (Some a) else find_open h (of_previous n) wd ename))"

declare find_open.simps [code]

definition find_file_in_inoti_open_files_list :: "int \<Rightarrow> string \<Rightarrow> open_files \<Rightarrow> nat option option" where
  "find_file_in_inoti_open_files_list wd ename l = find_open (of_heap l) (g_open_files_list l) wd ename"

text \<open>The first argument is the address that g_malloc returns.\<close>

definition add_file_to_inoti_open_files_list :: "nat \<Rightarrow> int \<Rightarrow> string \<Rightarrow> open_files \<Rightarrow> open_files option" where
  "add_file_to_inoti_open_files_list a wd ename l =
     (let n = \<lparr>of_name = ename, of_wd = wd, of_previous = g_open_files_list l, of_next = None\<rparr>
      in case g_open_files_list l of
           None \<Rightarrow> Some \<lparr>of_heap = (of_heap l)(a \<mapsto> n), g_open_files_list = Some a\<rparr>
         | Some f \<Rightarrow> do {
             m \<leftarrow> of_heap l f;
             Some \<lparr>of_heap = (of_heap l)(f \<mapsto> m\<lparr>of_next := Some a\<rparr>, a \<mapsto> n), g_open_files_list = Some a\<rparr> })"

definition set_node :: "(open_files_info \<Rightarrow> open_files_info) \<Rightarrow> nat option \<Rightarrow> (nat \<rightharpoonup> open_files_info) \<Rightarrow> (nat \<rightharpoonup> open_files_info) option" where
  "set_node f p h = (case p of None \<Rightarrow> Some h | Some a \<Rightarrow> do { n \<leftarrow> h a; Some (h(a \<mapsto> f n)) })"

definition remove_file_from_inoti_open_files_list :: "nat \<Rightarrow> open_files \<Rightarrow> open_files option" where
  "remove_file_from_inoti_open_files_list a l = do {
     n \<leftarrow> of_heap l a;
     h1 \<leftarrow> set_node (of_next_update (\<lambda>_. of_next n)) (of_previous n) (of_heap l);
     n1 \<leftarrow> h1 a;
     h2 \<leftarrow> set_node (of_previous_update (\<lambda>_. of_previous n1)) (of_next n1) h1;
     n2 \<leftarrow> h2 a;
     Some \<lparr>of_heap = h2(a := None),
           g_open_files_list = (if g_open_files_list l = Some a then of_previous n2 else g_open_files_list l)\<rparr> }"

partial_function (option) destroy_open :: "open_files \<Rightarrow> open_files option" where
  "destroy_open l =
     (case g_open_files_list l of
        None \<Rightarrow> Some l
      | Some a \<Rightarrow> Option.bind (of_heap l a)
          (\<lambda>n. Option.bind (set_node (of_next_update (\<lambda>_. None)) (of_previous n) (of_heap l))
            (\<lambda>h. destroy_open \<lparr>of_heap = h(a := None), g_open_files_list = of_previous n\<rparr>)))"

definition destroy_inoti_open_files_list :: "open_files \<Rightarrow> open_files option" where
  "destroy_inoti_open_files_list l = destroy_open l"

section \<open>Abstraction\<close>

text \<open>
  The nodes from p down to (and without) q; nx is the node from which p was
  reached, e the last node that was passed.
\<close>

fun dlseg :: "(nat \<rightharpoonup> open_files_info) \<Rightarrow> nat option \<Rightarrow> nat option \<Rightarrow> nat list \<Rightarrow> nat option \<Rightarrow> nat option \<Rightarrow> bool" where
  "dlseg h p nx [] q e \<longleftrightarrow> p = q \<and> nx = e"
| "dlseg h p nx (a # as) q e \<longleftrightarrow> p = Some a \<and>
     (case h a of None \<Rightarrow> False | Some n \<Rightarrow> of_next n = nx \<and> dlseg h (of_previous n) (Some a) as q e)"

definition open_at :: "open_files \<Rightarrow> nat list \<Rightarrow> bool" where
  "open_at l as \<longleftrightarrow> distinct as \<and> dom (of_heap l) = set as
     \<and> dlseg (of_heap l) (g_open_files_list l) None as None (if as = [] then None else Some (last as))"

definition recorded :: "open_files \<Rightarrow> nat list \<Rightarrow> (int \<times> string) list" where
  "recorded l as = map (\<lambda>a. (of_wd (the (of_heap l a)), of_name (the (of_heap l a)))) as"

definition open_files_ok :: "open_files \<Rightarrow> (int \<times> string) list \<Rightarrow> bool" where
  "open_files_ok l fs \<longleftrightarrow> (\<exists>as. open_at l as \<and> recorded l as = fs)"

lemma open_files_okI: "open_at l as \<Longrightarrow> recorded l as = fs \<Longrightarrow> open_files_ok l fs"
  by (auto simp: open_files_ok_def)

lemma no_open_files_ok: "open_files_ok no_open_files []"
  by (rule open_files_okI[of _ "[]"]) (simp_all add: open_at_def recorded_def no_open_files_def)

text \<open>A segment depends on the links of its nodes only, and it can be cut.\<close>

lemma dlseg_cong:
  "(\<And>a. a \<in> set as \<Longrightarrow> map_option (\<lambda>n. (of_next n, of_previous n)) (h a) = map_option (\<lambda>n. (of_next n, of_previous n)) (h' a))
     \<Longrightarrow> dlseg h p nx as q e = dlseg h' p nx as q e"
proof (induction as arbitrary: p nx)
  case (Cons a as)
  from Cons.prems[of a] have *: "map_option (\<lambda>n. (of_next n, of_previous n)) (h a) = map_option (\<lambda>n. (of_next n, of_previous n)) (h' a)" by simp
  have "dlseg h r (Some a) as q e = dlseg h' r (Some a) as q e" for r by (rule Cons.IH) (use Cons.prems in simp)
  with * show ?case by (cases "h a"; cases "h' a") auto
qed simp

lemma dlseg_frame [simp]:
  "a \<notin> set as \<Longrightarrow> dlseg (h(a := n)) p nx as q e = dlseg h p nx as q e"
  by (rule dlseg_cong) auto

lemma dlseg_append: "dlseg h p nx (xs @ ys) q e \<longleftrightarrow> (\<exists>r f. dlseg h p nx xs r f \<and> dlseg h r f ys q e)"
  by (induction xs arbitrary: p nx) (auto split: option.splits)

lemma dlseg_end: "dlseg h p nx as q e \<Longrightarrow> e = (if as = [] then nx else Some (last as))"
  by (induction as arbitrary: p nx) (auto split: option.splits if_splits)

lemma dlseg_relink:
  "dlseg h p nx as q e \<Longrightarrow> dlseg h p nx as q e' \<longleftrightarrow> e' = e"
  by (induction as arbitrary: p nx) (auto split: option.splits)

section \<open>Looking for a file\<close>

fun first_at :: "(nat \<rightharpoonup> open_files_info) \<Rightarrow> int \<Rightarrow> string \<Rightarrow> nat list \<Rightarrow> nat option" where
  "first_at h wd ename [] = None"
| "first_at h wd ename (a # as) =
     (if (of_wd (the (h a)), of_name (the (h a))) = (wd, ename) then Some a else first_at h wd ename as)"

lemma find_open_first:
  "dlseg h p nx as None e \<Longrightarrow> find_open h p wd ename = Some (first_at h wd ename as)"
  by (induction as arbitrary: p nx) (auto simp: find_open.simps[of h _ wd ename] split: option.splits)

lemma first_at_Some:
  "first_at h wd ename as = Some a \<Longrightarrow> \<exists>xs ys. as = xs @ a # ys \<and>
     (wd, ename) \<notin> set (map (\<lambda>a. (of_wd (the (h a)), of_name (the (h a)))) xs) \<and>
     (of_wd (the (h a)), of_name (the (h a))) = (wd, ename)"
proof (induction as)
  case (Cons b as)
  show ?case
  proof (cases "(of_wd (the (h b)), of_name (the (h b))) = (wd, ename)")
    case True
    with Cons.prems show ?thesis by (intro exI[of _ "[]"] exI[of _ as]) auto
  next
    case False
    with Cons obtain xs ys where "as = xs @ a # ys" "(wd, ename) \<notin> set (map (\<lambda>a. (of_wd (the (h a)), of_name (the (h a)))) xs)"
      "(of_wd (the (h a)), of_name (the (h a))) = (wd, ename)" by (auto split: if_splits)
    with False show ?thesis by (intro exI[of _ "b # xs"] exI[of _ ys]) auto
  qed
qed simp

lemma first_at_None: "first_at h wd ename as = None \<longleftrightarrow> (wd, ename) \<notin> set (map (\<lambda>a. (of_wd (the (h a)), of_name (the (h a)))) as)"
  by (induction as) auto

section \<open>Adding a file\<close>

lemma add_open_at:
  assumes "open_at l as" "a \<notin> set as"
  obtains l' where "add_file_to_inoti_open_files_list a wd ename l = Some l'" "open_at l' (a # as)"
    "recorded l' (a # as) = (wd, ename) # recorded l as"
proof (cases as)
  case Nil
  with assms that show ?thesis
    by (auto simp: open_at_def recorded_def add_file_to_inoti_open_files_list_def)
next
  case (Cons f fs)
  from assms(1) Cons obtain m where m: "g_open_files_list l = Some f" "of_heap l f = Some m" "of_next m = None"
    "dlseg (of_heap l) (of_previous m) (Some f) fs None (Some (last as))" "f \<notin> set fs" "insert f (set fs) = dom (of_heap l)" "distinct fs"
    by (auto simp: open_at_def split: option.splits)
  let ?h = "(of_heap l)(f \<mapsto> m\<lparr>of_next := Some a\<rparr>, a \<mapsto> \<lparr>of_name = ename, of_wd = wd, of_previous = Some f, of_next = None\<rparr>)"
  have ne: "a \<noteq> f" "f \<noteq> a" "a \<notin> set fs" using assms(2) Cons by auto
  show ?thesis
  proof
    show "add_file_to_inoti_open_files_list a wd ename l = Some \<lparr>of_heap = ?h, g_open_files_list = Some a\<rparr>"
      using m(1,2) by (simp add: add_file_to_inoti_open_files_list_def)
    show "open_at \<lparr>of_heap = ?h, g_open_files_list = Some a\<rparr> (a # as)"
      using Cons m ne by (auto simp add: open_at_def)
    show "recorded \<lparr>of_heap = ?h, g_open_files_list = Some a\<rparr> (a # as) = (wd, ename) # recorded l as"
      using ne m(2,5) Cons by (auto simp: recorded_def)
  qed
qed

section \<open>Removing a file\<close>

text \<open>The node is unlinked: its neighbours are joined and nothing else changes.\<close>

lemma remove_open_at:
  assumes "open_at l (xs @ a # ys)"
  obtains l' where "remove_file_from_inoti_open_files_list a l = Some l'" "open_at l' (xs @ ys)"
    "\<And>b. b \<noteq> a \<Longrightarrow> map_option (\<lambda>n. (of_wd n, of_name n)) (of_heap l' b) = map_option (\<lambda>n. (of_wd n, of_name n)) (of_heap l b)"
proof (cases xs rule: rev_cases)
  case Nil
  with assms obtain n where n: "g_open_files_list l = Some a" "of_heap l a = Some n" "of_next n = None"
    "dlseg (of_heap l) (of_previous n) (Some a) ys None (Some (last (a # ys)))" "distinct (a # ys)" "dom (of_heap l) = insert a (set ys)"
    by (auto simp: open_at_def split: option.splits)
  show ?thesis
  proof (cases ys)
    case Nil
    with n \<open>xs = []\<close> show ?thesis
      by (intro that[of "\<lparr>of_heap = (of_heap l)(a := None), g_open_files_list = None\<rparr>"])
        (auto simp: open_at_def remove_file_from_inoti_open_files_list_def set_node_def)
  next
    case (Cons y zs)
    with n obtain k where "of_previous n = Some y" "of_heap l y = Some k" "of_next k = Some a"
      "dlseg (of_heap l) (of_previous k) (Some y) zs None (Some (last (a # ys)))" by (auto split: option.splits)
    with n Cons \<open>xs = []\<close> show ?thesis
      by (intro that[of "\<lparr>of_heap = (of_heap l)(y \<mapsto> k\<lparr>of_next := None\<rparr>, a := None), g_open_files_list = Some y\<rparr>"])
        (auto simp: open_at_def remove_file_from_inoti_open_files_list_def set_node_def)
  qed
next
  case (snoc ws x)
  with assms obtain r m n where n: "dlseg (of_heap l) (g_open_files_list l) None ws (Some x) r" "of_heap l x = Some m" "of_next m = r"
    "of_previous m = Some a" "of_heap l a = Some n" "of_next n = Some x"
    "dlseg (of_heap l) (of_previous n) (Some a) ys None (Some (last (a # ys)))"
    "distinct (ws @ x # a # ys)" "dom (of_heap l) = set ws \<union> insert x (insert a (set ys))"
    by (auto simp: open_at_def dlseg_append split: option.splits)
  from n(1,8) have first: "g_open_files_list l \<noteq> Some a" by (cases ws) (auto split: option.splits)
  show ?thesis
  proof (cases ys)
    case Nil
    with n first snoc show ?thesis
      by (intro that[of "\<lparr>of_heap = (of_heap l)(x \<mapsto> m\<lparr>of_previous := None\<rparr>, a := None), g_open_files_list = g_open_files_list l\<rparr>"])
        (auto simp: open_at_def remove_file_from_inoti_open_files_list_def set_node_def dlseg_append)
  next
    case (Cons y zs)
    with n obtain k where "of_previous n = Some y" "of_heap l y = Some k" "of_next k = Some a"
      "dlseg (of_heap l) (of_previous k) (Some y) zs None (Some (last (a # ys)))" by (auto split: option.splits)
    with n Cons first snoc show ?thesis
      by (intro that[of "\<lparr>of_heap = (of_heap l)(y \<mapsto> k\<lparr>of_next := Some x\<rparr>, x \<mapsto> m\<lparr>of_previous := Some y\<rparr>, a := None),
          g_open_files_list = g_open_files_list l\<rparr>"])
        (auto simp: open_at_def remove_file_from_inoti_open_files_list_def set_node_def dlseg_append)
  qed
qed

lemma recorded_cong:
  "(\<And>b. b \<in> set as \<Longrightarrow> map_option (\<lambda>n. (of_wd n, of_name n)) (of_heap l' b) = map_option (\<lambda>n. (of_wd n, of_name n)) (of_heap l b))
     \<Longrightarrow> set as \<subseteq> dom (of_heap l) \<Longrightarrow> recorded l' as = recorded l as"
  unfolding recorded_def by (rule map_cong[OF refl]) (force simp: dom_def)

section \<open>Destruction\<close>

lemma destroy_open_at: "open_at l as \<Longrightarrow> destroy_open l = Some no_open_files"
proof (induction as arbitrary: l)
  case Nil
  then show ?case by (subst destroy_open.simps) (simp add: open_at_def no_open_files_def)
next
  case (Cons a as)
  then obtain n where n: "g_open_files_list l = Some a" "of_heap l a = Some n"
    "dlseg (of_heap l) (of_previous n) (Some a) as None (Some (last (a # as)))" "distinct (a # as)" "dom (of_heap l) = insert a (set as)"
    by (auto simp: open_at_def split: option.splits)
  show ?case
  proof (cases as)
    case Nil
    with n show ?thesis
      by (subst destroy_open.simps) (auto simp: set_node_def open_at_def intro!: Cons.IH)
  next
    case C: (Cons y zs)
    with n obtain k where "of_previous n = Some y" "of_heap l y = Some k"
      "dlseg (of_heap l) (of_previous k) (Some y) zs None (Some (last (a # as)))" by (auto split: option.splits)
    with n C show ?thesis
      by (subst destroy_open.simps) (auto simp: set_node_def open_at_def intro!: Cons.IH)
  qed
qed

section \<open>The contract\<close>

text \<open>
  What the event handler relies on: files are recorded and found by watch and
  name, the newest record of a file is the one that is found and removed.
\<close>

locale open_registry =
  fixes ok :: "'r \<Rightarrow> (int \<times> string) list \<Rightarrow> bool"
    and fresh :: "'r \<Rightarrow> 'a \<Rightarrow> bool"
    and add :: "'a \<Rightarrow> int \<Rightarrow> string \<Rightarrow> 'r \<Rightarrow> 'r option"
    and look :: "int \<Rightarrow> string \<Rightarrow> 'r \<Rightarrow> 'a option option"
    and del :: "'a \<Rightarrow> 'r \<Rightarrow> 'r option"
  assumes add_ok: "ok r fs \<Longrightarrow> fresh r a \<Longrightarrow> \<exists>r'. add a wd n r = Some r' \<and> ok r' ((wd, n) # fs)"
    and look_absent: "ok r fs \<Longrightarrow> (wd, n) \<notin> set fs \<Longrightarrow> look wd n r = Some None"
    and look_present: "ok r fs \<Longrightarrow> (wd, n) \<in> set fs \<Longrightarrow>
      \<exists>a. look wd n r = Some (Some a) \<and> (\<exists>r'. del a r = Some r' \<and> ok r' (remove1 (wd, n) fs))"
begin

lemma look_defined: "ok r fs \<Longrightarrow> \<exists>f. look wd n r = Some f \<and> (f = None \<longleftrightarrow> (wd, n) \<notin> set fs)"
  using look_absent[of r fs wd n] look_present[of r fs wd n] by (cases "(wd, n) \<in> set fs") auto

lemma created_then_closed:
  assumes "ok r fs" "fresh r a"
  shows "\<exists>r1 b r2. add a wd n r = Some r1 \<and> look wd n r1 = Some (Some b) \<and> del b r1 = Some r2 \<and> ok r2 fs"
proof -
  from add_ok[OF assms, of wd n] obtain r1 where "add a wd n r = Some r1" "ok r1 ((wd, n) # fs)" by auto
  with look_present[of r1 "(wd, n) # fs" wd n] show ?thesis by auto
qed

end

interpretation open_list: open_registry open_files_ok "\<lambda>l a. of_heap l a = None" add_file_to_inoti_open_files_list
  find_file_in_inoti_open_files_list remove_file_from_inoti_open_files_list
proof
  fix l fs wd n
  assume "open_files_ok l fs"
  then obtain as where as: "open_at l as" "recorded l as = fs" by (auto simp: open_files_ok_def)
  then have look: "find_file_in_inoti_open_files_list wd n l = Some (first_at (of_heap l) wd n as)"
    unfolding find_file_in_inoti_open_files_list_def open_at_def by (blast intro: find_open_first)
  show "\<exists>l'. add_file_to_inoti_open_files_list a wd n l = Some l' \<and> open_files_ok l' ((wd, n) # fs)" if "of_heap l a = None" for a
  proof -
    have "a \<notin> set as" using as(1) that by (auto simp: open_at_def)
    with as add_open_at[of l as a wd n] show ?thesis by (metis open_files_okI)
  qed
  show "find_file_in_inoti_open_files_list wd n l = Some None" if "(wd, n) \<notin> set fs"
    using that look as(2) by (simp add: first_at_None recorded_def)
  show "\<exists>a. find_file_in_inoti_open_files_list wd n l = Some (Some a) \<and>
     (\<exists>l'. remove_file_from_inoti_open_files_list a l = Some l' \<and> open_files_ok l' (remove1 (wd, n) fs))" if "(wd, n) \<in> set fs"
  proof -
    from that as(2) obtain a where a: "first_at (of_heap l) wd n as = Some a"
      by (cases "first_at (of_heap l) wd n as") (simp_all add: first_at_None recorded_def)
    from first_at_Some[OF this] obtain xs ys where xs: "as = xs @ a # ys" "(wd, n) \<notin> set (recorded l xs)" "recorded l [a] = [(wd, n)]"
      by (auto simp: recorded_def)
    from as(1) xs(1) obtain l' where l': "remove_file_from_inoti_open_files_list a l = Some l'" "open_at l' (xs @ ys)"
      "\<And>b. b \<noteq> a \<Longrightarrow> map_option (\<lambda>n. (of_wd n, of_name n)) (of_heap l' b) = map_option (\<lambda>n. (of_wd n, of_name n)) (of_heap l b)"
      by (auto elim: remove_open_at)
    have "recorded l' (xs @ ys) = recorded l (xs @ ys)"
    proof (rule recorded_cong)
      show "set (xs @ ys) \<subseteq> dom (of_heap l)" using as(1) xs(1) by (auto simp: open_at_def)
      fix b assume "b \<in> set (xs @ ys)"
      then have "b \<noteq> a" using as(1) xs(1) by (auto simp: open_at_def)
      then show "map_option (\<lambda>n. (of_wd n, of_name n)) (of_heap l' b) = map_option (\<lambda>n. (of_wd n, of_name n)) (of_heap l b)" by (rule l'(3))
    qed
    moreover have "fs = recorded l xs @ (wd, n) # recorded l ys" using as(2) xs by (simp add: recorded_def)
    ultimately have "recorded l' (xs @ ys) = remove1 (wd, n) fs" using xs(2) by (simp add: remove1_append recorded_def)
    with l'(1,2) look a show ?thesis by (auto intro: open_files_okI)
  qed
qed

end
