(* ===== verification/Inotify.thy ===== *)
theory Inotify
  imports Reach Open_Files
begin

text \<open>
  The file-system watcher of src/mtp_inoti_handler.c: the table of watched
  folders, the list of files under construction, and the translation of the
  kernel's inotify events into changes of the object store and requests to the
  event thread.  Changes that the responder made itself are recognised by the
  path it left in a global variable.  Watch descriptors and the address of a
  new list node come from outside (record inoti_conf); the thread holds the
  mutex shared with the command handlers while it changes the store, so that
  an event is one step.
\<close>

section \<open>State\<close>

abbreviation (input) INOTI_FOLDER_COUNT_MAX :: nat where "INOTI_FOLDER_COUNT_MAX \<equiv> 1024"
abbreviation (input) INOTI_EVENT_SIZE :: nat where "INOTI_EVENT_SIZE \<equiv> 16"
abbreviation (input) INOTI_BUF_LEN :: nat where "INOTI_BUF_LEN \<equiv> 272"

abbreviation (input) IN_CLOSE_WRITE :: u32 where "IN_CLOSE_WRITE \<equiv> 0x8"
abbreviation (input) IN_MOVED_FROM :: u32 where "IN_MOVED_FROM \<equiv> 0x40"
abbreviation (input) IN_MOVED_TO :: u32 where "IN_MOVED_TO \<equiv> 0x80"
abbreviation (input) IN_CREATE :: u32 where "IN_CREATE \<equiv> 0x100"
abbreviation (input) IN_DELETE :: u32 where "IN_DELETE \<equiv> 0x200"
abbreviation (input) IN_ISDIR :: u32 where "IN_ISDIR \<equiv> 0x40000000"

record inoti_watches =
  iw_wd :: int
  iw_folder :: "string option"

text \<open>The n-th call of inotify_add_watch for a path, and the address of the next allocation.\<close>

record inoti_conf =
  ic_add_watch :: "nat \<Rightarrow> string \<Rightarrow> int"
  ic_malloc :: "open_files \<Rightarrow> nat"

record 'fs inoti =
  i_sys :: "'fs sys"
  i_watches :: "inoti_watches list"
  i_cnt :: nat
  i_adds :: nat
  i_open :: open_files
  i_cookie :: u32

record inotify_event =
  ie_wd :: int
  ie_mask :: u32
  ie_cookie :: u32
  ie_len :: u32
  ie_name :: string

section \<open>The table of watches\<close>

definition get_inoti_watch_id :: "inoti_watches list \<Rightarrow> int \<Rightarrow> nat option" where
  "get_inoti_watch_id ws iwd = index_where (\<lambda>w. iw_wd w = iwd) (take INOTI_FOLDER_COUNT_MAX ws)"

text \<open>The outer None is the string length of a null pointer, the inner None the result FALSE.\<close>

definition get_inoti_event_full_path :: "inoti_watches list \<Rightarrow> int \<Rightarrow> string \<Rightarrow> nat \<Rightarrow> (string \<times> string) option option" where
  "get_inoti_event_full_path ws wd ename path_len =
     (if wd = 0 then Some None
      else case get_inoti_watch_id ws wd of
             None \<Rightarrow> Some None
           | Some i \<Rightarrow> do {
               folder \<leftarrow> iw_folder (ws ! i);
               Some (if path_len < length folder + length ename + 2 then None
                     else Some (folder @ ''/'' @ ename, folder)) })"

definition watch_folder :: "inoti_conf \<Rightarrow> nat \<Rightarrow> string \<Rightarrow> 'fs inoti \<Rightarrow> 'fs inoti" where
  "watch_folder k i path s =
     s\<lparr>i_watches := (i_watches s)[i := \<lparr>iw_wd = ic_add_watch k (i_adds s) path, iw_folder = Some path\<rparr>],
       i_adds := Suc (i_adds s)\<rparr>"

definition inoti_add_watch_for_fs_events :: "inoti_conf \<Rightarrow> string \<Rightarrow> 'fs inoti \<Rightarrow> 'fs inoti" where
  "inoti_add_watch_for_fs_events k path s =
     (if i_cnt s = INOTI_FOLDER_COUNT_MAX then
        (case index_where (\<lambda>w. iw_wd w = 0) (take INOTI_FOLDER_COUNT_MAX (i_watches s)) of
           None \<Rightarrow> s
         | Some i \<Rightarrow> watch_folder k i path s)
      else (watch_folder k (i_cnt s) path s)\<lparr>i_cnt := Suc (i_cnt s)\<rparr>)"

text \<open>The requests that the enumeration of folders has collected are carried out in their order.\<close>

definition install_watches :: "inoti_conf \<Rightarrow> 'fs inoti \<Rightarrow> 'fs inoti" where
  "install_watches k s =
     foldl (\<lambda>s p. inoti_add_watch_for_fs_events k p s) (s\<lparr>i_sys := (i_sys s)\<lparr>g_watch := []\<rparr>\<rparr>) (g_watch (i_sys s))"

definition no_watch :: inoti_watches where
  "no_watch = \<lparr>iw_wd = 0, iw_folder = None\<rparr>"

definition remove_inoti_watch :: "nat \<Rightarrow> string option \<Rightarrow> inoti_watches list \<Rightarrow> inoti_watches list" where
  "remove_inoti_watch cnt path ws =
     (case index_where (\<lambda>w. iw_folder w \<noteq> None \<and> iw_folder w = path) (take cnt ws) of
        None \<Rightarrow> ws
      | Some i \<Rightarrow> ws[i := no_watch])"

definition strstr :: "string \<Rightarrow> string \<Rightarrow> bool" where
  "strstr hay needle \<longleftrightarrow> after_first needle hay \<noteq> None"

definition remove_recursive_inoti_watch :: "nat \<Rightarrow> string \<Rightarrow> inoti_watches list \<Rightarrow> inoti_watches list" where
  "remove_recursive_inoti_watch cnt path ws =
     map (\<lambda>w. case iw_folder w of None \<Rightarrow> w | Some f \<Rightarrow> if strstr f path then no_watch else w) (take cnt ws) @ drop cnt ws"

section \<open>A new file or folder\<close>

definition stat_entry :: "stat_info \<Rightarrow> string \<Rightarrow> dir_entry option" where
  "stat_entry st fullpath =
     (let entry = (\<lambda>t a. \<lparr>filename = g_strlcpy fullpath (MTP_MAX_PATHNAME_SIZE + 1), dtype = t,
                          dattrs = \<lparr>attribute = a, fsize = st_size st, fctime = 0, fmtime = st_mtime st\<rparr>\<rparr>)
      in case st_kind st of
           S_IFREG \<Rightarrow> Some (entry MTP_FILE_TYPE (if st_writable st then MTP_FILE_ATTR_MODE_NONE else MTP_FILE_ATTR_MODE_READ_ONLY))
         | S_IFDIR \<Rightarrow> Some (entry MTP_DIR_TYPE MTP_FILE_ATTR_MODE_DIR)
         | S_IFSPECIAL \<Rightarrow> None)"

definition parent_handle :: "mtp_store \<Rightarrow> string \<Rightarrow> u32 option" where
  "parent_handle st parent_path =
     (case entity_get_object_from_store_by_path st parent_path of
        None \<Rightarrow> if parent_path = util_get_external_path then Some 0 else None
      | Some par \<Rightarrow> Some (obj_handle par))"

definition process_object_added_event :: "'fs conf \<Rightarrow> string \<Rightarrow> string \<Rightarrow> string \<Rightarrow> 'fs sys \<Rightarrow> 'fs sys option" where
  "process_object_added_event c fullpath fname parent_path s =
     (if strstr fname MTP_TEMP_FILE then Some s
      else if fname \<noteq> [] \<and> hd fname = CHR ''.'' then Some s
      else case store_index (g_dev s) (entity_get_store_id_by_path fullpath) of
             None \<Rightarrow> Some s
           | Some i \<Rightarrow>
               (let st = store_list (g_dev s) ! i
                in case parent_handle st parent_path of
                     None \<Rightarrow> Some s
                   | Some h \<Rightarrow>
                       (case Option.bind (os_stat (c_os c) (g_fs s) fullpath) (\<lambda>si. stat_entry si fullpath) of
                          None \<Rightarrow> Some s
                        | Some entry \<Rightarrow> do {
                            (st', nxt, obj) \<leftarrow>
                              (if dtype entry = MTP_FILE_TYPE
                               then entity_add_file_to_store st (g_next s) h fullpath fname entry
                               else entity_add_folder_to_store st (g_next s) h fullpath fname entry);
                            Some (eh_send_event_req_to_eh_thread EVENT_OBJECT_ADDED (ucast (obj_handle obj)) 0 0
                                    (upd_store i st' (s\<lparr>g_next := nxt\<rparr>))) })))"

section \<open>A file or folder that is gone\<close>

definition unlink_obj :: "u32 \<Rightarrow> mtp_store \<Rightarrow> mtp_store" where
  "unlink_obj h st = st\<lparr>obj_list :=
     (case entity_get_object_from_store st h of None \<Rightarrow> obj_list st | Some obj \<Rightarrow> remove1 obj (obj_list st))\<rparr>"

definition delete_child ::
    "(mtp_obj \<Rightarrow> mtp_store \<times> inoti_watches list \<Rightarrow> (mtp_store \<times> inoti_watches list) option) \<Rightarrow> u32 \<Rightarrow>
     mtp_store \<times> inoti_watches list \<Rightarrow> (mtp_store \<times> inoti_watches list) option" where
  "delete_child rec h sw =
     (case entity_get_object_from_store (fst sw) h of
        None \<Rightarrow> Some sw
      | Some ch \<Rightarrow> do {
          (st, ws) \<leftarrow> (if map_option obj_fmt (obj_info ch) = Some PTP_FMT_ASSOCIATION then rec ch sw else Some sw);
          Some (unlink_obj h st, ws) })"

fun delete_children_from_store_inoti ::
    "nat \<Rightarrow> nat \<Rightarrow> mtp_obj \<Rightarrow> mtp_store \<times> inoti_watches list \<Rightarrow> (mtp_store \<times> inoti_watches list) option" where
  "delete_children_from_store_inoti 0 cnt obj sw = None"
| "delete_children_from_store_inoti (Suc fuel) cnt obj sw = do {
     child_arr \<leftarrow> entity_get_child_handles (fst sw) (obj_handle obj) (prop_alloc_ptparray UINT32_TYPE);
     hs \<leftarrow> ptparray_elems child_arr;
     foldM (delete_child (delete_children_from_store_inoti fuel cnt)) hs
       (fst sw, remove_inoti_watch cnt (file_path obj) (snd sw)) }"

definition process_object_deleted_event :: "'fs conf \<Rightarrow> string \<Rightarrow> string \<Rightarrow> bool \<Rightarrow> 'fs inoti \<Rightarrow> 'fs inoti option" where
  "process_object_deleted_event c fullpath fname isdir s =
     (if strstr fullpath MTP_TEMP_FILE then Some s
      else if fname \<noteq> [] \<and> hd fname = CHR ''.'' then Some s
      else case store_index (g_dev (i_sys s)) (entity_get_store_id_by_path fullpath) of
             None \<Rightarrow> Some s
           | Some i \<Rightarrow>
               (let st = store_list (g_dev (i_sys s)) ! i
                in case entity_get_object_from_store_by_path st fullpath of
                     None \<Rightarrow> Some s
                   | Some obj \<Rightarrow> do {
                       info \<leftarrow> obj_info obj;
                       st1 \<leftarrow> drop_reference (h_parent info) (obj_handle obj) st;
                       (st2, ws) \<leftarrow>
                         (if isdir then delete_children_from_store_inoti (c_fuel c) (i_cnt s) obj (st1, i_watches s)
                          else Some (st1, i_watches s));
                       Some (s\<lparr>i_watches := ws,
                               i_sys := eh_send_event_req_to_eh_thread EVENT_OBJECT_REMOVED (ucast (obj_handle obj)) 0 0
                                          (upd_store i (unlink_obj (obj_handle obj) st2) (i_sys s))\<rparr>) }))"

section \<open>One event\<close>

definition added :: "'fs conf \<Rightarrow> string \<Rightarrow> string \<Rightarrow> string \<Rightarrow> 'fs inoti \<Rightarrow> 'fs inoti option" where
  "added c full fname parent s =
     map_option (\<lambda>t. s\<lparr>i_sys := t\<rparr>) (process_object_added_event c full fname parent (i_sys s))"

text \<open>The end of writing: the file is announced if its creation was seen.\<close>

definition process_close_write ::
    "'fs conf \<Rightarrow> inotify_event \<Rightarrow> string \<Rightarrow> string \<Rightarrow> 'fs inoti \<Rightarrow> 'fs inoti option" where
  "process_close_write c ev full parent s =
     (if g_copied (i_sys s) = full then Some (s\<lparr>i_sys := (i_sys s)\<lparr>g_copied := []\<rparr>\<rparr>)
      else if g_send_partial (i_sys s) then do {
        s1 \<leftarrow> added c full (ie_name ev) parent s;
        Some (s1\<lparr>i_sys := (i_sys s1)\<lparr>g_send_partial := False, g_copy_dst := []\<rparr>\<rparr>) }
      else do {
        found \<leftarrow> find_file_in_inoti_open_files_list (ie_wd ev) (ie_name ev) (i_open s);
        case found of
          None \<Rightarrow> Some s
        | Some a \<Rightarrow> do {
            s1 \<leftarrow> added c full (ie_name ev) parent s;
            l \<leftarrow> remove_file_from_inoti_open_files_list a (i_open s1);
            Some (s1\<lparr>i_open := l\<rparr>) } })"

abbreviation has_flag :: "inotify_event \<Rightarrow> u32 \<Rightarrow> bool" where
  "has_flag ev m \<equiv> ie_mask ev AND m \<noteq> 0"

definition dispatch_inoti_event ::
    "'fs conf \<Rightarrow> inoti_conf \<Rightarrow> inotify_event \<Rightarrow> string \<Rightarrow> string \<Rightarrow> 'fs inoti \<Rightarrow> ('fs inoti \<times> bool) option" where
  "dispatch_inoti_event c k ev full parent s =
     (let sys = i_sys s; done = map_option (\<lambda>t. (t, True)) in
      if has_flag ev IN_MOVED_FROM then done
        (if g_moved sys = full then Some (s\<lparr>i_sys := sys\<lparr>g_moved := []\<rparr>, i_cookie := ie_cookie ev\<rparr>)
         else process_object_deleted_event c full (ie_name ev) (has_flag ev IN_ISDIR) s)
      else if has_flag ev IN_MOVED_TO then done
        (if i_cookie s = ie_cookie ev then Some (s\<lparr>i_cookie := - 1\<rparr>)
         else added c full (ie_name ev) parent s)
      else if has_flag ev IN_CREATE then done
        (if has_flag ev IN_ISDIR then
           (if g_created sys = full then Some (s\<lparr>i_sys := sys\<lparr>g_created := []\<rparr>\<rparr>)
            else added c full (ie_name ev) parent s)
         else map_option (\<lambda>l. s\<lparr>i_open := l\<rparr>)
                (add_file_to_inoti_open_files_list (ic_malloc k (i_open s)) (ie_wd ev) (ie_name ev) (i_open s)))
      else if has_flag ev IN_DELETE then done
        (if g_last sys = full then Some (s\<lparr>i_sys := sys\<lparr>g_last := []\<rparr>\<rparr>)
         else process_object_deleted_event c full (ie_name ev) (has_flag ev IN_ISDIR) s)
      else if has_flag ev IN_CLOSE_WRITE then done (process_close_write c ev full parent s)
      else Some (s, False))"

definition process_inoti_event ::
    "'fs conf \<Rightarrow> inoti_conf \<Rightarrow> inotify_event \<Rightarrow> 'fs inoti \<Rightarrow> ('fs inoti \<times> bool) option" where
  "process_inoti_event c k ev s =
     (if ie_len ev = 0 \<or> ie_len ev > of_nat MTP_MAX_FILENAME_SIZE then Some (s, False)
      else if ie_wd ev < 1 then Some (s, False)
      else do {
        r \<leftarrow> get_inoti_event_full_path (i_watches s) (ie_wd ev) (ie_name ev) (MTP_MAX_PATHNAME_SIZE + 1);
        case r of
          None \<Rightarrow> Some (s, False)
        | Some (full, parent) \<Rightarrow>
            if \<not> util_is_path_len_valid full then Some (s, False)
            else dispatch_inoti_event c k ev full parent (s\<lparr>i_sys := (i_sys s)\<lparr>g_copy_dst := full\<rparr>\<rparr>) })"

section \<open>The thread\<close>

text \<open>
  The events of one read follow each other in a buffer of INOTI_BUF_LEN bytes;
  a name that is not terminated inside the buffer is undefined.
\<close>

definition c_string :: "u8 list \<Rightarrow> nat \<Rightarrow> string option" where
  "c_string buf off =
     (if 0 \<in> set (drop off buf) then Some (map (\<lambda>b. char_of (unat b)) (takeWhile (\<lambda>b. b \<noteq> 0) (drop off buf))) else None)"

definition rd_inotify_event :: "u8 list \<Rightarrow> nat \<Rightarrow> inotify_event option" where
  "rd_inotify_event buf i = do {
     wd \<leftarrow> (rd_word buf i 4 :: u32 option);
     mask \<leftarrow> rd_word buf (i + 4) 4;
     cookie \<leftarrow> rd_word buf (i + 8) 4;
     l \<leftarrow> rd_word buf (i + 12) 4;
     ename \<leftarrow> (if l = 0 \<or> l > of_nat MTP_MAX_FILENAME_SIZE then Some [] else c_string buf (i + INOTI_EVENT_SIZE));
     Some \<lparr>ie_wd = sint wd, ie_mask = mask, ie_cookie = cookie, ie_len = l, ie_name = ename\<rparr> }"

function inoti_walk :: "'fs conf \<Rightarrow> inoti_conf \<Rightarrow> u8 list \<Rightarrow> nat \<Rightarrow> nat \<Rightarrow> 'fs inoti \<Rightarrow> 'fs inoti option" where
  "inoti_walk c k buf n i s =
     (if i < n then do {
        ev \<leftarrow> rd_inotify_event buf i;
        (s1, _) \<leftarrow> process_inoti_event c k ev s;
        let j = i + unat (ie_len ev) + INOTI_EVENT_SIZE;
        if n < j then Some s1 else inoti_walk c k buf n j s1 }
      else Some s)"
  by pat_completeness auto
termination by (relation "measure (\<lambda>(c, k, buf, n, i, s). n - i)") auto

declare inoti_walk.simps [simp del]

definition inoti_read :: "'fs conf \<Rightarrow> inoti_conf \<Rightarrow> u8 list \<Rightarrow> u8 list \<times> 'fs inoti \<Rightarrow> (u8 list \<times> 'fs inoti) option" where
  "inoti_read c k data bs =
     (let buf = data @ drop (length data) (fst bs)
      in map_option (\<lambda>s. (buf, s)) (inoti_walk c k buf (length data) 0 (snd bs)))"

definition clean_up_inoti :: "'fs inoti \<Rightarrow> 'fs inoti option" where
  "clean_up_inoti s = do {
     l \<leftarrow> destroy_inoti_open_files_list (i_open s);
     Some (s\<lparr>i_watches := remove_recursive_inoti_watch (i_cnt s) util_get_external_path (i_watches s), i_open := l\<rparr>) }"

text \<open>The reads of the thread; None is a failing read, which ends it.\<close>

fun inoti_loop :: "'fs conf \<Rightarrow> inoti_conf \<Rightarrow> u8 list option list \<Rightarrow> u8 list \<times> 'fs inoti \<Rightarrow> (u8 list \<times> 'fs inoti) option" where
  "inoti_loop c k [] bs = Some bs"
| "inoti_loop c k (None # rs) bs = map_option (\<lambda>s. (fst bs, s)) (clean_up_inoti (snd bs))"
| "inoti_loop c k (Some data # rs) bs = Option.bind (inoti_read c k data bs) (inoti_loop c k rs)"

definition thread_inoti :: "'fs conf \<Rightarrow> inoti_conf \<Rightarrow> u8 list option list \<Rightarrow> 'fs inoti \<Rightarrow> 'fs inoti option" where
  "thread_inoti c k rs s = map_option snd (inoti_loop c k rs (replicate INOTI_BUF_LEN 0, s))"

end
