(* ===== verification/Watching.thy ===== *)
theory Watching
  imports Inotify
begin

text \<open>
  Correctness of the file-system watcher: the table of watches never leads to
  a null pointer, the list of open files stays linked, an event about a folder
  removes exactly the objects below it, and the buffer that the kernel fills is
  worked off event by event.
\<close>

section \<open>The table of watches\<close>

definition watches_ok :: "inoti_watches list \<Rightarrow> nat \<Rightarrow> bool" where
  "watches_ok ws cnt \<longleftrightarrow> length ws = INOTI_FOLDER_COUNT_MAX \<and> cnt \<le> INOTI_FOLDER_COUNT_MAX
     \<and> (\<forall>w\<in>set ws. iw_wd w \<noteq> 0 \<longrightarrow> iw_folder w \<noteq> None)"

lemma index_where_Some: "index_where P xs = Some i \<Longrightarrow> i < length xs \<and> P (xs ! i)"
  by (induction xs arbitrary: i) (auto split: if_splits)

lemma index_where_find: "map_option ((!) xs) (index_where P xs) = find P xs"
  by (induction xs) (auto simp: option.map_comp comp_def)

lemma watches_ok_update: "watches_ok ws cnt \<Longrightarrow> iw_folder w \<noteq> None \<or> iw_wd w = 0 \<Longrightarrow> watches_ok (ws[i := w]) cnt"
  by (auto simp: watches_ok_def dest!: set_update_subset_insert[THEN subsetD])

lemma watches_ok_map:
  assumes "watches_ok ws cnt" "\<And>w. f w = w \<or> f w = no_watch"
  shows "watches_ok (map f (take n ws) @ drop n ws) cnt"
proof -
  have "iw_folder (f w) \<noteq> None" if "w \<in> set ws" "iw_wd (f w) \<noteq> 0" for w
    using assms(1) assms(2)[of w] that by (auto simp: watches_ok_def no_watch_def)
  with assms(1) show ?thesis by (auto simp: watches_ok_def dest: in_set_takeD in_set_dropD)
qed

lemma remove_inoti_watch_ok: "watches_ok ws cnt \<Longrightarrow> watches_ok (remove_inoti_watch n p ws) cnt"
  by (auto simp: remove_inoti_watch_def no_watch_def intro!: watches_ok_update split: option.splits)

lemma add_watch_ok:
  assumes "watches_ok (i_watches s) (i_cnt s)"
  shows "watches_ok (i_watches (inoti_add_watch_for_fs_events k p s)) (i_cnt (inoti_add_watch_for_fs_events k p s))"
proof -
  have "watches_ok ((i_watches s)[i := \<lparr>iw_wd = w, iw_folder = Some p\<rparr>]) (i_cnt s)" for i w
    by (rule watches_ok_update[OF assms]) simp
  with assms show ?thesis
    by (auto simp: inoti_add_watch_for_fs_events_def watch_folder_def watches_ok_def split: option.split)
qed

text \<open>The lookup of the folder of an event never meets a null pointer.\<close>

lemma full_path_defined:
  assumes "watches_ok ws cnt"
  obtains r where "get_inoti_event_full_path ws wd ename n = Some r"
proof (cases "wd = 0 \<or> get_inoti_watch_id ws wd = None")
  case True
  then show ?thesis using that by (auto simp: get_inoti_event_full_path_def)
next
  case False
  then obtain i where i: "get_inoti_watch_id ws wd = Some i" by auto
  then have "i < length ws" "iw_wd (ws ! i) = wd"
    using assms index_where_Some[of _ "take 1024 ws" i] by (auto simp: get_inoti_watch_id_def watches_ok_def)
  with False assms have "iw_folder (ws ! i) \<noteq> None" by (auto simp: watches_ok_def)
  with i that False show ?thesis by (auto simp: get_inoti_event_full_path_def)
qed

section \<open>The objects below a folder\<close>

text \<open>
  During the removal the references of the folders involved may dangle, so
  that only the shape of the tree is required: handles are distinct and a
  parent is older than its children.
\<close>

definition forest :: "mtp_obj list \<Rightarrow> bool" where
  "forest objs \<longleftrightarrow> distinct (handles_of objs) \<and> length objs \<le> 2 ^ 29
     \<and> (\<forall>obj\<in>set objs. \<forall>p. has_parent p obj \<longrightarrow> unat p < unat (obj_handle obj))"

lemma forest_filter: "forest objs \<Longrightarrow> forest (filter P objs)"
  unfolding forest_def by (auto simp: distinct_map_filter intro: le_trans[OF length_filter_le])

lemma objs_ok_forest:
  assumes "objs_ok nxt objs"
  shows "forest objs"
proof -
  have "nxt \<le> 2 ^ 29" using assms by (simp add: objs_ok_def)
  then have "length objs \<le> 2 ^ 29" using objs_ok_length[OF assms] by linarith
  moreover have "unat p < unat (obj_handle obj)" if "obj \<in> set objs" "has_parent p obj" for obj p
    using that by (auto simp: has_parent_def elim: objs_ok_obj[OF assms])
  ultimately show ?thesis using assms by (auto simp: forest_def objs_ok_def)
qed

definition folder :: "mtp_obj list \<Rightarrow> u32 \<Rightarrow> bool" where
  "folder objs h \<longleftrightarrow> (\<exists>obj\<in>set objs. obj_handle obj = h \<and> map_option obj_fmt (obj_info obj) = Some PTP_FMT_ASSOCIATION)"

text \<open>
  The set D of handles is what hangs below h: the children of h, with every
  folder its children, and nothing else.
\<close>

definition below :: "mtp_obj list \<Rightarrow> u32 \<Rightarrow> u32 set \<Rightarrow> bool" where
  "below objs h D \<longleftrightarrow> child_set objs h \<subseteq> D \<and> (\<forall>p\<in>D. folder objs p \<longrightarrow> child_set objs p \<subseteq> D)
     \<and> (\<forall>x\<in>D. \<exists>p\<in>insert h D. x \<in> child_set objs p \<and> (p = h \<or> folder objs p))"

abbreviation without :: "u32 set \<Rightarrow> mtp_obj list \<Rightarrow> mtp_obj list" where
  "without D objs \<equiv> filter (\<lambda>obj. obj_handle obj \<notin> D) objs"

lemma child_set_without: "child_set (without D objs) h = child_set objs h - D"
  by (auto simp: child_set_def)

lemma folder_without: "folder (without D objs) h \<longleftrightarrow> folder objs h \<and> h \<notin> D"
  by (auto simp: folder_def)

lemma unlink_without:
  "forest (obj_list st) \<Longrightarrow> unlink_obj h st = st\<lparr>obj_list := without {h} (obj_list st)\<rparr>"
  using unlink_filter[of "obj_list st" h] by (simp add: unlink_obj_def entity_get_object_from_store_def forest_def)

definition younger :: "u32 \<Rightarrow> mtp_obj list \<Rightarrow> nat" where
  "younger h objs = length (filter (\<lambda>obj. unat h < unat (obj_handle obj)) objs)"

lemma younger_child:
  assumes "forest objs" "c \<in> child_set objs h" 
  shows "younger c (without D objs) < younger h objs"
proof -
  from assms(2) obtain x where x: "x \<in> set objs" "obj_handle x = c" "has_parent h x" by (auto simp: child_set_def)
  with assms(1) have lt: "unat h < unat c" by (auto simp: forest_def)
  from split_list[OF x(1)] obtain us vs where "objs = us @ x # vs" by blast
  moreover have "younger c (without D zs) \<le> younger h zs" for zs
    unfolding younger_def filter_filter using lt by (induction zs) auto
  moreover have "younger g (us @ vs) = younger g us + younger g vs" for g us vs by (simp add: younger_def)
  ultimately show ?thesis using lt x(2) by (simp add: younger_def add_le_less_mono le_less_trans less_Suc_eq_le add_mono)
qed

text \<open>A set that is closed on both sides, while the children of h are worked off.\<close>

definition part_below :: "mtp_obj list \<Rightarrow> u32 \<Rightarrow> u32 set \<Rightarrow> bool" where
  "part_below objs h D \<longleftrightarrow> (\<forall>p\<in>D. folder objs p \<longrightarrow> child_set objs p \<subseteq> D)
     \<and> (\<forall>x\<in>D. \<exists>p\<in>insert h D. x \<in> child_set objs p \<and> (p = h \<or> folder objs p))"

lemma below_iff: "below objs h D \<longleftrightarrow> child_set objs h \<subseteq> D \<and> part_below objs h D"
  by (auto simp: below_def part_below_def)

lemma part_below_leaf:
  assumes "part_below objs h D" "c \<in> child_set objs h" "\<not> folder objs c"
  shows "part_below objs h (insert c D)"
  using assms unfolding part_below_def by blast

lemma part_below_tree:
  assumes D: "part_below objs h D" and c: "c \<in> child_set objs h" "folder objs c" and E: "below (without D objs) c E"
  shows "part_below objs h (insert c (D \<union> E))"
  unfolding part_below_def
proof (intro conjI ballI impI)
  have sub: "child_set objs c \<subseteq> D \<union> E" using E by (auto simp: below_def child_set_without)
  have new: "p \<notin> D" if "p \<in> E" for p using E that by (auto simp: below_def child_set_without)
  have cl: "child_set objs p \<subseteq> D \<union> E" if "p \<in> E" "folder objs p" for p
    using E that new[OF that(1)] by (auto simp: below_def child_set_without folder_without)
  show "child_set objs p \<subseteq> insert c (D \<union> E)" if "p \<in> insert c (D \<union> E)" "folder objs p" for p
    using that sub cl[of p] D by (auto simp: part_below_def)
  show "\<exists>p\<in>insert h (insert c (D \<union> E)). x \<in> child_set objs p \<and> (p = h \<or> folder objs p)" if x: "x \<in> insert c (D \<union> E)" for x
  proof -
    consider "x = c" | "x \<in> D" | "x \<in> E" using x by blast
    then show ?thesis
    proof cases
      case 1
      with c(1) show ?thesis by blast
    next
      case 2
      with D show ?thesis unfolding part_below_def by blast
    next
      case 3
      with E obtain p where "p \<in> insert c E" "x \<in> child_set objs p" "p = c \<or> folder objs p"
        by (force simp: below_def child_set_without folder_without)
      with c(2) show ?thesis by blast
    qed
  qed
qed

definition prunes :: "nat \<Rightarrow> (mtp_obj \<Rightarrow> mtp_store \<times> inoti_watches list \<Rightarrow> (mtp_store \<times> inoti_watches list) option) \<Rightarrow> bool" where
  "prunes f rec \<longleftrightarrow> (\<forall>obj st ws. forest (obj_list st) \<longrightarrow> obj_handle obj \<in> set (handles_of (obj_list st)) \<longrightarrow> younger (obj_handle obj) (obj_list st) < f \<longrightarrow>
     (\<exists>D ws'. rec obj (st, ws) = Some (st\<lparr>obj_list := without D (obj_list st)\<rparr>, ws')
        \<and> below (obj_list st) (obj_handle obj) D \<and> (\<forall>n. watches_ok ws n \<longrightarrow> watches_ok ws' n)))"

lemma prunesD:
  assumes "prunes f rec" "forest (obj_list st)" "obj_handle obj \<in> set (handles_of (obj_list st))" "younger (obj_handle obj) (obj_list st) < f"
  obtains D ws' where "rec obj (st, ws) = Some (st\<lparr>obj_list := without D (obj_list st)\<rparr>, ws')"
    "below (obj_list st) (obj_handle obj) D" "\<forall>n. watches_ok ws n \<longrightarrow> watches_ok ws' n"
proof -
  have "\<exists>D ws'. rec obj (st, ws) = Some (st\<lparr>obj_list := without D (obj_list st)\<rparr>, ws')
     \<and> below (obj_list st) (obj_handle obj) D \<and> (\<forall>n. watches_ok ws n \<longrightarrow> watches_ok ws' n)"
    using assms(1)[unfolded prunes_def, rule_format, OF assms(2-4)] .
  then show thesis using that by blast
qed

lemma without_without: "without E (without D objs) = without (D \<union> E) objs"
  by (auto intro: filter_cong)

lemma delete_child_ok:
  assumes rec: "prunes f rec" and L: "forest (obj_list st)" and c: "c \<in> child_set (obj_list st) h" "younger h (obj_list st) \<le> f"
    and D: "part_below (obj_list st) h D"
  shows "\<exists>D' ws'. delete_child rec c (st\<lparr>obj_list := without D (obj_list st)\<rparr>, ws) = Some (st\<lparr>obj_list := without D' (obj_list st)\<rparr>, ws')
     \<and> insert c D \<subseteq> D' \<and> part_below (obj_list st) h D' \<and> (\<forall>n. watches_ok ws n \<longrightarrow> watches_ok ws' n)"
proof (cases "c \<in> D")
  case True
  then have "entity_get_object_from_store (st\<lparr>obj_list := without D (obj_list st)\<rparr>) c = None"
    by (auto simp: get_object_None)
  with True D show ?thesis by (intro exI[of _ D] exI[of _ ws]) (simp add: delete_child_def insert_absorb)
next
  case False
  let ?L = "obj_list st" and ?st = "st\<lparr>obj_list := without D (obj_list st)\<rparr>"
  from c(1) obtain ch where ch: "ch \<in> set ?L" "obj_handle ch = c" by (auto simp: child_set_def)
  have fL: "forest (without D ?L)" by (rule forest_filter[OF L])
  have ch': "ch \<in> set (obj_list ?st)" using ch False by simp
  then have found: "entity_get_object_from_store ?st c = Some ch"
    using fL ch(2) by (simp add: entity_get_object_from_store_def find_handle forest_def)
  have fold: "folder ?L c \<longleftrightarrow> map_option obj_fmt (obj_info ch) = Some PTP_FMT_ASSOCIATION"
  proof -
    have "x = ch" if "x \<in> set ?L" "obj_handle x = c" for x
      using L that ch find_handle[of ?L c x] find_handle[of ?L c ch] by (simp add: forest_def)
    with ch show ?thesis unfolding folder_def by blast
  qed
  show ?thesis
  proof (cases "folder ?L c")
    case False
    have "unlink_obj c ?st = st\<lparr>obj_list := without (insert c D) ?L\<rparr>"
      using unlink_without[of ?st c] fL without_without[of "{c}" D ?L] by simp
    with found False fold part_below_leaf[OF D c(1) False] show ?thesis
      by (intro exI[of _ "insert c D"] exI[of _ ws]) (auto simp: delete_child_def)
  next
    case True
    have "younger (obj_handle ch) (obj_list ?st) < f" using younger_child[OF L c(1), of D] c(2) ch(2) by simp
    then obtain E ws' where E: "rec ch (?st, ws) = Some (?st\<lparr>obj_list := without E (obj_list ?st)\<rparr>, ws')"
      "below (without D ?L) c E" "\<forall>n. watches_ok ws n \<longrightarrow> watches_ok ws' n"
      using prunesD[OF rec, of ?st ch ws] fL ch(2) ch' by auto
    have "forest (without E (without D ?L))" by (rule forest_filter[OF fL])
    then have "unlink_obj c (?st\<lparr>obj_list := without E (obj_list ?st)\<rparr>) = st\<lparr>obj_list := without (insert c (D \<union> E)) ?L\<rparr>"
      using unlink_without[of "?st\<lparr>obj_list := without E (obj_list ?st)\<rparr>" c] without_without[of "{c}" "D \<union> E" ?L]
      by (simp add: without_without del: filter_filter)
    with found True fold E(1,3) part_below_tree[OF D c(1) True E(2)] show ?thesis
      by (intro exI[of _ "insert c (D \<union> E)"] exI[of _ ws']) (auto simp: delete_child_def)
  qed
qed

lemma delete_loop_ok:
  assumes "prunes f rec" "forest (obj_list st)" "set hs \<subseteq> child_set (obj_list st) h" "younger h (obj_list st) \<le> f"
    "part_below (obj_list st) h D"
  shows "\<exists>D' ws'. foldM (delete_child rec) hs (st\<lparr>obj_list := without D (obj_list st)\<rparr>, ws) = Some (st\<lparr>obj_list := without D' (obj_list st)\<rparr>, ws')
     \<and> D \<union> set hs \<subseteq> D' \<and> part_below (obj_list st) h D' \<and> (\<forall>n. watches_ok ws n \<longrightarrow> watches_ok ws' n)"
  using assms(3,5)
proof (induction hs arbitrary: D ws)
  case Nil
  then show ?case by (intro exI[of _ D] exI[of _ ws]) simp
next
  case (Cons c hs)
  then obtain D1 ws1 where d1: "delete_child rec c (st\<lparr>obj_list := without D (obj_list st)\<rparr>, ws) = Some (st\<lparr>obj_list := without D1 (obj_list st)\<rparr>, ws1)"
    "insert c D \<subseteq> D1" "part_below (obj_list st) h D1" "\<forall>n. watches_ok ws n \<longrightarrow> watches_ok ws1 n"
    using delete_child_ok[OF assms(1,2) _ assms(4), of c D ws] by auto
  moreover from Cons.IH[OF _ d1(3), of ws1] Cons.prems(1) obtain D2 ws2 where
    "foldM (delete_child rec) hs (st\<lparr>obj_list := without D1 (obj_list st)\<rparr>, ws1) = Some (st\<lparr>obj_list := without D2 (obj_list st)\<rparr>, ws2)"
    "D1 \<union> set hs \<subseteq> D2" "part_below (obj_list st) h D2" "\<forall>n. watches_ok ws1 n \<longrightarrow> watches_ok ws2 n" by auto
  ultimately show ?case by (intro exI[of _ D2] exI[of _ ws2]) auto
qed

lemma delete_children_prunes: "prunes fuel (delete_children_from_store_inoti fuel cnt)"
proof (induction fuel)
  case 0
  then show ?case by (simp add: prunes_def)
next
  case (Suc fuel)
  show ?case
    unfolding prunes_def
  proof (intro allI impI)
    fix obj :: mtp_obj and st :: mtp_store and ws
    assume L: "forest (obj_list st)" and obj: "obj_handle obj \<in> set (handles_of (obj_list st))" and y: "younger (obj_handle obj) (obj_list st) < Suc fuel"
    let ?h = "obj_handle obj" and ?hs = "handles_of (filter (has_parent (obj_handle obj)) (obj_list st))"
    have "length (obj_list st) \<le> 2 ^ 29" "?h \<in> set (handles_of (obj_list st))" using L obj by (auto simp: forest_def)
    from child_handles_length[OF this] obtain a where a: "entity_get_child_handles st ?h (prop_alloc_ptparray UINT32_TYPE) = Some a"
      "ptparray_elems a = Some ?hs" by blast
    have hs: "set ?hs = child_set (obj_list st) ?h" by (auto simp: child_set_def)
    have "part_below (obj_list st) ?h {}" by (simp add: part_below_def)
    from delete_loop_ok[OF Suc.IH L _ _ this, of ?hs "remove_inoti_watch cnt (file_path obj) ws"] hs y obtain D ws' where
      "foldM (delete_child (delete_children_from_store_inoti fuel cnt)) ?hs (st\<lparr>obj_list := without {} (obj_list st)\<rparr>, remove_inoti_watch cnt (file_path obj) ws)
         = Some (st\<lparr>obj_list := without D (obj_list st)\<rparr>, ws')"
      "set ?hs \<subseteq> D" "part_below (obj_list st) ?h D" "\<forall>n. watches_ok (remove_inoti_watch cnt (file_path obj) ws) n \<longrightarrow> watches_ok ws' n" by auto
    with a hs show "\<exists>D ws'. delete_children_from_store_inoti (Suc fuel) cnt obj (st, ws) = Some (st\<lparr>obj_list := without D (obj_list st)\<rparr>, ws')
        \<and> below (obj_list st) ?h D \<and> (\<forall>n. watches_ok ws n \<longrightarrow> watches_ok ws' n)"
      by (intro exI[of _ D] exI[of _ ws']) (auto simp: below_iff remove_inoti_watch_ok)
  qed
qed

section \<open>A file or folder that is gone\<close>

lemma key_iff: "(h, Some i, q) \<in> obj_key ` set objs \<longleftrightarrow> (\<exists>x\<in>set objs. obj_handle x = h \<and> obj_info x = Some i \<and> file_path x = q)"
  unfolding obj_key_def image_iff by (simp add: eq_commute)

lemma has_parent_iff: "has_parent h x \<longleftrightarrow> (\<exists>i. obj_info x = Some i \<and> h_parent i = h)"
  by (cases "obj_info x") (simp_all add: has_parent_def)

lemma child_set_keys: "child_set objs h = {c. \<exists>i q. (c, Some i, q) \<in> obj_key ` set objs \<and> h_parent i = h}"
  unfolding child_set_def key_iff has_parent_iff by blast

lemma folder_keys: "folder objs h \<longleftrightarrow> (\<exists>i q. (h, Some i, q) \<in> obj_key ` set objs \<and> obj_fmt i = PTP_FMT_ASSOCIATION)"
  unfolding folder_def key_iff map_option_eq_Some by blast

lemma below_keys:
  assumes "map obj_key objs' = map obj_key objs"
  shows "below objs' h D = below objs h D"
proof -
  have "obj_key ` set objs' = obj_key ` set objs" using arg_cong[OF assms, of set] by simp
  then show ?thesis by (simp add: below_def child_set_keys folder_keys)
qed

lemma without_keys: "map obj_key (without D objs) = filter (\<lambda>x. fst x \<notin> D) (map obj_key objs)"
  by (induction objs) auto

text \<open>Whole subtrees can be taken out when nothing refers to their root.\<close>

lemma subtree_gone_ok:
  assumes ok: "objs_ok nxt objs" and nr: "no_ref h objs" and D: "\<forall>x\<in>D. \<exists>p\<in>insert h D. x \<in> child_set objs p"
  shows "objs_ok nxt (without (insert h D) objs)"
proof -
  have "obj_ok nxt (without (insert h D) objs) obj" if obj: "obj \<in> set objs" "obj_handle obj \<notin> insert h D" for obj
  proof -
    have "r \<notin> insert h D" if r: "r \<in> set (handle_list (child_array obj))" for r
    proof
      assume "r \<in> insert h D"
      moreover have "r \<noteq> h" using nr obj(1) r by (auto simp: no_ref_def)
      ultimately obtain p where p: "p \<in> insert h D" "r \<in> child_set objs p" using D by blast
      have rc: "r \<in> child_set objs (obj_handle obj)" using objs_okD(3)[OF ok obj(1)] r by blast
      then obtain x where x: "x \<in> set objs" "obj_handle x = r" by (auto simp: child_set_def)
      obtain i where i: "obj_info x = Some i" by (rule objs_ok_obj[OF ok x(1)])
      have "p = obj_handle obj" using parent_unique[OF ok x i p(2)] parent_unique[OF ok x i rc] by simp
      with p(1) obj(2) show False by simp
    qed
    then have "set (handle_list (child_array obj)) \<subseteq> child_set (without (insert h D) objs) (obj_handle obj)"
      using objs_okD(3)[OF ok obj(1)] unfolding child_set_without by blast
    with ok obj(1) show ?thesis by (simp add: objs_ok_def obj_ok_def)
  qed
  then show ?thesis using ok by (auto simp: objs_ok_def distinct_map_filter)
qed

definition stores_ok :: "'fs sys \<Rightarrow> bool" where
  "stores_ok s \<longleftrightarrow> (\<forall>st\<in>set (stores (g_dev s)). objs_ok (unat (g_next s)) (obj_list st))"

lemma store_indexD:
  assumes "store_index d sid = Some i"
  shows "i < length (stores d)" "store_list d ! i \<in> set (stores d)" "i < length (store_list d)" "i < unat (num_stores d)"
  using index_where_Some[of _ "stores d" i] assms nth_mem[of i "stores d"] by (auto simp: store_index_def)

text \<open>
  The removal of a known object: the object, and with a folder all that hangs
  below it, leaves the store; the store stays consistent and the event thread
  is told the handle.
\<close>

lemma deleted_event_spec:
  assumes ok: "objs_ok nxt (obj_list st)" and st: "store_index (g_dev (i_sys s)) (entity_get_store_id_by_path full) = Some i"
    "st = store_list (g_dev (i_sys s)) ! i"
    and obj: "entity_get_object_from_store_by_path st full = Some obj"
    and names: "\<not> strstr full MTP_TEMP_FILE" "fname = [] \<or> hd fname \<noteq> CHR ''.''" and fuel: "length (obj_list st) < c_fuel c"
  shows "\<exists>D objs ws. process_object_deleted_event c full fname isdir s =
       Some (s\<lparr>i_watches := ws, i_sys := eh_send_event_req_to_eh_thread EVENT_OBJECT_REMOVED (ucast (obj_handle obj)) 0 0
                                     (upd_store i (st\<lparr>obj_list := objs\<rparr>) (i_sys s))\<rparr>)
     \<and> (if isdir then below (obj_list st) (obj_handle obj) D else D = {})
     \<and> objs_ok nxt objs \<and> map obj_key objs = filter (\<lambda>x. fst x \<notin> insert (obj_handle obj) D) (map obj_key (obj_list st))
     \<and> (\<forall>n. watches_ok (i_watches s) n \<longrightarrow> watches_ok ws n)"
proof -
  let ?h = "obj_handle obj"
  have o: "obj \<in> set (obj_list st)" using obj by (auto simp: entity_get_object_from_store_by_path_def find_Some_iff)
  obtain info where info: "obj_info obj = Some info" by (rule objs_ok_obj[OF ok o])
  obtain objs1 where o1: "drop_reference (h_parent info) ?h st = Some (st\<lparr>obj_list := objs1\<rparr>)" "objs_ok nxt objs1"
    "map obj_key objs1 = map obj_key (obj_list st)" "no_ref ?h objs1"
    using drop_reference_ok[OF ok o refl info] by blast
  let ?st1 = "st\<lparr>obj_list := objs1\<rparr>"
  have "map fst (map obj_key objs1) = map fst (map obj_key (obj_list st))" using o1(3) by simp
  then have hs: "handles_of objs1 = handles_of (obj_list st)" by (simp add: comp_def)
  then have h1: "?h \<in> set (handles_of objs1)" using o by simp
  have "length objs1 < c_fuel c" using fuel arg_cong[OF hs, of length] by simp
  then have y: "younger ?h objs1 < c_fuel c" using length_filter_le[of _ objs1] unfolding younger_def by (rule le_less_trans[rotated])
  obtain D ws where D: "(if isdir then delete_children_from_store_inoti (c_fuel c) (i_cnt s) obj (?st1, i_watches s) else Some (?st1, i_watches s))
      = Some (st\<lparr>obj_list := without D objs1\<rparr>, ws)"
    "if isdir then below objs1 ?h D else D = {}" "\<forall>n. watches_ok (i_watches s) n \<longrightarrow> watches_ok ws n"
  proof (cases isdir)
    case False
    then show ?thesis using that[of "{}" "i_watches s"] by simp
  next
    case True
    have f1: "forest (obj_list ?st1)" using objs_ok_forest[OF o1(2)] by simp
    from prunesD[OF delete_children_prunes[of "c_fuel c" "i_cnt s"] f1, of obj "i_watches s"] h1 y obtain D ws where
      "delete_children_from_store_inoti (c_fuel c) (i_cnt s) obj (?st1, i_watches s) = Some (st\<lparr>obj_list := without D objs1\<rparr>, ws)"
      "below objs1 ?h D" "\<forall>n. watches_ok (i_watches s) n \<longrightarrow> watches_ok ws n" by auto
    with True that[of D ws] show ?thesis by simp
  qed
  have "objs_ok nxt (without (insert ?h D) objs1)"
    using D(2) by (intro subtree_gone_ok[OF o1(2,4)]) (auto simp: below_def split: if_splits)
  moreover have "unlink_obj ?h (st\<lparr>obj_list := without D objs1\<rparr>) = st\<lparr>obj_list := without (insert ?h D) objs1\<rparr>"
    using unlink_without[of "st\<lparr>obj_list := without D objs1\<rparr>" ?h] forest_filter[OF objs_ok_forest[OF o1(2)], of "\<lambda>obj. obj_handle obj \<notin> D"]
      without_without[of "{?h}" D objs1] by simp
  moreover have "map obj_key (without (insert ?h D) objs1) = filter (\<lambda>x. fst x \<notin> insert ?h D) (map obj_key (obj_list st))"
    unfolding without_keys o1(3) ..
  ultimately show ?thesis
    using D o1(1) st obj info names below_keys[OF o1(3)]
    by (intro exI[of _ D] exI[of _ "without (insert ?h D) objs1"] exI[of _ ws])
      (auto simp: process_object_deleted_event_def Let_def split: if_splits)
qed

section \<open>A new file or folder\<close>

lemma parent_handle_older:
  assumes "objs_ok nxt (obj_list st)" "parent_handle st parent = Some h"
  shows "unat h < nxt"
proof (cases "entity_get_object_from_store_by_path st parent")
  case None
  with assms show ?thesis by (auto simp: parent_handle_def objs_ok_def split: if_splits)
next
  case (Some par)
  then have "par \<in> set (obj_list st)" by (auto simp: entity_get_object_from_store_by_path_def find_Some_iff)
  from objs_okD(4)[OF assms(1) this] Some assms(2) show ?thesis by (simp add: parent_handle_def)
qed

lemma added_event_spec:
  assumes ok: "objs_ok (unat (g_next s)) (obj_list st)" "unat (g_next s) < 2 ^ 29"
    and st: "store_index (g_dev s) (entity_get_store_id_by_path full) = Some i" "st = store_list (g_dev s) ! i"
    and names: "\<not> strstr fname MTP_TEMP_FILE" "fname = [] \<or> hd fname \<noteq> CHR ''.''"
    and h: "parent_handle st parent = Some h" and entry: "os_stat (c_os c) (g_fs s) full = Some si" "stat_entry si full = Some entry"
  shows "\<exists>objs obj. process_object_added_event c full fname parent s =
       Some (eh_send_event_req_to_eh_thread EVENT_OBJECT_ADDED (ucast (g_next s)) 0 0
               (upd_store i (st\<lparr>obj_list := objs\<rparr>) (s\<lparr>g_next := g_next s + 1\<rparr>)))
     \<and> objs_ok (Suc (unat (g_next s))) objs \<and> map obj_key objs = map obj_key (obj_list st) @ [obj_key obj]
     \<and> obj_handle obj = g_next s \<and> file_path obj = Some full \<and> has_parent h obj \<and> unat (g_next s + 1) = Suc (unat (g_next s))"
proof -
  from add_entry_ok[OF ok parent_handle_older[OF ok(1) h], of full fname entry] obtain objs obj where
    "entity_add_file_to_store st (g_next s) h full fname entry = Some (st\<lparr>obj_list := objs\<rparr>, g_next s + 1, obj)"
    "entity_add_folder_to_store st (g_next s) h full fname entry = Some (st\<lparr>obj_list := objs\<rparr>, g_next s + 1, obj)"
    "objs_ok (Suc (unat (g_next s))) objs" "unat (g_next s + 1) = Suc (unat (g_next s))"
    "map obj_key objs = map obj_key (obj_list st) @ [obj_key obj]" "obj_handle obj = g_next s" "file_path obj = Some full"
    "\<exists>i. obj_info obj = Some i \<and> h_parent i = h" by blast
  with assms show ?thesis
    by (intro exI[of _ objs] exI[of _ obj]) (auto simp: process_object_added_event_def Let_def has_parent_def)
qed

section \<open>Events keep the invariant\<close>

definition inoti_inv :: "'fs inoti \<Rightarrow> bool" where
  "inoti_inv s \<longleftrightarrow> stores_ok (i_sys s) \<and> watches_ok (i_watches s) (i_cnt s) \<and> (\<exists>fs. open_files_ok (i_open s) fs)"

text \<open>Enough fuel for every tree of objects, and handles left for n new ones.\<close>

definition roomy :: "'fs conf \<Rightarrow> nat \<Rightarrow> 'fs inoti \<Rightarrow> bool" where
  "roomy c n s \<longleftrightarrow> unat (g_next (i_sys s)) + n \<le> 2 ^ 29 \<and> unat (g_next (i_sys s)) + n \<le> c_fuel c"

text \<open>
  What the watcher leaves alone: the command under way and its transfer.  New
  objects take handles that were not given out before.
\<close>

definition store_handles :: "'fs sys \<Rightarrow> u32 set" where
  "store_handles s = (\<Union>st\<in>set (stores (g_dev s)). set (handles_of (obj_list st)))"

definition beside :: "'fs sys \<Rightarrow> 'fs sys \<Rightarrow> bool" where
  "beside s s' \<longleftrightarrow> foreign s s' \<and> unat (g_next s) \<le> unat (g_next s')
     \<and> store_handles s' \<subseteq> store_handles s \<union> {h. unat (g_next s) \<le> unat h}"

lemma beside_same:
  "g_dev s' = g_dev s \<Longrightarrow> g_next s' = g_next s \<Longrightarrow> g_hdlr s' = g_hdlr s \<Longrightarrow> g_ftemp s' = g_ftemp s \<Longrightarrow> beside s s'"
  by (simp add: beside_def foreign_def store_handles_def)

lemma beside_upd [simp]:
  "beside s s" "beside s (s1\<lparr>g_copied := p\<rparr>) = beside s s1" "beside s (s1\<lparr>g_copy_dst := p\<rparr>) = beside s s1"
  "beside s (s1\<lparr>g_created := p\<rparr>) = beside s s1" "beside s (s1\<lparr>g_last := p\<rparr>) = beside s s1"
  "beside s (s1\<lparr>g_moved := p\<rparr>) = beside s s1" "beside s (s1\<lparr>g_send_partial := b\<rparr>) = beside s s1"
  "beside s (s1\<lparr>g_watch := w\<rparr>) = beside s s1" "beside (s\<lparr>g_copy_dst := p\<rparr>) s1 = beside s s1"
  by (simp_all add: beside_def foreign_def store_handles_def)

lemma beside_trans: "beside s s1 \<Longrightarrow> beside s1 s2 \<Longrightarrow> beside s s2"
  by (auto simp: beside_def foreign_def subset_iff dest: le_trans)

lemma store_handles_upd:
  assumes "i < length (stores (g_dev s))"
    "g_dev s' = (g_dev s)\<lparr>store_list := (store_list (g_dev s))[i := (store_list (g_dev s) ! i)\<lparr>obj_list := objs\<rparr>]\<rparr>"
  shows "store_handles s' \<subseteq> store_handles s \<union> set (handles_of objs)"
proof -
  have "set (take m (xs[i := x])) \<subseteq> insert x (set (take m xs))" for m :: nat and xs and x :: mtp_store
    unfolding take_update_swap by (rule set_update_subset_insert)
  then show ?thesis using assms(2) by (fastforce simp: store_handles_def)
qed

lemma beside_store:
  assumes "i < length (stores (g_dev s))" "foreign s s'" "unat (g_next s) \<le> unat (g_next s')"
    "g_dev s' = (g_dev s)\<lparr>store_list := (store_list (g_dev s))[i := (store_list (g_dev s) ! i)\<lparr>obj_list := objs\<rparr>]\<rparr>"
    "set (handles_of objs) \<subseteq> set (handles_of (obj_list (store_list (g_dev s) ! i))) \<union> {h. unat (g_next s) \<le> unat h}"
  shows "beside s s'"
proof -
  have "store_list (g_dev s) ! i \<in> set (stores (g_dev s))" using assms(1) by (auto simp: in_set_conv_nth)
  then have "set (handles_of (obj_list (store_list (g_dev s) ! i))) \<subseteq> store_handles s" by (auto simp: store_handles_def)
  with store_handles_upd[OF assms(1,4)] assms(2,3,5) show ?thesis unfolding beside_def by blast
qed

definition one_step :: "'fs inoti \<Rightarrow> 'fs inoti \<Rightarrow> bool" where
  "one_step s s' \<longleftrightarrow> inoti_inv s' \<and> unat (g_next (i_sys s')) \<le> Suc (unat (g_next (i_sys s))) \<and> beside (i_sys s) (i_sys s')"

lemma stores_upd:
  assumes "stores_ok s" "i < length (store_list (g_dev s))" "objs_ok n objs" "n = unat (g_next s) \<or> n = Suc (unat (g_next s)) \<and> unat (g_next s) < 2 ^ 29"
    "g_dev s' = (g_dev s)\<lparr>store_list := (store_list (g_dev s))[i := (store_list (g_dev s) ! i)\<lparr>obj_list := objs\<rparr>]\<rparr>" "unat (g_next s') = n"
  shows "stores_ok s'"
proof -
  have "objs_ok n (obj_list st)" if "st \<in> set (stores (g_dev s))" for st
    using assms(1,4) that objs_ok_Suc by (auto simp: stores_ok_def)
  moreover have "set (take m (xs[i := x])) \<subseteq> insert x (set (take m xs))" for m :: nat and xs and x :: mtp_store
    unfolding take_update_swap by (rule set_update_subset_insert)
  ultimately show ?thesis using assms(3,5,6) by (fastforce simp: stores_ok_def)
qed

lemma eh_send_sel [simp]:
  "g_dev (eh_send_event_req_to_eh_thread a p q r s) = g_dev s" "g_next (eh_send_event_req_to_eh_thread a p q r s) = g_next s"
  by (simp_all add: eh_send_event_req_to_eh_thread_def)

lemma stores_ok_cong: "g_dev s' = g_dev s \<Longrightarrow> g_next s' = g_next s \<Longrightarrow> stores_ok s' = stores_ok s"
  by (simp add: stores_ok_def)

lemma one_step_same: "inoti_inv s \<Longrightarrow> one_step s s"
  by (simp add: one_step_def beside_same)

lemma added_ok:
  assumes "inoti_inv s" "roomy c 1 s"
  shows "\<exists>s'. added c full fname parent s = Some s' \<and> one_step s s' \<and> i_open s' = i_open s"
proof -
  let ?sys = "i_sys s"
  have ok: "stores_ok ?sys" "unat (g_next ?sys) < 2 ^ 29" using assms by (auto simp: inoti_inv_def roomy_def)
  consider (skip) "process_object_added_event c full fname parent ?sys = Some ?sys"
    | (add) i h si entry where "store_index (g_dev ?sys) (entity_get_store_id_by_path full) = Some i"
        "\<not> strstr fname MTP_TEMP_FILE" "fname = [] \<or> hd fname \<noteq> CHR ''.''" "parent_handle (store_list (g_dev ?sys) ! i) parent = Some h"
        "os_stat (c_os c) (g_fs ?sys) full = Some si" "stat_entry si full = Some entry"
    by (cases "strstr fname MTP_TEMP_FILE"; cases "fname \<noteq> [] \<and> hd fname = CHR ''.''"; cases "store_index (g_dev ?sys) (entity_get_store_id_by_path full)";
        cases "parent_handle (store_list (g_dev ?sys) ! the (store_index (g_dev ?sys) (entity_get_store_id_by_path full))) parent";
        cases "os_stat (c_os c) (g_fs ?sys) full"; cases "stat_entry (the (os_stat (c_os c) (g_fs ?sys) full)) full")
      (auto simp: process_object_added_event_def Let_def split: if_splits)
  then show ?thesis
  proof cases
    case skip
    with assms(1) show ?thesis by (auto simp: added_def intro: one_step_same)
  next
    case add
    note i = store_indexD[OF add(1)]
    have "objs_ok (unat (g_next ?sys)) (obj_list (store_list (g_dev ?sys) ! i))" using ok(1) i(2) by (simp add: stores_ok_def)
    from added_event_spec[OF this ok(2) add(1) refl add(2-6)] obtain objs where
      objs: "process_object_added_event c full fname parent ?sys =
         Some (eh_send_event_req_to_eh_thread EVENT_OBJECT_ADDED (ucast (g_next ?sys)) 0 0
               (upd_store i ((store_list (g_dev ?sys) ! i)\<lparr>obj_list := objs\<rparr>) (?sys\<lparr>g_next := g_next ?sys + 1\<rparr>)))"
      "objs_ok (Suc (unat (g_next ?sys))) objs" "unat (g_next ?sys + 1) = Suc (unat (g_next ?sys))"
      "set (handles_of objs) = insert (g_next ?sys) (set (handles_of (obj_list (store_list (g_dev ?sys) ! i))))"
      by (auto dest!: arg_cong[of _ _ "\<lambda>ks. fst ` set ks"] simp: image_image)
    let ?t = "eh_send_event_req_to_eh_thread EVENT_OBJECT_ADDED (ucast (g_next ?sys)) 0 0
               (upd_store i ((store_list (g_dev ?sys) ! i)\<lparr>obj_list := objs\<rparr>) (?sys\<lparr>g_next := g_next ?sys + 1\<rparr>))"
    have "stores_ok ?t" using ok(2) objs(3) by (intro stores_upd[OF ok(1) i(3) objs(2)]) simp_all
    moreover have "beside ?sys ?t"
      using objs(3) by (intro beside_store[OF i(1), where objs = objs]) (auto simp: objs(4)[unfolded set_map] foreign_def eh_send_event_req_to_eh_thread_def)
    ultimately show ?thesis using assms(1) objs by (auto simp: added_def one_step_def inoti_inv_def)
  qed
qed

lemma deleted_ok:
  assumes "inoti_inv s" "roomy c 1 s"
  shows "\<exists>s'. process_object_deleted_event c full fname isdir s = Some s' \<and> one_step s s' \<and> i_open s' = i_open s"
proof -
  let ?sys = "i_sys s"
  have ok: "stores_ok ?sys" using assms by (auto simp: inoti_inv_def roomy_def)
  consider (skip) "process_object_deleted_event c full fname isdir s = Some s"
    | (del) i obj where "store_index (g_dev ?sys) (entity_get_store_id_by_path full) = Some i"
        "entity_get_object_from_store_by_path (store_list (g_dev ?sys) ! i) full = Some obj"
        "\<not> strstr full MTP_TEMP_FILE" "fname = [] \<or> hd fname \<noteq> CHR ''.''"
    by (cases "strstr full MTP_TEMP_FILE"; cases "fname \<noteq> [] \<and> hd fname = CHR ''.''"; cases "store_index (g_dev ?sys) (entity_get_store_id_by_path full)";
        cases "entity_get_object_from_store_by_path (store_list (g_dev ?sys) ! the (store_index (g_dev ?sys) (entity_get_store_id_by_path full))) full")
      (auto simp: process_object_deleted_event_def Let_def split: if_splits)
  then show ?thesis
  proof cases
    case skip
    with assms(1) show ?thesis by (auto intro: one_step_same)
  next
    case del
    note i = store_indexD[OF del(1)]
    have o: "objs_ok (unat (g_next ?sys)) (obj_list (store_list (g_dev ?sys) ! i))" using ok i(2) by (simp add: stores_ok_def)
    have "length (obj_list (store_list (g_dev ?sys) ! i)) < c_fuel c" using objs_ok_length[OF o] assms(2) by (simp add: roomy_def)
    from deleted_event_spec[OF o del(1) refl del(2-4) this, of isdir] obtain objs ws D where
      objs: "process_object_deleted_event c full fname isdir s =
         Some (s\<lparr>i_watches := ws, i_sys := eh_send_event_req_to_eh_thread EVENT_OBJECT_REMOVED (ucast (obj_handle obj)) 0 0
               (upd_store i ((store_list (g_dev ?sys) ! i)\<lparr>obj_list := objs\<rparr>) ?sys)\<rparr>)"
      "objs_ok (unat (g_next ?sys)) objs" "\<forall>n. watches_ok (i_watches s) n \<longrightarrow> watches_ok ws n"
      "map obj_key objs = filter (\<lambda>x. fst x \<notin> insert (obj_handle obj) D) (map obj_key (obj_list (store_list (g_dev ?sys) ! i)))" by blast
    have "fst ` set (map obj_key objs) \<subseteq> fst ` set (map obj_key (obj_list (store_list (g_dev ?sys) ! i)))"
      unfolding objs(4) by auto
    then have hs: "set (handles_of objs) \<subseteq> set (handles_of (obj_list (store_list (g_dev ?sys) ! i)))" by (simp add: image_image)
    let ?t = "eh_send_event_req_to_eh_thread EVENT_OBJECT_REMOVED (ucast (obj_handle obj)) 0 0
               (upd_store i ((store_list (g_dev ?sys) ! i)\<lparr>obj_list := objs\<rparr>) ?sys)"
    have "stores_ok ?t" by (intro stores_upd[OF ok i(3) objs(2)]) simp_all
    moreover have "beside ?sys ?t"
      using hs by (intro beside_store[OF i(1)]) (auto simp: foreign_def eh_send_event_req_to_eh_thread_def)
    ultimately show ?thesis using assms(1) objs by (auto simp: one_step_def inoti_inv_def)
  qed
qed

text \<open>The allocator returns an address that is not in use.\<close>

definition malloc_ok :: "inoti_conf \<Rightarrow> bool" where
  "malloc_ok k \<longleftrightarrow> (\<forall>l. finite (dom (of_heap l)) \<longrightarrow> of_heap l (ic_malloc k l) = None)"

lemma malloc_fresh: "malloc_ok k \<Longrightarrow> open_files_ok l fs \<Longrightarrow> of_heap l (ic_malloc k l) = None"
  by (auto simp: malloc_ok_def open_files_ok_def open_at_def)

lemma inoti_inv_sys: "g_dev t = g_dev (i_sys s) \<Longrightarrow> g_next t = g_next (i_sys s) \<Longrightarrow> inoti_inv (s\<lparr>i_sys := t\<rparr>) = inoti_inv s"
  by (simp add: inoti_inv_def stores_ok_def)

lemma inoti_inv_upd [simp]:
  "inoti_inv (s\<lparr>i_sys := (i_sys s)\<lparr>g_copy_dst := p\<rparr>\<rparr>) = inoti_inv s" "inoti_inv (s\<lparr>i_sys := (i_sys s)\<lparr>g_copied := p\<rparr>\<rparr>) = inoti_inv s"
  "inoti_inv (s\<lparr>i_sys := (i_sys s)\<lparr>g_created := p\<rparr>\<rparr>) = inoti_inv s" "inoti_inv (s\<lparr>i_sys := (i_sys s)\<lparr>g_last := p\<rparr>\<rparr>) = inoti_inv s"
  "inoti_inv (s\<lparr>i_sys := (i_sys s)\<lparr>g_moved := p\<rparr>\<rparr>) = inoti_inv s"
  "inoti_inv (s\<lparr>i_sys := (i_sys s)\<lparr>g_copy_dst := p, g_send_partial := b\<rparr>\<rparr>) = inoti_inv s"
  "inoti_inv (s\<lparr>i_cookie := ck\<rparr>) = inoti_inv s"
  by (simp_all add: inoti_inv_sys) (simp add: inoti_inv_def)

lemma close_write_ok:
  assumes "inoti_inv s" "roomy c 1 s"
  shows "\<exists>s'. process_close_write c ev full parent s = Some s' \<and> one_step s s'"
proof -
  obtain s1 where s1: "added c full (ie_name ev) parent s = Some s1" "one_step s s1" "i_open s1 = i_open s"
    using added_ok[OF assms] by blast
  obtain fs where fs: "open_files_ok (i_open s) fs" using assms(1) by (auto simp: inoti_inv_def)
  show ?thesis
  proof (cases "g_copied (i_sys s) = full \<or> g_send_partial (i_sys s)")
    case True
    have "one_step s (s1\<lparr>i_sys := (i_sys s1)\<lparr>g_send_partial := False, g_copy_dst := []\<rparr>\<rparr>)"
      "one_step s (s\<lparr>i_sys := (i_sys s)\<lparr>g_copied := []\<rparr>\<rparr>)"
      using s1(2) assms(1) inoti_inv_sys[of _ s1] by (auto simp: one_step_def)
    with True s1(1) show ?thesis by (auto simp: process_close_write_def)
  next
    case False
    show ?thesis
    proof (cases "(ie_wd ev, ie_name ev) \<in> set fs")
      case True
      from open_list.look_present[OF fs this] obtain a l where "find_file_in_inoti_open_files_list (ie_wd ev) (ie_name ev) (i_open s) = Some (Some a)"
        "remove_file_from_inoti_open_files_list a (i_open s) = Some l" "open_files_ok l (remove1 (ie_wd ev, ie_name ev) fs)" by blast
      moreover from this s1(2) have "one_step s (s1\<lparr>i_open := l\<rparr>)" by (auto simp: one_step_def inoti_inv_def)
      ultimately show ?thesis using False s1 by (auto simp: process_close_write_def)
    next
      case F: False
      with open_list.look_absent[OF fs F] False assms(1) show ?thesis by (auto simp: process_close_write_def intro: one_step_same)
    qed
  qed
qed

definition stepped :: "'fs inoti \<Rightarrow> ('fs inoti \<times> bool) option \<Rightarrow> bool" where
  "stepped s r \<longleftrightarrow> (\<exists>s' b. r = Some (s', b) \<and> one_step s s')"

lemma stepped_if: "stepped s x \<Longrightarrow> stepped s y \<Longrightarrow> stepped s (if b then x else y)"
  by simp

lemma stepped_run: "\<exists>s'. r = Some s' \<and> one_step s s' \<Longrightarrow> stepped s (map_option (\<lambda>t. (t, True)) r)"
  by (auto simp: stepped_def)

lemma dispatch_event_ok:
  assumes "inoti_inv s" "roomy c 1 s" "malloc_ok k"
  shows "\<exists>s' b. dispatch_inoti_event c k ev full parent s = Some (s', b) \<and> one_step s s'"
proof -
  obtain fs where fs: "open_files_ok (i_open s) fs" using assms(1) by (auto simp: inoti_inv_def)
  from open_list.add_ok[OF this malloc_fresh[OF assms(3) this]] obtain l where
    l: "add_file_to_inoti_open_files_list (ic_malloc k (i_open s)) (ie_wd ev) (ie_name ev) (i_open s) = Some l"
    "open_files_ok l ((ie_wd ev, ie_name ev) # fs)" by blast
  then have "one_step s (s\<lparr>i_open := l\<rparr>)" using assms(1) by (auto simp: one_step_def inoti_inv_def)
  moreover have "one_step s (s\<lparr>i_sys := (i_sys s)\<lparr>g_moved := []\<rparr>, i_cookie := ck\<rparr>)" "one_step s (s\<lparr>i_cookie := ck\<rparr>)"
    "one_step s (s\<lparr>i_sys := (i_sys s)\<lparr>g_created := []\<rparr>\<rparr>)" "one_step s (s\<lparr>i_sys := (i_sys s)\<lparr>g_last := []\<rparr>\<rparr>)" "one_step s s" for ck
    using assms(1) by (simp_all add: one_step_def)
  moreover obtain s1 s2 s3 where "added c full (ie_name ev) parent s = Some s1" "one_step s s1"
    "process_object_deleted_event c full (ie_name ev) (has_flag ev IN_ISDIR) s = Some s2" "one_step s s2"
    "process_close_write c ev full parent s = Some s3" "one_step s s3"
    using added_ok[OF assms(1,2)] deleted_ok[OF assms(1,2)] close_write_ok[OF assms(1,2)] by metis
  ultimately have "stepped s (dispatch_inoti_event c k ev full parent s)"
    unfolding dispatch_inoti_event_def Let_def using l(1)
    by (intro stepped_if stepped_run) (auto simp: stepped_def)
  then show ?thesis by (simp add: stepped_def)
qed

lemma process_event_ok:
  assumes "inoti_inv s" "roomy c 1 s" "malloc_ok k"
  shows "\<exists>s' b. process_inoti_event c k ev s = Some (s', b) \<and> one_step s s'"
proof -
  have "watches_ok (i_watches s) (i_cnt s)" using assms(1) by (simp add: inoti_inv_def)
  from full_path_defined[OF this] obtain r where r: "get_inoti_event_full_path (i_watches s) (ie_wd ev) (ie_name ev) (MTP_MAX_PATHNAME_SIZE + 1) = Some r"
    by blast
  have "\<exists>s' b. dispatch_inoti_event c k ev full parent (s\<lparr>i_sys := (i_sys s)\<lparr>g_copy_dst := full\<rparr>\<rparr>) = Some (s', b) \<and> one_step s s'" for full parent
    using dispatch_event_ok[of "s\<lparr>i_sys := (i_sys s)\<lparr>g_copy_dst := full\<rparr>\<rparr>" c k ev full parent] assms
    by (simp add: roomy_def one_step_def)
  with r one_step_same[OF assms(1)] show ?thesis
    by (cases r) (auto simp: process_inoti_event_def)
qed

lemma roomy_step: "roomy c (Suc n) s \<Longrightarrow> one_step s s' \<Longrightarrow> roomy c n s'"
  by (simp add: roomy_def one_step_def)

lemma roomy_less: "roomy c n s \<Longrightarrow> m \<le> n \<Longrightarrow> roomy c m s"
  by (simp add: roomy_def)

text \<open>The events one after the other; whether an event was handled is ignored.\<close>

definition handle_event :: "'fs conf \<Rightarrow> inoti_conf \<Rightarrow> inotify_event \<Rightarrow> 'fs inoti \<Rightarrow> 'fs inoti option" where
  "handle_event c k ev s = map_option fst (process_inoti_event c k ev s)"

lemma handle_events_ok:
  assumes "inoti_inv s" "roomy c (length evs) s" "malloc_ok k"
  shows "\<exists>s'. foldM (handle_event c k) evs s = Some s' \<and> inoti_inv s'"
  using assms(1,2)
proof (induction evs arbitrary: s)
  case (Cons ev evs)
  from process_event_ok[OF Cons.prems(1) roomy_less[OF Cons.prems(2)] assms(3), of ev] obtain s1 b where
    s1: "process_inoti_event c k ev s = Some (s1, b)" "one_step s s1" by auto
  with Cons.IH[of s1] Cons.prems(2) roomy_step[of c "length evs" s s1] show ?case
    by (auto simp: handle_event_def one_step_def)
qed simp

section \<open>The buffer of the kernel\<close>

text \<open>What a read delivers: whole events, each name padded with zeros to the announced length.\<close>

definition event_bytes :: "inotify_event \<Rightarrow> u8 list" where
  "event_bytes ev = le_bytes 4 (word_of_int (ie_wd ev) :: u32) @ le_bytes 4 (ie_mask ev) @ le_bytes 4 (ie_cookie ev)
     @ le_bytes 4 (ie_len ev) @ map (\<lambda>ch. of_nat (of_char ch)) (ie_name ev)
     @ replicate (unat (ie_len ev) - length (ie_name ev)) 0"

definition kernel_event :: "inotify_event \<Rightarrow> bool" where
  "kernel_event ev \<longleftrightarrow> - (2 ^ 31) \<le> ie_wd ev \<and> ie_wd ev < 2 ^ 31 \<and> unat (ie_len ev) \<le> 256 \<and> CHR 0x00 \<notin> set (ie_name ev)
     \<and> (if ie_len ev = 0 then ie_name ev = [] else length (ie_name ev) < unat (ie_len ev))"

lemma event_bytes_length: "kernel_event ev \<Longrightarrow> length (event_bytes ev) = 16 + unat (ie_len ev)"
  by (auto simp: event_bytes_def kernel_event_def split: if_splits)

lemma rd_le_bytes:
  assumes "length pre = off" "LENGTH('a::len) \<le> 8 * n"
  shows "rd_word (pre @ le_bytes n (w :: 'a word) @ rest) off n = Some w"
  using assms by (simp add: rd_word_def le_word_le_bytes)

lemma char_byte: "char_of (unat (of_nat (of_char ch) :: u8)) = ch" "(of_nat (of_char ch) :: u8) = 0 \<longleftrightarrow> ch = CHR 0x00"
proof -
  have *: "unat (of_nat (of_char ch :: nat) :: u8) = of_char ch"
    by (simp add: unat_of_nat)
  show "char_of (unat (of_nat (of_char ch) :: u8)) = ch" using * by simp
  have "(of_nat (of_char ch) :: u8) = 0 \<longleftrightarrow> of_char ch = (0 :: nat)" using * by (metis unat_eq_zero)
  also have "\<dots> \<longleftrightarrow> ch = CHR 0x00"
    using of_char_eq_iff[of ch "CHR 0x00", where 'a = nat] by simp
  finally show "(of_nat (of_char ch) :: u8) = 0 \<longleftrightarrow> ch = CHR 0x00" .
qed

lemma c_string_at:
  assumes "length pre = off" "CHR 0x00 \<notin> set n" "0 < z"
  shows "c_string (pre @ map (\<lambda>ch. of_nat (of_char ch)) n @ replicate z 0 @ rest) off = Some n"
proof -
  have "takeWhile (\<lambda>b. b \<noteq> 0) (map (\<lambda>ch. of_nat (of_char ch) :: u8) n @ replicate z 0 @ rest) = map (\<lambda>ch. of_nat (of_char ch)) n"
    using assms(2,3) by (subst takeWhile_append2) (auto simp: char_byte takeWhile_eq_Nil_iff gr0_conv_Suc)
  with assms show ?thesis by (simp add: c_string_def comp_def char_byte)
qed

lemma rd_event_at:
  assumes "kernel_event ev" "length pre = i"
  shows "rd_inotify_event (pre @ event_bytes ev @ rest) i = Some ev"
proof -
  let ?wd = "word_of_int (ie_wd ev) :: u32" and ?m = "ie_mask ev" and ?ck = "ie_cookie ev" and ?l = "ie_len ev"
  define bytes where "bytes = map (\<lambda>ch. of_nat (of_char ch) :: u8) (ie_name ev)"
  let ?z = "replicate (unat ?l - length (ie_name ev)) (0 :: u8)"
  let ?buf = "pre @ event_bytes ev @ rest"
  have buf: "?buf = pre @ le_bytes 4 ?wd @ le_bytes 4 ?m @ le_bytes 4 ?ck @ le_bytes 4 ?l @ bytes @ ?z @ rest"
    by (simp add: event_bytes_def bytes_def)
  have "rd_word ?buf i 4 = Some ?wd" unfolding buf using assms(2) by (intro rd_le_bytes) simp_all
  moreover have "rd_word ?buf (i + 4) 4 = Some ?m"
    using rd_le_bytes[of "pre @ le_bytes 4 ?wd" "i + 4" 4 ?m] assms(2) by (simp add: buf)
  moreover have "rd_word ?buf (i + 8) 4 = Some ?ck"
    using rd_le_bytes[of "pre @ le_bytes 4 ?wd @ le_bytes 4 ?m" "i + 8" 4 ?ck] assms(2) by (simp add: buf)
  moreover have "rd_word ?buf (i + 12) 4 = Some ?l"
    using rd_le_bytes[of "pre @ le_bytes 4 ?wd @ le_bytes 4 ?m @ le_bytes 4 ?ck" "i + 12" 4 ?l] assms(2) by (simp add: buf)
  moreover have "c_string ?buf (i + 16) = Some (ie_name ev)" if "?l \<noteq> 0"
    using c_string_at[of "pre @ le_bytes 4 ?wd @ le_bytes 4 ?m @ le_bytes 4 ?ck @ le_bytes 4 ?l" "i + 16" "ie_name ev"
        "unat ?l - length (ie_name ev)" rest] assms that by (simp add: buf bytes_def kernel_event_def)
  moreover have "\<not> of_nat MTP_MAX_FILENAME_SIZE < ?l" using assms(1) by (simp add: kernel_event_def word_less_nat_alt)
  moreover have "?l = 0 \<Longrightarrow> ie_name ev = []" using assms(1) by (simp add: kernel_event_def)
  moreover have "sint ?wd = ie_wd ev" using assms(1) by (simp add: kernel_event_def signed_of_int signed_take_bit_int_eq_self)
  ultimately show ?thesis by (simp add: rd_inotify_event_def)
qed

lemma handle_event_eq:
  "process_inoti_event c k ev s = r \<Longrightarrow> handle_event c k ev s = map_option fst r"
  by (simp add: handle_event_def)

lemma walk_events:
  assumes "\<forall>ev\<in>set evs. kernel_event ev" "length pre = i"
  shows "inoti_walk c k (pre @ concat (map event_bytes evs) @ rest) (i + length (concat (map event_bytes evs))) i s
     = foldM (handle_event c k) evs s"
  using assms
proof (induction evs arbitrary: pre i s)
  case Nil
  then show ?case by (simp add: inoti_walk.simps)
next
  case (Cons ev evs)
  have rd: "rd_inotify_event (pre @ event_bytes ev @ concat (map event_bytes evs) @ rest) i = Some ev"
    using Cons.prems by (intro rd_event_at) simp_all
  have len: "length (event_bytes ev) = 16 + unat (ie_len ev)" using Cons.prems(1) by (simp add: event_bytes_length)
  have IH: "inoti_walk c k ((pre @ event_bytes ev) @ concat (map event_bytes evs) @ rest)
      (length (pre @ event_bytes ev) + length (concat (map event_bytes evs))) (length (pre @ event_bytes ev)) t
      = foldM (handle_event c k) evs t" for t
    using Cons.prems(1) by (intro Cons.IH) simp_all
  show ?case
  proof (cases "process_inoti_event c k ev s")
    case None
    with len rd Cons.prems(2) show ?thesis by (subst inoti_walk.simps) (simp add: handle_event_eq)
  next
    case (Some r)
    have "i + unat (ie_len ev) + 16 = length (pre @ event_bytes ev)" using len Cons.prems(2) by simp
    with Some IH len rd Cons.prems(2) show ?thesis
      by (subst inoti_walk.simps) (cases r, simp add: handle_event_eq ac_simps)
  qed
qed

lemma inoti_loop_events:
  assumes "\<forall>evs\<in>set batches. \<forall>ev\<in>set evs. kernel_event ev"
  shows "map_option snd (inoti_loop c k (map (\<lambda>evs. Some (concat (map event_bytes evs))) batches) (buf, s))
     = foldM (handle_event c k) (concat batches) s"
  using assms
proof (induction batches arbitrary: buf s)
  case (Cons evs batches)
  let ?d = "concat (map event_bytes evs)"
  have "inoti_walk c k (?d @ drop (length ?d) buf) (length ?d) 0 s = foldM (handle_event c k) evs s"
    using walk_events[of evs "[]" 0 c k "drop (length ?d) buf" s] Cons.prems by simp
  with Cons show ?case
    by (cases "foldM (handle_event c k) evs s") (simp_all add: inoti_read_def Let_def foldM_append)
qed simp

text \<open>C16: The thread that walks over the bytes of the kernel's buffer handles exactly the events that the kernel wrote, in their
  order, however they are distributed over the reads: it is equivalent to handling the list of events one by one.\<close>

theorem thread_inoti_events:
  assumes "\<forall>evs\<in>set batches. \<forall>ev\<in>set evs. kernel_event ev"
  shows "thread_inoti c k (map (\<lambda>evs. Some (concat (map event_bytes evs))) batches) s = foldM (handle_event c k) (concat batches) s"
  unfolding thread_inoti_def by (rule inoti_loop_events[OF assms])


text \<open>C17: When a folder disappears, exactly the objects below it leave the store (through folders, and nothing else), the store
  stays consistent and the event thread is asked to announce the removal of the folder.\<close>

theorem deleted_folder_subtree:
  assumes "stores_ok (i_sys s)" "store_index (g_dev (i_sys s)) (entity_get_store_id_by_path full) = Some i"
    "st = store_list (g_dev (i_sys s)) ! i" "entity_get_object_from_store_by_path st full = Some obj"
    "\<not> strstr full MTP_TEMP_FILE" "fname = [] \<or> hd fname \<noteq> CHR ''.''" "unat (g_next (i_sys s)) \<le> c_fuel c"
  shows "\<exists>s' D. process_object_deleted_event c full fname True s = Some s' \<and> below (obj_list st) (obj_handle obj) D
     \<and> map obj_key (obj_list (store_list (g_dev (i_sys s')) ! i)) = filter (\<lambda>x. fst x \<notin> insert (obj_handle obj) D) (map obj_key (obj_list st))
     \<and> stores_ok (i_sys s')
     \<and> g_ehq (i_sys s') = g_ehq (i_sys s) @ [\<lparr>ev_action = EVENT_OBJECT_REMOVED, ev_param1 = ucast (obj_handle obj), ev_param2 = 0, ev_param3 = 0\<rparr>]"
proof -
  note i = store_indexD[OF assms(2)]
  have o: "objs_ok (unat (g_next (i_sys s))) (obj_list st)" using assms(1,3) i(2) by (simp add: stores_ok_def)
  then have "length (obj_list st) < c_fuel c" using objs_ok_length[OF o] assms(7) by simp
  from deleted_event_spec[OF o assms(2-6) this, of True] obtain D objs ws where
    r: "process_object_deleted_event c full fname True s =
       Some (s\<lparr>i_watches := ws, i_sys := eh_send_event_req_to_eh_thread EVENT_OBJECT_REMOVED (ucast (obj_handle obj)) 0 0
                                     (upd_store i (st\<lparr>obj_list := objs\<rparr>) (i_sys s))\<rparr>)"
    "below (obj_list st) (obj_handle obj) D" "objs_ok (unat (g_next (i_sys s))) objs"
    "map obj_key objs = filter (\<lambda>x. fst x \<notin> insert (obj_handle obj) D) (map obj_key (obj_list st))" by auto
  let ?t = "eh_send_event_req_to_eh_thread EVENT_OBJECT_REMOVED (ucast (obj_handle obj)) 0 0 (upd_store i (st\<lparr>obj_list := objs\<rparr>) (i_sys s))"
  have "stores_ok ?t" using assms(3) by (intro stores_upd[OF assms(1) i(3) r(3)]) simp_all
  with r i(3) show ?thesis by (auto simp: eh_send_event_req_to_eh_thread_def)
qed

section \<open>Creation\<close>

definition located_at :: "inotify_event \<Rightarrow> string \<Rightarrow> string \<Rightarrow> 'fs inoti \<Rightarrow> bool" where
  "located_at ev full parent s \<longleftrightarrow> ie_len ev \<noteq> 0 \<and> ie_len ev \<le> of_nat MTP_MAX_FILENAME_SIZE \<and> 1 \<le> ie_wd ev
     \<and> get_inoti_event_full_path (i_watches s) (ie_wd ev) (ie_name ev) (MTP_MAX_PATHNAME_SIZE + 1) = Some (Some (full, parent))
     \<and> util_is_path_len_valid full"

lemma process_located:
  "located_at ev full parent s \<Longrightarrow> process_inoti_event c k ev s =
     dispatch_inoti_event c k ev full parent (s\<lparr>i_sys := (i_sys s)\<lparr>g_copy_dst := full\<rparr>\<rparr>)"
  by (auto simp: located_at_def process_inoti_event_def)

text \<open>C18: A file that appears under a watched folder is announced once, when its writing ends: creation and close together put
  one object with a fresh handle under its parent and queue one request that carries the handle, and the file is not kept as open.\<close>

theorem created_file_announced:
  assumes inv: "inoti_inv s" "unat (g_next (i_sys s)) < 2 ^ 29" "malloc_ok k" and at: "located_at ev full parent s"
    and other: "g_copied (i_sys s) \<noteq> full" "\<not> g_send_partial (i_sys s)"
    and fname: "\<not> strstr (ie_name ev) MTP_TEMP_FILE" "ie_name ev = [] \<or> hd (ie_name ev) \<noteq> CHR ''.''"
    and st: "store_index (g_dev (i_sys s)) (entity_get_store_id_by_path full) = Some i" "st = store_list (g_dev (i_sys s)) ! i"
    and h: "parent_handle st parent = Some h" and reg: "os_stat (c_os c) (g_fs (i_sys s)) full = Some si" "st_kind si = S_IFREG"
    and open_fs: "open_files_ok (i_open s) fs"
  shows "\<exists>s' obj. foldM (handle_event c k) [ev\<lparr>ie_mask := IN_CREATE\<rparr>, ev\<lparr>ie_mask := IN_CLOSE_WRITE\<rparr>] s = Some s'
     \<and> map obj_key (obj_list (store_list (g_dev (i_sys s')) ! i)) = map obj_key (obj_list st) @ [obj_key obj]
     \<and> obj_handle obj = g_next (i_sys s) \<and> file_path obj = Some full \<and> has_parent h obj
     \<and> g_ehq (i_sys s') = g_ehq (i_sys s) @ [\<lparr>ev_action = EVENT_OBJECT_ADDED, ev_param1 = ucast (g_next (i_sys s)), ev_param2 = 0, ev_param3 = 0\<rparr>]
     \<and> open_files_ok (i_open s') fs"
proof -
  let ?ev1 = "ev\<lparr>ie_mask := IN_CREATE\<rparr>" and ?ev2 = "ev\<lparr>ie_mask := IN_CLOSE_WRITE\<rparr>" and ?sys = "(i_sys s)\<lparr>g_copy_dst := full\<rparr>"
  obtain l a l' where l: "add_file_to_inoti_open_files_list (ic_malloc k (i_open s)) (ie_wd ev) (ie_name ev) (i_open s) = Some l"
    "find_file_in_inoti_open_files_list (ie_wd ev) (ie_name ev) l = Some (Some a)" "remove_file_from_inoti_open_files_list a l = Some l'"
    "open_files_ok l' fs"
    using open_list.created_then_closed[OF open_fs malloc_fresh[OF inv(3) open_fs]] by blast
  let ?s1 = "s\<lparr>i_sys := ?sys, i_open := l\<rparr>"
  have at1: "located_at ?ev1 full parent s" "located_at ?ev2 full parent ?s1" using at by (simp_all add: located_at_def)
  have "handle_event c k ?ev1 s = Some ?s1"
    using l(1) by (simp add: handle_event_def process_located[OF at1(1)] dispatch_inoti_event_def)
  moreover have "objs_ok (unat (g_next ?sys)) (obj_list st)" using inv(1) st store_indexD(2)[OF st(1)] by (simp add: inoti_inv_def stores_ok_def)
  moreover obtain entry where entry: "stat_entry si full = Some entry" using reg(2) by (simp add: stat_entry_def)
  ultimately obtain objs obj where add: "process_object_added_event c full (ie_name ev) parent ?sys =
       Some (eh_send_event_req_to_eh_thread EVENT_OBJECT_ADDED (ucast (g_next ?sys)) 0 0
               (upd_store i (st\<lparr>obj_list := objs\<rparr>) (?sys\<lparr>g_next := g_next ?sys + 1\<rparr>)))"
     "map obj_key objs = map obj_key (obj_list st) @ [obj_key obj]" "obj_handle obj = g_next ?sys" "file_path obj = Some full" "has_parent h obj"
    using added_event_spec[of ?sys st full i "ie_name ev" parent h c si entry] inv(2) st fname h reg(1) by auto
  let ?t = "eh_send_event_req_to_eh_thread EVENT_OBJECT_ADDED (ucast (g_next ?sys)) 0 0
               (upd_store i (st\<lparr>obj_list := objs\<rparr>) (?sys\<lparr>g_next := g_next ?sys + 1\<rparr>))"
  have "handle_event c k ?ev2 ?s1 = Some (s\<lparr>i_sys := ?t, i_open := l'\<rparr>)"
    using l(2,3) add(1) other
    by (simp add: handle_event_def process_located[OF at1(2)] dispatch_inoti_event_def process_close_write_def added_def)
  with \<open>handle_event c k ?ev1 s = Some ?s1\<close> add(2-5) l(4) store_indexD(3)[OF st(1)] show ?thesis
    by (intro exI[of _ "s\<lparr>i_sys := ?t, i_open := l'\<rparr>"] exI[of _ obj]) (simp add: eh_send_event_req_to_eh_thread_def)
qed

section \<open>A watched card\<close>

definition card_watches :: "inoti_watches list" where
  "card_watches = \<lparr>iw_wd = 1, iw_folder = Some ''/media/card''\<rparr> # replicate 1023 no_watch"

definition watched :: "ram inoti" where
  "watched = \<lparr>i_sys = ready_sys\<lparr>g_dev := mounted_device\<lparr>store_list := [sample_store]\<rparr>, g_next := 4, g_fs := [''/media/card/n'' \<mapsto> [1]]\<rparr>,
     i_watches = card_watches, i_cnt = 1, i_adds = 1, i_open = no_open_files, i_cookie = - 1\<rparr>"

definition plain_kernel :: inoti_conf where
  "plain_kernel = \<lparr>ic_add_watch = \<lambda>n p. int (Suc n), ic_malloc = \<lambda>l. Suc (Max (insert 0 (dom (of_heap l))))\<rparr>"

definition file_event :: inotify_event where
  "file_event = \<lparr>ie_wd = 1, ie_mask = IN_CREATE, ie_cookie = 0, ie_len = 16, ie_name = ''n''\<rparr>"

lemma plain_kernel_malloc: "malloc_ok plain_kernel"
proof -
  have "h (Suc (Max (insert 0 (dom h)))) = None" if "finite (dom h)" for h :: "nat \<rightharpoonup> open_files_info"
  proof (rule ccontr)
    assume "h (Suc (Max (insert 0 (dom h)))) \<noteq> None"
    then have "Suc (Max (insert 0 (dom h))) \<in> insert 0 (dom h)" by auto
    then have "Suc (Max (insert 0 (dom h))) \<le> Max (insert 0 (dom h))" using that by (intro Max_ge) auto
    then show False by simp
  qed
  then show ?thesis by (simp add: malloc_ok_def plain_kernel_def)
qed

lemma watched_stores: "stores (g_dev (i_sys watched)) = [sample_store]" "g_next (i_sys watched) = 4"
  by (simp_all add: watched_def mounted_device_def)

lemma watched_inv: "inoti_inv watched"
proof -
  have "watches_ok card_watches 1" by (auto simp: watches_ok_def card_watches_def no_watch_def)
  then show ?thesis using sample_ok no_open_files_ok
    by (auto simp: inoti_inv_def stores_ok_def watched_stores) (auto simp: watched_def)
qed

lemma watched_file: "located_at file_event ''/media/card/n'' ''/media/card'' watched"
  by (simp add: located_at_def file_event_def watched_def card_watches_def get_inoti_event_full_path_def get_inoti_watch_id_def
      util_is_path_len_valid_def util_get_external_path_def)

lemma watched_index: "store_index (g_dev (i_sys watched)) (entity_get_store_id_by_path (''/media/card/'' @ n)) = Some 0"
  by (simp add: store_index_def watched_stores sample_store_def card_store_def entity_get_store_id_by_path_def util_get_external_path_def)

theorem thread_inoti_events_witness:
  "thread_inoti ram_conf plain_kernel [Some (event_bytes file_event), Some (event_bytes file_event @ event_bytes file_event)] watched
     = foldM (handle_event ram_conf plain_kernel) [file_event, file_event, file_event] watched"
  using thread_inoti_events[of "[[file_event], [file_event, file_event]]" ram_conf plain_kernel watched]
  by (simp add: kernel_event_def file_event_def)


theorem deleted_folder_subtree_witness:
  "\<exists>s' D. process_object_deleted_event ram_conf ''/media/card/d'' ''d'' True watched = Some s'
     \<and> below (obj_list sample_store) (obj_handle (sample_obj 1 0 PTP_FMT_ASSOCIATION ''/media/card/d'')) D
     \<and> map obj_key (obj_list (store_list (g_dev (i_sys s')) ! 0)) = filter (\<lambda>x. fst x \<notin> insert (obj_handle (sample_obj 1 0 PTP_FMT_ASSOCIATION ''/media/card/d'')) D)
         (map obj_key (obj_list sample_store))
     \<and> stores_ok (i_sys s')
     \<and> g_ehq (i_sys s') = g_ehq (i_sys watched)
         @ [\<lparr>ev_action = EVENT_OBJECT_REMOVED, ev_param1 = ucast (obj_handle (sample_obj 1 0 PTP_FMT_ASSOCIATION ''/media/card/d'')), ev_param2 = 0, ev_param3 = 0\<rparr>]"
proof (rule deleted_folder_subtree)
  show "stores_ok (i_sys watched)" using watched_inv by (simp add: inoti_inv_def)
  show "store_index (g_dev (i_sys watched)) (entity_get_store_id_by_path ''/media/card/d'') = Some 0" using watched_index[of "''d''"] by simp
  show "sample_store = store_list (g_dev (i_sys watched)) ! 0" by (simp add: watched_def)
  show "entity_get_object_from_store_by_path sample_store ''/media/card/d'' = Some (sample_obj 1 0 PTP_FMT_ASSOCIATION ''/media/card/d'')"
    by (simp add: entity_get_object_from_store_by_path_def sample_store_def sample_obj_def)
  show "\<not> strstr ''/media/card/d'' MTP_TEMP_FILE" by (simp add: strstr_def MTP_TEMP_FILE_def)
  show "unat (g_next (i_sys watched)) \<le> c_fuel ram_conf" by (simp add: watched_stores ram_conf_def)
qed simp

theorem created_file_announced_witness:
  "\<exists>s' obj. foldM (handle_event ram_conf plain_kernel) [file_event\<lparr>ie_mask := IN_CREATE\<rparr>, file_event\<lparr>ie_mask := IN_CLOSE_WRITE\<rparr>] watched = Some s'
     \<and> map obj_key (obj_list (store_list (g_dev (i_sys s')) ! 0)) = map obj_key (obj_list sample_store) @ [obj_key obj]
     \<and> obj_handle obj = g_next (i_sys watched) \<and> file_path obj = Some ''/media/card/n'' \<and> has_parent 0 obj
     \<and> g_ehq (i_sys s') = g_ehq (i_sys watched) @ [\<lparr>ev_action = EVENT_OBJECT_ADDED, ev_param1 = ucast (g_next (i_sys watched)), ev_param2 = 0, ev_param3 = 0\<rparr>]
     \<and> open_files_ok (i_open s') []"
proof (rule created_file_announced[OF watched_inv _ plain_kernel_malloc watched_file])
  show "unat (g_next (i_sys watched)) < 2 ^ 29" by (simp add: watched_stores)
  show "g_copied (i_sys watched) \<noteq> ''/media/card/n''" "\<not> g_send_partial (i_sys watched)" by (simp_all add: watched_def ready_sys_def)
  show "\<not> strstr (ie_name file_event) MTP_TEMP_FILE" "ie_name file_event = [] \<or> hd (ie_name file_event) \<noteq> CHR ''.''"
    by (simp_all add: file_event_def strstr_def MTP_TEMP_FILE_def)
  show "store_index (g_dev (i_sys watched)) (entity_get_store_id_by_path ''/media/card/n'') = Some 0" using watched_index[of "''n''"] by simp
  show "sample_store = store_list (g_dev (i_sys watched)) ! 0" by (simp add: watched_def)
  show "parent_handle sample_store ''/media/card'' = Some 0"
    by (simp add: parent_handle_def entity_get_object_from_store_by_path_def sample_store_def sample_obj_def util_get_external_path_def)
  show "os_stat (c_os ram_conf) (g_fs (i_sys watched)) ''/media/card/n'' = Some \<lparr>st_kind = S_IFREG, st_writable = True, st_size = 1, st_ctime = 0, st_mtime = 0\<rparr>"
    by (simp add: watched_def ram_conf_def ram_env_def ram_os_def)
  show "open_files_ok (i_open watched) []" using no_open_files_ok by (simp add: watched_def)
qed simp

end
