(* ===== verification/Config.thy ===== *)
theory Config
  imports Hutil
begin

text \<open>
  The configuration file of src/mtp_init.c: the defaults of mtp_config.h, and
  the reader with its lines of at most 255 characters, its key and value
  separated by equal signs, and the numbers of atoi.  The text of the file is
  a parameter (None when it cannot be opened); a number that does not fit an
  int is undefined (None).
\<close>

section \<open>The configuration\<close>

record mtp_config =
  mmap_threshold :: int
  read_usb_size :: int
  write_usb_size :: int
  read_file_size :: int
  write_file_size :: int
  init_rx_ipc_size :: int
  init_tx_ipc_size :: int
  max_rx_ipc_size :: int
  max_tx_ipc_size :: int
  max_io_buf_size :: int
  read_file_delay :: int
  support_pthread_sched :: bool
  inheritsched :: char
  schedpolicy :: char
  file_schedparam :: int
  usb_schedparam :: int
  is_init :: bool

text \<open>The global variable starts with all bytes zero.\<close>

definition zero_conf :: mtp_config where
  "zero_conf = \<lparr>mmap_threshold = 0, read_usb_size = 0, write_usb_size = 0, read_file_size = 0, write_file_size = 0,
     init_rx_ipc_size = 0, init_tx_ipc_size = 0, max_rx_ipc_size = 0, max_tx_ipc_size = 0, max_io_buf_size = 0,
     read_file_delay = 0, support_pthread_sched = False, inheritsched = CHR 0x00, schedpolicy = CHR 0x00,
     file_schedparam = 0, usb_schedparam = 0, is_init = False\<rparr>"

text \<open>MTP_SUPPORT_PTHREAD_SCHED is false, so that the scheduling fields are left alone.\<close>

definition default_conf :: "mtp_config \<Rightarrow> mtp_config" where
  "default_conf g = g\<lparr>mmap_threshold := 524288, read_usb_size := 4096, write_usb_size := 4096,
     read_file_size := 524288, write_file_size := 524288, init_rx_ipc_size := 32768, init_tx_ipc_size := 262144,
     max_rx_ipc_size := 32768, max_tx_ipc_size := 262144, max_io_buf_size := 10485760, read_file_delay := 0\<rparr>"

section \<open>Lines, tokens and numbers\<close>

text \<open>fgets with room for n characters: the line with its newline, and the rest of the file.\<close>

primrec fgets :: "nat \<Rightarrow> string \<Rightarrow> string \<times> string" where
  "fgets 0 cs = ([], cs)"
| "fgets (Suc n) cs =
     (case cs of
        [] \<Rightarrow> ([], [])
      | ch # cs' \<Rightarrow> if ch = CHR 0x0A then ([ch], cs') else (case fgets n cs' of (l, r) \<Rightarrow> (ch # l, r)))"

lemma fgets_append: "fgets n cs = (l, r) \<Longrightarrow> cs = l @ r"
  by (induction n arbitrary: cs l r) (auto split: list.splits if_splits prod.splits)

lemma fgets_shrinks: "fgets n cs = (l, r) \<Longrightarrow> 0 < n \<Longrightarrow> cs \<noteq> [] \<Longrightarrow> length r < length cs"
  by (cases cs; cases n) (auto split: if_splits prod.splits dest: fgets_append)

definition strtok :: "string \<Rightarrow> (string \<times> string) option" where
  "strtok cs =
     (let cs' = dropWhile (\<lambda>ch. ch = CHR ''='') cs
      in if cs' = [] then None
         else Some (takeWhile (\<lambda>ch. ch \<noteq> CHR ''='') cs', drop 1 (dropWhile (\<lambda>ch. ch \<noteq> CHR ''='') cs')))"

definition digit :: "char \<Rightarrow> nat option" where
  "digit ch = (let n = (of_char ch :: nat) in if 48 \<le> n \<and> n \<le> 57 then Some (n - 48) else None)"

fun digits :: "nat \<Rightarrow> string \<Rightarrow> nat" where
  "digits acc [] = acc"
| "digits acc (ch # cs) = (case digit ch of None \<Rightarrow> acc | Some d \<Rightarrow> digits (10 * acc + d) cs)"

definition is_space :: "char \<Rightarrow> bool" where
  "is_space ch \<longleftrightarrow> of_char ch \<in> ({9, 10, 11, 12, 13, 32} :: nat set)"

definition atoi :: "string \<Rightarrow> int option" where
  "atoi cs =
     (let cs' = dropWhile is_space cs;
          n = (case cs' of
                 [] \<Rightarrow> 0
               | ch # ds \<Rightarrow> if ch = CHR ''-'' then - int (digits 0 ds)
                           else if ch = CHR ''+'' then int (digits 0 ds) else int (digits 0 cs'))
      in if - (2 ^ 31) \<le> n \<and> n < 2 ^ 31 then Some n else None)"

section \<open>Options\<close>

definition int_option :: "string \<Rightarrow> (int \<Rightarrow> mtp_config \<Rightarrow> mtp_config) option" where
  "int_option key =
     (if strcasecmp_eq key ''mmap_threshold'' then Some (\<lambda>n. mmap_threshold_update (\<lambda>_. n))
      else if strcasecmp_eq key ''init_rx_ipc_size'' then Some (\<lambda>n. init_rx_ipc_size_update (\<lambda>_. n))
      else if strcasecmp_eq key ''init_tx_ipc_size'' then Some (\<lambda>n. init_tx_ipc_size_update (\<lambda>_. n))
      else if strcasecmp_eq key ''max_rx_ipc_size'' then Some (\<lambda>n. max_rx_ipc_size_update (\<lambda>_. n))
      else if strcasecmp_eq key ''max_tx_ipc_size'' then Some (\<lambda>n. max_tx_ipc_size_update (\<lambda>_. n))
      else if strcasecmp_eq key ''read_usb_size'' then Some (\<lambda>n. read_usb_size_update (\<lambda>_. n))
      else if strcasecmp_eq key ''write_usb_size'' then Some (\<lambda>n. write_usb_size_update (\<lambda>_. n))
      else if strcasecmp_eq key ''read_file_size'' then Some (\<lambda>n. read_file_size_update (\<lambda>_. n))
      else if strcasecmp_eq key ''write_file_size'' then Some (\<lambda>n. write_file_size_update (\<lambda>_. n))
      else if strcasecmp_eq key ''max_io_buf_size'' then Some (\<lambda>n. max_io_buf_size_update (\<lambda>_. n))
      else if strcasecmp_eq key ''read_file_delay'' then Some (\<lambda>n. read_file_delay_update (\<lambda>_. n))
      else if strcasecmp_eq key ''support_pthread_sched'' then Some (\<lambda>n. support_pthread_sched_update (\<lambda>_. n \<noteq> 0))
      else if strcasecmp_eq key ''file_schedparam'' then Some (\<lambda>n. file_schedparam_update (\<lambda>_. n))
      else if strcasecmp_eq key ''usb_schedparam'' then Some (\<lambda>n. usb_schedparam_update (\<lambda>_. n))
      else None)"

definition char_option :: "string \<Rightarrow> (char \<Rightarrow> mtp_config \<Rightarrow> mtp_config) option" where
  "char_option key =
     (if strcasecmp_eq key ''inheritsched'' then Some (\<lambda>ch. inheritsched_update (\<lambda>_. ch))
      else if strcasecmp_eq key ''schedpolicy'' then Some (\<lambda>ch. schedpolicy_update (\<lambda>_. ch))
      else None)"

text \<open>One line without its newline; an unknown key and a missing value change nothing.\<close>

definition apply_option :: "string \<Rightarrow> mtp_config \<Rightarrow> mtp_config option" where
  "apply_option line g =
     (case strtok line of
        None \<Rightarrow> Some g
      | Some (key, rest) \<Rightarrow>
          (case strtok rest of
             None \<Rightarrow> Some g
           | Some (val, _) \<Rightarrow>
               (case int_option key of
                  Some f \<Rightarrow> map_option (\<lambda>n. f n g) (atoi val)
                | None \<Rightarrow> (case char_option key of Some f \<Rightarrow> Some (f (hd val) g) | None \<Rightarrow> Some g))))"

function read_lines :: "string \<Rightarrow> mtp_config \<Rightarrow> mtp_config option" where
  "read_lines cs g =
     (if cs = [] then Some g
      else (case fgets 255 cs of (line, rest) \<Rightarrow>
              if hd line = CHR ''#'' \<or> hd line = CHR 0x0A then read_lines rest g
              else if last line \<noteq> CHR 0x0A then Some g
              else Option.bind (apply_option (butlast line) g) (read_lines rest)))"
  by pat_completeness auto
termination by (relation "measure (\<lambda>(cs, g). length cs)") (auto dest!: fgets_shrinks[OF sym])

declare read_lines.simps [simp del]

definition read_mtp_conf :: "string option \<Rightarrow> mtp_config \<Rightarrow> mtp_config option" where
  "read_mtp_conf fp g =
     (case fp of
        None \<Rightarrow> Some ((default_conf g)\<lparr>is_init := True\<rparr>)
      | Some cs \<Rightarrow> map_option (is_init_update (\<lambda>_. True)) (read_lines cs (default_conf g)))"

section \<open>Reading back what was written\<close>

text \<open>A line of the file: a key, an equal sign and a decimal number.\<close>

definition setting_line :: "string \<times> nat \<Rightarrow> string" where
  "setting_line kn = fst kn @ ''='' @ dec_string (snd kn) @ [CHR 0x0A]"

definition setting_ok :: "string \<times> nat \<Rightarrow> bool" where
  "setting_ok kn \<longleftrightarrow> int_option (fst kn) \<noteq> None \<and> set (fst kn) \<inter> {CHR ''='', CHR 0x0A} = {} \<and> snd kn < 2 ^ 31
     \<and> length (setting_line kn) \<le> 255"

definition set_setting :: "string \<times> nat \<Rightarrow> mtp_config \<Rightarrow> mtp_config" where
  "set_setting kn = the (int_option (fst kn)) (int (snd kn))"

lemma digit_hex: "n < 10 \<Longrightarrow> digit (hex_digit n) = Some n"
proof -
  assume "n < 10"
  then have "n \<in> {0, 1, 2, 3, 4, 5, 6, 7, 8, 9}" by auto
  then show ?thesis by (auto simp: digit_def hex_digit_def)
qed

lemma digits_append: "\<forall>ch\<in>set ds. digit ch \<noteq> None \<Longrightarrow> digits acc (ds @ cs) = digits (digits acc ds) cs"
  by (induction ds arbitrary: acc) (auto split: option.splits)

lemma dec_string_digits:
  "(\<forall>ch\<in>set (dec_string n). digit ch \<noteq> None) \<and> digits 0 (dec_string n) = n \<and> dec_string n \<noteq> []"
proof (induction n rule: dec_string.induct)
  case (1 n)
  show ?case
  proof (cases "n < 10")
    case True
    then show ?thesis by (simp add: dec_string.simps[of n] digit_hex)
  next
    case False
    have "digit (hex_digit (n mod 10)) = Some (n mod 10)" by (rule digit_hex) simp
    with 1 False show ?thesis by (simp add: dec_string.simps[of n] digits_append)
  qed
qed

lemma digit_not_special: "digit ch = Some d \<Longrightarrow> ch \<noteq> CHR ''='' \<and> ch \<noteq> CHR 0x0A \<and> \<not> is_space ch \<and> ch \<noteq> CHR ''-'' \<and> ch \<noteq> CHR ''+''"
  by (auto simp: digit_def is_space_def Let_def split: if_splits)

lemma dec_string_chars: "ch \<in> set (dec_string n) \<Longrightarrow> \<exists>d. digit ch = Some d"
  using dec_string_digits[of n] by auto

lemma atoi_dec_string:
  assumes "n < 2 ^ 31"
  shows "atoi (dec_string n) = Some (int n)"
proof -
  obtain ch ds where d: "dec_string n = ch # ds" using dec_string_digits[of n] by (cases "dec_string n") auto
  then obtain k where "digit ch = Some k" using dec_string_chars[of ch n] by auto
  note digit_not_special[OF this]
  moreover have "digits 0 (ch # ds) = n" using dec_string_digits[of n] d by simp
  ultimately show ?thesis using assms d by (simp add: atoi_def del: digits.simps)
qed

lemma fgets_line:
  assumes "CHR 0x0A \<notin> set l" "length l < n"
  shows "fgets n (l @ CHR 0x0A # rest) = (l @ [CHR 0x0A], rest)"
  using assms
proof (induction l arbitrary: n)
  case Nil
  then show ?case by (cases n) simp_all
next
  case (Cons ch l)
  then show ?case by (cases n) auto
qed

lemma strtok_key:
  assumes "CHR ''='' \<notin> set key" "key \<noteq> []"
  shows "strtok (key @ ''='' @ val) = Some (key, val)" "strtok key = Some (key, [])"
proof -
  have a: "dropWhile (\<lambda>ch. ch = CHR ''='') (key @ cs) = key @ cs" for cs
    using assms by (cases key) auto
  have b: "dropWhile (\<lambda>ch. ch = CHR ''='') key = key" using a[of "[]"] by simp
  have k: "x \<in> set key \<Longrightarrow> x \<noteq> CHR ''=''" for x using assms(1) by auto
  have c: "takeWhile (\<lambda>ch. ch \<noteq> CHR ''='') (key @ CHR ''='' # val) = key"
    "dropWhile (\<lambda>ch. ch \<noteq> CHR ''='') (key @ CHR ''='' # val) = CHR ''='' # val"
    using takeWhile_append2[where xs = key and P = "\<lambda>ch. ch \<noteq> CHR ''=''" and ys = "CHR ''='' # val", OF k]
      dropWhile_append2[where xs = key and P = "\<lambda>ch. ch \<noteq> CHR ''=''" and ys = "CHR ''='' # val", OF k] by simp_all
  have d: "takeWhile (\<lambda>ch. ch \<noteq> CHR ''='') key = key" "dropWhile (\<lambda>ch. ch \<noteq> CHR ''='') key = []"
    using k by (auto simp: takeWhile_eq_all_conv dropWhile_eq_Nil_conv)
  show "strtok (key @ ''='' @ val) = Some (key, val)" "strtok key = Some (key, [])"
    using assms(2) by (simp_all add: strtok_def Let_def a b c d)
qed

text \<open>A known key is not empty and does not start a comment.\<close>

lemma strcasecmp_Cons: "strcasecmp_eq (a # as) (b # bs) \<longleftrightarrow> lower_char a = lower_char b \<and> strcasecmp_eq as bs"
  by (simp add: strcasecmp_eq_def)

lemma strcasecmp_Nil: "\<not> strcasecmp_eq [] (b # bs)"
  by (simp add: strcasecmp_eq_def)

lemma int_option_head:
  assumes "int_option key \<noteq> None"
  shows "key \<noteq> [] \<and> hd key \<noteq> CHR ''#''"
proof -
  have "int_option (CHR ''#'' # ks) = None" for ks
    by (simp add: int_option_def strcasecmp_Cons) (simp add: lower_char_def)
  moreover have "int_option [] = None" by (simp add: int_option_def strcasecmp_Nil)
  ultimately show ?thesis using assms by (cases key) auto
qed

lemma apply_setting:
  assumes "setting_ok kn"
  shows "apply_option (fst kn @ ''='' @ dec_string (snd kn)) g = Some (set_setting kn g)"
proof -
  obtain f where f: "int_option (fst kn) = Some f" using assms by (auto simp: setting_ok_def)
  have "CHR ''='' \<notin> set (dec_string (snd kn))" using dec_string_chars digit_not_special by fastforce
  then have "strtok (dec_string (snd kn)) = Some (dec_string (snd kn), [])" using strtok_key(2) dec_string_digits by blast
  moreover have "strtok (fst kn @ ''='' @ dec_string (snd kn)) = Some (fst kn, dec_string (snd kn))"
    using assms int_option_head[of "fst kn"] by (intro strtok_key(1)) (auto simp: setting_ok_def)
  moreover have "atoi (dec_string (snd kn)) = Some (int (snd kn))" using assms by (intro atoi_dec_string) (simp add: setting_ok_def)
  ultimately show ?thesis using f by (simp add: apply_option_def set_setting_def)
qed

lemma read_setting:
  assumes "setting_ok kn"
  shows "read_lines (setting_line kn @ rest) g = read_lines rest (set_setting kn g)"
proof -
  let ?l = "fst kn @ ''='' @ dec_string (snd kn)"
  have "CHR 0x0A \<notin> set (dec_string (snd kn))" using dec_string_chars digit_not_special by fastforce
  then have nl: "CHR 0x0A \<notin> set ?l" "length ?l < 255" using assms by (auto simp: setting_ok_def setting_line_def)
  have "fgets 255 (setting_line kn @ rest) = (?l @ [CHR 0x0A], rest)"
    using fgets_line[OF nl, of rest] by (simp add: setting_line_def)
  moreover have "hd (?l @ [CHR 0x0A]) \<noteq> CHR ''#''" "hd (?l @ [CHR 0x0A]) \<noteq> CHR 0x0A"
    using assms int_option_head[of "fst kn"] by (cases "fst kn"; auto simp: setting_ok_def)+
  ultimately show ?thesis
    using apply_setting[OF assms, of g] by (subst read_lines.simps) (simp add: setting_line_def butlast_append)
qed

lemma read_settings: "\<forall>kn\<in>set kns. setting_ok kn \<Longrightarrow> read_lines (concat (map setting_line kns)) g = Some (fold set_setting kns g)"
proof (induction kns arbitrary: g)
  case Nil
  then show ?case by (simp add: read_lines.simps)
qed (simp add: read_setting)


lemma read_usb_option: "int_option ''READ_usb_size'' = Some (\<lambda>n. read_usb_size_update (\<lambda>_. n))" "int_option ''read_usb_size'' = Some (\<lambda>n. read_usb_size_update (\<lambda>_. n))"
  by (simp_all add: int_option_def strcasecmp_Cons strcasecmp_Nil lower_char_def strcasecmp_eq_def[of "[]"] char_of_def bit_0)


section \<open>Long lines\<close>

lemma fgets_full: "CHR 0x0A \<notin> set l \<Longrightarrow> length l = n \<Longrightarrow> fgets n (l @ r) = (l, r)"
  by (induction l arbitrary: n) auto

text \<open>A comment longer than the buffer is cut, and what follows the cut is read as an option.\<close>

lemma long_comment_option:
  "read_mtp_conf (Some (CHR ''#'' # replicate 254 (CHR ''-'') @ setting_line (''read_usb_size'', 0))) g
     = Some ((default_conf g)\<lparr>read_usb_size := 0, is_init := True\<rparr>)"
proof -
  let ?l = "CHR ''#'' # replicate 254 (CHR ''-'')" and ?kn = "(''read_usb_size'', 0 :: nat)"
  have ok: "setting_ok ?kn" by (simp add: setting_ok_def setting_line_def read_usb_option dec_string.simps)
  have "fgets 255 (?l @ setting_line ?kn) = (?l, setting_line ?kn)" by (rule fgets_full) simp_all
  then have "read_lines (?l @ setting_line ?kn) h = read_lines (setting_line ?kn) h" for h
    by (subst read_lines.simps) simp
  moreover have "read_lines (setting_line ?kn) h = Some (h\<lparr>read_usb_size := 0\<rparr>)" for h
    using read_setting[OF ok, of "[]"] by (simp add: read_lines.simps[of "[]"] set_setting_def read_usb_option)
  ultimately show ?thesis by (simp add: read_mtp_conf_def)
qed

end
