(* ===== verification/Usb.thy ===== *)
theory Usb
  imports Config Reach
begin

text \<open>
  The USB side: src/transport/mtp_usb_driver.c with its endpoints, control
  requests and the three threads that move packets between the endpoints and
  the message queues, and the part of src/transport/mtp_transport.c that
  creates and ends them.  What the kernel answers to a system call is a
  parameter: the results of reads in their order, a function for the result
  of the n-th write, the number of inherited descriptors.
\<close>

section \<open>Endpoints\<close>

text \<open>
  u_fds are the descriptors of the process that are open; the static flags of
  __handle_control_request and the state of the cable are part of the record.
\<close>

record usb =
  u_ep0 :: int
  u_ep_in :: int
  u_ep_out :: int
  u_ep_status :: int
  u_fds :: "int list"
  u_rx_mq_sz :: u32
  u_tx_mq_sz :: u32
  u_kernel_reset :: bool
  u_host_cancel :: bool
  u_sent_busy :: bool
  u_connected :: bool

abbreviation (input) SD_LISTEN_FDS_START :: int where "SD_LISTEN_FDS_START \<equiv> 3"

definition in_int :: "int \<Rightarrow> int option" where
  "in_int n = (if - (2 ^ 31) \<le> n \<and> n < 2 ^ 31 then Some n else None)"

text \<open>The size of a queue; a division by zero and an overflow are undefined.\<close>

definition mq_size :: "int \<Rightarrow> int \<Rightarrow> int \<Rightarrow> u32 option" where
  "mq_size io_buf ipc msg_size =
     (if ipc = 0 then None
      else do { q \<leftarrow> in_int (sgn io_buf * sgn ipc * (\<bar>io_buf\<bar> div \<bar>ipc\<bar>)); n \<leftarrow> in_int (q * msg_size); Some (word_of_int n) })"

definition transport_init_usb_device :: "int \<Rightarrow> int \<Rightarrow> mtp_config \<Rightarrow> usb \<Rightarrow> (usb \<times> bool) option" where
  "transport_init_usb_device n msg_size g u =
     (if u_ep0 u > 0 then Some (u, True)
      else if n < 4 then Some (u, False)
      else do {
        rx \<leftarrow> mq_size (max_io_buf_size g) (max_rx_ipc_size g) msg_size;
        tx \<leftarrow> mq_size (max_io_buf_size g) (max_tx_ipc_size g) msg_size;
        Some (u\<lparr>u_ep0 := SD_LISTEN_FDS_START, u_ep_in := SD_LISTEN_FDS_START + 1, u_ep_out := SD_LISTEN_FDS_START + 2,
                u_ep_status := SD_LISTEN_FDS_START + 3, u_rx_mq_sz := rx, u_tx_mq_sz := tx\<rparr>, True) })"

definition transport_deinit_usb_device :: "usb \<Rightarrow> usb" where
  "transport_deinit_usb_device u =
     u\<lparr>u_fds := filter (\<lambda>fd. fd \<notin> {u_ep0 u, u_ep_in u, u_ep_out u, u_ep_status u} \<or> fd < 0) (u_fds u),
       u_ep0 := - 1, u_ep_in := - 1, u_ep_out := - 1, u_ep_status := - 1\<rparr>"

definition transport_get_usb_packet_len :: "nat \<Rightarrow> u32" where
  "transport_get_usb_packet_len usb_speed =
     (if usb_speed = 0 then 64 else if usb_speed mod 512 \<noteq> 0 then 64 else 512)"

section \<open>Control requests\<close>

abbreviation (input) USB_PTPREQUEST_CANCELIO :: u8 where "USB_PTPREQUEST_CANCELIO \<equiv> 0x64"
abbreviation (input) USB_PTPREQUEST_GETEVENT :: u8 where "USB_PTPREQUEST_GETEVENT \<equiv> 0x65"
abbreviation (input) USB_PTPREQUEST_RESET :: u8 where "USB_PTPREQUEST_RESET \<equiv> 0x66"
abbreviation (input) USB_PTPREQUEST_GETSTATUS :: u8 where "USB_PTPREQUEST_GETSTATUS \<equiv> 0x67"

record usb_status_req =
  sr_len :: u16
  sr_code :: u16

record usb_ctrlrequest =
  bRequestType :: u8
  bRequest :: u8
  wValue :: u16
  wIndex :: u16
  wLength :: u16

text \<open>
  The status that a GETSTATUS request computes.  The code builds it in a local
  variable and does not send it; it is the last component of the result.  The
  word size of mtp_dword enters the length of the cancelled status.
\<close>

definition get_status :: "nat \<Rightarrow> mtp_device \<Rightarrow> usb \<Rightarrow> usb \<times> usb_status_req" where
  "get_status dword d u =
     (let (u1, st) =
        (if u_host_cancel u \<or> \<not> u_sent_busy u \<and> \<not> u_kernel_reset u
         then (u\<lparr>u_host_cancel := False\<rparr>, \<lparr>sr_len = 8, sr_code = PTP_RESPONSE_DEVICEBUSY\<rparr>)
         else if phase d = DEVICE_PHASE_NOTREADY
         then (u, \<lparr>sr_len = 8 - 2 * of_nat dword, sr_code = PTP_RESPONSE_TRANSACTIONCANCELLED\<rparr>)
         else if status d = DEVICE_STATUSOK
         then (u\<lparr>u_kernel_reset := False\<rparr>, \<lparr>sr_len = 8, sr_code = PTP_RESPONSE_OK\<rparr>)
         else (u, \<lparr>sr_len = 8, sr_code = PTP_RESPONSE_GEN_ERROR\<rparr>))
      in (u1\<lparr>u_sent_busy := (sr_code st = PTP_RESPONSE_DEVICEBUSY)\<rparr>, st))"

definition handle_control_request :: "'fs conf \<Rightarrow> u8 \<Rightarrow> usb \<Rightarrow> 'fs sys \<Rightarrow> usb \<times> 'fs sys \<times> usb_status_req option" where
  "handle_control_request c request u s =
     (if request = USB_PTPREQUEST_CANCELIO
      then (u\<lparr>u_host_cancel := True\<rparr>, s\<lparr>g_ctrl := ucast PTP_EVENTCODE_CANCELTRANSACTION\<rparr>, None)
      else if request = USB_PTPREQUEST_RESET
      then (u\<lparr>u_kernel_reset := True\<rparr>, s\<lparr>g_ctrl := 0, g_op_state := MTP_STATE_ONSERVICE, g_dev := reset_mtp_device (g_dev s)\<rparr>, None)
      else if request = USB_PTPREQUEST_GETSTATUS
      then (case get_status (c_dword c) (g_dev s) u of (u1, st) \<Rightarrow> (u1, s, Some st))
      else (u, s, None))"

text \<open>
  The setup packet.  A request that is refused stalls the control pipe; the
  pair says what the stalling call returns and which errno it sets (EL2HLT is
  51), and the result is the return code.
\<close>

definition stall :: "int \<Rightarrow> int \<times> int \<Rightarrow> int" where
  "stall rc r = (if fst r \<noteq> - 1 \<or> snd r \<noteq> 51 then snd r else rc)"

definition usb_setup :: "'fs conf \<Rightarrow> usb_ctrlrequest \<Rightarrow> int \<times> int \<Rightarrow> usb \<Rightarrow> 'fs sys \<Rightarrow> (usb \<times> 'fs sys) \<times> int" where
  "usb_setup c ctrl r u s =
     (let dir = bRequestType ctrl AND 0x80; run = (case handle_control_request c (bRequest ctrl) u s of (u1, s1, _) \<Rightarrow> ((u1, s1), 0))
      in if bRequestType ctrl AND 0x7F \<noteq> 0x21 then ((u, s), stall (- 95) r)
         else if dir = 0 \<and> bRequest ctrl = USB_PTPREQUEST_CANCELIO then
           (if wValue ctrl \<noteq> 0 \<or> wIndex ctrl \<noteq> 0 \<or> wLength ctrl \<noteq> 6 then ((u, s), stall (- 22) r) else run)
         else if dir \<noteq> 0 \<and> bRequest ctrl = USB_PTPREQUEST_GETSTATUS then run
         else if dir = 0 \<and> bRequest ctrl = USB_PTPREQUEST_RESET then run
         else ((u, s), stall (- 95) r))"

datatype usb_functionfs_event = FUNCTIONFS_SETUP usb_ctrlrequest "int \<times> int" | FUNCTIONFS_ENABLE | FUNCTIONFS_DISABLE | FUNCTIONFS_OTHER

text \<open>One event of the control endpoint.\<close>

definition usb_control_event :: "'fs conf \<Rightarrow> usb_functionfs_event \<Rightarrow> usb \<times> 'fs sys \<Rightarrow> usb \<times> 'fs sys" where
  "usb_control_event c e us =
     (case us of (u, s) \<Rightarrow>
       (case e of
          FUNCTIONFS_SETUP ctrl r \<Rightarrow> fst (usb_setup c ctrl r u s)
        | FUNCTIONFS_ENABLE \<Rightarrow> (u\<lparr>u_connected := True\<rparr>, s)
        | FUNCTIONFS_DISABLE \<Rightarrow> (u\<lparr>u_connected := False\<rparr>, eh_send_event_req_to_eh_thread EVENT_USB_REMOVED 0 0 0 s)
        | FUNCTIONFS_OTHER \<Rightarrow> (u, s)))"

text \<open>The thread of the control endpoint; None is a failing read, which ends it.\<close>

fun transport_thread_usb_control :: "'fs conf \<Rightarrow> usb_functionfs_event option list \<Rightarrow> usb \<times> 'fs sys \<Rightarrow> (usb \<times> 'fs sys) \<times> bool" where
  "transport_thread_usb_control c [] us = (us, True)"
| "transport_thread_usb_control c (None # es) us = (us, False)"
| "transport_thread_usb_control c (Some e # es) us = transport_thread_usb_control c es (usb_control_event c e us)"

section \<open>Reading packets\<close>

datatype usb_errno = EINTR | EIO | ESHUTDOWN | EUNKNOWN

text \<open>What a read of the bulk endpoint returns: bytes (none for a zero-length packet) or an error.\<close>

datatype usb_read = Data "u8 list" | Error usb_errno

definition clean_up_msg_queue :: "msgq \<Rightarrow> 'fs sys \<Rightarrow> msgq \<times> 'fs sys" where
  "clean_up_msg_queue q s = ([], s\<lparr>g_ctrl := ucast PTP_EVENTCODE_CANCELTRANSACTION\<rparr>)"

definition is_packet :: "usb_read \<Rightarrow> bool" where
  "is_packet r \<longleftrightarrow> (case r of Data bs \<Rightarrow> bs \<noteq> [] | Error _ \<Rightarrow> False)"

definition read_bytes :: "usb_read \<Rightarrow> u8 list" where
  "read_bytes r = (case r of Data bs \<Rightarrow> bs | Error _ \<Rightarrow> [])"

text \<open>
  The recovery from an error: at most MTP_USB_ERROR_MAX_RETRY rounds.  The
  result has the last answer (None while the thread waits in read), the reads
  that are left and the endpoints.
\<close>

fun read_err_loop ::
    "nat \<Rightarrow> (usb \<Rightarrow> (usb \<times> bool) option) \<Rightarrow> usb_read \<Rightarrow> usb_read list \<Rightarrow> usb \<Rightarrow> (usb_read option \<times> usb_read list \<times> usb) option" where
  "read_err_loop 0 reopen r rs u = Some (Some r, rs, u)"
| "read_err_loop (Suc n) reopen r rs u =
     (let again = (\<lambda>u. case rs of
            [] \<Rightarrow> Some (None, [], u)
          | r' # rs' \<Rightarrow> if is_packet r' then Some (Some r', rs', u) else read_err_loop n reopen r' rs' u)
      in case r of
           Data bs \<Rightarrow> if bs = [] then again u else Some (Some r, rs, u)
         | Error e \<Rightarrow>
             (case e of
                EINTR \<Rightarrow> again u
              | EIO \<Rightarrow>
                  if \<not> u_connected u then Some (Some r, rs, u)
                  else do {
                    (u1, ok) \<leftarrow> reopen (transport_deinit_usb_device u);
                    if ok then again u1 else read_err_loop n reopen r rs u1 }
              | ESHUTDOWN \<Rightarrow> again u
              | EUNKNOWN \<Rightarrow> Some (Some r, rs, u)))"

definition handle_usb_read_err ::
    "(usb \<Rightarrow> (usb \<times> bool) option) \<Rightarrow> usb_read \<Rightarrow> usb_read list \<Rightarrow> usb \<Rightarrow> (usb_read option \<times> usb_read list \<times> usb) option" where
  "handle_usb_read_err reopen r rs u = read_err_loop 5 reopen r rs u"

lemma read_err_rest:
  "read_err_loop n reopen r rs u = Some (r', rs', u') \<Longrightarrow> length rs' \<le> length rs"
  by (induction n reopen r rs u arbitrary: r' rs' u' rule: read_err_loop.induct)
    (fastforce simp: Let_def split: usb_read.splits usb_errno.splits list.splits if_splits bind_splits)+

text \<open>
  The thread that reads the bulk endpoint, with the queue towards the handler;
  the last component tells that it still runs.  A buffer of size zero is a null
  pointer, which ends it.
\<close>

function usb_read_loop ::
    "msgsnd \<Rightarrow> nat \<Rightarrow> (usb \<Rightarrow> (usb \<times> bool) option) \<Rightarrow> usb_read list \<Rightarrow> msgq \<Rightarrow> usb \<Rightarrow> 'fs sys \<Rightarrow> (msgq \<times> usb \<times> 'fs sys \<times> bool) option" where
  "usb_read_loop snd_ok rx_size reopen rs q u s =
     (let stop = (\<lambda>u. case clean_up_msg_queue q s of (q', s') \<Rightarrow> Some (q', u, s', False))
      in if rx_size = 0 then stop u
         else case rs of
           [] \<Rightarrow> Some (q, u, s, True)
         | r # rs' \<Rightarrow>
             (case (if is_packet r then Some (Some r, rs', u) else handle_usb_read_err reopen r rs' u) of
                None \<Rightarrow> None
              | Some (None, _, u1) \<Rightarrow> Some (q, u1, s, True)
              | Some (Some r1, rs1, u1) \<Rightarrow>
                  if is_packet r1
                  then usb_read_loop snd_ok rx_size reopen rs1
                         (fst (util_msgq_send snd_ok q (mk_pkt MTP_DATA_PACKET (take rx_size (read_bytes r1))))) u1 s
                  else stop u1))"
  by pat_completeness auto
termination
  by (relation "measure (\<lambda>(snd_ok, n, reopen, rs, q, u, s). length rs)")
    (auto simp: handle_usb_read_err_def dest: read_err_rest split: if_splits)

declare usb_read_loop.simps [simp del]

definition transport_thread_usb_read ::
    "msgsnd \<Rightarrow> mtp_config \<Rightarrow> (usb \<Rightarrow> (usb \<times> bool) option) \<Rightarrow> usb_read list \<Rightarrow> msgq \<Rightarrow> usb \<Rightarrow> 'fs sys \<Rightarrow> (msgq \<times> usb \<times> 'fs sys \<times> bool) option" where
  "transport_thread_usb_read snd_ok g reopen rs q u s = usb_read_loop snd_ok (nat (read_usb_size g)) reopen rs q u s"

section \<open>Writing packets\<close>

text \<open>What a write does: it takes all bytes, or it fails (with ENOMEM or ECANCELED, or with another error).\<close>

datatype usb_write = Written | Cancelled | Failed

record 'fs writer =
  w_count :: nat
  w_out :: "(int \<times> u8 list) list"
  w_sys :: "'fs sys"

definition write_endpoint :: "(nat \<Rightarrow> usb_write) \<Rightarrow> int \<Rightarrow> u8 list \<Rightarrow> 'fs writer \<Rightarrow> 'fs writer \<times> usb_write" where
  "write_endpoint wr ep bs w =
     (if wr (w_count w) = Written then (w\<lparr>w_count := Suc (w_count w), w_out := w_out w @ [(ep, bs)]\<rparr>, Written)
      else (w\<lparr>w_count := Suc (w_count w)\<rparr>, wr (w_count w)))"

definition write_cleaned :: "'fs writer \<Rightarrow> 'fs writer" where
  "write_cleaned w = w\<lparr>w_sys := snd (clean_up_msg_queue [] (w_sys w))\<rparr>"

text \<open>
  The thread that writes what the handlers queue.  The result has the queue
  that is left, and whether the thread still runs.
\<close>

fun transport_thread_usb_write :: "(nat \<Rightarrow> usb_write) \<Rightarrow> usb \<Rightarrow> msgq \<Rightarrow> 'fs writer \<Rightarrow> msgq \<times> 'fs writer \<times> bool" where
  "transport_thread_usb_write wr u [] w = ([], w, True)"
| "transport_thread_usb_write wr u (m # q) w =
     (let bs = take (unat (msg_length m)) (msg_buffer m) in
      if mtype m = MTP_BULK_PACKET \<or> mtype m = MTP_DATA_PACKET then
        (case write_endpoint wr (u_ep_in u) bs w of
           (w1, Written) \<Rightarrow> transport_thread_usb_write wr u q w1
         | (w1, Cancelled) \<Rightarrow> ([], write_cleaned w1, True)
         | (w1, Failed) \<Rightarrow> ([], write_cleaned w1, False))
      else if mtype m = MTP_EVENT_PACKET then
        (case write_endpoint wr (u_ep_status u) bs w of
           (w1, Written) \<Rightarrow> transport_thread_usb_write wr u q w1
         | (w1, _) \<Rightarrow> ([], write_cleaned w1, False))
      else if mtype m = MTP_ZLP_PACKET then
        (case write_endpoint wr (u_ep_in u) [] w of
           (w1, Written) \<Rightarrow> transport_thread_usb_write wr u q w1
         | (w1, _) \<Rightarrow> ([], write_cleaned w1, False))
      else ([], write_cleaned w, False))"

section \<open>The receiver thread\<close>

text \<open>It hands every packet of the queue to the callback until the packet that marks the end.\<close>

fun transport_thread_data_rcv :: "'fs conf \<Rightarrow> msgq \<Rightarrow> 'fs sys \<Rightarrow> ('fs sys \<times> msgq \<times> bool) option" where
  "transport_thread_data_rcv c [] s = Some (s, [], True)"
| "transport_thread_data_rcv c (m # q) s =
     (if msg_length m = 6 \<and> signal m = 0xABCD then Some (s, q, False)
      else Option.bind (receive_mq_data_cb c (take (unat (msg_length m)) (msg_buffer m)) s) (transport_thread_data_rcv c q))"

section \<open>Interfaces\<close>

text \<open>Which threads have an identifier, and the identifiers of the queues.\<close>

record io =
  io_tx :: bool
  io_rx :: bool
  io_ctrl :: bool
  io_data :: bool
  io_created :: bool
  io_rx_mq :: int
  io_tx_mq :: int

definition transport_init_io :: "bool \<Rightarrow> bool \<Rightarrow> bool \<Rightarrow> io \<Rightarrow> io \<times> bool" where
  "transport_init_io tx rx ctrl i =
     (if tx \<and> rx \<and> ctrl then (i\<lparr>io_tx := True, io_rx := True, io_ctrl := True, io_created := True\<rparr>, True)
      else (i\<lparr>io_tx := False, io_rx := False, io_ctrl := False, io_created := False\<rparr>, False))"

definition transport_deinit_io :: "io \<Rightarrow> io" where
  "transport_deinit_io i =
     (if \<not> io_created i then i else i\<lparr>io_tx := False, io_rx := False, io_ctrl := False, io_created := False\<rparr>)"

text \<open>The queue identifiers that msgget returns, -1 when it fails.\<close>

definition transport_mq_init :: "int \<Rightarrow> int \<Rightarrow> io \<Rightarrow> io \<times> bool" where
  "transport_mq_init rx tx i =
     (if rx = - 1 then (i\<lparr>io_rx_mq := rx\<rparr>, False)
      else if tx = - 1 then (i\<lparr>io_rx_mq := - 1, io_tx_mq := tx\<rparr>, False)
      else (i\<lparr>io_rx_mq := rx, io_tx_mq := tx\<rparr>, True))"

definition transport_mq_deinit :: "(int \<Rightarrow> bool) \<Rightarrow> io \<Rightarrow> io \<times> bool" where
  "transport_mq_deinit rm i =
     (let (i1, r1) = (if io_rx_mq i \<noteq> 0 then (if rm (io_rx_mq i) then (i\<lparr>io_rx_mq := 0\<rparr>, True) else (i, False)) else (i, True))
      in if io_tx_mq i1 \<noteq> 0 then (if rm (io_tx_mq i1) then (i1\<lparr>io_tx_mq := 0\<rparr>, True) else (i1, False)) else (i1, r1))"

record io_answers =
  a_fds :: int
  a_rx_mq :: int
  a_tx_mq :: int
  a_tx :: bool
  a_rx :: bool
  a_ctrl :: bool
  a_data :: bool
  a_rm :: "int \<Rightarrow> bool"

definition transport_init_interfaces :: "io_answers \<Rightarrow> int \<Rightarrow> mtp_config \<Rightarrow> usb \<times> io \<Rightarrow> ((usb \<times> io) \<times> bool) option" where
  "transport_init_interfaces a msg_size g ui = do {
     (u, ok) \<leftarrow> transport_init_usb_device (a_fds a) msg_size g (fst ui);
     if \<not> ok then Some ((u, snd ui), False)
     else case transport_mq_init (a_rx_mq a) (a_tx_mq a) (snd ui) of
            (i1, False) \<Rightarrow> Some ((transport_deinit_usb_device u, i1), False)
          | (i1, True) \<Rightarrow>
              (case transport_init_io (a_tx a) (a_rx a) (a_ctrl a) i1 of
                 (i2, False) \<Rightarrow> Some ((transport_deinit_usb_device u, fst (transport_mq_deinit (a_rm a) i2)), False)
               | (i2, True) \<Rightarrow>
                   if a_data a then Some ((u, i2\<lparr>io_data := True\<rparr>), True)
                   else Some ((transport_deinit_usb_device u, fst (transport_mq_deinit (a_rm a) (transport_deinit_io i2))), False)) }"

text \<open>
  The end: the io threads are cancelled and joined, and on their way out they
  empty the two queues; the receiver gets the packet that ends it and is
  joined; queues and endpoints are given back.  An allocation of zero bytes
  returns early.  snd_ok decides whether the queue takes the packet: without
  it the join does not return (None).  g_data_rcv keeps its value.
\<close>

definition end_packet :: "nat \<Rightarrow> msgq_ptr" where
  "end_packet n = \<lparr>mtype = MTP_DATA_PACKET, msg_length = 6, signal = 0xABCD, msg_buffer = replicate n 0\<rparr>"

definition cancel_io :: "io \<Rightarrow> msgq \<Rightarrow> 'fs sys \<Rightarrow> msgq \<times> 'fs sys" where
  "cancel_io i q s =
     (if io_created i then (case clean_up_msg_queue q s of (q1, s1) \<Rightarrow> case clean_up_msg_queue (g_txq s1) s1 of (tq, s2) \<Rightarrow> (q1, s2\<lparr>g_txq := tq\<rparr>))
      else (q, s))"

definition transport_usb_finalize ::
    "msgsnd \<Rightarrow> (int \<Rightarrow> bool) \<Rightarrow> 'fs conf \<Rightarrow> mtp_config \<Rightarrow> usb \<times> io \<Rightarrow> msgq \<times> 'fs sys \<Rightarrow> ((usb \<times> io) \<times> msgq \<times> 'fs sys) option" where
  "transport_usb_finalize snd_ok rm c g ui qs =
     (case (ui, cancel_io (snd ui) (fst qs) (snd qs)) of ((u, i0), (q, s)) \<Rightarrow>
       (let i = transport_deinit_io i0; released = (\<lambda>q s. Some ((transport_deinit_usb_device u, fst (transport_mq_deinit rm i)), q, s)) in
        if \<not> io_data i then released q s
        else if read_usb_size g = 0 then Some ((u, i), q, s)
        else do {
          (s1, q1, running) \<leftarrow> transport_thread_data_rcv c (fst (util_msgq_send snd_ok q (end_packet (nat (read_usb_size g))))) s;
          if running then None else released q1 s1 }))"

section \<open>Packets towards the host\<close>

definition on_wire :: "usb \<Rightarrow> msgq_ptr \<Rightarrow> int \<times> u8 list" where
  "on_wire u m = (if mtype m = MTP_EVENT_PACKET then u_ep_status u else u_ep_in u, if mtype m = MTP_ZLP_PACKET then [] else msg_buffer m)"

definition sendable :: "msgq_ptr \<Rightarrow> bool" where
  "sendable m \<longleftrightarrow> mtype m \<noteq> MTP_UNDEFINED_PACKET \<and> unat (msg_length m) = length (msg_buffer m)"

lemma write_all:
  assumes "\<And>n. wr n = Written" "\<forall>m\<in>set q. sendable m"
  shows "transport_thread_usb_write wr u q w = ([], w\<lparr>w_count := w_count w + length q, w_out := w_out w @ map (on_wire u) q\<rparr>, True)"
  using assms(2)
proof (induction q arbitrary: w)
  case (Cons m q)
  then have m: "mtype m \<noteq> MTP_UNDEFINED_PACKET" "unat (msg_length m) = length (msg_buffer m)" by (simp_all add: sendable_def)
  have "write_endpoint wr ep bs w = (w\<lparr>w_count := Suc (w_count w), w_out := w_out w @ [(ep, bs)]\<rparr>, Written)" for ep bs
    by (simp add: write_endpoint_def assms(1))
  with Cons m show ?case by (cases "mtype m") (simp_all add: on_wire_def Let_def)
qed simp

text \<open>C23: With a host that takes every packet, the writing thread empties the queue, and the host finds on the bulk endpoint exactly
  the bytes of the data packets in their order (zero-length packets end a transfer without bytes), on the status endpoint exactly the events.\<close>

theorem usb_write_delivers:
  assumes "\<And>n. wr n = Written" "\<forall>m\<in>set q. sendable m" "u_ep_in u \<noteq> u_ep_status u" "w_out w = []"
  shows "\<exists>w'. transport_thread_usb_write wr u q w = ([], w', True)
     \<and> concat (map snd (filter (\<lambda>x. fst x = u_ep_in u) (w_out w'))) = payload (filter (\<lambda>m. mtype m \<in> {MTP_DATA_PACKET, MTP_BULK_PACKET}) q)
     \<and> map snd (filter (\<lambda>x. fst x = u_ep_status u) (w_out w')) = map msg_buffer (filter (\<lambda>m. mtype m = MTP_EVENT_PACKET) q)"
proof -
  have "concat (map snd (filter (\<lambda>x. fst x = u_ep_in u) (map (on_wire u) q))) = payload (filter (\<lambda>m. mtype m \<in> {MTP_DATA_PACKET, MTP_BULK_PACKET}) q)"
    "map snd (filter (\<lambda>x. fst x = u_ep_status u) (map (on_wire u) q)) = map msg_buffer (filter (\<lambda>m. mtype m = MTP_EVENT_PACKET) q)"
    using assms(2)
  proof (induction q)
    case (Cons m q)
    { case 1 with Cons.IH assms(3) show ?case by (cases "mtype m") (auto simp: on_wire_def sendable_def) }
    { case 2 with Cons.IH assms(3) show ?case by (cases "mtype m") (auto simp: on_wire_def sendable_def) }
  qed simp_all
  then show ?thesis using write_all[OF assms(1,2), where u = u and w = w] assms(4) by simp
qed

section \<open>Packets from the host\<close>

definition transient :: "usb_read \<Rightarrow> bool" where
  "transient r \<longleftrightarrow> r \<in> {Data [], Error EINTR, Error ESHUTDOWN}"

text \<open>The host's packets, each behind at most five reads without one.\<close>

definition noisy :: "(usb_read list \<times> u8 list) list \<Rightarrow> usb_read list" where
  "noisy xs = concat (map (\<lambda>(ts, p). ts @ [Data p]) xs)"

lemma read_err_transient:
  assumes "transient t" "\<forall>r\<in>set ts. transient r" "length ts < n" "p \<noteq> []"
  shows "read_err_loop n reopen t (ts @ Data p # rs) u = Some (Some (Data p), rs, u)"
  using assms
proof (induction ts arbitrary: t n)
  case Nil
  then show ?case by (cases n) (auto simp: transient_def is_packet_def)
next
  case (Cons r ts)
  then obtain m where n: "n = Suc m" "length ts < m" by (cases n) auto
  have r: "transient r" "\<not> is_packet r" using Cons.prems(2) by (auto simp: transient_def is_packet_def)
  with Cons.IH[of r m] Cons.prems n show ?case by (auto simp: transient_def[of t])
qed

lemma usb_read_noisy:
  assumes "0 < n" "\<And>q p. snd_ok q p"
    "\<forall>(ts, p)\<in>set xs. length ts \<le> 5 \<and> (\<forall>r\<in>set ts. transient r) \<and> p \<noteq> [] \<and> length p \<le> n"
  shows "usb_read_loop snd_ok n reopen (noisy xs) q u s = Some (q @ map (\<lambda>x. mk_pkt MTP_DATA_PACKET (snd x)) xs, u, s, True)"
  using assms(3)
proof (induction xs arbitrary: q)
  case Nil
  with assms(1) show ?case by (simp add: usb_read_loop.simps noisy_def)
next
  case (Cons x xs)
  obtain ts p where x: "x = (ts, p)" by (cases x)
  with Cons.prems have p: "length ts \<le> 5" "\<forall>r\<in>set ts. transient r" "p \<noteq> []" "length p \<le> n" by auto
  have rs: "noisy (x # xs) = ts @ Data p # noisy xs" by (simp add: noisy_def x)
  have pk: "is_packet (Data p)" using p(3) by (simp add: is_packet_def)
  have "usb_read_loop snd_ok n reopen (noisy (x # xs)) q u s =
      usb_read_loop snd_ok n reopen (noisy xs) (q @ [mk_pkt MTP_DATA_PACKET p]) u s"
  proof (cases ts)
    case Nil
    with rs pk p(4) assms(1,2) show ?thesis
      by (subst usb_read_loop.simps) (simp add: util_msgq_send_def read_bytes_def)
  next
    case (Cons t ts')
    have "\<not> is_packet t" using p(2) Cons by (auto simp: transient_def is_packet_def)
    moreover have "handle_usb_read_err reopen t (ts' @ Data p # noisy xs) u = Some (Some (Data p), noisy xs, u)"
      unfolding handle_usb_read_err_def using p Cons by (intro read_err_transient) auto
    ultimately show ?thesis using rs pk p(4) assms(1,2) Cons
      by (subst usb_read_loop.simps) (simp add: util_msgq_send_def read_bytes_def)
  qed
  with Cons.IH[of "q @ [mk_pkt MTP_DATA_PACKET p]"] Cons.prems x show ?case by simp
qed

lemma data_rcv_packets:
  assumes "\<forall>p\<in>set ps. length p < 2 ^ 32"
  shows "transport_thread_data_rcv c (map (mk_pkt MTP_DATA_PACKET) ps) s = map_option (\<lambda>t. (t, [], True)) (foldM (receive_mq_data_cb c) ps s)"
  using assms
proof (induction ps arbitrary: s)
  case (Cons p ps)
  have "unat (of_nat (length p) :: u32) = length p" using Cons.prems by (intro unat_of_nat_eq_small) simp
  with Cons show ?case
    by (cases "receive_mq_data_cb c p s") (simp_all add: mk_pkt_def[of _ p])
qed simp

text \<open>C22: Packets that the host sends reach the command handler one by one, complete and in their order, and up to five empty or
  interrupted reads between two packets lose nothing: reading thread, queue and receiver together are the callback folded over the packets.\<close>

theorem usb_packets_reach_handler:
  assumes "0 < read_usb_size g" "read_usb_size g < 2 ^ 31" "\<And>q p. snd_ok q p"
    "\<forall>(ts, p)\<in>set xs. length ts \<le> 5 \<and> (\<forall>r\<in>set ts. transient r) \<and> p \<noteq> [] \<and> length p \<le> nat (read_usb_size g)"
  shows "\<exists>q. transport_thread_usb_read snd_ok g reopen (noisy xs) [] u s = Some (q, u, s, True)
     \<and> (\<forall>t. transport_thread_data_rcv c q t = map_option (\<lambda>t'. (t', [], True)) (foldM (receive_mq_data_cb c) (map snd xs) t))"
proof -
  have "length p < 2 ^ 32" if "p \<in> set (map snd xs)" for p
  proof -
    from that assms(4) have "length p \<le> nat (read_usb_size g)" by fastforce
    with assms(2) show ?thesis by simp
  qed
  then show ?thesis
    using usb_read_noisy[of "nat (read_usb_size g)" snd_ok xs reopen "[]" u s] assms(1,3,4) data_rcv_packets[of "map snd xs" c]
    by (auto simp: transport_thread_usb_read_def comp_def)
qed

section \<open>All or nothing\<close>

definition io_released :: "usb \<times> io \<Rightarrow> bool" where
  "io_released ui \<longleftrightarrow> (case ui of (u, i) \<Rightarrow>
     u_ep0 u = - 1 \<and> u_ep_in u = - 1 \<and> u_ep_out u = - 1 \<and> u_ep_status u = - 1
   \<and> \<not> io_tx i \<and> \<not> io_rx i \<and> \<not> io_ctrl i \<and> \<not> io_data i \<and> \<not> io_created i \<and> io_rx_mq i \<le> 0 \<and> io_tx_mq i \<le> 0)"

lemma mq_deinit_all: "(\<And>q. rm q) \<Longrightarrow> fst (transport_mq_deinit rm i) = i\<lparr>io_rx_mq := 0, io_tx_mq := 0\<rparr>"
  by (cases i) (simp add: transport_mq_deinit_def)

lemma deinit_endpoints [simp]:
  "u_ep0 (transport_deinit_usb_device u) = - 1" "u_ep_in (transport_deinit_usb_device u) = - 1"
  "u_ep_out (transport_deinit_usb_device u) = - 1" "u_ep_status (transport_deinit_usb_device u) = - 1"
  by (simp_all add: transport_deinit_usb_device_def)


text \<open>The end waits for all threads, empties the queues and gives everything back.\<close>

lemma finalize_released:
  assumes "\<And>q. rm q" "\<And>q p. snd_ok q p" "read_usb_size g \<noteq> 0" "io_created i"
  shows "\<exists>u' i'. transport_usb_finalize snd_ok rm c g (u, i) (q, s) =
      Some ((u', i'), [], s\<lparr>g_ctrl := ucast PTP_EVENTCODE_CANCELTRANSACTION, g_txq := []\<rparr>) \<and> io_released (u', i'\<lparr>io_data := False\<rparr>)"
  using assms(2-) mq_deinit_all[of rm, OF assms(1)]
  by (auto simp: io_released_def transport_usb_finalize_def transport_deinit_io_def Let_def cancel_io_def clean_up_msg_queue_def
      util_msgq_send_def end_packet_def)

section \<open>Boundary cases\<close>

text \<open>A configured size of zero makes the computation of the queue size divide by zero.\<close>

lemma zero_ipc_undefined:
  "u_ep0 u \<le> 0 \<Longrightarrow> 4 \<le> n \<Longrightarrow> max_rx_ipc_size g = 0 \<or> max_tx_ipc_size g = 0 \<Longrightarrow> transport_init_usb_device n msg_size g u = None"
  by (auto simp: transport_init_usb_device_def mq_size_def split: bind_splits)

text \<open>The speed of the connection is never asked for, so that full speed is assumed.\<close>

lemma packet_len_full_speed: "transport_get_usb_packet_len 0 = 64"
  by (simp add: transport_get_usb_packet_len_def)

text \<open>The recovery from EIO closes the inherited descriptors and goes on with their numbers.\<close>

lemma eio_recovery_closed:
  assumes "transport_init_usb_device n msg_size g (transport_deinit_usb_device u) = Some (u', True)"
    "u_ep0 u = 3" "u_ep_in u = 4" "u_ep_out u = 5" "u_ep_status u = 6"
  shows "u_ep_out u' = 5 \<and> 5 \<notin> set (u_fds u')"
  using assms by (auto simp: transport_init_usb_device_def transport_deinit_usb_device_def split: if_splits bind_splits)

text \<open>The length of a status that reports a cancelled transaction is eight bytes less than zero on a 64-bit system.\<close>

lemma cancelled_status_length:
  assumes "phase d = DEVICE_PHASE_NOTREADY" "\<not> u_host_cancel u" "u_sent_busy u"
  shows "sr_len (snd (get_status 8 d u)) = 0xFFF8"
  using assms by (simp add: get_status_def)

section \<open>Witnesses\<close>

text \<open>A process that inherits four descriptors; nothing is open yet.\<close>

definition fresh_usb :: usb where
  "fresh_usb = \<lparr>u_ep0 = - 1, u_ep_in = - 1, u_ep_out = - 1, u_ep_status = - 1, u_fds = [0, 1, 2, 3, 4, 5, 6], u_rx_mq_sz = 0, u_tx_mq_sz = 0,
     u_kernel_reset = False, u_host_cancel = False, u_sent_busy = False, u_connected = False\<rparr>"

definition fresh_io :: io where
  "fresh_io = \<lparr>io_tx = False, io_rx = False, io_ctrl = False, io_data = False, io_created = False, io_rx_mq = 0, io_tx_mq = 0\<rparr>"

definition io_grants :: io_answers where
  "io_grants = \<lparr>a_fds = 4, a_rx_mq = 7, a_tx_mq = 8, a_tx = True, a_rx = True, a_ctrl = True, a_data = True, a_rm = (\<lambda>_. True)\<rparr>"

definition open_usb :: usb where
  "open_usb = fresh_usb\<lparr>u_ep0 := 3, u_ep_in := 4, u_ep_out := 5, u_ep_status := 6, u_rx_mq_sz := 600, u_tx_mq_sz := 600, u_connected := True\<rparr>"


theorem usb_write_delivers_witness:
  "\<exists>w. transport_thread_usb_write (\<lambda>_. Written) open_usb [mk_pkt MTP_BULK_PACKET [1, 2], mk_pkt MTP_EVENT_PACKET [9], mk_pkt MTP_DATA_PACKET [3]]
      \<lparr>w_count = 0, w_out = [], w_sys = boot_sys\<rparr> = ([], w, True)
     \<and> concat (map snd (filter (\<lambda>x. fst x = 4) (w_out w))) = [1, 2, 3]"
  using usb_write_delivers[of "\<lambda>_. Written" "[mk_pkt MTP_BULK_PACKET [1, 2], mk_pkt MTP_EVENT_PACKET [9], mk_pkt MTP_DATA_PACKET [3]]" open_usb
      "\<lparr>w_count = 0, w_out = [], w_sys = boot_sys\<rparr>"]
  by (auto simp: sendable_def mk_pkt_def open_usb_def)

text \<open>Two packets of a command, the second behind an interrupted read.\<close>

theorem usb_packets_reach_handler_witness:
  "\<exists>q. transport_thread_usb_read (\<lambda>q p. True) (default_conf zero_conf) (\<lambda>u. Some (u, True)) [Data [1], Error EINTR, Data [2, 3]] [] open_usb boot_sys
        = Some (q, open_usb, boot_sys, True)
     \<and> (\<forall>t. transport_thread_data_rcv small_conf q t = map_option (\<lambda>t'. (t', [], True)) (foldM (receive_mq_data_cb small_conf) [[1], [2, 3]] t))"
  using usb_packets_reach_handler[of "default_conf zero_conf" "\<lambda>q p. True" "[([], [1]), ([Error EINTR], [2, 3])]" "\<lambda>u. Some (u, True)"
      open_usb boot_sys small_conf]
  by (simp add: default_conf_def zero_conf_def transient_def noisy_def)

end
