(* ===== verification/Events.thy ===== *)
theory Events
  imports Watching Usb
begin

text \<open>
  The event thread of src/mtp_event_handler.c and the start and the end of
  the responder in src/mtp_init.c.  The requests that other threads write
  into the pipe are g_ehq of the system state; the state of the process is
  the record daemon.  The answers of the operating system at the start are
  the record boot_answers.
\<close>

section \<open>The process\<close>

text \<open>
  The main loop of glib: a request to quit has an effect on a running loop
  only, and starting a loop makes it run whatever was requested before.
\<close>

datatype main_loop = No_Loop | Loop_Created | Loop_Running | Loop_Left

text \<open>
  d_inserted and d_removed are the static flags of _eh_handle_usb_events,
  d_discon and d_cancel_init the flags of g_status, d_evt the local variable
  of the event thread (None before it was filled), d_eh that g_eh_thrd is set,
  d_eh_runs that the thread is running.
\<close>

record 'fs daemon =
  d_inoti :: "'fs inoti"
  d_conf :: mtp_config
  d_usb :: usb
  d_io :: io
  d_rxq :: msgq
  d_stores :: "mtp_store list"
  d_inserted :: bool
  d_removed :: bool
  d_discon :: bool
  d_cancel_init :: bool
  d_pipe :: bool
  d_evt :: "mtp_event option"
  d_eh :: bool
  d_eh_runs :: bool
  d_inoti_fd :: int
  d_inoti_thrd :: bool
  d_inoti_runs :: bool
  d_loop :: main_loop
  d_killed :: bool

abbreviation d_sys :: "'fs daemon \<Rightarrow> 'fs sys" where
  "d_sys d \<equiv> i_sys (d_inoti d)"

definition upd_sys :: "('fs sys \<Rightarrow> 'fs sys) \<Rightarrow> 'fs daemon \<Rightarrow> 'fs daemon" where
  "upd_sys f d = d\<lparr>d_inoti := (d_inoti d)\<lparr>i_sys := f (d_sys d)\<rparr>\<rparr>"

record boot_answers =
  b_conf :: "string option"
  b_msg_size :: int
  b_io :: io_answers
  b_inotify_fd :: int
  b_inotify_thrd :: bool

section \<open>Leaving the process\<close>

definition g_main_loop_quit :: "'fs daemon \<Rightarrow> 'fs daemon" where
  "g_main_loop_quit d = (if d_loop d = Loop_Running then d\<lparr>d_loop := Loop_Left\<rparr> else d)"

text \<open>
  The end as the event thread calls it: it does not wait for itself, asks the
  main loop to quit and exits.
\<close>

definition mtp_end_event :: "'fs daemon \<Rightarrow> 'fs daemon" where
  "mtp_end_event d = (g_main_loop_quit d)\<lparr>d_eh_runs := False\<rparr>"

section \<open>Initialisation\<close>

definition zero_temp :: temp_file where
  "zero_temp = \<lparr>cmd_buf = replicate 36 0, header_buf = replicate 13 0, cmd_size = 0, data_size = 0, data_count = 0, fhandle = None,
     filepath = None, tfile_size = 0, size_remaining = 0, temp_buff = []\<rparr>"

definition init_mtp_info :: "'fs sys \<Rightarrow> 'fs sys" where
  "init_mtp_info s = s\<lparr>g_ftemp := zero_temp, g_hdlr := \<lparr>usb_cmd = zero_cmd, data4_send_obj = zero_send_object, session_id = 0,
     last_opcode = 0, last_fmt_code = 0\<rparr>\<rparr>"

text \<open>The flags of g_status are cleared, then the state is set.\<close>

definition clear_status :: "'fs daemon \<Rightarrow> 'fs daemon" where
  "clear_status d = (upd_sys (\<lambda>s. s\<lparr>g_ctrl := 0, g_op_state := MTP_STATE_INITIALIZING\<rparr>) d)\<lparr>d_discon := False, d_cancel_init := False\<rparr>"

text \<open>A failure stops the responder; the thread does not come back (False).\<close>

definition init_fail :: "'fs daemon \<Rightarrow> 'fs daemon \<times> bool" where
  "init_fail d = (mtp_end_event (upd_sys (g_op_state_update (\<lambda>_. MTP_STATE_STOPPED)) d), False)"

definition inoti_init_filesystem_evnts :: "boot_answers \<Rightarrow> 'fs daemon \<Rightarrow> 'fs daemon \<times> bool" where
  "inoti_init_filesystem_evnts b d =
     (let d1 = d\<lparr>d_inoti_fd := b_inotify_fd b\<rparr>
      in if b_inotify_fd b < 0 then (d1, False)
         else if b_inotify_thrd b then (d1\<lparr>d_inoti_thrd := True, d_inoti_runs := True\<rparr>, True)
         else (d1, False))"

text \<open>The external storage is created when it is missing.\<close>

definition ensure_external :: "'fs conf \<Rightarrow> 'fs sys \<Rightarrow> 'fs sys \<times> bool" where
  "ensure_external c s =
     (if os_stat (c_os c) (g_fs s) util_get_external_path \<noteq> None then (s, True)
      else (case util_dir_create (c_os c) (g_fs s) util_get_external_path of (fs, ok, _) \<Rightarrow> (s\<lparr>g_fs := fs\<rparr>, ok)))"

text \<open>Device and storage, then the watcher.\<close>

definition init_services :: "'fs conf \<Rightarrow> boot_answers \<Rightarrow> 'fs daemon \<Rightarrow> 'fs daemon option" where
  "init_services c b d = do {
     (dev, props) \<leftarrow> init_mtp_device (c_env c) (d_stores d) (g_dev (d_sys d));
     dev' \<leftarrow> device_install_storage (c_env c) (g_fs (d_sys d)) dev;
     Some (fst (inoti_init_filesystem_evnts b (upd_sys (\<lambda>s. s\<lparr>g_dev := dev', g_props := props\<rparr>) d))) }"

text \<open>
  The thresholds of malloc have no effect on the model but for the doubling,
  which must not overflow.  A negative size is a request for more memory than
  there is, which aborts the process (None).
\<close>

definition mtp_init :: "'fs conf \<Rightarrow> boot_answers \<Rightarrow> 'fs daemon \<Rightarrow> ('fs daemon \<times> bool) option" where
  "mtp_init c b d = do {
     g \<leftarrow> read_mtp_conf (b_conf b) (d_conf d);
     _ \<leftarrow> (if mmap_threshold g = 0 then Some 0 else in_int (mmap_threshold g * 2));
     let d1 = clear_status (upd_sys init_mtp_info (d\<lparr>d_conf := g\<rparr>));
     if write_file_size g < 0 then None
     else if write_file_size g = 0 then Some (init_fail d1)
     else do {
       let d2 = upd_sys (\<lambda>s. s\<lparr>g_ftemp := (g_ftemp s)\<lparr>temp_buff := replicate (nat (write_file_size g)) 0\<rparr>\<rparr>) d1;
       case ensure_external c (d_sys d2) of
         (s, False) \<Rightarrow> Some (init_fail (upd_sys (\<lambda>_. s) d2))
       | (s, True) \<Rightarrow> map_option (\<lambda>d. (d, True)) (init_services c b (upd_sys (\<lambda>_. s) d2)) } }"

section \<open>The end of the service\<close>

text \<open>
  The watcher is cancelled and joined; on its way out it gives back its
  watches.  A thread that was never created is not cancelled.
\<close>

definition inoti_deinit_filesystem_events :: "'fs daemon \<Rightarrow> 'fs daemon option" where
  "inoti_deinit_filesystem_events d =
     (if \<not> d_inoti_thrd d \<or> \<not> d_inoti_runs d then Some d
      else do {
        i \<leftarrow> clean_up_inoti (d_inoti d);
        Some (d\<lparr>d_inoti := i, d_inoti_runs := False, d_inoti_fd := 0\<rparr>) })"

definition mtp_deinit :: "'fs daemon \<Rightarrow> 'fs daemon option" where
  "mtp_deinit d = inoti_deinit_filesystem_events
     (upd_sys (\<lambda>s. (cmd_hdlr_reset_cmd s)\<lparr>g_ftemp := (g_ftemp s)\<lparr>temp_buff := []\<rparr>\<rparr>) d)"

text \<open>The file of a transfer that the removal interrupted.\<close>

definition drop_temp_file :: "'fs conf \<Rightarrow> 'fs sys \<Rightarrow> 'fs sys" where
  "drop_temp_file c s =
     (case filepath (g_ftemp s) of
        None \<Rightarrow> s
      | Some p \<Rightarrow>
          if os_stat (c_os c) (g_fs s) p = None then s
          else s\<lparr>g_ftemp := (g_ftemp s)\<lparr>fhandle := None, filepath := None\<rparr>, g_fs := fst (os_remove (c_os c) (g_fs s) p)\<rparr>)"

definition usb_removed :: "'fs conf \<Rightarrow> boot_answers \<Rightarrow> 'fs daemon \<Rightarrow> 'fs daemon option" where
  "usb_removed c b d =
     (if d_removed d then Some d
      else do {
        let d1 = upd_sys (\<lambda>s. s\<lparr>g_ctrl := ucast PTP_EVENTCODE_CANCELTRANSACTION\<rparr>)
                   (d\<lparr>d_removed := True, d_discon := True, d_cancel_init := True\<rparr>);
        ((u, i), q, s) \<leftarrow> transport_usb_finalize (c_snd c) (a_rm (b_io b)) c (d_conf d1) (d_usb d1, d_io d1) (d_rxq d1, d_sys d1);
        let d2 = upd_sys (\<lambda>_. drop_temp_file c (s\<lparr>g_op_state := MTP_STATE_STOPPED\<rparr>)) (d1\<lparr>d_usb := u, d_io := i, d_rxq := q\<rparr>);
        d3 \<leftarrow> mtp_deinit d2;
        dev \<leftarrow> device_uninstall_storage (c_env c) (g_fs (d_sys d3)) (g_dev (d_sys d3));
        Some (upd_sys (\<lambda>s. eh_send_event_req_to_eh_thread EVENT_CLOSE 1 0 0 (s\<lparr>g_dev := dev\<rparr>)) d3) })"

section \<open>Requests\<close>

definition send_events_from_device_to_pc :: "'fs conf \<Rightarrow> u16 \<Rightarrow> u32 \<Rightarrow> 'fs sys \<Rightarrow> ('fs sys \<times> bool) option" where
  "send_events_from_device_to_pc c ptp_event param1 s =
     (if ptp_event = PTP_EVENTCODE_OBJECTADDED \<or> ptp_event = PTP_EVENTCODE_OBJECTREMOVED then do {
        (q, ok) \<leftarrow> hdlr_send_event_container (c_snd c) (c_tx_size c) (g_txq s) (hdlr_init_event_container zero_cmd ptp_event 0 param1 0);
        Some (s\<lparr>g_txq := q\<rparr>, ok) }
      else Some (s, False))"

text \<open>The flag tells whether the thread is still there afterwards.\<close>

definition start_main_op :: "'fs conf \<Rightarrow> boot_answers \<Rightarrow> 'fs daemon \<Rightarrow> 'fs daemon option" where
  "start_main_op c b d = do {
     (d1, there) \<leftarrow> mtp_init c b (upd_sys (g_op_state_update (\<lambda>_. MTP_STATE_INITIALIZING)) (d\<lparr>d_cancel_init := False\<rparr>));
     if \<not> there then Some d1
     else do {
       let d2 = upd_sys (g_op_state_update (\<lambda>_. MTP_STATE_READY_SERVICE)) d1;
       ((u, i), ok) \<leftarrow> transport_init_interfaces (b_io b) (b_msg_size b) (d_conf d2) (d_usb d2, d_io d2);
       let d3 = d2\<lparr>d_usb := u, d_io := i\<rparr>;
       Some (if ok then upd_sys (g_op_state_update (\<lambda>_. MTP_STATE_ONSERVICE)) d3 else d3\<lparr>d_killed := True\<rparr>) } }"

definition lift_sys :: "('fs sys \<Rightarrow> ('fs sys \<times> bool) option) \<Rightarrow> 'fs daemon \<Rightarrow> 'fs daemon option" where
  "lift_sys f d = map_option (\<lambda>(s, _). upd_sys (\<lambda>_. s) d) (f (d_sys d))"

definition process_event_request :: "'fs conf \<Rightarrow> boot_answers \<Rightarrow> mtp_event \<Rightarrow> 'fs daemon \<Rightarrow> 'fs daemon option" where
  "process_event_request c b evt d =
     (case ev_action evt of
        EVENT_CANCEL_INITIALIZATION \<Rightarrow>
          map_option (\<lambda>dev. upd_sys (g_dev_update (\<lambda>_. dev)) d) (device_uninstall_storage (c_env c) (g_fs (d_sys d)) (g_dev (d_sys d)))
      | EVENT_START_MAIN_OP \<Rightarrow> start_main_op c b d
      | EVENT_USB_REMOVED \<Rightarrow> usb_removed c b d
      | EVENT_OBJECT_ADDED \<Rightarrow> lift_sys (send_events_from_device_to_pc c PTP_EVENTCODE_OBJECTADDED (ucast (ev_param1 evt))) d
      | EVENT_OBJECT_REMOVED \<Rightarrow> lift_sys (send_events_from_device_to_pc c PTP_EVENTCODE_OBJECTREMOVED (ucast (ev_param1 evt))) d
      | _ \<Rightarrow> Some d)"

section \<open>The event thread\<close>

text \<open>
  A read of the pipe: the next request (the thread waits while there is none),
  an interruption, or another error, after which the old request is still in
  the variable and is processed again.
\<close>

datatype pipe_read = Pipe_Event | Pipe_Interrupted | Pipe_Error

definition handle_request :: "'fs conf \<Rightarrow> boot_answers \<Rightarrow> mtp_event \<Rightarrow> 'fs daemon \<Rightarrow> 'fs daemon option" where
  "handle_request c b evt d = do {
     d1 \<leftarrow> process_event_request c b evt (d\<lparr>d_evt := Some evt\<rparr>);
     Some (if d_eh_runs d1 \<and> ev_action evt = EVENT_CLOSE then mtp_end_event (d1\<lparr>d_pipe := False\<rparr>) else d1) }"

fun event_read :: "'fs conf \<Rightarrow> boot_answers \<Rightarrow> pipe_read \<Rightarrow> 'fs daemon \<Rightarrow> 'fs daemon option" where
  "event_read c b Pipe_Event d =
     (case g_ehq (d_sys d) of
        [] \<Rightarrow> Some d
      | e # es \<Rightarrow> handle_request c b e (upd_sys (g_ehq_update (\<lambda>_. es)) d))"
| "event_read c b Pipe_Interrupted d = Some d"
| "event_read c b Pipe_Error d = (case d_evt d of None \<Rightarrow> None | Some e \<Rightarrow> handle_request c b e d)"

fun thread_event_handler :: "'fs conf \<Rightarrow> boot_answers \<Rightarrow> pipe_read list \<Rightarrow> 'fs daemon \<Rightarrow> 'fs daemon option" where
  "thread_event_handler c b [] d = Some d"
| "thread_event_handler c b (r # rs) d =
     (if \<not> d_eh_runs d then Some d else Option.bind (event_read c b r d) (thread_event_handler c b rs))"

section \<open>The main thread\<close>

definition send_start_event_to_eh_thread :: "'fs sys \<Rightarrow> 'fs sys" where
  "send_start_event_to_eh_thread = eh_send_event_req_to_eh_thread EVENT_START_MAIN_OP 0 0 0"

text \<open>The two answers say whether the pipe and the thread can be created.\<close>

definition usb_inserted :: "bool \<Rightarrow> bool \<Rightarrow> 'fs daemon \<Rightarrow> 'fs daemon \<times> bool" where
  "usb_inserted pipe_ok thread_ok d =
     (if d_inserted d then (d, True)
      else (let d1 = d\<lparr>d_inserted := True, d_discon := False, d_cancel_init := False\<rparr>
            in if g_op_state (d_sys d) = MTP_STATE_INITIALIZING then (d1, True)
               else if \<not> pipe_ok then (d1, False)
               else if \<not> thread_ok then (d1\<lparr>d_pipe := True\<rparr>, False)
               else (upd_sys send_start_event_to_eh_thread (d1\<lparr>d_pipe := True, d_eh := True, d_eh_runs := True\<rparr>), True)))"

datatype usb_event_type = USB_INSERTED | USB_REMOVED | USB_OTHER

definition eh_handle_usb_events :: "'fs conf \<Rightarrow> boot_answers \<Rightarrow> bool \<Rightarrow> bool \<Rightarrow> usb_event_type \<Rightarrow> 'fs daemon \<Rightarrow> ('fs daemon \<times> bool) option" where
  "eh_handle_usb_events c b pipe_ok thread_ok t d =
     (case t of
        USB_INSERTED \<Rightarrow> Some (usb_inserted pipe_ok thread_ok d)
      | USB_REMOVED \<Rightarrow> map_option (\<lambda>d'. (d', True)) (usb_removed c b d)
      | USB_OTHER \<Rightarrow> Some (d, True))"

text \<open>
  The start of the process: mutex, cable, main loop.  Between the two halves
  of main the event thread is already running.
\<close>

definition main_connect :: "'fs conf \<Rightarrow> boot_answers \<Rightarrow> bool \<Rightarrow> bool \<Rightarrow> bool \<Rightarrow> 'fs daemon \<Rightarrow> ('fs daemon \<times> bool) option" where
  "main_connect c b mutex_ok pipe_ok thread_ok d =
     (if \<not> mutex_ok then Some (d, False) else eh_handle_usb_events c b pipe_ok thread_ok USB_INSERTED d)"

definition main_loop_new :: "bool \<Rightarrow> 'fs daemon \<Rightarrow> 'fs daemon \<times> bool" where
  "main_loop_new loop_ok d = (if loop_ok then (d\<lparr>d_loop := Loop_Created\<rparr>, True) else (d, False))"

definition g_main_loop_run :: "'fs daemon \<Rightarrow> 'fs daemon" where
  "g_main_loop_run d = d\<lparr>d_loop := Loop_Running\<rparr>"

section \<open>Notifications\<close>

lemma upd_sys_sel [simp]:
  "d_sys (upd_sys f d) = f (d_sys d)" "d_conf (upd_sys f d) = d_conf d" "d_usb (upd_sys f d) = d_usb d" "d_io (upd_sys f d) = d_io d"
  "d_rxq (upd_sys f d) = d_rxq d" "d_stores (upd_sys f d) = d_stores d" "d_inserted (upd_sys f d) = d_inserted d"
  "d_removed (upd_sys f d) = d_removed d" "d_pipe (upd_sys f d) = d_pipe d" "d_evt (upd_sys f d) = d_evt d" "d_eh (upd_sys f d) = d_eh d"
  "d_eh_runs (upd_sys f d) = d_eh_runs d" "d_inoti_thrd (upd_sys f d) = d_inoti_thrd d" "d_inoti_runs (upd_sys f d) = d_inoti_runs d"
  "d_loop (upd_sys f d) = d_loop d" "d_killed (upd_sys f d) = d_killed d" "d_discon (upd_sys f d) = d_discon d"
  "i_open (d_inoti (upd_sys f d)) = i_open (d_inoti d)" "i_watches (d_inoti (upd_sys f d)) = i_watches (d_inoti d)"
  "i_cnt (d_inoti (upd_sys f d)) = i_cnt (d_inoti d)"
  by (simp_all add: upd_sys_def)

definition notice_code :: "event_code \<Rightarrow> u16 option" where
  "notice_code a = (case a of EVENT_OBJECT_ADDED \<Rightarrow> Some PTP_EVENTCODE_OBJECTADDED | EVENT_OBJECT_REMOVED \<Rightarrow> Some PTP_EVENTCODE_OBJECTREMOVED | _ \<Rightarrow> None)"

definition notice_bytes :: "mtp_event \<Rightarrow> u8 list" where
  "notice_bytes e = header_bytes 16 CONTAINER_EVENT_BLK (the (notice_code (ev_action e))) 0 @ le_bytes 4 (ucast (ev_param1 e) :: u32)"

lemma send_event_ok:
  assumes "\<And>q p. c_snd c q p" "16 \<le> unat (c_tx_size c)" "cd = PTP_EVENTCODE_OBJECTADDED \<or> cd = PTP_EVENTCODE_OBJECTREMOVED"
  shows "send_events_from_device_to_pc c cd h s =
     Some (s\<lparr>g_txq := g_txq s @ [mk_pkt MTP_EVENT_PACKET (header_bytes 16 CONTAINER_EVENT_BLK cd 0 @ le_bytes 4 h)]\<rparr>, True)"
proof -
  have "\<not> c_tx_size c < 16" using assms(2) by (simp add: word_less_nat_alt)
  moreover have "replicate 5 (0 :: u32) = [0, 0, 0, 0, 0]" by (simp add: numeral_eq_Suc)
  ultimately show ?thesis using assms
    by (simp add: send_events_from_device_to_pc_def hdlr_send_event_container_def hdlr_init_event_container_def transport_send_event_def
        cmd_bytes_def zero_cmd_def header_bytes_def util_msgq_send_def le_bytes_unfold)
qed

lemma handle_notice:
  assumes "\<And>q p. c_snd c q p" "16 \<le> unat (c_tx_size c)" "notice_code (ev_action e) \<noteq> None"
  shows "handle_request c b e d =
     Some (upd_sys (\<lambda>s. s\<lparr>g_txq := g_txq s @ [mk_pkt MTP_EVENT_PACKET (notice_bytes e)]\<rparr>) (d\<lparr>d_evt := Some e\<rparr>))"
  using assms(3) send_event_ok[OF assms(1,2)]
  by (cases "ev_action e") (simp_all add: handle_request_def process_event_request_def lift_sys_def notice_bytes_def notice_code_def upd_sys_def)

lemma event_thread_notices:
  assumes "\<And>q p. c_snd c q p" "16 \<le> unat (c_tx_size c)" "g_ehq (d_sys d) = es @ rest" "\<forall>e\<in>set es. notice_code (ev_action e) \<noteq> None" "d_eh_runs d"
  shows "\<exists>d'. thread_event_handler c b (replicate (length es) Pipe_Event) d = Some d' \<and> d_eh_runs d' \<and> d_usb d' = d_usb d
     \<and> d_sys d' = (d_sys d)\<lparr>g_ehq := rest, g_txq := g_txq (d_sys d) @ map (\<lambda>e. mk_pkt MTP_EVENT_PACKET (notice_bytes e)) es\<rparr>"
  using assms(3-)
proof (induction es arbitrary: d)
  case Nil
  then show ?case by (intro exI[of _ d]) (cases "d_sys d"; simp)
next
  case (Cons e es)
  let ?d = "upd_sys (\<lambda>s. s\<lparr>g_txq := g_txq s @ [mk_pkt MTP_EVENT_PACKET (notice_bytes e)]\<rparr>)
     ((upd_sys (g_ehq_update (\<lambda>_. es @ rest)) d)\<lparr>d_evt := Some e\<rparr>)"
  have "event_read c b Pipe_Event d = Some ?d" using Cons.prems handle_notice[OF assms(1,2)] by simp
  with Cons.IH[of ?d] Cons.prems show ?case by auto
qed

text \<open>C21: The requests that the watcher or a handler writes into the pipe reach the host: the event thread turns each into one event
  of 16 bytes with the code and the handle, and the writing thread puts exactly these on the status endpoint, in the order of the requests.\<close>

theorem notifications_reach_host:
  assumes "\<And>q p. c_snd c q p" "16 \<le> unat (c_tx_size c)" "g_ehq (d_sys d) = es" "\<forall>e\<in>set es. notice_code (ev_action e) \<noteq> None" "d_eh_runs d"
    and "g_txq (d_sys d) = []" "\<And>n. wr n = Written" "w_out w = []"
  shows "\<exists>d' w'. thread_event_handler c b (replicate (length es) Pipe_Event) d = Some d' \<and> g_ehq (d_sys d') = []
     \<and> transport_thread_usb_write wr (d_usb d') (g_txq (d_sys d')) w = ([], w', True)
     \<and> w_out w' = map (\<lambda>e. (u_ep_status (d_usb d), notice_bytes e)) es"
proof -
  obtain d' where d': "thread_event_handler c b (replicate (length es) Pipe_Event) d = Some d'" "d_usb d' = d_usb d"
    "d_sys d' = (d_sys d)\<lparr>g_ehq := [], g_txq := g_txq (d_sys d) @ map (\<lambda>e. mk_pkt MTP_EVENT_PACKET (notice_bytes e)) es\<rparr>"
    using event_thread_notices[of c d es "[]" b] assms by auto
  have "length (notice_bytes e) = 16" for e by (simp add: notice_bytes_def header_bytes_def)
  then have "\<forall>m\<in>set (g_txq (d_sys d')). sendable m" using d'(3) assms(6) by (auto simp: sendable_def mk_pkt_def)
  from write_all[OF assms(7) this, where u = "d_usb d'" and w = w] d' assms(6,8) show ?thesis by (auto simp: on_wire_def mk_pkt_def)
qed

section \<open>Start and end of the service\<close>

lemma ensure_external_there:
  "os_stat (c_os c) (g_fs s) util_get_external_path \<noteq> None \<Longrightarrow> ensure_external c s = (s, True)"
  by (simp add: ensure_external_def)

lemma init_services_ok:
  assumes "g_dev (d_sys d) = zero_device" "d_stores d = [zero_store]"
    "ascii_conv (e_to16 (c_env c))" "utf16_conv (e_to16 (c_env c))" "length (e_junk (c_env c)) = 255"
    "map_option st_kind (os_stat (c_os c) (g_fs (d_sys d)) util_get_external_path) = Some S_IFDIR"
  shows "\<exists>dev props. init_services c b d = Some (fst (inoti_init_filesystem_evnts b (upd_sys (\<lambda>s. s\<lparr>g_dev := dev, g_props := props\<rparr>) d)))
     \<and> dev_ok dev \<and> phase dev = DEVICE_PHASE_IDLE \<and> is_mounted dev
     \<and> (\<exists>st. device_get_store dev MTP_EXTERNAL_STORE_ID = Some st \<and> obj_list st = [] \<and> root_path st = Some util_get_external_path)"
proof -
  define strs :: "(device_info \<Rightarrow> ptp_string) list" where "strs = [vendor_extn_desc, manufacturer, model, device_version, serial_no]"
  have "\<forall>f\<in>set strs. length (str (f (dev_info zero_device))) = 255" by (simp add: strs_def zero_device_def zero_string_def)
  from init_mtp_device_ok[OF assms(3,5) _ strs_def this, of "[zero_store]"] obtain dev props where
    dev: "init_mtp_device (c_env c) [zero_store] zero_device = Some (dev, props)" "info_ok (dev_info dev)"
      "store_list dev = [zero_store]" "num_stores dev = 0" "\<not> is_mounted dev" "phase dev = DEVICE_PHASE_IDLE"
    by (auto simp: zero_device_def)
  then have ok: "dev_ok dev" by (simp add: dev_ok_def)
  from install_storage_spec[OF this assms(4), of "g_fs (d_sys d)"] assms(6) dev(5,6) obtain dev' st where
    "device_install_storage (c_env c) (g_fs (d_sys d)) dev = Some dev'" "dev_ok dev'" "phase dev' = DEVICE_PHASE_IDLE" "is_mounted dev'"
    "device_get_store dev' MTP_EXTERNAL_STORE_ID = Some st" "obj_list st = []" "root_path st = Some util_get_external_path" by auto
  with dev(1) assms(1,2) show ?thesis by (intro exI[of _ dev'] exI[of _ props]) (simp add: init_services_def)
qed

lemma inoti_init_sel [simp]:
  "d_inoti (fst (inoti_init_filesystem_evnts b d)) = d_inoti d" "d_conf (fst (inoti_init_filesystem_evnts b d)) = d_conf d"
  "d_usb (fst (inoti_init_filesystem_evnts b d)) = d_usb d" "d_io (fst (inoti_init_filesystem_evnts b d)) = d_io d"
  "d_eh_runs (fst (inoti_init_filesystem_evnts b d)) = d_eh_runs d"
  by (simp_all add: inoti_init_filesystem_evnts_def Let_def)

definition prepared :: "mtp_config \<Rightarrow> 'fs daemon \<Rightarrow> 'fs daemon" where
  "prepared g d = upd_sys (\<lambda>s. s\<lparr>g_ftemp := (g_ftemp s)\<lparr>temp_buff := replicate (nat (write_file_size g)) 0\<rparr>\<rparr>)
     (clear_status (upd_sys init_mtp_info (d\<lparr>d_conf := g\<rparr>)))"

lemma prepared_sel:
  "g_dev (d_sys (prepared g d)) = g_dev (d_sys d)" "g_fs (d_sys (prepared g d)) = g_fs (d_sys d)" "d_stores (prepared g d) = d_stores d"
  "d_usb (prepared g d) = d_usb d" "d_io (prepared g d) = d_io d" "d_conf (prepared g d) = g"
  "g_ftemp (d_sys (prepared g d)) = zero_temp\<lparr>temp_buff := replicate (nat (write_file_size g)) 0\<rparr>"
  "g_hdlr (d_sys (prepared g d)) = \<lparr>usb_cmd = zero_cmd, data4_send_obj = zero_send_object, session_id = 0, last_opcode = 0, last_fmt_code = 0\<rparr>"
  by (simp_all add: prepared_def clear_status_def init_mtp_info_def)

lemma mtp_init_prepared:
  assumes "read_mtp_conf (b_conf b) (d_conf d) = Some g" "0 < write_file_size g" "\<bar>mmap_threshold g\<bar> < 2 ^ 30"
  shows "mtp_init c b d = (case ensure_external c (d_sys (prepared g d)) of
      (s, False) \<Rightarrow> Some (init_fail (upd_sys (\<lambda>_. s) (prepared g d)))
    | (s, True) \<Rightarrow> map_option (\<lambda>d. (d, True)) (init_services c b (upd_sys (\<lambda>_. s) (prepared g d))))"
  using assms by (simp add: mtp_init_def Let_def in_int_def abs_less_iff flip: prepared_def)

lemma upd_sys_id: "upd_sys (\<lambda>_. d_sys d) d = d"
  by (simp add: upd_sys_def)

text \<open>C19: A request to start brings a fresh process into service: the state is one from which the reachable states of the packet
  handler are counted, no session is open, the empty storage is mounted under its root, and the interfaces are open.\<close>

theorem start_service:
  assumes "g_dev (d_sys d) = zero_device" "d_stores d = [zero_store]" "ev_action evt = EVENT_START_MAIN_OP"
    and conf: "read_mtp_conf (b_conf b) (d_conf d) = Some g" "0 < write_file_size g" "\<bar>mmap_threshold g\<bar> < 2 ^ 30" "unat (c_write_file c) = nat (write_file_size g)"
    and conv: "ascii_conv (e_to16 (c_env c))" "utf16_conv (e_to16 (c_env c))" "length (e_junk (c_env c)) = 255"
    and root: "map_option st_kind (os_stat (c_os c) (g_fs (d_sys d)) util_get_external_path) = Some S_IFDIR"
    and ui: "transport_init_interfaces (b_io b) (b_msg_size b) g (d_usb d, d_io d) = Some (ui, True)"
  shows "\<exists>d' st. process_event_request c b evt d = Some d' \<and> reachable c (d_sys d') \<and> g_op_state (d_sys d') = MTP_STATE_ONSERVICE
     \<and> session_id (g_hdlr (d_sys d')) = 0 \<and> dev_ok (g_dev (d_sys d')) \<and> is_mounted (g_dev (d_sys d'))
     \<and> device_get_store (g_dev (d_sys d')) MTP_EXTERNAL_STORE_ID = Some st \<and> obj_list st = [] \<and> root_path st = Some util_get_external_path
     \<and> (d_usb d', d_io d') = ui \<and> d_conf d' = g"
proof -
  obtain u i where uieq: "ui = (u, i)" by (cases ui)
  define d0 where "d0 = upd_sys (g_op_state_update (\<lambda>_. MTP_STATE_INITIALIZING)) (d\<lparr>d_cancel_init := False\<rparr>)"
  have d0: "g_dev (d_sys d0) = zero_device" "d_stores d0 = [zero_store]" "g_fs (d_sys d0) = g_fs (d_sys d)"
    "read_mtp_conf (b_conf b) (d_conf d0) = Some g" "d_usb d0 = d_usb d" "d_io d0 = d_io d"
    using assms by (simp_all add: d0_def)
  from init_services_ok[of "prepared g d0" c b] conv root d0 obtain dev props st where
    srv: "init_services c b (prepared g d0) = Some (fst (inoti_init_filesystem_evnts b (upd_sys (\<lambda>s. s\<lparr>g_dev := dev, g_props := props\<rparr>) (prepared g d0))))"
    and dev: "dev_ok dev" "phase dev = DEVICE_PHASE_IDLE" "is_mounted dev"
      "device_get_store dev MTP_EXTERNAL_STORE_ID = Some st" "obj_list st = []" "root_path st = Some util_get_external_path"
    by (auto simp: prepared_sel)
  define d4 where "d4 = fst (inoti_init_filesystem_evnts b (upd_sys (\<lambda>s. s\<lparr>g_dev := dev, g_props := props\<rparr>) (prepared g d0)))"
  have d4: "d_usb d4 = d_usb d" "d_io d4 = d_io d" "d_conf d4 = g" "g_dev (d_sys d4) = dev"
    "g_ftemp (d_sys d4) = g_ftemp (d_sys (prepared g d0))" "g_hdlr (d_sys d4) = g_hdlr (d_sys (prepared g d0))"
    by (simp_all add: d4_def prepared_sel d0)
  have "ensure_external c (d_sys (prepared g d0)) = (d_sys (prepared g d0), True)"
    using root by (intro ensure_external_there) (auto simp: prepared_sel d0)
  then have init: "mtp_init c b d0 = Some (d4, True)" using conf(2,3) srv by (simp add: mtp_init_prepared[OF d0(4)] upd_sys_id d4_def)
  let ?d5 = "upd_sys (g_op_state_update (\<lambda>_. MTP_STATE_ONSERVICE)) ((upd_sys (g_op_state_update (\<lambda>_. MTP_STATE_READY_SERVICE)) d4)\<lparr>d_usb := u, d_io := i\<rparr>)"
  have "process_event_request c b evt d = Some ?d5"
    using init ui d4 uieq assms(3) by (simp add: process_event_request_def start_main_op_def flip: d0_def)
  moreover have "booted c (d_sys ?d5)" using d4 dev(2) conf(4) by (simp add: booted_def zero_temp_def prepared_sel)
  then have "reachable c (d_sys ?d5)" by (rule reachable.boot)
  ultimately show ?thesis using dev d4 uieq by (intro exI[of _ ?d5] exI[of _ st]) (simp add: prepared_sel)
qed

text \<open>Without a storage the event thread stops the responder and is gone; no interface was opened.\<close>

lemma start_without_storage:
  assumes "read_mtp_conf (b_conf b) (d_conf d) = Some g" "0 < write_file_size g" "\<bar>mmap_threshold g\<bar> < 2 ^ 30" "ev_action evt = EVENT_START_MAIN_OP"
    "os_stat (c_os c) (g_fs (d_sys d)) util_get_external_path = None" "os_mkdir (c_os c) (g_fs (d_sys d)) util_get_external_path = (fs, Some e)"
  shows "\<exists>d'. process_event_request c b evt d = Some d' \<and> g_op_state (d_sys d') = MTP_STATE_STOPPED \<and> \<not> d_eh_runs d'
     \<and> d_usb d' = d_usb d \<and> d_io d' = d_io d \<and> d_loop d' = (if d_loop d = Loop_Running then Loop_Left else d_loop d)"
proof -
  define d0 where "d0 = upd_sys (g_op_state_update (\<lambda>_. MTP_STATE_INITIALIZING)) (d\<lparr>d_cancel_init := False\<rparr>)"
  have c: "read_mtp_conf (b_conf b) (d_conf d0) = Some g" "g_fs (d_sys d0) = g_fs (d_sys d)" "d_usb d0 = d_usb d" "d_io d0 = d_io d" "d_loop d0 = d_loop d"
    using assms by (simp_all add: d0_def)
  then obtain s where "ensure_external c (d_sys (prepared g d0)) = (s, False)"
    using assms(5,6) by (simp add: ensure_external_def util_dir_create_def prepared_sel)
  then have "mtp_init c b d0 = Some (init_fail (upd_sys (\<lambda>_. s) (prepared g d0)))" using assms(2,3) by (simp add: mtp_init_prepared[OF c(1)])
  then have "process_event_request c b evt d = Some (fst (init_fail (upd_sys (\<lambda>_. s) (prepared g d0))))"
    using assms(4) by (simp add: process_event_request_def start_main_op_def init_fail_def flip: d0_def)
  moreover have "d_loop (prepared g d0) = d_loop d" using c(5) by (simp add: prepared_def clear_status_def)
  ultimately show ?thesis using c(3,4) by (auto simp: init_fail_def mtp_end_event_def g_main_loop_quit_def prepared_sel)
qed

text \<open>
  A request to quit before the main loop runs is lost: when the start fails
  while the main thread is still on its way, the process goes on without its
  event thread.
\<close>

lemma early_quit_lost:
  assumes "d_loop d = No_Loop"
  shows "d_loop (g_main_loop_run (fst (main_loop_new True (mtp_end_event d)))) = Loop_Running
     \<and> \<not> d_eh_runs (g_main_loop_run (fst (main_loop_new True (mtp_end_event d))))"
  using assms by (simp add: mtp_end_event_def g_main_loop_quit_def main_loop_new_def g_main_loop_run_def)

text \<open>
  Nothing is left: no thread of the interfaces, no packet, no storage, no
  session, no watch below the storage, no record of an open file, no buffer.
\<close>

definition service_over :: "'fs daemon \<Rightarrow> bool" where
  "service_over d \<longleftrightarrow> g_op_state (d_sys d) = MTP_STATE_STOPPED \<and> io_released (d_usb d, (d_io d)\<lparr>io_data := False\<rparr>) \<and> d_rxq d = [] \<and> g_txq (d_sys d) = []
     \<and> \<not> is_mounted (g_dev (d_sys d)) \<and> stores (g_dev (d_sys d)) = [] \<and> session_id (g_hdlr (d_sys d)) = 0
     \<and> temp_buff (g_ftemp (d_sys d)) = [] \<and> i_open (d_inoti d) = no_open_files \<and> \<not> d_inoti_runs d
     \<and> (\<forall>w\<in>set (take (i_cnt (d_inoti d)) (i_watches (d_inoti d))). \<forall>f. iw_folder w = Some f \<longrightarrow> \<not> strstr f util_get_external_path)"

lemma no_watch_left:
  assumes "w \<in> set (take n (remove_recursive_inoti_watch n path ws))" "iw_folder w = Some f"
  shows "\<not> strstr f path"
proof -
  have "w \<in> set (map (\<lambda>w. case iw_folder w of None \<Rightarrow> w | Some f \<Rightarrow> if strstr f path then no_watch else w) (take n ws))"
    using assms(1) by (cases "n \<le> length ws") (simp_all add: remove_recursive_inoti_watch_def)
  with assms(2) show ?thesis by (auto simp: no_watch_def split: option.splits if_splits)
qed

lemma clean_up_inoti_ok:
  assumes "open_files_ok (i_open s) fs"
  shows "clean_up_inoti s = Some (s\<lparr>i_watches := remove_recursive_inoti_watch (i_cnt s) util_get_external_path (i_watches s), i_open := no_open_files\<rparr>)"
  using assms destroy_open_at by (auto simp: clean_up_inoti_def destroy_inoti_open_files_list_def open_files_ok_def)

lemma drop_temp_sel:
  "g_dev (drop_temp_file c s) = g_dev s" "g_txq (drop_temp_file c s) = g_txq s" "g_op_state (drop_temp_file c s) = g_op_state s"
  "g_ehq (drop_temp_file c s) = g_ehq s"
  by (simp_all add: drop_temp_file_def split: option.split)

lemma usb_removed_spec:
  assumes "\<not> d_removed d" "io_created (d_io d)" "read_usb_size (d_conf d) \<noteq> 0" "\<And>q. a_rm (b_io b) q" "\<And>q p. c_snd c q p"
    "dev_ok (g_dev (d_sys d))" "open_files_ok (i_open (d_inoti d)) fs" "d_inoti_thrd d" "d_inoti_runs d"
  shows "\<exists>d'. usb_removed c b d = Some d' \<and> service_over d' \<and> d_removed d' \<and> d_discon d' \<and> d_eh_runs d' = d_eh_runs d \<and> d_loop d' = d_loop d
     \<and> g_fs (d_sys d') = g_fs (drop_temp_file c (d_sys d))
     \<and> g_ehq (d_sys d') = g_ehq (d_sys d) @ [\<lparr>ev_action = EVENT_CLOSE, ev_param1 = 1, ev_param2 = 0, ev_param3 = 0\<rparr>]"
proof -
  let ?cancel = "ucast PTP_EVENTCODE_CANCELTRANSACTION :: u32"
  define d1 where "d1 = upd_sys (\<lambda>s. s\<lparr>g_ctrl := ?cancel\<rparr>) (d\<lparr>d_removed := True, d_discon := True, d_cancel_init := True\<rparr>)"
  obtain u i where ui: "transport_usb_finalize (c_snd c) (a_rm (b_io b)) c (d_conf d1) (d_usb d1, d_io d1) (d_rxq d1, d_sys d1) =
      Some ((u, i), [], (d_sys d1)\<lparr>g_ctrl := ?cancel, g_txq := []\<rparr>)" "io_released (u, i\<lparr>io_data := False\<rparr>)"
    using finalize_released[where rm = "a_rm (b_io b)" and snd_ok = "c_snd c" and c = c and g = "d_conf d1" and u = "d_usb d1" and i = "d_io d1"
        and q = "d_rxq d1" and s = "d_sys d1"] assms(2-5) by (auto simp: d1_def)
  define s2 where "s2 = drop_temp_file c ((d_sys d1)\<lparr>g_ctrl := ?cancel, g_txq := [], g_op_state := MTP_STATE_STOPPED\<rparr>)"
  have s2: "g_dev s2 = g_dev (d_sys d)" "g_txq s2 = []" "g_op_state s2 = MTP_STATE_STOPPED" "g_ehq s2 = g_ehq (d_sys d)"
    "g_fs s2 = g_fs (drop_temp_file c (d_sys d))"
    by (simp_all add: s2_def drop_temp_sel d1_def) (simp add: drop_temp_file_def split: option.split)
  define d2 where "d2 = upd_sys (\<lambda>_. s2) (d1\<lparr>d_usb := u, d_io := i, d_rxq := []\<rparr>)"
  define d3 where "d3 = (upd_sys (\<lambda>s. (cmd_hdlr_reset_cmd s)\<lparr>g_ftemp := (g_ftemp s)\<lparr>temp_buff := []\<rparr>\<rparr>) d2)\<lparr>d_inoti_runs := False, d_inoti_fd := 0\<rparr>"
  define d4 where "d4 = d3\<lparr>d_inoti := (d_inoti d3)\<lparr>i_watches := remove_recursive_inoti_watch (i_cnt (d_inoti d)) util_get_external_path (i_watches (d_inoti d)),
      i_open := no_open_files\<rparr>\<rparr>"
  have "mtp_deinit d2 = Some d4"
    using assms(7-9) by (simp add: mtp_deinit_def inoti_deinit_filesystem_events_def clean_up_inoti_ok[of _ fs] d4_def d3_def d2_def d1_def upd_sys_def)
  moreover have dev4: "g_dev (d_sys d4) = g_dev (d_sys d)" by (simp add: d4_def d3_def d2_def cmd_hdlr_reset_cmd_def s2)
  moreover obtain dev where dev: "device_uninstall_storage (c_env c) (g_fs (d_sys d4)) (g_dev (d_sys d)) = Some dev" "dev_ok dev" "\<not> is_mounted dev"
    using uninstall_storage_spec[OF assms(6), of "c_env c" "g_fs (d_sys d4)"] by auto
  ultimately have "usb_removed c b d = Some (upd_sys (\<lambda>s. eh_send_event_req_to_eh_thread EVENT_CLOSE 1 0 0 (s\<lparr>g_dev := dev\<rparr>)) d4)"
    unfolding usb_removed_def Let_def d1_def[symmetric] ui(1) using assms(1) by (simp add: d2_def s2_def)
  moreover have "stores dev = []" using dev_ok_stores(1)[OF dev(2)] dev(3) by simp
  ultimately show ?thesis
    using ui(2) dev s2 no_watch_left
    by (auto simp: service_over_def eh_send_event_req_to_eh_thread_def d4_def d3_def d2_def d1_def cmd_hdlr_reset_cmd_def)
qed

text \<open>C20: When the cable is removed, the event thread ends the service completely and then itself: it waits for all threads, gives
  the interfaces, the watches and the storage back, removes the file of an interrupted transfer, closes the pipe and leaves the main loop.\<close>

theorem unplug_ends_service:
  assumes "g_ehq (d_sys d) = [evt]" "ev_action evt = EVENT_USB_REMOVED" "d_eh_runs d" "d_loop d = Loop_Running"
    and "\<not> d_removed d" "io_created (d_io d)" "read_usb_size (d_conf d) \<noteq> 0" "\<And>q. a_rm (b_io b) q" "\<And>q p. c_snd c q p"
    and "dev_ok (g_dev (d_sys d))" "open_files_ok (i_open (d_inoti d)) fs" "d_inoti_thrd d" "d_inoti_runs d"
  shows "\<exists>d'. thread_event_handler c b [Pipe_Event, Pipe_Event] d = Some d' \<and> service_over d' \<and> g_ehq (d_sys d') = []
     \<and> \<not> d_pipe d' \<and> \<not> d_eh_runs d' \<and> d_loop d' = Loop_Left
     \<and> (\<forall>p. filepath (g_ftemp (d_sys d)) = Some p \<and> os_stat (c_os c) (g_fs (d_sys d)) p \<noteq> None \<longrightarrow>
          g_fs (d_sys d') = fst (os_remove (c_os c) (g_fs (d_sys d)) p))"
proof -
  define d0 where "d0 = (upd_sys (g_ehq_update (\<lambda>_. [])) d)\<lparr>d_evt := Some evt\<rparr>"
  have fs0: "g_fs (drop_temp_file c (d_sys d0)) = g_fs (drop_temp_file c (d_sys d))"
    by (simp add: d0_def drop_temp_file_def split: option.split)
  obtain d1 where d1: "usb_removed c b d0 = Some d1" "service_over d1" "d_eh_runs d1" "d_loop d1 = Loop_Running"
    "g_ehq (d_sys d1) = [\<lparr>ev_action = EVENT_CLOSE, ev_param1 = 1, ev_param2 = 0, ev_param3 = 0\<rparr>]"
    "g_fs (d_sys d1) = g_fs (drop_temp_file c (d_sys d))"
    using usb_removed_spec[of d0 b c fs] assms(3-) fs0 by (auto simp: d0_def)
  have "event_read c b Pipe_Event d = Some d1"
    using assms(1,2) d1(1,3) by (simp add: handle_request_def process_event_request_def flip: d0_def)
  moreover obtain d2 where "event_read c b Pipe_Event d1 = Some d2" "service_over d2" "\<not> d_pipe d2" "\<not> d_eh_runs d2" "d_loop d2 = Loop_Left"
    "g_ehq (d_sys d2) = []" "g_fs (d_sys d2) = g_fs (d_sys d1)"
    using d1 by (simp add: handle_request_def process_event_request_def mtp_end_event_def g_main_loop_quit_def service_over_def)
  moreover have "g_fs (drop_temp_file c (d_sys d)) = fst (os_remove (c_os c) (g_fs (d_sys d)) p)"
    if "filepath (g_ftemp (d_sys d)) = Some p" "os_stat (c_os c) (g_fs (d_sys d)) p \<noteq> None" for p
    using that by (auto simp: drop_temp_file_def)
  ultimately show ?thesis using assms(3) d1(3,6) by auto
qed

text \<open>A second removal changes nothing.\<close>

lemma second_removal: "d_removed d \<Longrightarrow> usb_removed c b d = Some d"
  by (simp add: usb_removed_def)

section \<open>Witnesses\<close>

text \<open>A process that has just started, on a file system in which only the root of the storage exists.\<close>

definition card_dir_os :: "ram os" where
  "card_dir_os = ram_os\<lparr>os_stat := \<lambda>fs p. if p = util_get_external_path
     then Some \<lparr>st_kind = S_IFDIR, st_writable = True, st_size = 4096, st_ctime = 0, st_mtime = 0\<rparr> else os_stat ram_os fs p\<rparr>"

definition daemon_conf :: "ram conf" where
  "daemon_conf = ram_conf\<lparr>c_env := ram_env\<lparr>e_os := card_dir_os\<rparr>\<rparr>"

definition fresh_daemon :: "ram daemon" where
  "fresh_daemon = \<lparr>d_inoti = watched\<lparr>i_sys := ready_sys\<lparr>g_dev := zero_device, g_fs := Map.empty\<rparr>\<rparr>, d_conf = zero_conf, d_usb = fresh_usb, d_io = fresh_io,
     d_rxq = [], d_stores = [zero_store], d_inserted = True, d_removed = False, d_discon = False, d_cancel_init = False, d_pipe = True,
     d_evt = None, d_eh = True, d_eh_runs = True, d_inoti_fd = 0, d_inoti_thrd = False, d_inoti_runs = False, d_loop = Loop_Running, d_killed = False\<rparr>"

definition boot_grants :: boot_answers where
  "boot_grants = \<lparr>b_conf = None, b_msg_size = 24, b_io = io_grants, b_inotify_fd = 9, b_inotify_thrd = True\<rparr>"

definition request :: "event_code \<Rightarrow> u64 \<Rightarrow> mtp_event" where
  "request a p = \<lparr>ev_action = a, ev_param1 = p, ev_param2 = 0, ev_param3 = 0\<rparr>"

theorem start_service_witness:
  "\<exists>d'. process_event_request daemon_conf boot_grants (request EVENT_START_MAIN_OP 0) fresh_daemon = Some d'
     \<and> reachable daemon_conf (d_sys d') \<and> g_op_state (d_sys d') = MTP_STATE_ONSERVICE \<and> is_mounted (g_dev (d_sys d'))"
proof -
  let ?g = "(default_conf zero_conf)\<lparr>is_init := True\<rparr>"
  obtain ui where ui: "transport_init_interfaces (b_io boot_grants) (b_msg_size boot_grants) ?g (d_usb fresh_daemon, d_io fresh_daemon) = Some (ui, True)"
    by (simp add: boot_grants_def fresh_daemon_def transport_init_interfaces_def transport_init_usb_device_def fresh_usb_def fresh_io_def io_grants_def
        mq_size_def in_int_def transport_mq_init_def transport_init_io_def default_conf_def zero_conf_def)
  have "\<exists>d' st. process_event_request daemon_conf boot_grants (request EVENT_START_MAIN_OP 0) fresh_daemon = Some d' \<and> reachable daemon_conf (d_sys d')
      \<and> g_op_state (d_sys d') = MTP_STATE_ONSERVICE \<and> session_id (g_hdlr (d_sys d')) = 0 \<and> dev_ok (g_dev (d_sys d')) \<and> is_mounted (g_dev (d_sys d'))
      \<and> device_get_store (g_dev (d_sys d')) MTP_EXTERNAL_STORE_ID = Some st \<and> obj_list st = [] \<and> root_path st = Some util_get_external_path
      \<and> (d_usb d', d_io d') = ui \<and> d_conf d' = ?g"
    by (rule start_service[OF _ _ _ _ _ _ _ _ _ _ _ ui])
      (simp_all add: fresh_daemon_def request_def read_mtp_conf_def boot_grants_def daemon_conf_def ram_conf_def ram_env_def card_dir_os_def
        ascii_to16_conv default_conf_def)
  then show ?thesis by blast
qed

definition notified :: "ram daemon" where
  "notified = fresh_daemon\<lparr>d_usb := open_usb, d_inoti := watched\<lparr>i_sys := ready_sys\<lparr>g_ehq := [request EVENT_OBJECT_ADDED 5, request EVENT_OBJECT_REMOVED 4]\<rparr>\<rparr>\<rparr>"

lemma notified_sel:
  "g_ehq (d_sys notified) = [request EVENT_OBJECT_ADDED 5, request EVENT_OBJECT_REMOVED 4]" "d_eh_runs notified" "g_txq (d_sys notified) = []"
  "u_ep_status (d_usb notified) = 6"
  by (simp_all add: notified_def fresh_daemon_def ready_sys_def open_usb_def)

theorem notifications_reach_host_witness:
  "\<exists>d' w'. thread_event_handler ram_conf boot_grants [Pipe_Event, Pipe_Event] notified = Some d'
     \<and> transport_thread_usb_write (\<lambda>_. Written) (d_usb d') (g_txq (d_sys d')) \<lparr>w_count = 0, w_out = [], w_sys = ready_sys\<rparr> = ([], w', True)
     \<and> w_out w' = [(6, notice_bytes (request EVENT_OBJECT_ADDED 5)), (6, notice_bytes (request EVENT_OBJECT_REMOVED 4))]"
proof -
  have "replicate 2 Pipe_Event = [Pipe_Event, Pipe_Event]" by (simp add: numeral_2_eq_2)
  moreover have "\<And>q p. c_snd ram_conf q p" "16 \<le> unat (c_tx_size ram_conf)" by (simp_all add: ram_conf_def)
  moreover have "\<forall>e\<in>set [request EVENT_OBJECT_ADDED 5, request EVENT_OBJECT_REMOVED 4]. notice_code (ev_action e) \<noteq> None"
    by (simp add: notice_code_def request_def)
  ultimately show ?thesis
    using notifications_reach_host[of ram_conf notified "[request EVENT_OBJECT_ADDED 5, request EVENT_OBJECT_REMOVED 4]" "\<lambda>_. Written"
        "\<lparr>w_count = 0, w_out = [], w_sys = ready_sys\<rparr>" boot_grants] notified_sel
    by auto
qed

theorem unplug_ends_service_witness:
  "\<exists>d'. thread_event_handler ram_conf boot_grants [Pipe_Event, Pipe_Event]
       (fresh_daemon\<lparr>d_usb := open_usb, d_io := fresh_io\<lparr>io_created := True, io_data := True\<rparr>, d_conf := default_conf zero_conf,
         d_inoti_thrd := True, d_inoti_runs := True, d_inoti := watched\<lparr>i_sys := ready_sys\<lparr>g_dev := bare_device, g_ehq := [request EVENT_USB_REMOVED 0]\<rparr>\<rparr>\<rparr>) = Some d'
     \<and> service_over d' \<and> d_loop d' = Loop_Left"
proof -
  let ?d = "fresh_daemon\<lparr>d_usb := open_usb, d_io := fresh_io\<lparr>io_created := True, io_data := True\<rparr>, d_conf := default_conf zero_conf,
         d_inoti_thrd := True, d_inoti_runs := True, d_inoti := watched\<lparr>i_sys := ready_sys\<lparr>g_dev := bare_device, g_ehq := [request EVENT_USB_REMOVED 0]\<rparr>\<rparr>\<rparr>"
  obtain fs where "open_files_ok (i_open watched) fs" using watched_inv by (auto simp: inoti_inv_def)
  then have "open_files_ok (i_open (d_inoti ?d)) fs" by simp
  from unplug_ends_service[OF _ _ _ _ _ _ _ _ _ _ this, of "request EVENT_USB_REMOVED 0" boot_grants ram_conf] show ?thesis
    using bare_device_ok by (auto simp: fresh_daemon_def request_def fresh_io_def default_conf_def boot_grants_def io_grants_def ram_conf_def)
qed

end
