(* ===== verification/Prop_Values.thy ===== *)
theory Prop_Values
  imports Scenario
begin

text \<open>
  The property values of an object (src/entity/mtp_property.c) and the
  services on them of src/mtp_cmd_handler_util.c: the list of values that is
  filled from the object, the lookup of one value, the property lists of many
  objects, and the references of an object.
\<close>

section \<open>Creating values\<close>

text \<open>
  The common part of the four creators: the description of the code, a fresh
  value, the setter (whose refusal is ignored), and the node at the end of the
  list.  An object without its information is dereferenced (None).
\<close>

definition create_prop ::
    "obj_prop_desc list \<Rightarrow> u16 list \<Rightarrow> u16 \<Rightarrow> (obj_prop_val \<Rightarrow> (obj_prop_val \<times> bool) option) \<Rightarrow> mtp_obj \<Rightarrow> (mtp_obj \<times> bool) option" where
  "create_prop props junk propcode setter obj =
     (case obj_info obj of
        None \<Rightarrow> None
      | Some _ \<Rightarrow>
          (case prop_get_obj_prop_desc props (ucast propcode) of
             None \<Rightarrow> Some (obj, False)
           | Some p \<Rightarrow> do {
               pv \<leftarrow> prop_alloc_obj_propval junk p;
               (pv', _) \<leftarrow> setter pv;
               Some (obj\<lparr>propval_list := propval_list obj @ [pv']\<rparr>, True) }))"

definition create_prop_integer :: "obj_prop_desc list \<Rightarrow> u16 list \<Rightarrow> u16 \<Rightarrow> u64 \<Rightarrow> mtp_obj \<Rightarrow> (mtp_obj \<times> bool) option" where
  "create_prop_integer props junk propcode v = create_prop props junk propcode (\<lambda>pv. prop_set_current_integer_val pv v)"

definition create_prop_string :: "obj_prop_desc list \<Rightarrow> u16 list \<Rightarrow> u16 \<Rightarrow> u16 list \<Rightarrow> mtp_obj \<Rightarrow> (mtp_obj \<times> bool) option" where
  "create_prop_string props junk propcode value = create_prop props junk propcode (\<lambda>pv. do {
     s \<leftarrow> prop_copy_wchar_to_ptpstring \<lparr>num_chars = 0, str = replicate MAX_PTP_STRING_CHARS 0\<rparr> (Some value);
     prop_set_current_string_val junk pv s })"

definition create_prop_timestring :: "obj_prop_desc list \<Rightarrow> u16 list \<Rightarrow> u16 \<Rightarrow> ptp_string \<Rightarrow> mtp_obj \<Rightarrow> (mtp_obj \<times> bool) option" where
  "create_prop_timestring props junk propcode value = create_prop props junk propcode (\<lambda>pv. prop_set_current_string_val junk pv value)"

definition create_prop_array :: "obj_prop_desc list \<Rightarrow> u16 list \<Rightarrow> u16 \<Rightarrow> u8 list \<Rightarrow> u32 \<Rightarrow> mtp_obj \<Rightarrow> (mtp_obj \<times> bool) option" where
  "create_prop_array props junk propcode arr sz = create_prop props junk propcode (\<lambda>pv. prop_set_current_array_val junk pv arr sz)"

section \<open>The values of an object\<close>

text \<open>A sequence of steps that ends with the first failure.\<close>

fun run_steps :: "('a \<Rightarrow> ('a \<times> bool) option) list \<Rightarrow> 'a \<Rightarrow> ('a \<times> bool) option" where
  "run_steps [] x = Some (x, True)"
| "run_steps (f # fs) x = do { (y, ok) \<leftarrow> f x; if ok then run_steps fs y else Some (y, False) }"

text \<open>
  A name that is longer than its buffer is written behind it (None).  When the
  times of the file cannot be read, the two time strings stay uninitialised
  and are used all the same (None).
\<close>

definition create_prop_name :: "'fs env \<Rightarrow> obj_prop_desc list \<Rightarrow> u16 \<Rightarrow> nat \<Rightarrow> nat \<Rightarrow> string \<Rightarrow> mtp_obj \<Rightarrow> (mtp_obj \<times> bool) option" where
  "create_prop_name e props propcode max_size wide name obj =
     (if max_size < length name then None
      else do {
        (w, _) \<leftarrow> util_utf8_to_utf16 (e_to16 e) True (replicate wide 0) wide name;
        create_prop_string props (e_junk e) propcode w obj })"

definition create_prop_guid :: "'fs env \<Rightarrow> obj_prop_desc list \<Rightarrow> string \<Rightarrow> mtp_obj \<Rightarrow> (mtp_obj \<times> bool) option" where
  "create_prop_guid e props path obj = do {
     (w, _) \<leftarrow> util_utf8_to_utf16 (e_to16 e) True (replicate (2 * MTP_MAX_PATHNAME_SIZE + 1) 0) (2 * MTP_MAX_PATHNAME_SIZE + 1) path;
     (lo, hi) \<leftarrow> util_conv_wstr_to_guid w;
     create_prop_array props (e_junk e) MTP_OBJ_PROPERTYCODE_PERSISTENTGUID (le_bytes 8 lo @ le_bytes 8 hi) 16 obj }"

definition value_steps :: "'fs env \<Rightarrow> 'fs \<Rightarrow> obj_prop_desc list \<Rightarrow> obj_info \<Rightarrow> string \<Rightarrow> (mtp_obj \<Rightarrow> (mtp_obj \<times> bool) option) list" where
  "value_steps e fs props info path =
     (let int = create_prop_integer props (e_junk e);
          time = (\<lambda>propcode pick obj. do {
            r \<leftarrow> entity_get_file_times e fs obj zero_time_str zero_time_str;
            tms \<leftarrow> r;
            create_prop_timestring props (e_junk e) propcode (pick tms) obj })
      in [int MTP_OBJ_PROPERTYCODE_STORAGEID (ucast (store_id info)),
          int MTP_OBJ_PROPERTYCODE_OBJECTFORMAT (ucast (obj_fmt info)),
          int MTP_OBJ_PROPERTYCODE_PROTECTIONSTATUS (ucast (protcn_status info)),
          int MTP_OBJ_PROPERTYCODE_OBJECTSIZE (file_size info),
          create_prop_name e props MTP_OBJ_PROPERTYCODE_OBJECTFILENAME MTP_MAX_FILENAME_SIZE (MTP_MAX_FILENAME_SIZE + 1) (util_get_file_name path),
          int MTP_OBJ_PROPERTYCODE_PARENT (ucast (h_parent info)),
          create_prop_guid e props path,
          int MTP_OBJ_PROPERTYCODE_NONCONSUMABLE 0,
          time MTP_OBJ_PROPERTYCODE_DATEMODIFIED snd,
          time MTP_OBJ_PROPERTYCODE_DATECREATED fst,
          create_prop_name e props MTP_OBJ_PROPERTYCODE_NAME MTP_MAX_PATHNAME_SIZE (MTP_MAX_PATHNAME_SIZE + 1)
            (case util_get_file_name_wo_extn path of None \<Rightarrow> [] | Some n \<Rightarrow> n),
          int MTP_OBJ_PROPERTYCODE_ASSOCIATIONTYPE (ucast (association_type info))]
         @ (if get_oma_drm_status then [int MTP_OBJ_PROPERTYCODE_OMADRMSTATUS 0] else []))"

definition prop_update_property_values_list :: "'fs env \<Rightarrow> 'fs \<Rightarrow> obj_prop_desc list \<Rightarrow> mtp_obj \<Rightarrow> (mtp_obj \<times> bool) option" where
  "prop_update_property_values_list e fs props obj =
     (case obj_info obj of
        None \<Rightarrow> Some (obj, False)
      | Some info \<Rightarrow>
          (let obj1 = obj\<lparr>propval_list := []\<rparr>
           in case file_path obj of
                Some (CHR ''/'' # p) \<Rightarrow> run_steps (value_steps e fs props info (CHR ''/'' # p)) obj1
              | _ \<Rightarrow> Some (obj1, False)))"

text \<open>
  The lookup of one value.  The nodes of the list are never null, so that the
  second attempt of the code is not reached.
\<close>

definition prop_get_prop_val :: "'fs env \<Rightarrow> 'fs \<Rightarrow> obj_prop_desc list \<Rightarrow> mtp_obj \<Rightarrow> u32 \<Rightarrow> (mtp_obj \<times> obj_prop_val option) option" where
  "prop_get_prop_val e fs props obj propcode = do {
     obj1 \<leftarrow> (if propval_list obj = [] then map_option fst (prop_update_property_values_list e fs props obj) else Some obj);
     Some (obj1, find (\<lambda>pv. ucast (prop_code (propinfo (pv_prop pv))) = propcode) (propval_list obj1)) }"

definition prop_get_obj_proplist ::
    "'fs env \<Rightarrow> 'fs \<Rightarrow> obj_prop_desc list \<Rightarrow> mtp_obj \<Rightarrow> u32 \<Rightarrow> u32 \<Rightarrow> prop_quad list \<Rightarrow> (mtp_obj \<times> prop_quad list \<times> u32) option" where
  "prop_get_obj_proplist e fs props obj propcode gcode quads = do {
     (obj1, ok) \<leftarrow> (if propval_list obj = [] then prop_update_property_values_list e fs props obj else Some (obj, True));
     if \<not> ok then Some (obj1, quads, 0)
     else do {
       qs \<leftarrow> obj_proplist_loop (obj_handle obj) propcode gcode (propval_list obj1) quads;
       Some (obj1, qs, of_nat (length qs)) } }"

section \<open>Services\<close>

definition hutil_get_object_prop_value :: "'fs conf \<Rightarrow> u32 \<Rightarrow> u32 \<Rightarrow> 'fs sys \<Rightarrow> ('fs sys \<times> mtp_err \<times> obj_prop_val option) option" where
  "hutil_get_object_prop_value c h propcode s =
     (case device_get_object_with_handle (g_dev s) h of
        None \<Rightarrow> Some (s, MTP_ERROR_INVALID_OBJECTHANDLE, None)
      | Some obj \<Rightarrow> do {
          (obj1, pv) \<leftarrow> prop_get_prop_val (c_env c) (g_fs s) (g_props s) obj propcode;
          s1 \<leftarrow> update_object h obj1 s;
          Some (s1, if pv = None then MTP_ERROR_GENERAL else MTP_ERROR_NONE, pv) })"

definition hutil_get_object_prop_supported :: "'fs sys \<Rightarrow> ptp_array \<Rightarrow> (ptp_array \<times> mtp_err) option" where
  "hutil_get_object_prop_supported s arr = map_option (\<lambda>(a, _). (a, MTP_ERROR_NONE)) (prop_get_supp_obj_props (g_props s) arr)"

text \<open>
  The property list of many objects.  After the loop over the storages the
  variable holds the last one, in which the objects are then looked up.
\<close>

definition proplist_of ::
    "'fs conf \<Rightarrow> nat \<Rightarrow> u32 \<Rightarrow> u32 \<Rightarrow> u32 \<Rightarrow> 'fs sys \<times> prop_quad list \<times> bool \<Rightarrow> ('fs sys \<times> prop_quad list \<times> bool) option" where
  "proplist_of c i propcode gcode h acc =
     (case acc of
        (s, quads, False) \<Rightarrow> Some (s, quads, False)
      | (s, quads, True) \<Rightarrow>
          (let st = store_list (g_dev s) ! i
           in case entity_get_object_from_store st h of
                None \<Rightarrow> Some (s, quads, True)
              | Some obj \<Rightarrow> do {
                  (obj1, qs, n) \<leftarrow> prop_get_obj_proplist (c_env c) (g_fs s) (g_props s) obj propcode gcode quads;
                  Some (upd_store i (st\<lparr>obj_list := update_obj h (\<lambda>_. obj1) (obj_list st)\<rparr>) s, qs, n \<noteq> 0) }))"

definition hutil_get_object_prop_list ::
    "'fs conf \<Rightarrow> u32 \<Rightarrow> u32 \<Rightarrow> u32 \<Rightarrow> u32 \<Rightarrow> u32 \<Rightarrow> 'fs sys \<Rightarrow> ('fs sys \<times> mtp_err \<times> prop_quad list) option" where
  "hutil_get_object_prop_list c h fmt propcode gcode depth s =
     (let every = (h = PTP_OBJECTHANDLE_UNDEFINED \<or> h = PTP_OBJECTHANDLE_ALL);
          holder = (if every then None else device_get_store_containing_obj (g_dev s) h);
          n = unat (num_stores (g_dev s))
      in if \<not> every \<and> holder = None then Some (s, MTP_ERROR_INVALID_OBJECTHANDLE, [])
         else if propcode = PTP_PROPERTY_UNDEFINED \<and> gcode = 0 then Some (s, MTP_ERROR_INVALID_PARAM, [])
         else if \<not> every \<and> fmt \<noteq> PTP_FORMATCODE_NOTUSED \<and> fmt \<noteq> PTP_FORMATCODE_ALL then Some (s, MTP_ERROR_NO_SPEC_BY_FORMAT, [])
         else do {
           arr \<leftarrow> foldM (\<lambda>i a. entity_get_objects_from_store_till_depth (store_list (g_dev s) ! i) h fmt depth a)
                    (case holder of Some i \<Rightarrow> [i] | None \<Rightarrow> [0..<n]) (prop_alloc_ptparray UINT32_TYPE);
           hs \<leftarrow> ptparray_elems arr;
           (s1, quads, ok) \<leftarrow> foldM (proplist_of c (case holder of Some i \<Rightarrow> i | None \<Rightarrow> n - 1) propcode gcode) hs (s, [], True);
           Some (s1, if ok then MTP_ERROR_NONE else MTP_ERROR_GENERAL, quads) })"

text \<open>
  The references of an object: those to objects that are gone are dropped
  first.  The index has 16 bits, so that the loop does not end with 65536
  references or more (None).
\<close>

definition hutil_get_object_references :: "u32 \<Rightarrow> ptp_array option \<Rightarrow> 'fs sys \<Rightarrow> ('fs sys \<times> mtp_err \<times> u32 \<times> ptp_array option) option" where
  "hutil_get_object_references h parray s =
     (case device_get_object_with_handle (g_dev s) h of
        None \<Rightarrow> Some (s, MTP_ERROR_INVALID_OBJECTHANDLE, 0, parray)
      | Some obj \<Rightarrow>
          if obj_info obj = None then Some (s, MTP_ERROR_INVALID_OBJECTHANDLE, 0, parray)
          else (case parray of
             None \<Rightarrow> Some (s, MTP_ERROR_GENERAL, 0, parray)
           | Some pa \<Rightarrow>
               if num_ele (child_array obj) = 0 then Some (s, MTP_ERROR_NONE, 0, parray)
               else if 2 ^ 16 \<le> unat (num_ele (child_array obj)) then None
               else do {
                 (refs, _) \<leftarrow> prop_copy_ptparray (prop_alloc_ptparray (pa_type (child_array obj))) (child_array obj);
                 hs \<leftarrow> ptparray_elems refs;
                 obj1 \<leftarrow> foldM (\<lambda>r ob. if device_get_object_with_handle (g_dev s) r = None
                                   then map_option fst (entity_remove_reference_child_array ob r) else Some ob) hs obj;
                 s1 \<leftarrow> update_object h obj1 s;
                 let n = num_ele (child_array obj1);
                 if n = 0 then Some (s1, MTP_ERROR_NONE, 0, parray)
                 else do {
                   (pa', _) \<leftarrow> prop_copy_ptparray (fst (prop_grow_ptparray (prop_init_ptparray pa (pa_type (child_array obj1))) n)) (child_array obj1);
                   Some (s1, MTP_ERROR_NONE, n, Some pa') } }))"

section \<open>The types of the table\<close>

lemma foldl_supp_info:
  "prop_code (foldl (\<lambda>q v. fst (prop_add_supp_integer_val q v)) pi vs) = prop_code pi
   \<and> data_type (foldl (\<lambda>q v. fst (prop_add_supp_integer_val q v)) pi vs) = data_type pi
   \<and> dts_size (foldl (\<lambda>q v. fst (prop_add_supp_integer_val q v)) pi vs) = dts_size pi
   \<and> form_flag (foldl (\<lambda>q v. fst (prop_add_supp_integer_val q v)) pi vs) = form_flag pi"
  by (induction vs arbitrary: pi) (simp_all add: prop_add_supp_integer_val_def)

definition typed :: "u16 \<Rightarrow> u16 \<Rightarrow> u8 \<Rightarrow> obj_prop_desc \<Rightarrow> bool" where
  "typed cd t ff p \<longleftrightarrow> prop_code (propinfo p) = cd \<and> data_type (propinfo p) = t \<and> dts_size (propinfo p) = type_size t \<and> form_flag (propinfo p) = ff"

lemma int_prop_typed:
  assumes "int_prop cd dt gs ff supps dflt = Some p" "ff = FORM_NONE \<or> ff = ENUM_FORM"
  shows "typed cd dt ff p"
  using assms foldl_supp_info
  by (auto simp: int_prop_def init_obj_prop_desc_def prop_set_default_integer_def typed_def Let_def split: if_splits bind_splits)

lemma string_prop_typed:
  assumes "string_prop junk cd gs ff temp = Some p" "ff = FORM_NONE \<or> ff = DATE_TIME_FORM"
  shows "typed cd PTP_DATATYPE_STRING ff p"
  using assms
  by (auto simp: string_prop_def init_obj_prop_desc_def prop_set_default_string_def typed_def Let_def split: if_splits bind_splits)

lemma filename_prop_typed:
  "filename_prop conv junk = Some (p, temp) \<Longrightarrow> typed MTP_OBJ_PROPERTYCODE_OBJECTFILENAME PTP_DATATYPE_STRING REGULAR_EXPRESSION_FORM p"
  by (auto simp: filename_prop_def init_obj_prop_desc_def prop_set_default_string_def prop_set_regexp_def typed_def Let_def split: if_splits bind_splits)

definition table_types :: "(u16 \<times> u16 \<times> u8) list" where
  "table_types =
     [(MTP_OBJ_PROPERTYCODE_STORAGEID, PTP_DATATYPE_UINT32, FORM_NONE), (MTP_OBJ_PROPERTYCODE_OBJECTFORMAT, PTP_DATATYPE_UINT16, FORM_NONE),
      (MTP_OBJ_PROPERTYCODE_PROTECTIONSTATUS, PTP_DATATYPE_UINT16, ENUM_FORM), (MTP_OBJ_PROPERTYCODE_OBJECTSIZE, PTP_DATATYPE_UINT64, FORM_NONE),
      (MTP_OBJ_PROPERTYCODE_OBJECTFILENAME, PTP_DATATYPE_STRING, REGULAR_EXPRESSION_FORM), (MTP_OBJ_PROPERTYCODE_PARENT, PTP_DATATYPE_UINT32, FORM_NONE),
      (MTP_OBJ_PROPERTYCODE_PERSISTENTGUID, PTP_DATATYPE_UINT128, FORM_NONE), (MTP_OBJ_PROPERTYCODE_NONCONSUMABLE, PTP_DATATYPE_UINT8, ENUM_FORM),
      (MTP_OBJ_PROPERTYCODE_DATEMODIFIED, PTP_DATATYPE_STRING, DATE_TIME_FORM), (MTP_OBJ_PROPERTYCODE_DATECREATED, PTP_DATATYPE_STRING, DATE_TIME_FORM),
      (MTP_OBJ_PROPERTYCODE_NAME, PTP_DATATYPE_STRING, FORM_NONE), (MTP_OBJ_PROPERTYCODE_ASSOCIATIONTYPE, PTP_DATATYPE_UINT16, ENUM_FORM),
      (MTP_OBJ_PROPERTYCODE_OMADRMSTATUS, PTP_DATATYPE_UINT8, ENUM_FORM)]"

lemma table_typed:
  assumes "prop_build_supp_props_default conv junk = Some props"
  shows "list_all2 (\<lambda>(cd, t, ff) p. typed cd t ff p) table_types props"
proof -
  have p4: "typed MTP_OBJ_PROPERTYCODE_OBJECTSIZE PTP_DATATYPE_UINT64 FORM_NONE
      (p\<lparr>propinfo := fst (prop_add_supp_integer_val (propinfo p) 0)\<rparr>)"
    if "p = init_obj_prop_desc zero_desc MTP_OBJ_PROPERTYCODE_OBJECTSIZE PTP_DATATYPE_UINT64 PTP_PROPGETSET_GETONLY FORM_NONE GROUP_CODE_OFTEN_USED" for p
    using that by (simp add: typed_def init_obj_prop_desc_def prop_add_supp_integer_val_def)
  show ?thesis
    using assms unfolding prop_build_supp_props_default_def table_types_def
    by (auto simp: get_oma_drm_status_def Let_def dest!: int_prop_typed string_prop_typed filename_prop_typed intro: p4 split: bind_splits)
qed

lemma table_lookup:
  assumes "prop_build_supp_props_default (e_to16 e) (e_junk e) = Some props" "length (e_junk e) = 255" "ascii_conv (e_to16 e)"
    "(cd, t, ff) \<in> set table_types"
  shows "\<exists>p. prop_get_obj_prop_desc props (ucast cd) = Some p \<and> desc_ok p \<and> typed cd t ff p"
proof -
  note ty = table_typed[OF assms(1)]
  have ok: "list_all desc_ok props" using build_table_ok[OF assms(2,3)] assms(1) by auto
  have len: "length props = 13" using list_all2_lengthD[OF ty] by (simp add: table_types_def)
  obtain k where "k < length table_types" "table_types ! k = (cd, t, ff)" using assms(4) by (auto simp: in_set_conv_nth)
  with list_all2_nthD[OF ty, of k] list_all2_lengthD[OF ty] obtain p where p: "p \<in> set props" "typed cd t ff p"
    using that[of "props ! k"] by auto
  let ?P = "\<lambda>p. (ucast (prop_code (propinfo p)) :: u32) = ucast cd"
  obtain q where q: "find ?P props = Some q" using p by (cases "find ?P props") (auto simp: find_None_iff typed_def)
  then have q': "q \<in> set props" "prop_code (propinfo q) = cd" by (auto simp: find_Some_iff ucast_up_inject)
  moreover obtain i where "i < length props" "props ! i = q" using q'(1) by (auto simp: in_set_conv_nth)
  with list_all2_nthD2[OF ty, of i] list_all2_lengthD[OF ty] have "(\<lambda>(cd, t, ff). typed cd t ff q) (table_types ! i)" "i < length table_types"
    by (auto split: prod.splits)
  then obtain cd' t' ff' where "(cd', t', ff') \<in> set table_types" "typed cd' t' ff' q"
    by (cases "table_types ! i") (metis (no_types, lifting) case_prod_conv nth_mem)
  then have "\<exists>t' ff'. typed cd t' ff' q \<and> (cd, t', ff') \<in> set table_types" using q'(2) by (auto simp: typed_def)
  moreover have "t' = t \<and> ff' = ff" if "(cd, t', ff') \<in> set table_types" for t' ff'
    using that assms(4) by (auto simp: table_types_def)
  ultimately have "typed cd t ff q" by blast
  moreover have "prop_get_obj_prop_desc props (ucast cd) = Some q"
    using q len by (simp add: prop_get_obj_prop_desc_def get_oma_drm_status_def)
  ultimately show ?thesis using ok q'(1) by (auto simp: list_all_iff)
qed

section \<open>Values of the right type\<close>

definition well_typed :: "obj_prop_val \<Rightarrow> bool" where
  "well_typed pv \<longleftrightarrow> value_ok (data_type (propinfo (pv_prop pv))) (dts_size (propinfo (pv_prop pv))) (current_val pv)"

text \<open>A step that appends one value with the property R to the list of the object.\<close>

definition appends :: "obj_info \<Rightarrow> string \<Rightarrow> (mtp_obj \<Rightarrow> (mtp_obj \<times> bool) option) \<Rightarrow> (obj_prop_val \<Rightarrow> bool) \<Rightarrow> bool" where
  "appends info path f R \<longleftrightarrow> (\<forall>obj. obj_info obj = Some info \<and> file_path obj = Some path \<longrightarrow>
     (\<exists>pv. f obj = Some (obj\<lparr>propval_list := propval_list obj @ [pv]\<rparr>, True) \<and> R pv))"

lemma run_steps_appends:
  assumes "list_all2 (appends info path) fs Rs" "obj_info obj = Some info" "file_path obj = Some path"
  shows "\<exists>pvs. run_steps fs obj = Some (obj\<lparr>propval_list := propval_list obj @ pvs\<rparr>, True) \<and> list_all2 (\<lambda>R pv. R pv) Rs pvs"
  using assms
proof (induction arbitrary: obj rule: list_all2_induct)
  case (Cons f fs R Rs)
  then obtain pv where "f obj = Some (obj\<lparr>propval_list := propval_list obj @ [pv]\<rparr>, True)" "R pv" by (auto simp: appends_def)
  with Cons.IH[of "obj\<lparr>propval_list := propval_list obj @ [pv]\<rparr>"] Cons.prems show ?case by fastforce
qed simp

definition holds :: "u16 \<Rightarrow> (prop_value \<Rightarrow> bool) \<Rightarrow> obj_prop_val \<Rightarrow> bool" where
  "holds cd Q pv \<longleftrightarrow> prop_code (propinfo (pv_prop pv)) = cd \<and> well_typed pv \<and> Q (current_val pv)"

lemma alloc_int_value:
  assumes "desc_ok p" "typed cd t ff p" "is_value_type t" "\<not> is_array_type t" "t \<noteq> PTP_DATATYPE_STRING"
  shows "\<exists>d. prop_alloc_obj_propval junk p = Some \<lparr>pv_prop = p, current_val = PvInt (d @ replicate (16 - unat (type_size t)) 0)\<rparr>
     \<and> length d = unat (type_size t) \<and> unat (type_size t) \<le> 16"
proof -
  from assms obtain bs where "default_val (propinfo p) = PvInt bs" "length bs = 16" "unat (type_size t) \<le> 16"
    by (auto simp: desc_ok_def value_ok_def typed_def split: prop_value.splits)
  with assms show ?thesis
    by (intro exI[of _ "take (unat (type_size t)) bs"])
      (simp add: prop_alloc_obj_propval_def typed_def int_write_def over_write_def min_def)
qed

lemma create_integer_appends:
  assumes "prop_get_obj_prop_desc props (ucast cd) = Some p" "desc_ok p" "typed cd t ff p"
    "t \<in> {PTP_DATATYPE_UINT8, PTP_DATATYPE_UINT16, PTP_DATATYPE_UINT32, PTP_DATATYPE_UINT64}"
  shows "appends info path (create_prop_integer props junk cd v)
     (holds cd (\<lambda>x. ff = FORM_NONE \<longrightarrow> x = PvInt (le_bytes (unat (type_size t)) v @ replicate (16 - unat (type_size t)) 0)))"
proof -
  have t: "is_value_type t" "\<not> is_array_type t" "t \<noteq> PTP_DATATYPE_STRING" "unat (type_size t) \<le> 8" using assms(4) by (auto simp: type_size_def)
  obtain d where d: "prop_alloc_obj_propval junk p = Some \<lparr>pv_prop = p, current_val = PvInt (d @ replicate (16 - unat (type_size t)) 0)\<rparr>"
    "length d = unat (type_size t)" "unat (type_size t) \<le> 16"
    using alloc_int_value[OF assms(2,3) t(1-3)] by blast
  let ?pv = "\<lparr>pv_prop = p, current_val = PvInt (d @ replicate (16 - unat (type_size t)) 0)\<rparr>"
  have "unat (dts_size (propinfo (pv_prop ?pv))) \<le> 8" using assms(3) t(4) by (simp add: typed_def)
  then have "prop_set_current_integer_val ?pv v =
      (if prop_is_valid_integer (propinfo p) v then Some (?pv\<lparr>current_val := PvInt (le_bytes (unat (type_size t)) v @ replicate (16 - unat (type_size t)) 0)\<rparr>, True)
       else Some (?pv, False))"
    using set_current_integer_val_spec[of ?pv "d @ replicate (16 - unat (type_size t)) 0" v] d(2,3) assms(3) by (simp add: typed_def)
  moreover have "ff = FORM_NONE \<longrightarrow> prop_is_valid_integer (propinfo p) v" using assms(3) t(1) by (auto simp: prop_is_valid_integer_def typed_def)
  ultimately show ?thesis
    using assms(1,3) d t unfolding appends_def
    by (auto simp: create_prop_integer_def create_prop_def holds_def well_typed_def value_ok_def typed_def)
qed

lemma copy_ptpstring_short:
  assumes "unat (num_chars s) \<le> length (str s)" "unat (num_chars s) \<le> 255" "num_chars s = 0 \<or> str s ! (unat (num_chars s) - 1) = 0" "length junk = 255"
  shows "\<exists>s'. prop_copy_ptpstring (alloc_ptpstring junk) s = Some s' \<and> ptpstring_inv s' \<and> ptpstring_units s' = ptpstring_units s"
proof -
  let ?n = "unat (num_chars s)"
  have "prop_copy_ptpstring (alloc_ptpstring junk) s = Some \<lparr>num_chars = num_chars s, str = take ?n (str s) @ drop ?n junk\<rparr>"
    using assms by (simp add: prop_copy_ptpstring_def alloc_ptpstring_def over_write_def Let_def min.absorb2)
  moreover have "num_chars s \<noteq> 0 \<longrightarrow> 0 < ?n" by (simp add: unat_gt_0)
  then have "ptpstring_inv \<lparr>num_chars = num_chars s, str = take ?n (str s) @ drop ?n junk\<rparr>"
    using assms by (auto simp: ptpstring_inv_def nth_append)
  ultimately show ?thesis using assms by (auto simp: ptpstring_units_def min_def)
qed

lemma copy_ptpstring_inv:
  "ptpstring_inv s \<Longrightarrow> length junk = 255 \<Longrightarrow>
     \<exists>s'. prop_copy_ptpstring (alloc_ptpstring junk) s = Some s' \<and> ptpstring_inv s' \<and> ptpstring_units s' = ptpstring_units s"
  using unat_u8_less[of "num_chars s"] by (intro copy_ptpstring_short) (auto simp: ptpstring_inv_def)

lemma alloc_string_value:
  assumes "desc_ok p" "typed cd PTP_DATATYPE_STRING ff p" "length junk = 255"
  shows "\<exists>s. prop_alloc_obj_propval junk p = Some \<lparr>pv_prop = p, current_val = PvStr (Some s)\<rparr> \<and> ptpstring_inv s"
proof -
  from assms obtain s where s: "default_val (propinfo p) = PvStr (Some s)" "ptpstring_inv s"
    by (auto simp: desc_ok_def value_ok_def typed_def split: prop_value.splits option.splits)
  from copy_ptpstring_inv[OF s(2) assms(3)] s(1) assms(2) show ?thesis by (auto simp: prop_alloc_obj_propval_def typed_def)
qed

lemma set_string_typed:
  assumes "typed cd PTP_DATATYPE_STRING ff p" "length junk = 255" "ptpstring_inv old"
    "unat (num_chars s) \<le> length (str s)" "unat (num_chars s) \<le> 255" "num_chars s = 0 \<or> str s ! (unat (num_chars s) - 1) = 0"
  shows "\<exists>pv ok. prop_set_current_string_val junk \<lparr>pv_prop = p, current_val = PvStr (Some old)\<rparr> s = Some (pv, ok) \<and> pv_prop pv = p
     \<and> holds cd (\<lambda>x. ff \<notin> {ENUM_FORM, DATE_TIME_FORM} \<longrightarrow> (\<exists>s'. x = PvStr (Some s') \<and> ptpstring_units s' = ptpstring_units s)) pv"
proof -
  obtain s' where "prop_copy_ptpstring (alloc_ptpstring junk) s = Some s'" "ptpstring_inv s'" "ptpstring_units s' = ptpstring_units s"
    using copy_ptpstring_short[OF assms(4-6,2)] by blast
  with assms(1,3) show ?thesis
    by (auto simp: prop_set_current_string_val_def holds_def well_typed_def value_ok_def typed_def prop_is_valid_string_def)
qed

lemma create_name_appends:
  assumes "prop_get_obj_prop_desc props (ucast cd) = Some p" "desc_ok p" "typed cd PTP_DATATYPE_STRING ff p"
    "length (e_junk e) = 255" "utf16_conv (e_to16 e)" "length name \<le> max_size" "length name < wide" "ff \<notin> {ENUM_FORM, DATE_TIME_FORM}"
  shows "appends info path (create_prop_name e props cd max_size wide name) (holds cd (\<lambda>_. True))"
proof -
  obtain ws r k where w: "util_utf8_to_utf16 (e_to16 e) True (replicate wide 0) wide name = Some (ws @ 0 # r, k)" "0 \<notin> set ws"
    using to16_terminated[OF assms(5,7)] by blast
  obtain s where s: "prop_copy_wchar_to_ptpstring \<lparr>num_chars = 0, str = replicate 255 0\<rparr> (Some (ws @ 0 # r)) = Some s" "ptpstring_inv s"
    using copy_wchar_total[of "\<lparr>num_chars = 0, str = replicate 255 0\<rparr>" ws r] w(2) by auto
  obtain old where old: "prop_alloc_obj_propval (e_junk e) p = Some \<lparr>pv_prop = p, current_val = PvStr (Some old)\<rparr>" "ptpstring_inv old"
    using alloc_string_value[OF assms(2,3,4)] by blast
  have "unat (num_chars s) \<le> 255" using unat_u8_less[of "num_chars s"] by simp
  with set_string_typed[OF assms(3,4) old(2), of s] s(2) obtain pv ok where
    "prop_set_current_string_val (e_junk e) \<lparr>pv_prop = p, current_val = PvStr (Some old)\<rparr> s = Some (pv, ok)" "holds cd (\<lambda>_. True) pv"
    by (auto simp: ptpstring_inv_def holds_def)
  with w(1) s(1) old(1) assms(1,6) show ?thesis
    by (auto simp: appends_def create_prop_name_def create_prop_string_def create_prop_def)
qed

lemma create_guid_appends:
  assumes "prop_get_obj_prop_desc props (ucast MTP_OBJ_PROPERTYCODE_PERSISTENTGUID) = Some p" "desc_ok p"
    "typed MTP_OBJ_PROPERTYCODE_PERSISTENTGUID PTP_DATATYPE_UINT128 FORM_NONE p" "utf16_conv (e_to16 e)" "length name < 2091"
  shows "appends info path (create_prop_guid e props name) (holds MTP_OBJ_PROPERTYCODE_PERSISTENTGUID (\<lambda>_. True))"
proof -
  obtain ws r k where w: "util_utf8_to_utf16 (e_to16 e) True (replicate 2091 0) 2091 name = Some (ws @ 0 # r, k)" "0 \<notin> set ws"
    using to16_terminated[OF assms(4,5)] by blast
  obtain lo hi where g: "util_conv_wstr_to_guid (ws @ 0 # r) = Some (lo, hi)"
    using wchar_len_spec[OF w(2)] by (cases "guid_loop ws (0, 0)") (simp add: util_conv_wstr_to_guid_def)
  obtain d where d: "prop_alloc_obj_propval (e_junk e) p = Some \<lparr>pv_prop = p, current_val = PvInt (d @ replicate (16 - unat (type_size PTP_DATATYPE_UINT128)) 0)\<rparr>"
    "length d = unat (type_size PTP_DATATYPE_UINT128)"
    using alloc_int_value[OF assms(2,3)] by auto
  have t: "type_size PTP_DATATYPE_UINT128 = 16" by (simp add: type_size_def)
  have "prop_set_current_array_val (e_junk e) \<lparr>pv_prop = p, current_val = PvInt d\<rparr> (le_bytes 8 lo @ le_bytes 8 hi) 16 =
      Some (\<lparr>pv_prop = p, current_val = PvInt (le_bytes 8 lo @ le_bytes 8 hi)\<rparr>, True)"
    using assms(3) d(2) by (simp add: prop_set_current_array_val_def typed_def t int_write_def over_write_def Let_def)
  with w(1) g d assms(1,3) show ?thesis
    by (auto simp: appends_def create_prop_guid_def create_prop_array_def create_prop_def t holds_def well_typed_def value_ok_def typed_def)
qed

lemma copy_time_terminated:
  assumes "utf16_conv conv" "prop_copy_time_to_ptptimestring conv True zero_time_str (Some tm) = Some s"
  shows "num_chars s = 17 \<and> length (str s) = 20 \<and> str s ! 16 = 0"
proof -
  let ?t = "take 16 (format_time tm)"
  have "length ?t < 20" by (simp add: min_less_iff_disj)
  from to16_terminated[OF assms(1) this] obtain ws r k where
    w: "util_utf8_to_utf16 conv True (replicate 20 0) 20 ?t = Some (ws @ 0 # r, k)" "0 \<notin> set ws" by blast
  have d: "str s = (ws @ 0 # r)[17 := 0] \<and> num_chars s = 17 \<and> 17 < length (ws @ 0 # r)"
    using assms(2) w(1) by (auto simp: prop_copy_time_to_ptptimestring_def zero_time_str_def split: if_splits)
  show ?thesis
  proof (cases "conv ?t")
    case None
    with w(1) have "ws @ 0 # r = 0 # replicate 19 0" by (simp add: util_utf8_to_utf16_def numeral_eq_Suc)
    then have "str s = replicate 20 0" using d by (simp add: numeral_eq_Suc)
    moreover have "num_chars s = 17" using d by blast
    ultimately show ?thesis by simp
  next
    case (Some us)
    with assms(1) have u: "length us \<le> 16" "0 \<notin> set us" by (force simp: utf16_conv_def)+
    with utf8_to_utf16_fits[of conv ?t us 20 "replicate 20 0"] Some w(1) have "ws @ 0 # r = us @ replicate (20 - length us) 0" by simp
    with d have "str s = (us @ replicate (20 - length us) 0)[17 := 0]" by simp
    moreover have "num_chars s = 17" using d by blast
    ultimately show ?thesis using u(1) by (simp add: nth_append)
  qed
qed

lemma file_times_terminated:
  assumes "utf16_conv (e_to16 e)" "entity_get_file_times e fs obj zero_time_str zero_time_str = Some (Some tms)" "pick = fst \<or> pick = snd"
  shows "num_chars (pick tms) = 17 \<and> length (str (pick tms)) = 20 \<and> str (pick tms) ! 16 = 0"
  using assms copy_time_terminated[OF assms(1)]
  by (auto simp: entity_get_file_times_def split: option.splits bind_splits)

lemma file_times_path:
  "file_path obj = file_path obj' \<Longrightarrow> entity_get_file_times e fs obj ct mt = entity_get_file_times e fs obj' ct mt"
  by (simp add: entity_get_file_times_def)

lemma create_time_appends:
  assumes "prop_get_obj_prop_desc props (ucast cd) = Some p" "desc_ok p" "typed cd PTP_DATATYPE_STRING ff p"
    "length (e_junk e) = 255" "utf16_conv (e_to16 e)" "file_path obj0 = Some path"
    "entity_get_file_times e fs obj0 zero_time_str zero_time_str = Some (Some tms)" "pick = fst \<or> pick = snd"
  shows "appends info path (\<lambda>obj. do {
       r \<leftarrow> entity_get_file_times e fs obj zero_time_str zero_time_str;
       tms \<leftarrow> r;
       create_prop_timestring props (e_junk e) cd (pick tms) obj }) (holds cd (\<lambda>_. True))"
proof -
  obtain old where old: "prop_alloc_obj_propval (e_junk e) p = Some \<lparr>pv_prop = p, current_val = PvStr (Some old)\<rparr>" "ptpstring_inv old"
    using alloc_string_value[OF assms(2,3,4)] by blast
  have "entity_get_file_times e fs obj zero_time_str zero_time_str = Some (Some tms)" if "file_path obj = Some path" for obj
    using file_times_path[of obj obj0 e fs zero_time_str zero_time_str] that assms(6,7) by simp
  moreover obtain pv ok where
    "prop_set_current_string_val (e_junk e) \<lparr>pv_prop = p, current_val = PvStr (Some old)\<rparr> (pick tms) = Some (pv, ok)" "holds cd (\<lambda>_. True) pv"
    using set_string_typed[OF assms(3,4) old(2), of "pick tms"] file_times_terminated[OF assms(5,7,8)] by (auto simp: holds_def)
  ultimately show ?thesis
    using old(1) assms(1) by (auto simp: appends_def create_prop_timestring_def create_prop_def)
qed

text \<open>What the integers of the list say about the object: code, width and value.\<close>

definition info_fields :: "obj_info \<Rightarrow> (u16 \<times> nat \<times> u64) list" where
  "info_fields info = [(MTP_OBJ_PROPERTYCODE_STORAGEID, 4, ucast (store_id info)), (MTP_OBJ_PROPERTYCODE_OBJECTFORMAT, 2, ucast (obj_fmt info)),
     (MTP_OBJ_PROPERTYCODE_OBJECTSIZE, 8, file_size info), (MTP_OBJ_PROPERTYCODE_PARENT, 4, ucast (h_parent info))]"

definition int_is :: "nat \<Rightarrow> u64 \<Rightarrow> prop_value \<Rightarrow> bool" where
  "int_is n v x \<longleftrightarrow> x = PvInt (le_bytes n v @ replicate (16 - n) 0)"

definition field_tests :: "obj_info \<Rightarrow> (u16 \<times> (prop_value \<Rightarrow> bool)) list" where
  "field_tests info =
     [(MTP_OBJ_PROPERTYCODE_STORAGEID, int_is 4 (ucast (store_id info))), (MTP_OBJ_PROPERTYCODE_OBJECTFORMAT, int_is 2 (ucast (obj_fmt info))),
      (MTP_OBJ_PROPERTYCODE_PROTECTIONSTATUS, \<lambda>_. True), (MTP_OBJ_PROPERTYCODE_OBJECTSIZE, int_is 8 (file_size info)),
      (MTP_OBJ_PROPERTYCODE_OBJECTFILENAME, \<lambda>_. True), (MTP_OBJ_PROPERTYCODE_PARENT, int_is 4 (ucast (h_parent info))),
      (MTP_OBJ_PROPERTYCODE_PERSISTENTGUID, \<lambda>_. True), (MTP_OBJ_PROPERTYCODE_NONCONSUMABLE, \<lambda>_. True), (MTP_OBJ_PROPERTYCODE_DATEMODIFIED, \<lambda>_. True),
      (MTP_OBJ_PROPERTYCODE_DATECREATED, \<lambda>_. True), (MTP_OBJ_PROPERTYCODE_NAME, \<lambda>_. True), (MTP_OBJ_PROPERTYCODE_ASSOCIATIONTYPE, \<lambda>_. True),
      (MTP_OBJ_PROPERTYCODE_OMADRMSTATUS, \<lambda>_. True)]"

lemma appends_mono: "appends info path f R \<Longrightarrow> (\<And>pv. R pv \<Longrightarrow> R' pv) \<Longrightarrow> appends info path f R'"
  by (fastforce simp: appends_def)

lemma value_steps_append:
  assumes tab: "prop_build_supp_props_default (e_to16 e) (e_junk e) = Some props" "length (e_junk e) = 255" "ascii_conv (e_to16 e)"
    and conv: "utf16_conv (e_to16 e)" and path: "length path \<le> MTP_MAX_PATHNAME_SIZE" "length (util_get_file_name path) \<le> MTP_MAX_FILENAME_SIZE"
      "length (case util_get_file_name_wo_extn path of None \<Rightarrow> [] | Some n \<Rightarrow> n) \<le> MTP_MAX_PATHNAME_SIZE"
    and tms: "file_path obj0 = Some path" "entity_get_file_times e fs obj0 zero_time_str zero_time_str = Some (Some tms)"
  shows "list_all2 (appends info path) (value_steps e fs props info path) (map (\<lambda>(cd, Q). holds cd Q) (field_tests info))"
proof -
  have int: "appends info path (create_prop_integer props (e_junk e) cd v)
      (holds cd (\<lambda>x. ff = FORM_NONE \<longrightarrow> x = PvInt (le_bytes (unat (type_size t)) v @ replicate (16 - unat (type_size t)) 0)))"
    if "(cd, t, ff) \<in> set table_types" "t \<in> {PTP_DATATYPE_UINT8, PTP_DATATYPE_UINT16, PTP_DATATYPE_UINT32, PTP_DATATYPE_UINT64}" for cd t ff v
    using table_lookup[OF tab that(1)] create_integer_appends that(2) by blast
  have exact: "appends info path (create_prop_integer props (e_junk e) cd v) (holds cd (int_is (unat (type_size t)) v))"
    if "(cd, t, FORM_NONE) \<in> set table_types" "t \<in> {PTP_DATATYPE_UINT8, PTP_DATATYPE_UINT16, PTP_DATATYPE_UINT32, PTP_DATATYPE_UINT64}" for cd t v
    using int[OF that] by (rule appends_mono) (simp add: holds_def int_is_def)
  have some: "appends info path (create_prop_integer props (e_junk e) cd v) (holds cd (\<lambda>_. True))"
    if "(cd, t, ff) \<in> set table_types" "t \<in> {PTP_DATATYPE_UINT8, PTP_DATATYPE_UINT16, PTP_DATATYPE_UINT32, PTP_DATATYPE_UINT64}" for cd t ff v
    using int[OF that] by (rule appends_mono) (simp add: holds_def)
  have name: "appends info path (create_prop_name e props cd n (Suc n) nm) (holds cd (\<lambda>_. True))"
    if "(cd, PTP_DATATYPE_STRING, ff) \<in> set table_types" "ff \<notin> {ENUM_FORM, DATE_TIME_FORM}" "length nm \<le> n" for cd ff n nm
    using table_lookup[OF tab that(1)] create_name_appends[OF _ _ _ tab(2) conv that(3) _ that(2)] that(3) by (metis le_imp_less_Suc)
  have guid: "appends info path (create_prop_guid e props path) (holds MTP_OBJ_PROPERTYCODE_PERSISTENTGUID (\<lambda>_. True))"
    using table_lookup[OF tab, of MTP_OBJ_PROPERTYCODE_PERSISTENTGUID PTP_DATATYPE_UINT128 FORM_NONE] create_guid_appends[OF _ _ _ conv] path(1)
    by (auto simp: table_types_def)
  have time: "appends info path (\<lambda>obj. do { r \<leftarrow> entity_get_file_times e fs obj zero_time_str zero_time_str; tms \<leftarrow> r;
       create_prop_timestring props (e_junk e) cd (pick tms) obj }) (holds cd (\<lambda>_. True))"
    if "(cd, PTP_DATATYPE_STRING, ff) \<in> set table_types" "pick = fst \<or> pick = snd" for cd ff pick
    using table_lookup[OF tab that(1)] create_time_appends[OF _ _ _ tab(2) conv tms that(2)] by blast
  show ?thesis
    unfolding value_steps_def Let_def field_tests_def get_oma_drm_status_def if_True append_Cons append_Nil list.map prod.case list_all2_Cons
    using path exact[of MTP_OBJ_PROPERTYCODE_STORAGEID PTP_DATATYPE_UINT32] exact[of MTP_OBJ_PROPERTYCODE_OBJECTFORMAT PTP_DATATYPE_UINT16]
      exact[of MTP_OBJ_PROPERTYCODE_OBJECTSIZE PTP_DATATYPE_UINT64] exact[of MTP_OBJ_PROPERTYCODE_PARENT PTP_DATATYPE_UINT32]
      some[of MTP_OBJ_PROPERTYCODE_PROTECTIONSTATUS PTP_DATATYPE_UINT16 ENUM_FORM] some[of MTP_OBJ_PROPERTYCODE_NONCONSUMABLE PTP_DATATYPE_UINT8 ENUM_FORM]
      some[of MTP_OBJ_PROPERTYCODE_ASSOCIATIONTYPE PTP_DATATYPE_UINT16 ENUM_FORM] some[of MTP_OBJ_PROPERTYCODE_OMADRMSTATUS PTP_DATATYPE_UINT8 ENUM_FORM]
      name[of MTP_OBJ_PROPERTYCODE_OBJECTFILENAME REGULAR_EXPRESSION_FORM _ 1024] name[of MTP_OBJ_PROPERTYCODE_NAME FORM_NONE _ 1045] guid
      time[of MTP_OBJ_PROPERTYCODE_DATEMODIFIED DATE_TIME_FORM snd] time[of MTP_OBJ_PROPERTYCODE_DATECREATED DATE_TIME_FORM fst]
    by (simp add: table_types_def type_size_def)
qed

lemma listed_codes: "map fst (field_tests info) = supported_prop_codes"
  by (simp add: field_tests_def supported_prop_codes_def)

lemma find_listed:
  assumes "list_all2 (\<lambda>(cd, Q) pv. holds cd Q pv) ts pvs" "(cd, Q) \<in> set ts" "distinct (map fst ts)"
  shows "\<exists>pv. find (\<lambda>pv. ucast (prop_code (propinfo (pv_prop pv))) = (ucast cd :: u32)) pvs = Some pv \<and> Q (current_val pv)"
  using assms
proof (induction rule: list_all2_induct)
  case (Cons x ts pv pvs)
  obtain cd' Q' where x: "x = (cd', Q')" by (cases x)
  show ?case
  proof (cases "cd' = cd")
    case True
    with Cons x have "Q' = Q" by (auto simp: rev_image_eqI)
    with Cons.hyps x True show ?thesis by (simp add: holds_def)
  next
    case False
    with Cons.hyps x have "(ucast (prop_code (propinfo (pv_prop pv))) :: u32) \<noteq> ucast cd" by (simp add: holds_def ucast_up_inject)
    with Cons x False show ?thesis by auto
  qed
qed simp

lemma file_name_wo_extn_length: "length (case util_get_file_name_wo_extn path of None \<Rightarrow> [] | Some n \<Rightarrow> n) \<le> length path"
  by (auto simp: util_get_file_name_wo_extn_def g_strlcpy_def Let_def min_def split: option.split)


section \<open>References\<close>

lemma grow_fresh:
  assumes "unat n < 2 ^ 16"
  shows "handle_array_inv (fst (prop_grow_ptparray (prop_init_ptparray a UINT32_TYPE) n)) \<and>
     handle_list (fst (prop_grow_ptparray (prop_init_ptparray a UINT32_TYPE) n)) = []"
proof -
  have b: "unat (4 * n) = 4 * unat n" using assms by (subst unat_mult_lem[THEN iffD1]) simp_all
  then show ?thesis
    by (auto simp: handle_array_inv_def handle_list_def ptparray_inv_def ptparray_elems_def prop_grow_ptparray_def prop_init_ptparray_def Let_def
        g_realloc_block_def word_less_nat_alt word_le_nat_alt)
qed

lemma drop_dangling:
  assumes "handle_array_inv (child_array obj)" "handle_list (child_array obj) = filter P done @ rest" "PTP_OBJECTHANDLE_ALL \<notin> set rest"
    "\<forall>r\<in>set rest. \<not> P r \<longrightarrow> r \<notin> set (filter P done)"
  shows "\<exists>a. foldM (\<lambda>r ob. if \<not> P r then map_option fst (entity_remove_reference_child_array ob r) else Some ob) rest obj = Some (obj\<lparr>child_array := a\<rparr>)
     \<and> handle_array_inv a \<and> handle_list a = filter P done @ filter P rest"
  using assms
proof (induction rest arbitrary: obj "done")
  case Nil
  then show ?case by (intro exI[of _ "child_array obj"]) simp
next
  case (Cons r rest)
  show ?case
  proof (cases "P r")
    case True
    with Cons.IH[of obj "done @ [r]"] Cons.prems show ?thesis by auto
  next
    case False
    from handles.rem_law[OF Cons.prems(1), of r] obtain a where a: "prop_rem_elem_ptparray (child_array obj) r = Some (a, r \<in> set (handle_list (child_array obj)))"
      "handle_array_inv a" "handle_list a = remove1 r (handle_list (child_array obj))" by blast
    have "remove1 r (handle_list (child_array obj)) = filter P done @ rest" using Cons.prems(2) False by (simp add: remove1_append)
    with Cons.IH[of "obj\<lparr>child_array := a\<rparr>" "done"] Cons.prems a False show ?thesis
      by (auto simp: entity_remove_reference_child_array_def)
  qed
qed

text \<open>C33: Asking for the references of an object drops exactly those to objects that are gone and returns the others in their order,
  with their number; the object keeps them.\<close>

theorem references_pruned:
  assumes "device_get_object_with_handle (g_dev s) h = Some obj" "obj_info obj \<noteq> None" "handle_array_inv (child_array obj)"
    "0 < unat (num_ele (child_array obj))" "unat (num_ele (child_array obj)) < 2 ^ 16" "PTP_OBJECTHANDLE_ALL \<notin> set (handle_list (child_array obj))"
    and "live = filter (\<lambda>r. device_get_object_with_handle (g_dev s) r \<noteq> None) (handle_list (child_array obj))"
    and "update_object h obj s \<noteq> None"
  shows "\<exists>s' n out a. hutil_get_object_references h (Some pa) s = Some (s', MTP_ERROR_NONE, n, out) \<and> unat n = length live
     \<and> (live \<noteq> [] \<longrightarrow> (\<exists>b. out = Some b \<and> handle_array_inv b \<and> handle_list b = live))
     \<and> update_object h (obj\<lparr>child_array := a\<rparr>) s = Some s' \<and> handle_list a = live"
proof -
  let ?arr = "child_array obj" and ?P = "\<lambda>r. device_get_object_with_handle (g_dev s) r \<noteq> None"
  have t: "pa_type ?arr = UINT32_TYPE" "ptparray_inv ?arr" using assms(3) by (simp_all add: handle_array_inv_def)
  note e = handle_array_elems[OF assms(3)]
  have fresh: "ptparray_inv (prop_alloc_ptparray UINT32_TYPE)" "ptparray_elems (prop_alloc_ptparray UINT32_TYPE) = Some []"
    "pa_type (prop_alloc_ptparray UINT32_TYPE) = UINT32_TYPE"
    by (simp_all add: prop_alloc_ptparray_def init_ptparray_inv) (simp add: prop_init_ptparray_def)
  from copy_ptparray_spec[OF fresh(1,2) _ t(2) e(1)] fresh(3) t(1) e(2) assms(5) obtain refs where
    refs: "prop_copy_ptparray (prop_alloc_ptparray UINT32_TYPE) ?arr = Some (refs, True)" "ptparray_elems refs = Some (handle_list ?arr)" by auto
  from drop_dangling[OF assms(3), of ?P "[]" "handle_list ?arr"] assms(6) obtain a where
    a: "foldM (\<lambda>r ob. if device_get_object_with_handle (g_dev s) r = None then map_option fst (entity_remove_reference_child_array ob r) else Some ob)
      (handle_list ?arr) obj = Some (obj\<lparr>child_array := a\<rparr>)" "handle_array_inv a" "handle_list a = live"
    using assms(7) by auto
  note ea = handle_array_elems[OF a(2)]
  have n: "unat (num_ele a) = length live" using ea(2) a(3) by simp
  also have "length live \<le> unat (num_ele ?arr)" using assms(7) e(2) length_filter_le[of ?P "handle_list ?arr"] by simp
  finally have small: "unat (num_ele a) < 2 ^ 16" using assms(5) by simp
  have ta: "pa_type a = UINT32_TYPE" "ptparray_inv a" using a(2) by (simp_all add: handle_array_inv_def)
  let ?g = "fst (prop_grow_ptparray (prop_init_ptparray pa UINT32_TYPE) (num_ele a))"
  note g = grow_fresh[OF small, of pa]
  have "\<exists>b. prop_copy_ptparray ?g a = Some (b, True) \<and> ptparray_inv b \<and> ptparray_elems b = Some ([] @ live) \<and> pa_type b = pa_type a"
    using g handle_array_elems(1)[of ?g] ta a(3) ea n small by (intro copy_ptparray_spec) (auto simp: handle_array_inv_def)
  then obtain b where b: "prop_copy_ptparray ?g a = Some (b, True)" "ptparray_inv b" "ptparray_elems b = Some live" "pa_type b = UINT32_TYPE" using ta by auto
  have "unat (num_ele b) = length live" using ptparray_elems_length[OF b(3)] by simp
  then have hb: "handle_array_inv b" "handle_list b = live" using b n small by (simp_all add: handle_array_inv_def handle_list_def)
  obtain s' where s': "update_object h (obj\<lparr>child_array := a\<rparr>) s = Some s'"
    using assms(8) by (auto simp: update_object_def Let_def split: bind_splits)
  have nz: "num_ele ?arr \<noteq> 0" "\<not> 2 ^ 16 \<le> unat (num_ele ?arr)" using assms(4,5) by auto
  show ?thesis
  proof (cases "num_ele a = 0")
    case True
    then have "live = []" using n by simp
    with True assms(1,2) nz t(1) refs a s' show ?thesis
      by (intro exI[of _ s'] exI[of _ 0] exI[of _ "Some pa"] exI[of _ a]) (simp add: hutil_get_object_references_def)
  next
    case False
    with assms(1,2) nz t(1) ta(1) refs a s' b(1) hb n show ?thesis
      by (intro exI[of _ s'] exI[of _ "num_ele a"] exI[of _ "Some b"] exI[of _ a]) (simp add: hutil_get_object_references_def Let_def)
  qed
qed

section \<open>Witness\<close>

text \<open>The sample object with a file whose times can be read.\<close>

lemma demo_obj_times: "\<exists>tms. entity_get_file_times dir_env () demo_obj zero_time_str zero_time_str = Some (Some tms)"
proof -
  have "\<exists>s. prop_copy_time_to_ptptimestring ascii_to16 True zero_time_str (Some t) = Some s" for t
    using copy_time_total[of zero_time_str ascii_to16 t] by (auto simp: zero_time_str_def)
  then obtain f where "\<And>t. prop_copy_time_to_ptptimestring ascii_to16 True zero_time_str (Some t) = Some (f t)" by metis
  then show ?thesis
    by (simp add: entity_get_file_times_def demo_obj_def dir_env_def demo_env_def dir_os_def demo_os_def util_get_file_attrs_def)
qed


text \<open>An object with a reference to itself and one to an object that is gone.\<close>

definition two_refs :: ptp_array where
  "two_refs = \<lparr>pa_type = UINT32_TYPE, arr_size = 2, num_ele = 2, array_entry = Some (map Some [9, 0, 0, 0, 77, 0, 0, 0])\<rparr>"

definition referring_sys :: "ram sys" where
  "referring_sys = ready_sys\<lparr>g_dev := mounted_device\<lparr>store_list := [card_store\<lparr>obj_list := [file_obj\<lparr>child_array := two_refs\<rparr>]\<rparr>]\<rparr>\<rparr>"

lemma two_refs_elems: "ptparray_elems two_refs = Some [9, 77]"
  by code_simp

lemma two_refs_inv: "handle_array_inv two_refs" "handle_list two_refs = [9, 77]"
  by (simp_all add: handle_array_inv_def ptparray_inv_def handle_list_def two_refs_elems) (simp_all add: two_refs_def)

lemma referring_lookup:
  "device_get_object_with_handle (g_dev referring_sys) h = (if h = 9 then Some (file_obj\<lparr>child_array := two_refs\<rparr>) else None)"
  by (simp add: device_get_object_with_handle_def referring_sys_def mounted_device_def entity_get_object_from_store_def file_obj_def demo_obj_def)

theorem references_pruned_witness:
  "\<exists>s' b. hutil_get_object_references 9 (Some zero_child_array) referring_sys = Some (s', MTP_ERROR_NONE, 1, Some b) \<and> handle_list b = [9]"
proof -
  have "update_object 9 (file_obj\<lparr>child_array := two_refs\<rparr>) referring_sys \<noteq> None"
    by (simp add: update_object_def device_get_store_containing_obj_def referring_sys_def mounted_device_def entity_get_object_from_store_def file_obj_def demo_obj_def)
  moreover have "[9] = filter (\<lambda>r. device_get_object_with_handle (g_dev referring_sys) r \<noteq> None) [9, 77]" by (simp add: referring_lookup)
  moreover have "obj_info (file_obj\<lparr>child_array := two_refs\<rparr>) \<noteq> None" "unat (num_ele two_refs) = 2" by (simp_all add: file_obj_def two_refs_def)
  ultimately have "\<exists>s' n out a. hutil_get_object_references 9 (Some zero_child_array) referring_sys = Some (s', MTP_ERROR_NONE, n, out) \<and> unat n = length [9 :: u32]
     \<and> ([9 :: u32] \<noteq> [] \<longrightarrow> (\<exists>b. out = Some b \<and> handle_array_inv b \<and> handle_list b = [9]))
     \<and> update_object 9 (file_obj\<lparr>child_array := two_refs\<rparr>\<lparr>child_array := a\<rparr>) referring_sys = Some s' \<and> handle_list a = [9]"
    by (intro references_pruned) (simp_all add: referring_lookup two_refs_inv)
  moreover have "n = 1" if "unat n = 1" for n :: u32 using that by (metis of_nat_1 of_nat_unat_word)
  ultimately show ?thesis by auto
qed

end
