(* ===== verification/Prop_List.thy ===== *)
theory Prop_List
  imports Prop_Values
begin

text \<open>
  An object announced by a list of properties:
  _hutil_construct_object_entry_prop_list of src/mtp_cmd_handler_util.c, and
  the current value of a device property of src/entity/mtp_property.c.
\<close>

section \<open>Reading the list\<close>

definition MTP_UNKNOWN_METADATA :: string where
  "MTP_UNKNOWN_METADATA = ''Unknown''"

text \<open>What a property of the list changes: the name, the protection or the association type; the others are read over.\<close>

definition take_property :: "'fs conf \<Rightarrow> u16 \<Rightarrow> obj_prop_val \<Rightarrow> obj_info \<times> string \<Rightarrow> (obj_info \<times> string) option" where
  "take_property c cd pv acc =
     (case acc of (info, file_name) \<Rightarrow>
        if cd = MTP_OBJ_PROPERTYCODE_OBJECTFILENAME then
          (case current_val pv of
             PvStr (Some nm) \<Rightarrow>
               if num_chars nm = 0 then Some (info, g_strlcpy MTP_UNKNOWN_METADATA (MTP_MAX_FILENAME_SIZE + 1))
               else do {
                 ws \<leftarrow> scan_wstr MAX_PTP_STRING_CHARS (str nm);
                 Some (info, fst (util_utf16_to_utf8 (e_to8 (c_env c)) (MTP_MAX_FILENAME_SIZE + 1) ws)) }
           | _ \<Rightarrow> None)
        else if cd = MTP_OBJ_PROPERTYCODE_PROTECTIONSTATUS
        then Some (info\<lparr>protcn_status := PTP_PROTECTIONSTATUS_NOPROTECTION\<rparr>, file_name)
        else if cd = MTP_OBJ_PROPERTYCODE_ASSOCIATIONTYPE then
          (case current_val pv of
             PvInt bs \<Rightarrow> if length bs < 2 then None else Some (info\<lparr>association_type := le_word (take 2 bs)\<rparr>, file_name)
           | _ \<Rightarrow> None)
        else Some (info, file_name))"

text \<open>
  One quadruple after the other: handle, property, type and value.  left is
  bytes_left, which is signed and falls below zero when the last value is
  longer than what was received.  An error is the value Inl; a read behind the
  received bytes is None.
\<close>

fun prop_list_loop ::
    "'fs conf \<Rightarrow> obj_prop_desc list \<Rightarrow> nat \<Rightarrow> nat \<Rightarrow> u8 list \<Rightarrow> u32 \<Rightarrow> obj_info \<times> string \<Rightarrow> (mtp_err + obj_info \<times> string) option" where
  "prop_list_loop c props clk 0 temp left acc = Some (Inr acc)"
| "prop_list_loop c props clk (Suc n) temp left acc =
     (if c_stop c clk then Some (Inl MTP_ERROR_GENERAL)
      else if sint left < 9 then Some (Inl MTP_ERROR_INVALID_DATASET)
      else if length temp < 8 then None
      else if le_word (take 4 temp) \<noteq> (0 :: u32) then Some (Inl MTP_ERROR_INVALID_OBJECTHANDLE)
      else (let cd = le_word (take 2 (drop 4 temp)) :: u16
            in case prop_get_obj_prop_desc props (ucast cd) of
                 None \<Rightarrow> Some (Inl MTP_ERROR_INVALID_OBJ_PROP_CODE)
               | Some p \<Rightarrow>
                   if cd \<in> {MTP_OBJ_PROPERTYCODE_STORAGEID, MTP_OBJ_PROPERTYCODE_PARENT, MTP_OBJ_PROPERTYCODE_OBJECTFORMAT,
                            MTP_OBJ_PROPERTYCODE_OBJECTSIZE} then Some (Inl MTP_ERROR_INVALID_DATASET)
                   else if le_word (take 2 (drop 6 temp)) \<noteq> data_type (propinfo p) then Some (Inl MTP_ERROR_INVALID_OBJECT_PROP_FORMAT)
                   else do {
                     pv0 \<leftarrow> prop_alloc_obj_propval (e_junk (c_env c)) p;
                     (pv, _) \<leftarrow> prop_set_current_array_val (e_junk (c_env c)) pv0 (drop 8 temp) (left - 8);
                     acc1 \<leftarrow> take_property c cd pv acc;
                     sz \<leftarrow> prop_size_obj_propval pv;
                     prop_list_loop c props (Suc clk) n (drop (8 + unat sz) temp) (left - 8 - sz) acc1 }))"

section \<open>Creating the object\<close>

text \<open>
  prev is the storage of an object announced before and not consumed.  Every
  error of the loop and every error of _hutil_add_object_entry has already
  freed the object information when it is freed at ERROR_EXIT: the behaviour
  is undefined.
\<close>

definition list_info :: "u16 \<Rightarrow> u64 \<Rightarrow> obj_info" where
  "list_info fmt obj_sz = zero_info\<lparr>obj_fmt := fmt, file_size := obj_sz,
     association_type := (if fmt = PTP_FMT_ASSOCIATION then PTP_ASSOCIATIONTYPE_FOLDER else association_type zero_info)\<rparr>"

definition construct_from_list ::
    "'fs conf \<Rightarrow> u32 \<Rightarrow> u32 \<Rightarrow> u16 \<Rightarrow> u64 \<Rightarrow> u8 list \<Rightarrow> u32 \<Rightarrow> u32 \<Rightarrow> 'fs sys \<Rightarrow> ('fs sys \<times> mtp_err \<times> mtp_obj option \<times> u32) option" where
  "construct_from_list c sid parent fmt obj_sz d_bytes d_sz err_idx s =
     (if length d_bytes < 4 then None
      else do {
        let num_elem = (le_word (take 4 d_bytes) :: u32);
        r \<leftarrow> prop_list_loop c (g_props s) (g_clk s) (unat num_elem) (drop 4 d_bytes) (d_sz - 4) (list_info fmt obj_sz, []);
        (case r of
           Inl _ \<Rightarrow> None
         | Inr (info, file_name) \<Rightarrow> do {
             (s1, er, obj) \<leftarrow> hutil_add_object_entry c (info\<lparr>store_id := sid, h_parent := parent\<rparr>) file_name
                               (s\<lparr>g_clk := g_clk s + unat num_elem\<rparr>);
             if er \<noteq> MTP_ERROR_NONE then None
             else Some (s1, MTP_ERROR_NONE, obj, if num_elem = 0 then err_idx else num_elem - 1) }) })"

definition hutil_construct_object_entry_prop_list ::
    "'fs conf \<Rightarrow> u32 \<Rightarrow> u32 \<Rightarrow> u16 \<Rightarrow> u64 \<Rightarrow> u32 option \<Rightarrow> u8 list \<Rightarrow> u32 \<Rightarrow> u32 \<Rightarrow> 'fs sys \<Rightarrow>
     ('fs sys \<times> mtp_err \<times> mtp_obj option \<times> u32) option" where
  "hutil_construct_object_entry_prop_list c sid parent fmt obj_sz prev d_bytes d_sz err_idx s0 =
     (let s = (case Option.bind prev (store_index (g_dev s0)) of None \<Rightarrow> s0 | Some j \<Rightarrow> refresh_store c j s0)
      in case device_get_store (g_dev s) sid of
           None \<Rightarrow> Some (s, MTP_ERROR_INVALID_STORE, None, err_idx)
         | Some st \<Rightarrow>
             if access (s_info st) = PTP_STORAGEACCESS_R then Some (s, MTP_ERROR_STORE_READ_ONLY, None, err_idx)
             else if free_space (s_info st) = 0 \<or> capacity (s_info st) < free_space (s_info st) \<or> free_space (s_info st) \<le> obj_sz
             then Some (s, MTP_ERROR_STORE_FULL, None, err_idx)
             else construct_from_list c sid parent fmt obj_sz d_bytes d_sz err_idx s)"

section \<open>Device properties\<close>

text \<open>The setter of an integer writes four bytes whatever the size of the type.\<close>

record device_prop_desc =
  dp_info :: prop_info
  dp_val :: prop_value

definition prop_set_current_integer :: "device_prop_desc \<Rightarrow> u32 \<Rightarrow> (device_prop_desc \<times> bool) option" where
  "prop_set_current_integer p v =
     (if prop_is_valid_integer (dp_info p) (ucast v) then do {
        x \<leftarrow> int_write (dp_val p) (le_bytes 4 v) 4;
        Some (p\<lparr>dp_val := x\<rparr>, True) }
      else Some (p, False))"

definition prop_set_current_string :: "u16 list \<Rightarrow> device_prop_desc \<Rightarrow> ptp_string \<Rightarrow> (device_prop_desc \<times> bool) option" where
  "prop_set_current_string junk p s =
     (if prop_is_valid_string (dp_info p) (Some s) then do {
        s' \<leftarrow> prop_copy_ptpstring (alloc_ptpstring junk) s;
        Some (p\<lparr>dp_val := PvStr (Some s')\<rparr>, True) }
      else Some (p, False))"

section \<open>Lists of names and protections\<close>

text \<open>A host names the file, sets its protection or its display name.\<close>

datatype list_prop = FileName ptp_string | Protection u16 | DisplayName ptp_string

fun list_prop_code :: "list_prop \<Rightarrow> u16" where
  "list_prop_code (FileName _) = MTP_OBJ_PROPERTYCODE_OBJECTFILENAME"
| "list_prop_code (Protection _) = MTP_OBJ_PROPERTYCODE_PROTECTIONSTATUS"
| "list_prop_code (DisplayName _) = MTP_OBJ_PROPERTYCODE_NAME"

fun list_prop_value :: "list_prop \<Rightarrow> u16 \<times> u8 list" where
  "list_prop_value (Protection v) = (PTP_DATATYPE_UINT16, le_bytes 2 v)"
| "list_prop_value (FileName nm) = (PTP_DATATYPE_STRING, ptpstring_bytes nm)"
| "list_prop_value (DisplayName nm) = (PTP_DATATYPE_STRING, ptpstring_bytes nm)"

fun list_prop_ok :: "list_prop \<Rightarrow> bool" where
  "list_prop_ok (Protection v) \<longleftrightarrow> True"
| "list_prop_ok (FileName nm) \<longleftrightarrow> ptpstring_inv nm"
| "list_prop_ok (DisplayName nm) \<longleftrightarrow> ptpstring_inv nm"

definition quad_bytes :: "list_prop \<Rightarrow> u8 list" where
  "quad_bytes q = le_bytes 4 (0 :: u32) @ le_bytes 2 (list_prop_code q) @ le_bytes 2 (fst (list_prop_value q)) @ snd (list_prop_value q)"

fun list_effect :: "'fs conf \<Rightarrow> obj_info \<times> string \<Rightarrow> list_prop \<Rightarrow> obj_info \<times> string" where
  "list_effect c (info, fn) (Protection v) = (info\<lparr>protcn_status := PTP_PROTECTIONSTATUS_NOPROTECTION\<rparr>, fn)"
| "list_effect c (info, fn) (FileName nm) =
     (info, if num_chars nm = 0 then MTP_UNKNOWN_METADATA
            else fst (util_utf16_to_utf8 (e_to8 (c_env c)) (MTP_MAX_FILENAME_SIZE + 1) (takeWhile (\<lambda>u. u \<noteq> 0) (ptpstring_units nm))))"
| "list_effect c (info, fn) (DisplayName nm) = (info, fn)"

lemma sint_of_nat_small: "n < 2 ^ 31 \<Longrightarrow> sint (of_nat n :: u32) = int n"
  by (simp add: signed_of_nat signed_take_bit_int_eq_self)

lemma list_quad:
  assumes "prop_get_obj_prop_desc props (ucast cd) = Some p" "typed cd t ff p"
    "cd \<notin> {MTP_OBJ_PROPERTYCODE_STORAGEID, MTP_OBJ_PROPERTYCODE_PARENT, MTP_OBJ_PROPERTYCODE_OBJECTFORMAT, MTP_OBJ_PROPERTYCODE_OBJECTSIZE}"
    "\<not> c_stop c clk" "prop_alloc_obj_propval (e_junk (c_env c)) p = Some pv0"
    "prop_set_current_array_val (e_junk (c_env c)) pv0 (vb @ rest) (of_nat (length vb + length rest)) = Some (pv, ok)"
    "take_property c cd pv acc = Some acc1" "prop_size_obj_propval pv = Some (of_nat (length vb))"
    "0 < length vb" "length vb + length rest < 2 ^ 17"
  shows "prop_list_loop c props clk (Suc n) ((le_bytes 4 (0 :: u32) @ le_bytes 2 cd @ le_bytes 2 t @ vb) @ rest) (of_nat (8 + length vb + length rest)) acc
     = prop_list_loop c props (Suc clk) n rest (of_nat (length rest)) acc1"
proof -
  let ?temp = "(le_bytes 4 (0 :: u32) @ le_bytes 2 cd @ le_bytes 2 t @ vb) @ rest"
  have w: "le_word (take 4 ?temp) = (0 :: u32)" "le_word (take 2 (drop 4 ?temp)) = cd" "le_word (take 2 (drop 6 ?temp)) = t"
    "drop 8 ?temp = vb @ rest" "length ?temp = 8 + length vb + length rest"
    by simp_all
  have l: "sint (of_nat (8 + length vb + length rest) :: u32) = int (8 + length vb + length rest)"
    using assms(10) by (intro sint_of_nat_small) simp
  have u: "unat (of_nat (length vb) :: u32) = length vb" using assms(10) by (intro unat_of_nat_eq_small) simp
  have d: "drop (8 + length vb) ?temp = rest" using w(4) by (simp add: add.commute[of 8] flip: drop_drop)
  have e: "of_nat (8 + length vb + length rest) - 8 = (of_nat (length vb + length rest) :: u32)"
    "of_nat (8 + length vb + length rest) - 8 - of_nat (length vb) = (of_nat (length rest) :: u32)" by simp_all
  have nz: "\<not> int (length vb) + int (length rest) < 1" using assms(9) by linarith
  show ?thesis
    using assms(1-9) w l
    by (simp only: prop_list_loop.simps Let_def e d u) (simp add: typed_def u nz)
qed

text \<open>A string of the list is read as it was packed.\<close>

lemma list_string_value:
  assumes "desc_ok p" "typed cd PTP_DATATYPE_STRING ff p" "ff \<notin> {ENUM_FORM, DATE_TIME_FORM}" "length junk = 255" "ptpstring_inv nm"
    "length (ptpstring_bytes nm) + length rest < 2 ^ 17"
  shows "\<exists>pv0 nm'. prop_alloc_obj_propval junk p = Some pv0
     \<and> prop_set_current_array_val junk pv0 (ptpstring_bytes nm @ rest) (of_nat (length (ptpstring_bytes nm) + length rest))
         = Some (\<lparr>pv_prop = p, current_val = PvStr (Some nm')\<rparr>, True)
     \<and> ptpstring_inv nm' \<and> ptpstring_units nm' = ptpstring_units nm \<and> num_chars nm' = num_chars nm
     \<and> prop_size_obj_propval \<lparr>pv_prop = p, current_val = PvStr (Some nm')\<rparr> = Some (of_nat (length (ptpstring_bytes nm)))"
proof -
  let ?sz = "of_nat (length (ptpstring_bytes nm) + length rest) :: u32"
  have n: "unat (num_chars nm) \<le> 255" "length (str nm) = 255" using unat_u8_less[of "num_chars nm"] assms(5) by (simp_all add: ptpstring_inv_def)
  then have len: "length (ptpstring_bytes nm) = 2 * unat (num_chars nm) + 1" by (intro ptpstring_bytes_length) simp
  have sz: "unat ?sz = length (ptpstring_bytes nm) + length rest" using assms(6) by (intro unat_of_nat_eq_small) simp
  obtain s' r where s': "prop_parse_rawstring (alloc_ptpstring junk) (ptpstring_bytes nm @ rest) ?sz = Some (s', r)"
    "num_chars s' = num_chars nm" "ptpstring_units s' = ptpstring_units nm" "length (str s') = 255"
    using parse_ptpstring_bytes[OF assms(5), of "alloc_ptpstring junk" ?sz rest] sz len assms(4,6) by (auto simp: alloc_ptpstring_def)
  have zero_end: "num_chars s' = 0 \<or> str s' ! (unat (num_chars s') - 1) = 0"
  proof (cases "num_chars nm = 0")
    case False
    then have "0 < unat (num_chars nm)" by (simp add: unat_gt_0)
    then have "str s' ! (unat (num_chars nm) - 1) = ptpstring_units s' ! (unat (num_chars nm) - 1)"
      using s'(2) by (simp add: ptpstring_units_def)
    also have "\<dots> = str nm ! (unat (num_chars nm) - 1)" using s'(3) \<open>0 < unat (num_chars nm)\<close> by (simp add: ptpstring_units_def)
    finally show ?thesis using assms(5) False s'(2) by (simp add: ptpstring_inv_def)
  qed (simp add: s'(2))
  obtain nm' where nm': "prop_copy_ptpstring (alloc_ptpstring junk) s' = Some nm'" "ptpstring_inv nm'" "ptpstring_units nm' = ptpstring_units s'"
    using copy_ptpstring_short[OF _ _ zero_end assms(4)] s'(2,4) n(1) by auto
  have "length (ptpstring_units nm') = length (ptpstring_units nm)" using nm'(3) s'(3) by simp
  then have nc: "num_chars nm' = num_chars nm"
    using nm'(2) n unat_u8_less[of "num_chars nm'"] by (simp add: ptpstring_units_def ptpstring_inv_def min_def word_unat_eq_iff split: if_splits)
  obtain old where old: "prop_alloc_obj_propval junk p = Some \<lparr>pv_prop = p, current_val = PvStr (Some old)\<rparr>"
    using alloc_string_value[OF assms(1,2,4)] by blast
  have size: "prop_size_ptpstring (Some nm') = of_nat (length (ptpstring_bytes nm))"
    using nc len unat_of_nat_eq_small[of "length (ptpstring_bytes nm)", where 'a = 32] n(1) by (intro word_unat_eq_iff[THEN iffD2]) simp
  show ?thesis
    using old s' nm' nc size assms(2,3)
    by (intro exI[of _ "\<lparr>pv_prop = p, current_val = PvStr (Some old)\<rparr>"] exI[of _ nm'])
      (simp add: prop_set_current_array_val_def prop_set_current_string_val_def prop_is_valid_string_def prop_size_obj_propval_def value_size_def typed_def)
qed

lemma list_text_step:
  assumes "prop_get_obj_prop_desc props (ucast cd) = Some p" "desc_ok p" "typed cd PTP_DATATYPE_STRING ff p" "ff \<notin> {ENUM_FORM, DATE_TIME_FORM}"
    "length (e_junk (c_env c)) = 255" "ptpstring_inv nm" "length (ptpstring_bytes nm) + length rest < 2 ^ 17" "\<not> c_stop c clk"
    "cd \<in> {MTP_OBJ_PROPERTYCODE_OBJECTFILENAME, MTP_OBJ_PROPERTYCODE_NAME}"
    "acc1 = list_effect c acc (if cd = MTP_OBJ_PROPERTYCODE_OBJECTFILENAME then FileName nm else DisplayName nm)"
  shows "prop_list_loop c props clk (Suc n) ((le_bytes 4 (0 :: u32) @ le_bytes 2 cd @ le_bytes 2 PTP_DATATYPE_STRING @ ptpstring_bytes nm) @ rest)
       (of_nat (8 + length (ptpstring_bytes nm) + length rest)) acc
     = prop_list_loop c props (Suc clk) n rest (of_nat (length rest)) acc1"
proof -
  obtain pv0 nm' where v: "prop_alloc_obj_propval (e_junk (c_env c)) p = Some pv0"
    "prop_set_current_array_val (e_junk (c_env c)) pv0 (ptpstring_bytes nm @ rest) (of_nat (length (ptpstring_bytes nm) + length rest))
         = Some (\<lparr>pv_prop = p, current_val = PvStr (Some nm')\<rparr>, True)"
    "ptpstring_inv nm'" "ptpstring_units nm' = ptpstring_units nm" "num_chars nm' = num_chars nm"
    "prop_size_obj_propval \<lparr>pv_prop = p, current_val = PvStr (Some nm')\<rparr> = Some (of_nat (length (ptpstring_bytes nm)))"
    using list_string_value[OF assms(2-7)] by blast
  have "scan_wstr 255 (str nm') = Some (takeWhile (\<lambda>u. u \<noteq> 0) (ptpstring_units nm'))" if "num_chars nm' \<noteq> 0"
  proof -
    have "0 < unat (num_chars nm')" "unat (num_chars nm') \<le> 255" using that unat_u8_less[of "num_chars nm'"] by (simp_all add: unat_gt_0)
    moreover from this have "ptpstring_units nm' ! (unat (num_chars nm') - 1) = 0" "length (ptpstring_units nm') = unat (num_chars nm')"
      using v(3) that by (simp_all add: ptpstring_units_def ptpstring_inv_def)
    ultimately have "0 \<in> set (ptpstring_units nm')" by (metis diff_less nth_mem zero_less_one)
    then show ?thesis
      using scan_wstr_takeWhile[of "ptpstring_units nm'" 255 "drop (unat (num_chars nm')) (str nm')"] unat_u8_less[of "num_chars nm'"]
      by (simp add: ptpstring_units_def)
  qed
  then have "take_property c cd \<lparr>pv_prop = p, current_val = PvStr (Some nm')\<rparr> acc = Some acc1"
    using assms(9,10) v(4,5)
    by (cases acc) (auto simp: take_property_def MTP_UNKNOWN_METADATA_def g_strlcpy_def)
  from list_quad[OF assms(1,3) _ assms(8) v(1,2) this v(6) _ assms(7)] assms(9) show ?thesis
    by (auto simp: ptpstring_bytes_def)
qed

lemma list_step:
  assumes "prop_build_supp_props_default (e_to16 (c_env c)) (e_junk (c_env c)) = Some props" "length (e_junk (c_env c)) = 255"
    "ascii_conv (e_to16 (c_env c))" "list_prop_ok q" "\<not> c_stop c clk" "length (quad_bytes q) + length rest < 2 ^ 17"
  shows "prop_list_loop c props clk (Suc n) (quad_bytes q @ rest) (of_nat (length (quad_bytes q @ rest))) acc
     = prop_list_loop c props (Suc clk) n rest (of_nat (length rest)) (list_effect c acc q)"
proof (cases q)
  case (Protection v)
  have "(MTP_OBJ_PROPERTYCODE_PROTECTIONSTATUS, PTP_DATATYPE_UINT16, ENUM_FORM) \<in> set table_types" by (simp add: table_types_def)
  then obtain p where p: "prop_get_obj_prop_desc props (ucast MTP_OBJ_PROPERTYCODE_PROTECTIONSTATUS) = Some p" "desc_ok p"
    "typed MTP_OBJ_PROPERTYCODE_PROTECTIONSTATUS PTP_DATATYPE_UINT16 ENUM_FORM p" using table_lookup[OF assms(1-3)] by blast
  obtain d where d: "prop_alloc_obj_propval (e_junk (c_env c)) p = Some \<lparr>pv_prop = p, current_val = PvInt (d @ replicate 14 0)\<rparr>" "length d = 2"
    using alloc_int_value[OF p(2,3)] by (auto simp: type_size_def)
  have "\<exists>bs ok. prop_set_current_array_val (e_junk (c_env c)) \<lparr>pv_prop = p, current_val = PvInt (d @ replicate 14 0)\<rparr> (le_bytes 2 v @ rest)
      (of_nat (length (le_bytes 2 v) + length rest)) = Some (\<lparr>pv_prop = p, current_val = PvInt bs\<rparr>, ok)"
    using p(3) d(2) assms(6)
    by (auto simp: prop_set_current_array_val_def typed_def type_size_def prop_set_current_integer_val_def int_write_def over_write_def
        Let_def word_less_nat_alt quad_bytes_def Protection split: if_splits)
  then obtain bs ok where s: "prop_set_current_array_val (e_junk (c_env c)) \<lparr>pv_prop = p, current_val = PvInt (d @ replicate 14 0)\<rparr>
      (le_bytes 2 v @ rest) (of_nat (length (le_bytes 2 v) + length rest)) = Some (\<lparr>pv_prop = p, current_val = PvInt bs\<rparr>, ok)" by blast
  have "take_property c MTP_OBJ_PROPERTYCODE_PROTECTIONSTATUS \<lparr>pv_prop = p, current_val = PvInt bs\<rparr> acc = Some (list_effect c acc q)"
    by (cases acc) (simp add: take_property_def Protection)
  from list_quad[OF p(1,3) _ assms(5) d(1) s this, of n] assms(6) p(3) show ?thesis
    by (simp add: Protection quad_bytes_def prop_size_obj_propval_def value_size_def typed_def type_size_def)
next
  case (FileName nm)
  have "(MTP_OBJ_PROPERTYCODE_OBJECTFILENAME, PTP_DATATYPE_STRING, REGULAR_EXPRESSION_FORM) \<in> set table_types" by (simp add: table_types_def)
  then obtain p where p: "prop_get_obj_prop_desc props (ucast MTP_OBJ_PROPERTYCODE_OBJECTFILENAME) = Some p" "desc_ok p"
    "typed MTP_OBJ_PROPERTYCODE_OBJECTFILENAME PTP_DATATYPE_STRING REGULAR_EXPRESSION_FORM p" using table_lookup[OF assms(1-3)] by blast
  from list_text_step[OF p _ assms(2), of nm rest clk _ acc n] assms(4-6) show ?thesis by (simp add: FileName quad_bytes_def add.assoc)
next
  case (DisplayName nm)
  have "(MTP_OBJ_PROPERTYCODE_NAME, PTP_DATATYPE_STRING, FORM_NONE) \<in> set table_types" by (simp add: table_types_def)
  then obtain p where p: "prop_get_obj_prop_desc props (ucast MTP_OBJ_PROPERTYCODE_NAME) = Some p" "desc_ok p"
    "typed MTP_OBJ_PROPERTYCODE_NAME PTP_DATATYPE_STRING FORM_NONE p" using table_lookup[OF assms(1-3)] by blast
  from list_text_step[OF p _ assms(2), of nm rest clk _ acc n] assms(4-6) show ?thesis by (simp add: DisplayName quad_bytes_def add.assoc)
qed

lemma list_read:
  assumes "prop_build_supp_props_default (e_to16 (c_env c)) (e_junk (c_env c)) = Some props" "length (e_junk (c_env c)) = 255"
    "ascii_conv (e_to16 (c_env c))" "list_all list_prop_ok qs" "\<forall>k<length qs. \<not> c_stop c (clk + k)" "length (concat (map quad_bytes qs)) < 2 ^ 17"
  shows "prop_list_loop c props clk (length qs) (concat (map quad_bytes qs)) (of_nat (length (concat (map quad_bytes qs)))) acc
     = Some (Inr (foldl (list_effect c) acc qs))"
  using assms(4-6)
proof (induction qs arbitrary: clk acc)
  case (Cons q qs)
  have stop: "\<not> c_stop c clk" "\<forall>k<length qs. \<not> c_stop c (Suc clk + k)"
    using Cons.prems(2) by (auto dest: spec[of _ 0] spec[of _ "Suc _"])
  have "prop_list_loop c props clk (Suc (length qs)) (quad_bytes q @ concat (map quad_bytes qs))
      (of_nat (length (quad_bytes q @ concat (map quad_bytes qs)))) acc
    = prop_list_loop c props (Suc clk) (length qs) (concat (map quad_bytes qs)) (of_nat (length (concat (map quad_bytes qs)))) (list_effect c acc q)"
    using Cons.prems(1,3) stop(1) by (intro list_step[OF assms(1-3)]) simp_all
  with Cons.IH[OF _ stop(2)] Cons.prems(1,3) show ?case by simp
qed simp

text \<open>A list of file names, display names and protections creates the object they describe: the last file name wins.\<close>

lemma property_list_object:
  assumes "prop_build_supp_props_default (e_to16 (c_env c)) (e_junk (c_env c)) = Some (g_props s)" "length (e_junk (c_env c)) = 255"
    "ascii_conv (e_to16 (c_env c))" "list_all list_prop_ok qs" "\<forall>k<length qs. \<not> c_stop c (g_clk s + k)"
    "b = le_bytes 4 (of_nat (length qs) :: u32) @ concat (map quad_bytes qs)" "length b < 2 ^ 17" "length qs < 2 ^ 32"
    "device_get_store (g_dev s) sid = Some st" "access (s_info st) \<noteq> PTP_STORAGEACCESS_R" "obj_sz < free_space (s_info st)"
    "free_space (s_info st) \<le> capacity (s_info st)" "foldl (list_effect c) (list_info fmt obj_sz, []) qs = (info, name)"
    "hutil_add_object_entry c (info\<lparr>store_id := sid, h_parent := parent\<rparr>) name (s\<lparr>g_clk := g_clk s + length qs\<rparr>) = Some (s1, MTP_ERROR_NONE, obj)"
  shows "hutil_construct_object_entry_prop_list c sid parent fmt obj_sz None b (of_nat (length b)) err_idx s
     = Some (s1, MTP_ERROR_NONE, obj, if qs = [] then err_idx else of_nat (length qs) - 1)"
proof -
  have n: "unat (of_nat (length qs) :: u32) = length qs" using assms(8) by (intro unat_of_nat_eq_small) simp
  have d: "drop 4 b = concat (map quad_bytes qs)" "take 4 b = le_bytes 4 (of_nat (length qs) :: u32)" "length b = 4 + length (concat (map quad_bytes qs))"
    using assms(6) by simp_all
  have e: "(of_nat (length b) :: u32) - 4 = of_nat (length (concat (map quad_bytes qs)))" by (simp only: d(3)) simp
  have "prop_list_loop c (g_props s) (g_clk s) (length qs) (concat (map quad_bytes qs)) (of_nat (length (concat (map quad_bytes qs)))) (list_info fmt obj_sz, [])
      = Some (Inr (info, name))"
    using list_read[OF assms(1-5), of "(list_info fmt obj_sz, [])"] assms(7,13) d(3) by simp
  moreover have "(of_nat (length qs) :: u32) = 0 \<longleftrightarrow> qs = []" using n by (metis length_0_conv unat_eq_zero)
  ultimately have "construct_from_list c sid parent fmt obj_sz b (of_nat (length b)) err_idx s
      = Some (s1, MTP_ERROR_NONE, obj, if qs = [] then err_idx else of_nat (length qs) - 1)"
    using assms(14) d n e by (simp add: construct_from_list_def Let_def)
  moreover have "\<not> (free_space (s_info st) = 0 \<or> capacity (s_info st) < free_space (s_info st) \<or> free_space (s_info st) \<le> obj_sz)"
    using assms(11,12) by auto
  ultimately show ?thesis using assms(9,10) by (simp add: hutil_construct_object_entry_prop_list_def Let_def)
qed

text \<open>A list that names another object, or a property of the parameters, is refused by freeing the information twice.\<close>

lemma refused_list_undefined:
  assumes "device_get_store (g_dev s) sid = Some st" "access (s_info st) \<noteq> PTP_STORAGEACCESS_R" "obj_sz < free_space (s_info st)"
    "free_space (s_info st) \<le> capacity (s_info st)" "b = le_bytes 4 (1 :: u32) @ le_bytes 4 h @ rest" "h \<noteq> (0 :: u32)" "length b < 2 ^ 31"
  shows "hutil_construct_object_entry_prop_list c sid parent fmt obj_sz None b (of_nat (length b)) err_idx s = None"
proof -
  have d: "drop 4 b = le_bytes 4 h @ rest" "take 4 b = le_bytes 4 (1 :: u32)" "\<not> length b < 4" using assms(5) by simp_all
  let ?loop = "prop_list_loop c (g_props s) (g_clk s) (Suc 0) (le_bytes 4 h @ rest) (of_nat (length b) - 4) (list_info fmt obj_sz, [])"
  have "?loop = None \<or> (\<exists>e. ?loop = Some (Inl e))" using assms(6) by (simp add: Let_def)
  then have "construct_from_list c sid parent fmt obj_sz b (of_nat (length b)) err_idx s = None"
    using d by (auto simp: construct_from_list_def simp del: prop_list_loop.simps)
  moreover have "\<not> (free_space (s_info st) = 0 \<or> capacity (s_info st) < free_space (s_info st) \<or> free_space (s_info st) \<le> obj_sz)"
    using assms(3,4) by auto
  ultimately show ?thesis using assms(1,2) by (simp add: hutil_construct_object_entry_prop_list_def Let_def)
qed

end
