(* ===== verification/Copying.thy ===== *)
theory Copying
  imports Prop_Values
begin

text \<open>
  Copying and moving of objects: the copy of the entries of a folder of
  src/util/mtp_fs.c and _hutil_copy_object_entries of
  src/mtp_cmd_handler_util.c.  The fuel bounds the depth of the recursion; a
  result None is undefined behaviour or a recursion that does not end.
\<close>

section \<open>The entries of a folder\<close>

text \<open>An object without handle, information and path, as memset leaves it.\<close>

definition zero_obj :: mtp_obj where
  "zero_obj = \<lparr>obj_handle = 0, obj_info = None, file_path = None, child_array = zero_child_array, propval_list = []\<rparr>"

definition object_copy :: "u32 \<Rightarrow> u32 \<Rightarrow> string \<Rightarrow> mtp_obj \<Rightarrow> mtp_obj option" where
  "object_copy h parent path orig = do {
     obj \<leftarrow> entity_copy_mtp_object zero_obj orig;
     Some ((entity_set_object_file_path obj path)
             \<lparr>obj_handle := h, obj_info := map_option (\<lambda>i. i\<lparr>h_parent := parent\<rparr>) (obj_info obj)\<rparr>) }"

text \<open>The error number is kept from one call to the next: only a failing call writes it.\<close>

definition after_call :: "errno option \<Rightarrow> errno option \<Rightarrow> errno option" where
  "after_call er r = (case r of None \<Rightarrow> er | Some _ \<Rightarrow> r)"

type_synonym 'fs copied = "('fs sys \<times> bool \<times> errno option) option"

definition copy_file_entry :: "'fs conf \<Rightarrow> nat \<Rightarrow> string \<Rightarrow> string \<Rightarrow> mtp_obj \<Rightarrow> errno option \<Rightarrow> 'fs sys \<Rightarrow> 'fs copied" where
  "copy_file_entry c i old_pathname new_pathname new_obj er s =
     (case util_file_copy (c_os c) (g_fs s) old_pathname new_pathname of
        (fs', True, _) \<Rightarrow> do {
          (st', _) \<leftarrow> entity_add_object_to_store (store_list (g_dev s) ! i) new_obj;
          Some (upd_store i st' (s\<lparr>g_fs := fs'\<rparr>), True, er) }
      | (fs', False, r) \<Rightarrow> Some (s\<lparr>g_fs := fs'\<rparr>, after_call er r = Some EACCES, after_call er r))"

definition copy_dir_entry ::
    "'fs conf \<Rightarrow> (string \<Rightarrow> string \<Rightarrow> errno option \<Rightarrow> 'fs sys \<Rightarrow> 'fs copied) \<Rightarrow> nat \<Rightarrow> string \<Rightarrow> string \<Rightarrow> mtp_obj \<Rightarrow>
     errno option \<Rightarrow> 'fs sys \<Rightarrow> 'fs copied" where
  "copy_dir_entry c sub i old_pathname new_pathname new_obj er s =
     (case util_dir_create (c_os c) (g_fs s) new_pathname of
        (fs', ok, r) \<Rightarrow>
          let er1 = after_call er r
          in if \<not> ok \<and> er1 \<noteq> Some EEXIST then Some (s\<lparr>g_fs := fs'\<rparr>, False, er1)
             else do {
               (st', _) \<leftarrow> entity_add_object_to_store (store_list (g_dev s) ! i) new_obj;
               sub old_pathname new_pathname er1 (upd_store i st' (s\<lparr>g_fs := fs'\<rparr>)) })"

definition copy_entry ::
    "'fs conf \<Rightarrow> (string \<Rightarrow> string \<Rightarrow> errno option \<Rightarrow> 'fs sys \<Rightarrow> 'fs copied) \<Rightarrow> u32 \<Rightarrow> string \<Rightarrow> string \<Rightarrow> string \<Rightarrow>
     errno option \<Rightarrow> 'fs sys \<Rightarrow> 'fs copied" where
  "copy_entry c sub sid origpath newpath n er s =
     (let old_pathname = take MTP_MAX_PATHNAME_SIZE (origpath @ ''/'' @ n);
          new_pathname = take MTP_MAX_PATHNAME_SIZE (newpath @ ''/'' @ n)
      in case os_stat (c_os c) (g_fs s) old_pathname of
           None \<Rightarrow> Some (s, False, er)
         | Some entryinfo \<Rightarrow>
             (case store_index (g_dev s) sid of
                None \<Rightarrow> Some (s, False, er)
              | Some i \<Rightarrow>
                  (let st = store_list (g_dev s) ! i
                   in case entity_get_object_from_store_by_path st old_pathname of
                        None \<Rightarrow> Some (s, False, er)
                      | Some orig \<Rightarrow>
                          (case entity_get_object_from_store_by_path st newpath of
                             None \<Rightarrow> Some (s, False, er)
                           | Some par \<Rightarrow> do {
                               new_obj \<leftarrow> object_copy (g_next s) (obj_handle par) new_pathname orig;
                               let s1 = s\<lparr>g_next := g_next s + 1\<rparr>;
                               if st_kind entryinfo = S_IFDIR
                               then copy_dir_entry c sub i old_pathname new_pathname new_obj er s1
                               else copy_file_entry c i old_pathname new_pathname new_obj er s1 }))))"

fun copy_dir_entries ::
    "'fs conf \<Rightarrow> (string \<Rightarrow> string \<Rightarrow> errno option \<Rightarrow> 'fs sys \<Rightarrow> 'fs copied) \<Rightarrow> u32 \<Rightarrow> string \<Rightarrow> string \<Rightarrow> string list \<Rightarrow>
     errno option \<Rightarrow> 'fs sys \<Rightarrow> 'fs copied" where
  "copy_dir_entries c sub sid origpath newpath [] er s = Some (s, True, er)"
| "copy_dir_entries c sub sid origpath newpath (n # names) er s =
     (if n = ''.'' \<or> n = ''..'' then copy_dir_entries c sub sid origpath newpath names er s
      else do {
        (s1, ok, er1) \<leftarrow> copy_entry c sub sid origpath newpath n er s;
        if ok then copy_dir_entries c sub sid origpath newpath names er1 s1 else Some (s1, False, er1) })"

fun util_copy_dir_children_recursive ::
    "nat \<Rightarrow> 'fs conf \<Rightarrow> u32 \<Rightarrow> string \<Rightarrow> string \<Rightarrow> errno option \<Rightarrow> 'fs sys \<Rightarrow> 'fs copied" where
  "util_copy_dir_children_recursive 0 c sid origpath newpath er s = None"
| "util_copy_dir_children_recursive (Suc fuel) c sid origpath newpath er s =
     (case os_readdir (c_os c) (g_fs s) origpath of
        None \<Rightarrow> Some (s, False, er)
      | Some names \<Rightarrow>
          copy_dir_entries c (util_copy_dir_children_recursive fuel c sid) sid origpath newpath names er s)"

section \<open>Objects\<close>

text \<open>
  The object is looked up again by its position when its children are copied,
  because a moved object has the same handle as its copy.
\<close>

definition object_position :: "mtp_device \<Rightarrow> u32 \<Rightarrow> (nat \<times> nat) option" where
  "object_position d h = do {
     i \<leftarrow> device_get_store_containing_obj d h;
     k \<leftarrow> index_where (\<lambda>ob. obj_handle ob = h) (obj_list (store_list d ! i));
     Some (i, k) }"

abbreviation object_at :: "mtp_device \<Rightarrow> nat \<times> nat \<Rightarrow> mtp_obj" where
  "object_at d ik \<equiv> obj_list (store_list d ! fst ik) ! snd ik"

definition copy_error :: "errno option \<Rightarrow> mtp_err" where
  "copy_error er = (if er = Some EACCES then MTP_ERROR_ACCESS_DENIED
                    else if er = Some ENOSPC then MTP_ERROR_STORE_FULL else MTP_ERROR_GENERAL)"

definition full_error :: "errno option \<Rightarrow> mtp_err" where
  "full_error er = (if er = Some ENOSPC then MTP_ERROR_STORE_FULL else MTP_ERROR_GENERAL)"

definition add_to_store :: "nat \<Rightarrow> mtp_obj \<Rightarrow> 'fs sys \<Rightarrow> 'fs sys option" where
  "add_to_store i obj s = do {
     (st', _) \<leftarrow> entity_add_object_to_store (store_list (g_dev s) ! i) obj;
     Some (upd_store i st' s) }"

text \<open>A file: with a kept handle the references are copied into the object just added, the last of the list.\<close>

definition copy_references :: "nat \<times> nat \<Rightarrow> nat \<Rightarrow> 'fs sys \<Rightarrow> 'fs sys option" where
  "copy_references src j s = do {
     let st = store_list (g_dev s) ! j;
     let new_obj = last (obj_list st);
     (a, _) \<leftarrow> prop_copy_ptparray (child_array new_obj) (child_array (object_at (g_dev s) src));
     Some (upd_store j (st\<lparr>obj_list := butlast (obj_list st) @ [new_obj\<lparr>child_array := a\<rparr>]\<rparr>) s) }"

type_synonym 'fs copy_result = "('fs sys \<times> mtp_err \<times> u32) option"

definition copy_file_object ::
    "'fs conf \<Rightarrow> nat \<times> nat \<Rightarrow> nat \<Rightarrow> mtp_obj \<Rightarrow> string \<Rightarrow> string \<Rightarrow> bool \<Rightarrow> u32 \<Rightarrow> 'fs sys \<Rightarrow> 'fs copy_result" where
  "copy_file_object c src j new_obj from_path to_path keep_handle new_hobj s =
     (case util_file_copy (c_os c) (g_fs s) from_path to_path of
        (fs', False, r) \<Rightarrow> Some (s\<lparr>g_fs := fs', g_copied := []\<rparr>, copy_error r, new_hobj)
      | (fs', True, _) \<Rightarrow> do {
          let s1 = s\<lparr>g_fs := fs', g_copied := g_strlcpy to_path (MTP_MAX_PATHNAME_SIZE + 1)\<rparr>;
          info \<leftarrow> obj_info (object_at (g_dev s1) src);
          let dst = store_list (g_dev s1) ! j;
          s2 \<leftarrow> add_to_store j new_obj
                 (upd_store j (dst\<lparr>s_info := (s_info dst)\<lparr>free_space := free_space (s_info dst) - file_size info\<rparr>\<rparr>) s1);
          s3 \<leftarrow> (if keep_handle then copy_references src j s2 else Some s2);
          Some (s3, MTP_ERROR_NONE, obj_handle new_obj) })"

text \<open>A folder is created under its path; the path is remembered for the watcher.\<close>

definition create_folder_object :: "'fs conf \<Rightarrow> nat \<Rightarrow> mtp_obj \<Rightarrow> string \<Rightarrow> 'fs sys \<Rightarrow> ('fs sys \<times> mtp_err) option" where
  "create_folder_object c j new_obj path s =
     (case util_dir_create (c_os c) (g_fs s) path of
        (fs', False, r) \<Rightarrow> Some (s\<lparr>g_fs := fs', g_created := []\<rparr>, full_error r)
      | (fs', True, _) \<Rightarrow> do {
          s1 \<leftarrow> add_to_store j new_obj (s\<lparr>g_fs := fs', g_created := g_strlcpy path (MTP_MAX_PATHNAME_SIZE + 1)\<rparr>);
          Some (s1, MTP_ERROR_NONE) })"

text \<open>
  The folder of the copy: None is the error, and otherwise the handle and the
  path of the folder the children go to.
\<close>

definition target_folder ::
    "'fs conf \<Rightarrow> nat \<Rightarrow> mtp_obj \<Rightarrow> string \<Rightarrow> bool \<Rightarrow> 'fs sys \<Rightarrow> ('fs sys \<times> mtp_err \<times> (u32 \<times> string) option) option" where
  "target_folder c j new_obj fpath keep_handle s =
     (if os_stat (c_os c) (g_fs s) fpath \<noteq> None then
        (if keep_handle then
           (case util_get_unique_dir_path (\<lambda>p. os_stat (c_os c) (g_fs s) p = None) fpath (of_nat (MTP_MAX_PATHNAME_SIZE + 1)) of
              None \<Rightarrow> None
            | Some None \<Rightarrow> Some (s, MTP_ERROR_GENERAL, None)
            | Some (Some p) \<Rightarrow> do {
                (s1, er) \<leftarrow> create_folder_object c j (entity_set_object_file_path new_obj p) p s;
                Some (s1, er, if er = MTP_ERROR_NONE then Some (obj_handle new_obj, p) else None) })
         else (case entity_get_object_from_store_by_path (store_list (g_dev s) ! j) fpath of
                 None \<Rightarrow> Some (s, MTP_ERROR_GENERAL, None)
               | Some old \<Rightarrow> Some (s, MTP_ERROR_NONE, Some (obj_handle old, fpath))))
      else do {
        (s1, er) \<leftarrow> create_folder_object c j new_obj fpath s;
        Some (s1, er, if er = MTP_ERROR_NONE then Some (obj_handle new_obj, fpath) else None) })"

text \<open>A folder that could not be filled is emptied and removed.\<close>

definition discard_folder :: "'fs conf \<Rightarrow> string \<Rightarrow> 'fs sys \<Rightarrow> 'fs sys" where
  "discard_folder c path s =
     (case util_remove_dir_children_recursive (c_ff c) (c_os c) (g_fs s) path 0 0 of
        (fs', _, _, r) \<Rightarrow>
          if r = MTP_ERROR_NONE then
            (case os_rmdir (c_os c) fs' path of
               (fs2, e) \<Rightarrow> s\<lparr>g_fs := fs2, g_last := (if e = None then g_strlcpy path (MTP_MAX_PATHNAME_SIZE + 1) else [])\<rparr>)
          else s\<lparr>g_fs := fs'\<rparr>)"

fun copy_children :: "(u32 \<Rightarrow> u32 \<Rightarrow> 'fs sys \<Rightarrow> 'fs copy_result) \<Rightarrow> nat \<Rightarrow> u32 list \<Rightarrow> u32 \<Rightarrow> 'fs sys \<Rightarrow> 'fs copy_result" where
  "copy_children sub i [] new_hobj s = Some (s, MTP_ERROR_NONE, new_hobj)"
| "copy_children sub i (h # hs) new_hobj s =
     (if entity_get_object_from_store (store_list (g_dev s) ! i) h = None then copy_children sub i hs new_hobj s
      else do {
        (s1, er, n1) \<leftarrow> sub h new_hobj s;
        if er \<noteq> MTP_ERROR_NONE then Some (s1, er, n1) else copy_children sub i hs n1 s1 })"

text \<open>The children of a folder: from the disk for a copy, from the object lists for a move.\<close>

definition copy_folder_children ::
    "'fs conf \<Rightarrow> (u32 \<Rightarrow> u32 \<Rightarrow> u32 \<Rightarrow> 'fs sys \<Rightarrow> 'fs copy_result) \<Rightarrow> u32 \<Rightarrow> nat \<Rightarrow> u32 \<Rightarrow> string \<Rightarrow> u32 \<Rightarrow> string \<Rightarrow> bool \<Rightarrow> u32 \<Rightarrow>
     'fs sys \<Rightarrow> 'fs copy_result" where
  "copy_folder_children c sub dst_id i obj_h from_path new_h to_path keep_handle new_hobj s =
     (if \<not> keep_handle then do {
        (s1, ok, er) \<leftarrow> util_copy_dir_children_recursive (c_ff c) c dst_id from_path to_path None s;
        Some (if ok then (s1, MTP_ERROR_NONE, new_h) else (discard_folder c to_path s1, copy_error er, new_hobj)) }
      else do {
        arr \<leftarrow> entity_get_child_handles (store_list (g_dev s) ! i) obj_h (prop_alloc_ptparray UINT32_TYPE);
        hs \<leftarrow> ptparray_elems arr;
        (s1, er, n1) \<leftarrow> copy_children (sub new_h) i hs new_hobj s;
        if er \<noteq> MTP_ERROR_NONE then Some (s1, er, n1)
        else if hs \<noteq> [] then Some (s1, MTP_ERROR_NONE, new_h)
        else do {
          (s2, ok, er2) \<leftarrow> util_copy_dir_children_recursive (c_ff c) c dst_id from_path to_path None s1;
          Some (if ok then (s2, MTP_ERROR_NONE, new_h) else (discard_folder c to_path s2, full_error er2, n1)) } })"

definition copy_parent :: "mtp_device \<Rightarrow> nat \<Rightarrow> u32 \<Rightarrow> bool \<Rightarrow> mtp_obj option" where
  "copy_parent d j parent keep_handle =
     (if parent = 0 then None
      else if keep_handle then entity_get_last_object_from_store (store_list d ! j) parent
      else device_get_object_with_handle d parent)"

fun hutil_copy_object_entries ::
    "nat \<Rightarrow> 'fs conf \<Rightarrow> u32 \<Rightarrow> u32 \<Rightarrow> bool \<Rightarrow> u32 \<Rightarrow> u32 \<Rightarrow> u32 \<Rightarrow> 'fs sys \<Rightarrow> 'fs copy_result" where
  "hutil_copy_object_entries 0 c dst_id src_id keep_handle parent h new_hobj s = None"
| "hutil_copy_object_entries (Suc fuel) c dst_id src_id keep_handle parent h new_hobj s =
     (case (store_index (g_dev s) src_id, store_index (g_dev s) dst_id, object_position (g_dev s) h) of
        (Some i, Some j, Some pos) \<Rightarrow> do {
          let obj = object_at (g_dev s) pos;
          let par = copy_parent (g_dev s) j parent keep_handle;
          opath \<leftarrow> file_path obj;
          dir \<leftarrow> parent_dir (store_list (g_dev s) ! j) par;
          (case util_create_path (MTP_MAX_PATHNAME_SIZE + 1) dir (util_get_file_name opath) of
             (Some fpath, True) \<Rightarrow>
               if strcasecmp_eq fpath opath then Some (s, MTP_ERROR_GENERAL, new_hobj)
               else do {
                 copy \<leftarrow> object_copy (if keep_handle then obj_handle obj else g_next s)
                           (case par of None \<Rightarrow> PTP_OBJECTHANDLE_ROOT | Some p \<Rightarrow> obj_handle p) fpath obj;
                 info0 \<leftarrow> obj_info copy;
                 let info = info0\<lparr>store_id := dst_id,
                                  protcn_status := (if dst_id = MTP_EXTERNAL_STORE_ID then PTP_PROTECTIONSTATUS_NOPROTECTION
                                                    else protcn_status info0)\<rparr>;
                 let new_obj = copy\<lparr>obj_info := Some info\<rparr>;
                 let s1 = (if keep_handle then s else s\<lparr>g_next := g_next s + 1\<rparr>);
                 if obj_fmt info \<noteq> PTP_FMT_ASSOCIATION then copy_file_object c pos j new_obj opath fpath keep_handle new_hobj s1
                 else do {
                   (s2, er, folder) \<leftarrow> target_folder c j new_obj fpath keep_handle s1;
                   (case folder of
                      None \<Rightarrow> Some (s2, er, new_hobj)
                    | Some (new_h, to_path) \<Rightarrow>
                        copy_folder_children c (hutil_copy_object_entries fuel c dst_id src_id keep_handle)
                          dst_id i (obj_handle obj) opath new_h to_path keep_handle new_hobj s2) } }
           | _ \<Rightarrow> Some (s, MTP_ERROR_GENERAL, new_hobj)) }
      | _ \<Rightarrow> Some (s, MTP_ERROR_GENERAL, new_hobj))"

section \<open>Facts\<close>

text \<open>An entry of the folder that is not in the object list ends the copy: only folders that were enumerated can be copied.\<close>

lemma unknown_entry_refused:
  assumes "store_index (g_dev s) sid = Some i" "n \<noteq> ''.''" "n \<noteq> ''..''"
    "entity_get_object_from_store_by_path (store_list (g_dev s) ! i) (take MTP_MAX_PATHNAME_SIZE (origpath @ ''/'' @ n)) = None"
  shows "copy_dir_entries c sub sid origpath newpath (n # names) er s = Some (s, False, er)"
  using assms by (simp add: copy_entry_def Let_def split: option.split)

text \<open>
  A file entry: its copy is a new object with the next handle below the copied
  folder, with the information of the original; the objects of the storage
  stay, and the storage stays consistent.
\<close>

lemma file_entry_copied:
  assumes "store_index (g_dev s) sid = Some i" "st = store_list (g_dev s) ! i" "n \<noteq> ''.''" "n \<noteq> ''..''"
    "length origpath + length n < 1045" "length newpath + length n < 1045"
    "os_stat (c_os c) (g_fs s) (origpath @ ''/'' @ n) = Some si" "st_kind si \<noteq> S_IFDIR"
    "entity_get_object_from_store_by_path st (origpath @ ''/'' @ n) = Some orig" "obj_info orig = Some info"
    "entity_get_object_from_store_by_path st newpath = Some par"
    "util_file_copy (c_os c) (g_fs s) (origpath @ ''/'' @ n) (newpath @ ''/'' @ n) = (fs', True, r)"
    "objs_ok (unat (g_next s)) (obj_list st)" "unat (g_next s) < 2 ^ 29"
  shows "\<exists>objs. copy_entry c sub sid origpath newpath n er s = Some (upd_store i (st\<lparr>obj_list := objs\<rparr>) (s\<lparr>g_next := g_next s + 1, g_fs := fs'\<rparr>), True, er)
     \<and> objs_ok (Suc (unat (g_next s))) objs
     \<and> map obj_key objs = map obj_key (obj_list st)
         @ [(g_next s, Some ((entity_copy_obj_info zero_info info)\<lparr>h_parent := obj_handle par\<rparr>), Some (newpath @ ''/'' @ n))]"
proof -
  let ?obj = "\<lparr>obj_handle = g_next s, obj_info = Some ((entity_copy_obj_info zero_info info)\<lparr>h_parent := obj_handle par\<rparr>),
      file_path = Some (newpath @ ''/'' @ n), child_array = zero_child_array, propval_list = []\<rparr>"
  have new: "object_copy (g_next s) (obj_handle par) (newpath @ ''/'' @ n) orig = Some ?obj"
    using assms(10) by (simp add: object_copy_def entity_copy_mtp_object_def zero_obj_def entity_set_object_file_path_def)
  have "par \<in> set (obj_list st)" using assms(11) by (auto simp: entity_get_object_from_store_by_path_def find_Some_iff)
  then have "unat (obj_handle par) < unat (g_next s)" using objs_okD(4)[OF assms(13)] by blast
  then obtain objs where objs: "entity_add_object_to_store st ?obj = Some (st\<lparr>obj_list := objs\<rparr>, True)" "objs_ok (Suc (unat (g_next s))) objs"
    "map obj_key objs = map obj_key (obj_list st) @ [obj_key ?obj]"
    using add_object_ok[OF assms(13), of ?obj "(entity_copy_obj_info zero_info info)\<lparr>h_parent := obj_handle par\<rparr>" "newpath @ ''/'' @ n"] assms(14)
    by (auto simp: zero_child_array_inv)
  show ?thesis
    using assms(1,2,5-9,11,12) new objs
    by (intro exI[of _ objs]) (simp add: copy_entry_def copy_file_entry_def Let_def obj_key_def)
qed

end
