(* ===== verification/Uploading.thy ===== *)
theory Uploading
  imports Commands Watching
begin

text \<open>
  The two commands a host sends a file with: SendObjectInfo announces the
  object and SendObject stores the received file under its path.  Both start
  when their data phase is complete in the temporary file.
\<close>

section \<open>Receiving the data phase\<close>

text \<open>The temporary file of the command: header of the transaction and the file with the rest.\<close>

definition phase_received :: "'fs sys \<Rightarrow> u32 \<Rightarrow> string \<Rightarrow> bool" where
  "phase_received s l t \<longleftrightarrow> filepath (g_ftemp s) = Some t
     \<and> (\<exists>r. header_buf (g_ftemp s) = header_bytes l CONTAINER_DATA_BLK (cmd_code s) (tid (usb_cmd (g_hdlr s))) @ r)"

lemma receive_data_ok:
  assumes "phase_received s l t" "os_content (c_os c) (g_fs s) t = Inl (body, bad)" "length body + 16 \<le> unat max_bytes"
    "unat l = 12 + length body" "unat max_bytes + 16 < 2 ^ 32"
  shows "\<exists>blk. receive_data c max_bytes s = Some (s\<lparr>g_fs := fst (os_remove (c_os c) (g_fs s) t),
       g_ftemp := (g_ftemp s)\<lparr>filepath := None, data_size := 0, data_count := 0\<rparr>\<rparr>, blk, True)
     \<and> hdlr_get_payload_data blk = Some body \<and> unat (hdlr_get_payload_size blk) = length body"
proof -
  let ?sz = "max_bytes + of_nat header_size + 4"
  have sz: "unat ?sz = unat max_bytes + 16" using assms(5) by (simp add: unat_word_ariths)
  have sz': "unat (4 + max_bytes) = unat max_bytes + 4" using assms(5) by (simp add: unat_word_ariths)
  have l: "l = of_nat (length body) + 12" using assms(4) by (metis add.commute of_nat_add of_nat_numeral of_nat_unat_word)
  have body: "length body \<le> unat (4 + max_bytes)" using sz' assms(3) by simp
  obtain r where r: "header_buf (g_ftemp s) = header_bytes l CONTAINER_DATA_BLK (cmd_code s) (tid (usb_cmd (g_hdlr s))) @ r"
    "filepath (g_ftemp s) = Some t" using assms(1) by (auto simp: phase_received_def)
  have "l - 12 = of_nat (length body)" using l by simp
  moreover have "unat (of_nat (length body) :: u32) = length body" using assms(3,5) by (intro unat_of_nat_eq_small) simp
  ultimately show ?thesis
    using assms(2,3) r sz body l
    by (simp add: receive_data_def hdlr_rcv_data_container_def transport_rcv_temp_file_data_def Let_def
        hdlr_get_payload_data_def hdlr_get_payload_size_def)
qed

lemma receive_file_ok:
  assumes "phase_received s l t" "length t \<le> 1045" "os_stat (c_os c) (g_fs s) t = Some si"
    and "ucast l = st_size si + 12 \<or> 0x100000000 \<le> st_size si + 12"
  shows "\<exists>blk ft. hdlr_rcv_file_in_data_container (c_os c) (g_fs s) (g_ftemp s) (data_container_for s) (MTP_MAX_PATHNAME_SIZE + 1)
     = Some (blk, True, Some t, ft) \<and> filepath ft = None"
proof -
  obtain r where r: "header_buf (g_ftemp s) = header_bytes l CONTAINER_DATA_BLK (cmd_code s) (tid (usb_cmd (g_hdlr s))) @ r"
    "filepath (g_ftemp s) = Some t" using assms(1) by (auto simp: phase_received_def)
  have "rd_header (header_bytes l CONTAINER_DATA_BLK (cmd_code s) (tid (usb_cmd (g_hdlr s)))) =
      Some \<lparr>h_len = l, h_type = CONTAINER_DATA_BLK, h_code = cmd_code s, h_tid = tid (usb_cmd (g_hdlr s))\<rparr>"
    using rd_header_bytes[where rest = "[]"] by simp
  moreover have "st_size si + 12 < 0x100000000 \<Longrightarrow> ucast l = 12 + st_size si" using assms(4) by (auto simp: add.commute)
  ultimately show ?thesis
    using assms(2,3) r
    by (auto simp: hdlr_rcv_file_in_data_container_def transport_rcv_temp_file_info_def util_get_file_attrs_def Let_def g_strlcpy_def add.commute)
qed

lemma data_container_set_phase [simp]: "data_container_for (set_phase ph s) = data_container_for s"
  by (simp add: data_container_for_def)

lemma store_index_set_phase [simp]: "store_index (g_dev (set_phase ph s)) = store_index (g_dev s)"
  by (simp add: store_index_def fun_eq_iff set_phase_def)

section \<open>SendObject\<close>

text \<open>C11: a SendObject whose data phase lies in the temporary file moves that file to the path of the announced
  object and appends the object to its storage: the objects before it keep their handles, information and paths,
  the storage stays consistent, the host gets one OK response of its transaction, and the announcement is used up.\<close>

theorem sent_object_stored:
  assumes "accepting c" "any_param s [0, 1, 2] = Some False"
    and "phase_received s l t" "length t \<le> 1045" "os_stat (c_os c) (g_fs s) t = Some si"
    and "ucast l = st_size si + 12 \<or> 0x100000000 \<le> st_size si + 12"
    and "so_obj (data4_send_obj (g_hdlr s)) = Some obj" "obj_info obj = Some info" "file_path obj = Some p" "length p \<le> 1045"
    and "store_index (g_dev s) (so_store_id (data4_send_obj (g_hdlr s))) = Some i"
    and "util_file_move (c_os c) (g_fs s) t p = (fs', True, er)"
    and "objs_ok (unat (obj_handle obj)) (obj_list (store_list (g_dev s) ! i))" "unat (obj_handle obj) < 2 ^ 29"
    and "unat (h_parent info) < unat (obj_handle obj)" "child_array obj = zero_child_array"
  shows "\<exists>s' objs. send_object c s = Some s' \<and> g_fs s' = fs'
     \<and> g_txq s' = g_txq s @ [resp_pkt PTP_RESPONSE_OK (tid (usb_cmd (g_hdlr s))) []] \<and> phase (g_dev s') = DEVICE_PHASE_IDLE
     \<and> store_list (g_dev s') = (store_list (g_dev s))[i := (store_list (g_dev s) ! i)\<lparr>obj_list := objs\<rparr>]
     \<and> map obj_key objs = map obj_key (obj_list (store_list (g_dev s) ! i)) @ [obj_key obj]
     \<and> objs_ok (Suc (unat (obj_handle obj))) objs
     \<and> so_obj (data4_send_obj (g_hdlr s')) = None \<and> \<not> so_is_valid (data4_send_obj (g_hdlr s')) \<and> filepath (g_ftemp s') = None"
proof -
  let ?i = "store_list (g_dev s) ! i"
  obtain objs where objs: "entity_add_object_to_store ?i obj = Some (?i\<lparr>obj_list := objs\<rparr>, True)" "objs_ok (Suc (unat (obj_handle obj))) objs"
    "map obj_key objs = map obj_key (obj_list ?i) @ [obj_key obj]"
    using add_object_ok[OF assms(13) refl assms(14,8,15,9)] assms(16) by (auto simp: zero_child_array_inv)
  obtain blk ft where f: "hdlr_rcv_file_in_data_container (c_os c) (g_fs s) (g_ftemp s) (data_container_for s) (MTP_MAX_PATHNAME_SIZE + 1)
     = Some (blk, True, Some t, ft)" "filepath ft = None" using receive_file_ok[OF assms(3-6)] by blast
  let ?s1 = "(set_phase DEVICE_PHASE_DATAOUT s)\<lparr>g_ftemp := ft\<rparr>"
  have "hutil_write_file_data c (so_store_id (data4_send_obj (g_hdlr s))) (Some obj) t ?s1
      = Some (upd_store i (?i\<lparr>obj_list := objs\<rparr>) (?s1\<lparr>g_fs := fs', g_moved := g_strlcpy t (MTP_MAX_PATHNAME_SIZE + 1)\<rparr>), MTP_ERROR_NONE)"
    using assms(5,8-12) objs(1) by (simp add: hutil_write_file_data_def g_strlcpy_def store_index_def set_phase_def)
  then show ?thesis
    using assms(1,2,7) f objs(2,3)
    by (simp add: send_object_def Let_def write_response_def upd_hdlr_def) (auto intro!: exI[of _ objs])
qed

section \<open>SendObjectInfo\<close>

text \<open>A name the conversions to UTF-16 and back keep.\<close>

definition plain_name :: "'fs env \<Rightarrow> string \<Rightarrow> bool" where
  "plain_name e name \<longleftrightarrow> name \<noteq> [] \<and> length name \<le> 1024
     \<and> (\<exists>ws. e_to16 e name = Some ws \<and> 0 \<notin> set ws \<and> length ws \<le> 1045 \<and> e_to8 e ws = Some name)"

lemma wchar_len_prefix: "0 \<notin> set ws \<Longrightarrow> util_wchar_len (ws @ 0 # r) = Some (length ws)"
  by (induction ws) auto

lemma path_len_valid_length: "util_is_path_len_valid p \<Longrightarrow> length p \<le> 1045"
  by (auto simp: util_is_path_len_valid_def Let_def util_get_external_path_def)

lemma new_path_exact:
  assumes "plain_name (c_env c) name" "util_is_path_len_valid (dir @ ''/'' @ name)"
  shows "new_path c name h dir = Some (Some (dir @ ''/'' @ name), True)"
proof -
  obtain ws where ws: "e_to16 (c_env c) name = Some ws" "0 \<notin> set ws" "length ws \<le> 1045" "e_to8 (c_env c) ws = Some name"
    "name \<noteq> []" "length name \<le> 1024" using assms(1) by (auto simp: plain_name_def)
  have "length (dir @ ''/'' @ name) \<le> 1045" by (rule path_len_valid_length[OF assms(2)])
  then have path: "util_create_path (MTP_MAX_PATHNAME_SIZE + 1) dir name = (Some (dir @ ''/'' @ name), True)"
    using assms(2) ws(6) by (simp add: create_path_True)
  have "replicate (1046 - length ws) 0 = 0 # replicate (1045 - length ws) (0 :: u16)" using ws(3) by (simp add: Suc_diff_le flip: replicate_Suc)
  then have "util_utf8_to_utf16 (e_to16 (c_env c)) True (replicate (MTP_MAX_PATHNAME_SIZE + 1) 0) (MTP_MAX_PATHNAME_SIZE + 1) name
      = Some (ws @ 0 # replicate (1045 - length ws) 0, length ws)"
    using utf8_to_utf16_fits[where conv = "e_to16 (c_env c)" and s = name and n = 1046 and dest = "replicate 1046 0", OF ws(1,2)] ws(3) by simp
  with ws path show ?thesis
    by (simp add: new_path_def wchar_len_prefix util_utf16_to_utf8_def g_strlcpy_def)
qed

text \<open>Where the new object goes: the root of the storage, or an existing folder.\<close>

definition upload_target :: "mtp_device \<Rightarrow> mtp_store \<Rightarrow> u32 \<Rightarrow> u32 \<Rightarrow> string \<Rightarrow> bool" where
  "upload_target d st asked_parent parent dir \<longleftrightarrow>
     asked_parent = 0xFFFFFFFF \<and> parent = PTP_OBJECTHANDLE_ROOT \<and> root_path st = Some dir
   \<or> asked_parent \<notin> {0, 0xFFFFFFFF} \<and> parent = asked_parent
     \<and> (\<exists>par pinfo. device_get_object_with_handle d parent = Some par \<and> obj_info par = Some pinfo
          \<and> obj_fmt pinfo = PTP_FMT_ASSOCIATION \<and> file_path par = Some dir)"

lemma add_file_entry:
  assumes "store_index (g_dev s) (store_id info) = Some i" "st = store_list (g_dev s) ! i" "root_path st = Some root"
    "upload_target (g_dev s) st asked_parent (h_parent info) dir"
    "file_size info \<le> free_space (s_info st)" "obj_fmt info \<noteq> PTP_FMT_ASSOCIATION"
    "plain_name (c_env c) name" "util_is_path_len_valid (dir @ ''/'' @ name)" "util_is_path_len_valid (root @ ''/.mtptemp.tmp'')"
  shows "hutil_add_object_entry c info name s =
     Some (upd_store i (st\<lparr>s_info := (s_info st)\<lparr>free_space := free_space (s_info st) - file_size info\<rparr>\<rparr>)
        (s\<lparr>g_next := g_next s + 1, g_ftemp := (g_ftemp s)\<lparr>filepath := Some (root @ ''/.mtptemp.tmp'')\<rparr>\<rparr>),
       MTP_ERROR_NONE, Some (entity_set_object_file_path (new_object (g_next s) info) (dir @ ''/'' @ name)))"
proof -
  have tmp: "util_create_path (length root + length MTP_TEMP_FILE + 2) root MTP_TEMP_FILE = (Some (root @ ''/.mtptemp.tmp''), True)"
    using assms(9) by (simp add: create_path_True MTP_TEMP_FILE_def)
  have body: "add_object_body c info name par i s =
     Some (upd_store i (st\<lparr>s_info := (s_info st)\<lparr>free_space := free_space (s_info st) - file_size info\<rparr>\<rparr>)
        (s\<lparr>g_next := g_next s + 1, g_ftemp := (g_ftemp s)\<lparr>filepath := Some (root @ ''/.mtptemp.tmp'')\<rparr>\<rparr>),
       MTP_ERROR_NONE, Some (entity_set_object_file_path (new_object (g_next s) info) (dir @ ''/'' @ name)))"
    if "parent_dir st par = Some dir" for par
    using that assms(2,3,6) new_path_exact[OF assms(7,8)] tmp by (simp add: add_object_body_def Let_def)
  show ?thesis
    using assms(1,2,4,5) body[of None] body
    by (auto simp: hutil_add_object_entry_def upload_target_def parent_dir_def Let_def not_less[symmetric])
qed

lemma device_get_store_index: "store_index d sid = Some i \<Longrightarrow> device_get_store d sid = Some (store_list d ! i)"
  using index_where_find[of "stores d" "\<lambda>st. s_id st = sid"] index_where_Some[of "\<lambda>st. s_id st = sid" "stores d" i]
  by (auto simp: store_index_def device_get_store_def)

text \<open>The dataset of a host: the fields of the information, a file name and two times.\<close>

lemma construct_file_entry:
  assumes "store_index (g_dev s) sid = Some i" "st = store_list (g_dev s) ! i" "root_path st = Some root" "sid \<noteq> 0"
    "access (s_info st) \<noteq> PTP_STORAGEACCESS_R" "file_size info \<le> free_space (s_info st)" "0 < free_space (s_info st)"
    "free_space (s_info st) \<le> capacity (s_info st)"
    "upload_target (g_dev s) st asked_parent parent dir" "obj_fmt info \<noteq> PTP_FMT_ASSOCIATION" "file_size info < 0x100000000"
    "ptpstring_inv fname" "time_str_ok ct" "time_str_ok mt" "unat n = length (obj_info_bytes info fname ct mt)"
    "e_to8 (c_env c) (takeWhile (\<lambda>u. u \<noteq> 0) (ptpstring_units fname)) = Some name" "plain_name (c_env c) name"
    "util_is_path_len_valid (dir @ ''/'' @ name)" "util_is_path_len_valid (root @ ''/.mtptemp.tmp'')"
  shows "hutil_construct_object_entry c sid asked_parent None (obj_info_bytes info fname ct mt) n s =
     Some (upd_store i (st\<lparr>s_info := (s_info st)\<lparr>free_space := free_space (s_info st) - file_size info\<rparr>\<rparr>)
        (s\<lparr>g_next := g_next s + 1, g_ftemp := (g_ftemp s)\<lparr>filepath := Some (root @ ''/.mtptemp.tmp'')\<rparr>\<rparr>),
       MTP_ERROR_NONE, Some (entity_set_object_file_path (new_object (g_next s) (info\<lparr>store_id := sid, h_parent := parent\<rparr>)) (dir @ ''/'' @ name)))"
proof -
  have "length name \<le> 1024" using assms(17) by (simp add: plain_name_def)
  then have parsed: "entity_parse_raw_obj_info (c_env c) (obj_info_bytes info fname ct mt) n zero_info (MTP_MAX_FILENAME_SIZE + 1) =
      Some (Some (info, name, unat n))"
    using parse_obj_info_bytes[OF assms(12-15), of "c_env c" 1025] assms(11,15,16) by (simp add: util_utf16_to_utf8_def g_strlcpy_def not_le[symmetric])
  have "hutil_add_object_entry c (info\<lparr>store_id := sid, h_parent := parent\<rparr>) name s =
     Some (upd_store i (st\<lparr>s_info := (s_info st)\<lparr>free_space := free_space (s_info st) - file_size info\<rparr>\<rparr>)
        (s\<lparr>g_next := g_next s + 1, g_ftemp := (g_ftemp s)\<lparr>filepath := Some (root @ ''/.mtptemp.tmp'')\<rparr>\<rparr>),
       MTP_ERROR_NONE, Some (entity_set_object_file_path (new_object (g_next s) (info\<lparr>store_id := sid, h_parent := parent\<rparr>)) (dir @ ''/'' @ name)))"
    using add_file_entry[of s "info\<lparr>store_id := sid, h_parent := parent\<rparr>" i st root asked_parent dir c name] assms by simp
  moreover have "(if asked_parent = 0 then default_hparent (g_dev s) else if asked_parent = 0xFFFFFFFF then PTP_OBJECTHANDLE_ROOT else asked_parent) = parent"
    using assms(9) by (auto simp: upload_target_def)
  moreover have "\<not> (free_space (s_info st) = 0 \<or> capacity (s_info st) < free_space (s_info st))" using assms(7,8) by auto
  ultimately show ?thesis
    using device_get_store_index[OF assms(1)] assms(2,4,5) parsed
    by (simp add: hutil_construct_object_entry_def construct_in_store_def Let_def)
qed

lemma upload_target_phase [simp]: "upload_target (g_dev (set_phase ph s)) = upload_target (g_dev s)"
  by (simp add: upload_target_def fun_eq_iff set_phase_def device_get_object_with_handle_def)


section \<open>Witnesses\<close>

text \<open>A storage with a folder that has the handle 1, and a data phase in the temporary file.\<close>

definition upload_store :: mtp_store where
  "upload_store = sample_store\<lparr>s_info := init_store_info\<lparr>capacity := 4096, free_space := 4096\<rparr>\<rparr>"

definition upload_sys :: "u16 \<Rightarrow> u32 list \<Rightarrow> data_4send_object \<Rightarrow> u8 list \<Rightarrow> ram sys" where
  "upload_sys cd ps so body = (asked cd ps)\<lparr>g_dev := mounted_device\<lparr>store_list := [upload_store]\<rparr>, g_next := 4,
     g_fs := [''/media/card/.mtptemp.tmp'' \<mapsto> body], g_hdlr := (g_hdlr (asked cd ps))\<lparr>data4_send_obj := so\<rparr>,
     g_ftemp := idle_temp\<lparr>filepath := Some ''/media/card/.mtptemp.tmp'',
       header_buf := header_bytes (of_nat (12 + length body)) CONTAINER_DATA_BLK cd 7 @ [0]\<rparr>\<rparr>"

definition new_file :: mtp_obj where
  "new_file = \<lparr>obj_handle = 4, obj_info = Some (zero_info\<lparr>store_id := 0x20001, obj_fmt := 0x3801, file_size := 3, h_parent := 1\<rparr>),
     file_path = Some ''/media/card/d/b'', child_array = zero_child_array, propval_list = []\<rparr>"

lemma upload_sel [simp]:
  "usb_cmd (g_hdlr (upload_sys cd ps so body)) = command cd ps" "data4_send_obj (g_hdlr (upload_sys cd ps so body)) = so"
  "g_fs (upload_sys cd ps so body) = [''/media/card/.mtptemp.tmp'' \<mapsto> body]" "g_txq (upload_sys cd ps so body) = []"
  "store_list (g_dev (upload_sys cd ps so body)) = [upload_store]" "num_stores (g_dev (upload_sys cd ps so body)) = 1" "g_next (upload_sys cd ps so body) = 4"
  by (simp_all add: upload_sys_def mounted_device_def)

lemma upload_received: "phase_received (upload_sys cd ps so body) (of_nat (12 + length body)) ''/media/card/.mtptemp.tmp''"
  by (simp add: phase_received_def command_def) (simp add: upload_sys_def)

lemma upload_index: "store_index (g_dev (upload_sys cd ps so body)) 0x20001 = Some 0"
  by (simp add: store_index_def upload_store_def sample_store_def card_store_def)

theorem sent_object_stored_witness:
  "\<exists>s' objs. send_object ram_conf (upload_sys PTP_OPCODE_SENDOBJECT [] (zero_send_object\<lparr>so_obj := Some new_file, so_store_id := 0x20001\<rparr>) [1, 2, 3]) = Some s'
     \<and> g_fs s' ''/media/card/d/b'' = Some [1, 2, 3] \<and> g_txq s' = [resp_pkt PTP_RESPONSE_OK 7 []]
     \<and> store_list (g_dev s') = [upload_store\<lparr>obj_list := objs\<rparr>] \<and> map obj_handle objs = [1, 2, 3, 4]"
proof -
  let ?so = "zero_send_object\<lparr>so_obj := Some new_file, so_store_id := 0x20001\<rparr>"
  let ?s = "upload_sys PTP_OPCODE_SENDOBJECT [] ?so [1, 2, 3]"
  have par: "any_param ?s [0, 1, 2] = Some False"
    by (simp add: any_param_def get_param_def hdlr_get_param_cmd_container_def command_def)
  have stat: "\<exists>si. os_stat (c_os ram_conf) (g_fs ?s) ''/media/card/.mtptemp.tmp'' = Some si \<and> st_size si = 3"
    by (simp add: ram_conf_def ram_env_def ram_os_def)
  then obtain si where si: "os_stat (c_os ram_conf) (g_fs ?s) ''/media/card/.mtptemp.tmp'' = Some si" "st_size si = 3" by blast
  have mv: "util_file_move (c_os ram_conf) (g_fs ?s) ''/media/card/.mtptemp.tmp'' ''/media/card/d/b'' = ([''/media/card/d/b'' \<mapsto> [1, 2, 3]], True, None)"
    by (simp add: util_file_move_def ram_conf_def ram_env_def ram_os_def ram_rename_def)
  have ok: "objs_ok (unat (obj_handle new_file)) (obj_list (store_list (g_dev ?s) ! 0))"
    using sample_ok by (simp add: new_file_def upload_store_def)
  have "phase_received ?s 15 ''/media/card/.mtptemp.tmp''" using upload_received[of PTP_OPCODE_SENDOBJECT "[]" ?so "[1, 2, 3]"] by simp
  from sent_object_stored[where obj = new_file and p = "''/media/card/d/b''", OF ram_accepting par this _ si(1) _ _ _ _ _ _ mv ok]
    si(2) upload_index[of PTP_OPCODE_SENDOBJECT "[]" ?so "[1, 2, 3]"]
  obtain s' objs where "send_object ram_conf ?s = Some s'" "g_fs s' = [''/media/card/d/b'' \<mapsto> [1, 2, 3]]" "g_txq s' = [resp_pkt PTP_RESPONSE_OK 7 []]"
    "store_list (g_dev s') = [upload_store\<lparr>obj_list := objs\<rparr>]" "map obj_key objs = map obj_key (obj_list upload_store) @ [obj_key new_file]"
    by (auto simp: new_file_def zero_info_def command_def)
  moreover have "map obj_handle objs = map fst (map obj_key objs)" by (simp add: comp_def obj_key_def)
  ultimately show ?thesis
    by (intro exI[of _ s'] exI[of _ objs]) (simp add: upload_store_def sample_store_def sample_obj_def obj_key_def new_file_def)
qed

text \<open>The file a in the folder with the handle 1.\<close>

definition sent_times :: ptp_string where
  "sent_times = \<lparr>num_chars = 17, str = replicate 20 0\<rparr>"

definition sent_info :: obj_info where
  "sent_info = zero_info\<lparr>obj_fmt := 0x3801, file_size := 3\<rparr>"

lemma ram_plain_a: "plain_name (c_env ram_conf) ''a''" "e_to8 (c_env ram_conf) (takeWhile (\<lambda>u. u \<noteq> 0) (ptpstring_units demo_name)) = Some ''a''"
  by (simp_all add: plain_name_def ram_conf_def ram_env_def ascii_to16_def ascii_text_def wchar_of_def demo_name_def ptpstring_units_def)
    (simp_all add: char_of_def bit_0)


end
