(* ===== verification/Renaming.thy ===== *)
theory Renaming
  imports Uploading
begin

text \<open>
  SetObjectPropValue for the file name: the file is moved, the object gets its
  new path, and with a folder the path of every object below it changes.
\<close>

section \<open>Objects up to their paths\<close>

text \<open>The objects of a storage with the paths a function gives to their handles.\<close>

definition paths_by :: "(u32 \<Rightarrow> string option) \<Rightarrow> mtp_obj list \<Rightarrow> mtp_obj list" where
  "paths_by f objs = map (\<lambda>ob. ob\<lparr>file_path := f (obj_handle ob)\<rparr>) objs"

definition path_of :: "mtp_obj list \<Rightarrow> u32 \<Rightarrow> string option" where
  "path_of objs h = Option.bind (find (\<lambda>ob. obj_handle ob = h) objs) file_path"

lemma paths_by_handles [simp]: "handles_of (paths_by f objs) = handles_of objs"
  by (simp add: paths_by_def comp_def)

lemma has_parent_path [simp]: "has_parent h (ob\<lparr>file_path := p\<rparr>) = has_parent h ob"
  by (simp add: has_parent_def)

lemma paths_by_children [simp]: "handles_of (filter (has_parent h) (paths_by f objs)) = handles_of (filter (has_parent h) objs)"
  by (simp add: paths_by_def filter_map comp_def)

lemma path_of_handle: "distinct (handles_of objs) \<Longrightarrow> ob \<in> set objs \<Longrightarrow> path_of objs (obj_handle ob) = file_path ob"
  using find_handle[of objs "obj_handle ob" ob] by (simp add: path_of_def)

lemma paths_by_self: "distinct (handles_of objs) \<Longrightarrow> paths_by (path_of objs) objs = objs"
  by (auto simp: paths_by_def path_of_handle intro: map_idI)

lemma paths_by_cong: "(\<And>x. x \<in> set (handles_of objs) \<Longrightarrow> f x = g x) \<Longrightarrow> paths_by f objs = paths_by g objs"
  by (simp add: paths_by_def)

lemma paths_by_update:
  assumes "distinct (handles_of objs)"
  shows "update_obj h (\<lambda>ob. entity_set_object_file_path ob d) (paths_by f objs) = paths_by (f(h := Some d)) objs"
proof -
  have "distinct (handles_of (paths_by f objs))" using assms by simp
  from update_obj_map[OF this] show ?thesis by (simp add: paths_by_def entity_set_object_file_path_def)
qed

lemma paths_by_find:
  assumes "distinct (handles_of objs)" "ob \<in> set objs"
  shows "entity_get_object_from_store (st\<lparr>obj_list := paths_by f objs\<rparr>) (obj_handle ob) = Some (ob\<lparr>file_path := f (obj_handle ob)\<rparr>)"
  using assms by (induction objs) (auto simp: paths_by_def entity_get_object_from_store_def)

section \<open>Trees of paths\<close>

definition parent_rel :: "mtp_obj list \<Rightarrow> (u32 \<times> u32) set" where
  "parent_rel objs = {(p, obj_handle ob) | p ob. ob \<in> set objs \<and> has_parent p ob}"

definition subtree :: "mtp_obj list \<Rightarrow> u32 \<Rightarrow> u32 set" where
  "subtree objs h = {x. (h, x) \<in> (parent_rel objs)\<^sup>+}"

text \<open>Objects whose parents are older folders and whose paths extend the paths of their parents.\<close>

definition path_tree :: "mtp_obj list \<Rightarrow> bool" where
  "path_tree objs \<longleftrightarrow> distinct (handles_of objs) \<and> length objs < 65536
     \<and> (\<forall>ob\<in>set objs. \<exists>info p. obj_info ob = Some info \<and> file_path ob = Some p \<and> length p \<le> 1043
          \<and> unat (h_parent info) < unat (obj_handle ob)
          \<and> (\<forall>par\<in>set objs. obj_handle par = h_parent info \<longrightarrow>
               (\<exists>q n pinfo. file_path par = Some q \<and> p = q @ n \<and> obj_info par = Some pinfo \<and> obj_fmt pinfo = PTP_FMT_ASSOCIATION)))"

lemma parent_older: "path_tree objs \<Longrightarrow> (p, x) \<in> parent_rel objs \<Longrightarrow> unat p < unat x"
  by (fastforce simp: path_tree_def parent_rel_def has_parent_def split: option.splits)

lemma subtree_younger: "path_tree objs \<Longrightarrow> x \<in> subtree objs h \<Longrightarrow> unat h < unat x"
proof -
  assume t: "path_tree objs" and "x \<in> subtree objs h"
  then have "(h, x) \<in> (parent_rel objs)\<^sup>+" by (simp add: subtree_def)
  then show ?thesis by induction (use parent_older[OF t] in \<open>auto intro: less_trans\<close>)
qed

lemma same_handle: "distinct (handles_of objs) \<Longrightarrow> ob \<in> set objs \<Longrightarrow> ob' \<in> set objs \<Longrightarrow> obj_handle ob = obj_handle ob' \<Longrightarrow> ob = ob'"
  by (metis distinct_map inj_onD)

lemma parent_single:
  assumes "path_tree objs"
  shows "single_valued ((parent_rel objs)\<inverse>)"
proof -
  have "distinct (handles_of objs)" using assms by (simp add: path_tree_def)
  note same = same_handle[OF this]
  show ?thesis
    by (auto simp: single_valued_def parent_rel_def has_parent_def split: option.splits) (metis option.inject same)
qed

text \<open>The subtrees of two children of the same folder have no object in common.\<close>

lemma siblings_apart:
  assumes "path_tree objs" "(h, c) \<in> parent_rel objs" "(h, c') \<in> parent_rel objs" "c \<noteq> c'"
    "x \<in> insert c (subtree objs c)"
  shows "x \<notin> insert c' (subtree objs c')"
proof
  assume "x \<in> insert c' (subtree objs c')"
  with assms(5) have "(x, c) \<in> ((parent_rel objs)\<inverse>)\<^sup>*" "(x, c') \<in> ((parent_rel objs)\<inverse>)\<^sup>*"
    by (auto simp: subtree_def rtrancl_converse dest: trancl_into_rtrancl)
  from single_valued_confluent[OF parent_single[OF assms(1)] this] assms(4)
  have "c' \<in> subtree objs c \<or> c \<in> subtree objs c'"
    by (auto simp: subtree_def rtrancl_converse rtrancl_eq_or_trancl)
  moreover have "d' \<notin> subtree objs d" if hd: "(h, d) \<in> parent_rel objs" "(h, d') \<in> parent_rel objs" for d d'
  proof
    assume "d' \<in> subtree objs d"
    then obtain p where p: "(p, d') \<in> parent_rel objs" "p = d \<or> p \<in> subtree objs d"
      by (auto simp: subtree_def elim: tranclE)
    with hd(2) parent_single[OF assms(1)] have "p = h" by (auto simp: single_valued_def)
    with p(2) parent_older[OF assms(1) hd(1)] subtree_younger[OF assms(1)] show False by force
  qed
  ultimately show False using assms(2,3) by blast
qed

lemma subtree_children: "subtree objs h = (\<Union>c\<in>{c. (h, c) \<in> parent_rel objs}. insert c (subtree objs c))"
  by (auto simp: subtree_def dest: tranclD rtranclD intro: trancl_into_trancl2)

lemma children_rel: "set (handles_of (filter (has_parent h) objs)) = {c. (h, c) \<in> parent_rel objs}"
  by (auto simp: parent_rel_def)

lemma path_of_child:
  assumes "path_tree objs" "(h, c) \<in> parent_rel objs" "path_of objs h = Some p"
  shows "\<exists>n. path_of objs c = Some (p @ n)"
proof -
  have d: "distinct (handles_of objs)" using assms(1) by (simp add: path_tree_def)
  obtain par where par: "par \<in> set objs" "obj_handle par = h" "file_path par = Some p"
    using assms(3) by (auto simp: path_of_def bind_eq_Some_conv find_handle[OF d])
  obtain ob where ob: "ob \<in> set objs" "obj_handle ob = c" "has_parent h ob" using assms(2) by (auto simp: parent_rel_def)
  with assms(1) par obtain n where "file_path ob = Some (p @ n)"
    by (fastforce simp: path_tree_def has_parent_def split: option.splits)
  with path_of_handle[OF d ob(1)] ob(2) show ?thesis by simp
qed

lemma path_of_subtree:
  assumes "path_tree objs" "x \<in> subtree objs h" "path_of objs h = Some p"
  shows "\<exists>n. path_of objs x = Some (p @ n)"
proof -
  from assms(2) have "(h, x) \<in> (parent_rel objs)\<^sup>+" by (simp add: subtree_def)
  then show ?thesis
  proof induction
    case (step y z)
    then obtain n where "path_of objs y = Some (p @ n)" by blast
    from path_of_child[OF assms(1) step(2) this] show ?case by auto
  qed (rule path_of_child[OF assms(1) _ assms(3)])
qed

lemma path_of_short: "path_tree objs \<Longrightarrow> path_of objs x = Some p \<Longrightarrow> length p \<le> 1043"
proof -
  assume t: "path_tree objs" and "path_of objs x = Some p"
  then obtain ob where "ob \<in> set objs" "file_path ob = Some p"
    using find_handle[of objs x] by (auto simp: path_of_def bind_eq_Some_conv path_tree_def)
  with t show ?thesis by (fastforce simp: path_tree_def)
qed

lemma leaf_subtree:
  assumes "path_tree objs" "ob \<in> set objs" "obj_info ob = Some info" "obj_fmt info \<noteq> PTP_FMT_ASSOCIATION"
  shows "subtree objs (obj_handle ob) = {}"
proof -
  have "(obj_handle ob, c) \<notin> parent_rel objs" for c
  proof
    assume "(obj_handle ob, c) \<in> parent_rel objs"
    then obtain ch where "ch \<in> set objs" "has_parent (obj_handle ob) ch" by (auto simp: parent_rel_def)
    with assms show False by (fastforce simp: path_tree_def has_parent_def split: option.splits)
  qed
  then show ?thesis by (auto simp: subtree_def dest: tranclD)
qed

lemma after_first_prefix: "after_first src (src @ n) = Some n"
  by (cases "src @ n") (simp_all, metis append_eq_conv_conj)

section \<open>Setting the paths\<close>

definition rebase :: "string \<Rightarrow> string \<Rightarrow> u32 set \<Rightarrow> (u32 \<Rightarrow> string option) \<Rightarrow> u32 \<Rightarrow> string option" where
  "rebase src dest D f = (\<lambda>x. if x \<in> D then map_option (\<lambda>p. dest @ drop (length src) p) (f x) else f x)"

definition fits :: "mtp_obj list \<Rightarrow> u32 \<Rightarrow> string \<Rightarrow> string \<Rightarrow> bool" where
  "fits objs h src dest \<longleftrightarrow> length dest \<le> 1043 \<and> (\<forall>x\<in>subtree objs h. \<forall>p. path_of objs x = Some p \<longrightarrow> length dest + (length p - length src) \<le> 1043)"

lemma fits_child:
  assumes t: "path_tree objs" and h: "path_of objs h = Some src" and fit: "fits objs h src dest" and hc: "(h, c) \<in> parent_rel objs"
    and n: "path_of objs c = Some (src @ n)"
  shows "fits objs c (src @ n) (dest @ n)"
proof -
  have sub: "insert c (subtree objs c) \<subseteq> subtree objs h" using hc by (auto simp: subtree_def intro: trancl_into_trancl2)
  have "length dest + length n + (length p - length (src @ n)) \<le> 1043" if x: "x \<in> subtree objs c" "path_of objs x = Some p" for x p
  proof -
    obtain m where "p = src @ n @ m" using path_of_subtree[OF t x(1) n] x(2) by auto
    moreover have "length dest + (length p - length src) \<le> 1043" using fit x sub by (auto simp: fits_def)
    ultimately show ?thesis by simp
  qed
  moreover have "length dest + length n \<le> 1043" using fit n sub by (auto simp: fits_def)
  ultimately show ?thesis by (simp add: fits_def)
qed

lemma set_children_ok:
  assumes t: "path_tree objs" and h: "path_of objs h = Some src" and fit: "fits objs h src dest"
    and rec: "\<And>c p d g. (h, c) \<in> parent_rel objs \<Longrightarrow> path_of objs c = Some p \<Longrightarrow> fits objs c p d \<Longrightarrow> (\<forall>x\<in>subtree objs c. g x = path_of objs x) \<Longrightarrow>
        rec c p d (st\<lparr>obj_list := paths_by g objs\<rparr>) = Some (st\<lparr>obj_list := paths_by (rebase p d (subtree objs c) g) objs\<rparr>, True)"
    and "set hs \<subseteq> {c. (h, c) \<in> parent_rel objs}" "distinct hs" "\<forall>c\<in>set hs. \<forall>x\<in>insert c (subtree objs c). f x = path_of objs x"
  shows "set_children rec src dest hs (st\<lparr>obj_list := paths_by f objs\<rparr>)
     = Some (st\<lparr>obj_list := paths_by (rebase src dest (\<Union>c\<in>set hs. insert c (subtree objs c)) f) objs\<rparr>)"
  using assms(5-7)
proof (induction hs arbitrary: f)
  case (Cons c hs)
  have d: "distinct (handles_of objs)" using t by (simp add: path_tree_def)
  have hc: "(h, c) \<in> parent_rel objs" using Cons.prems(1) by simp
  obtain n where n: "path_of objs c = Some (src @ n)" using path_of_child[OF t hc h] by blast
  obtain ob where ob: "ob \<in> set objs" "obj_handle ob = c" using hc by (auto simp: parent_rel_def)
  have c: "c \<in> subtree objs h" using hc by (auto simp: subtree_def)
  have len: "length (src @ n) \<le> 1043" "length dest + length n \<le> 1043" "length dest \<le> 1043"
    using path_of_short[OF t n] fit c n by (auto simp: fits_def)
  have self: "c \<notin> subtree objs c" using subtree_younger[OF t] by blast
  have fit': "fits objs c (src @ n) (dest @ n)" using fits_child[OF t h fit hc n] .
  let ?g = "f(c := Some (dest @ n))"
  let ?f2 = "rebase (src @ n) (dest @ n) (subtree objs c) ?g"
  have sub_f: "\<forall>x\<in>subtree objs c. ?g x = path_of objs x" using Cons.prems(3) self by auto
  obtain info where info: "obj_info ob = Some info" using t ob(1) by (fastforce simp: path_tree_def)
  have look: "entity_get_object_from_store (st\<lparr>obj_list := paths_by f objs\<rparr>) c = Some (ob\<lparr>file_path := Some (src @ n)\<rparr>)"
    using paths_by_find[OF d ob(1), where st = st and f = f] ob(2) Cons.prems(3) n by simp
  have f2: "paths_by ?g objs = paths_by ?f2 objs" if "obj_fmt info \<noteq> PTP_FMT_ASSOCIATION"
    using leaf_subtree[OF t ob(1) info that] ob(2) by (simp add: rebase_def fun_upd_def)
  have step: "set_children rec src dest (c # hs) (st\<lparr>obj_list := paths_by f objs\<rparr>) = set_children rec src dest hs (st\<lparr>obj_list := paths_by ?f2 objs\<rparr>)"
    using look info len rec[where g = ?g, OF hc n fit' sub_f] f2
    by (simp add: after_first_prefix g_strlcpy_def paths_by_update[OF d] Let_def del: fun_upd_apply)
  have apart: "x \<notin> insert c (subtree objs c)" if "c' \<in> set hs" "x \<in> insert c' (subtree objs c')" for c' x
    using siblings_apart[OF t _ hc _ that(2)] that(1) Cons.prems(1,2) by auto
  then have "\<forall>c'\<in>set hs. \<forall>x\<in>insert c' (subtree objs c'). ?f2 x = path_of objs x" using Cons.prems(3) by (auto simp: rebase_def)
  from Cons.IH[OF _ _ this] Cons.prems(1,2) step
  have "set_children rec src dest (c # hs) (st\<lparr>obj_list := paths_by f objs\<rparr>)
     = Some (st\<lparr>obj_list := paths_by (rebase src dest (\<Union>c\<in>set hs. insert c (subtree objs c)) ?f2) objs\<rparr>)" by simp
  also have "rebase src dest (\<Union>c\<in>set hs. insert c (subtree objs c)) ?f2 = rebase src dest (\<Union>c\<in>set (c # hs). insert c (subtree objs c)) f"
  proof (rule ext)
    fix x
    consider "x = c" | "x \<in> subtree objs c" | "x \<notin> insert c (subtree objs c)" by blast
    then show "rebase src dest (\<Union>c\<in>set hs. insert c (subtree objs c)) ?f2 x = rebase src dest (\<Union>c\<in>set (c # hs). insert c (subtree objs c)) f x"
    proof cases
      case 1
      then show ?thesis using self apart Cons.prems(3) n by (auto simp: rebase_def)
    next
      case 2
      obtain m where "path_of objs x = Some (src @ n @ m)" using path_of_subtree[OF t 2 n] by auto
      then show ?thesis using 2 self apart Cons.prems(3) by (auto simp: rebase_def)
    next
      case 3
      then show ?thesis by (auto simp: rebase_def)
    qed
  qed
  finally show ?case .
qed (simp add: rebase_def)

lemma tree_children:
  assumes "path_tree objs" "h \<in> set (handles_of objs)"
  shows "\<exists>a. entity_get_child_handles (st\<lparr>obj_list := paths_by f objs\<rparr>) h (prop_alloc_ptparray UINT32_TYPE) = Some a
     \<and> ptparray_elems a = Some (handles_of (filter (has_parent h) objs))"
  using child_handles_length[of "st\<lparr>obj_list := paths_by f objs\<rparr>" h] assms by (simp add: path_tree_def paths_by_def comp_def filter_map)

lemma few_children: "path_tree objs \<Longrightarrow> length (handles_of (filter (has_parent h) objs)) < 65536"
  using le_less_trans[OF length_filter_le[of "has_parent h" objs]] by (simp add: path_tree_def)

lemma children_facts:
  assumes "path_tree objs"
  shows "distinct (handles_of (filter (has_parent h) objs))" "set (handles_of (filter (has_parent h) objs)) = {c. (h, c) \<in> parent_rel objs}"
  using assms children_rel[of h objs] by (simp_all add: path_tree_def distinct_map_filter)

lemma set_child_path_ok:
  assumes t: "path_tree objs"
  shows "h \<in> set (handles_of objs) \<Longrightarrow> path_of objs h = Some src \<Longrightarrow> fits objs h src dest \<Longrightarrow> (\<forall>x\<in>subtree objs h. f x = path_of objs x) \<Longrightarrow>
    (\<forall>x\<in>set (handles_of objs). unat x < unat h + fuel) \<Longrightarrow> 
     entity_set_child_object_path fuel h src dest (st\<lparr>obj_list := paths_by f objs\<rparr>)
     = Some (st\<lparr>obj_list := paths_by (rebase src dest (subtree objs h) f) objs\<rparr>, True)"
proof (induction fuel arbitrary: h src dest f)
  case (Suc fuel)
  let ?hs = "handles_of (filter (has_parent h) objs)"
  have rec: "entity_set_child_object_path fuel c p d (st\<lparr>obj_list := paths_by g objs\<rparr>)
      = Some (st\<lparr>obj_list := paths_by (rebase p d (subtree objs c) g) objs\<rparr>, True)"
    if "(h, c) \<in> parent_rel objs" "path_of objs c = Some p" "fits objs c p d" "\<forall>x\<in>subtree objs c. g x = path_of objs x" for c p d g
  proof (rule Suc.IH[OF _ that(2-4)])
    show "c \<in> set (handles_of objs)" using that(1) by (auto simp: parent_rel_def)
    show "\<forall>x\<in>set (handles_of objs). unat x < unat c + fuel" using Suc.prems(5) parent_older[OF t that(1)] by force
  qed
  have all: "(\<Union>c\<in>set ?hs. insert c (subtree objs c)) = subtree objs h"
    unfolding children_facts(2)[OF t] by (rule subtree_children[symmetric])
  have "set ?hs \<subseteq> {c. (h, c) \<in> parent_rel objs}" by (simp only: children_facts(2)[OF t])
  moreover have "\<forall>c\<in>set ?hs. \<forall>x\<in>insert c (subtree objs c). f x = path_of objs x" using Suc.prems(4) unfolding all[symmetric] by blast
  ultimately have "set_children (entity_set_child_object_path fuel) src dest ?hs (st\<lparr>obj_list := paths_by f objs\<rparr>)
     = Some (st\<lparr>obj_list := paths_by (rebase src dest (subtree objs h) f) objs\<rparr>)"
    unfolding all[symmetric] by (intro set_children_ok[OF t Suc.prems(2,3)] rec children_facts(1)[OF t]) assumption+
  moreover obtain a where "entity_get_child_handles (st\<lparr>obj_list := paths_by f objs\<rparr>) h (prop_alloc_ptparray UINT32_TYPE) = Some a"
    "ptparray_elems a = Some ?hs" using tree_children[OF t Suc.prems(1)] by blast
  moreover have "entity_get_object_from_store (st\<lparr>obj_list := paths_by f objs\<rparr>) h \<noteq> None"
    using Suc.prems(1) by (simp add: get_object_None)
  ultimately show ?case using few_children[OF t, of h] by simp
qed auto

section \<open>The check before\<close>

text \<open>
  The probe renames a file to itself; a name is measured after the conversion
  to UTF-16.
\<close>

definition probing :: "'fs conf \<Rightarrow> 'fs \<Rightarrow> mtp_obj list \<Rightarrow> bool" where
  "probing c fs objs \<longleftrightarrow> (\<forall>x p. path_of objs x = Some p \<longrightarrow> os_rename (c_os c) fs p p = (fs, None) \<and> (\<exists>n\<le>1043. wide_len c p = Some n))"

lemma probingD: "probing c fs objs \<Longrightarrow> path_of objs x = Some p \<Longrightarrow> util_is_file_opened (c_os c) fs p = (fs, False) \<and> (\<exists>n\<le>1043. wide_len c p = Some n)"
  by (auto simp: probing_def util_is_file_opened_def)

lemma check_children_ok:
  assumes t: "path_tree objs" and h: "path_of objs h = Some src" and fit: "fits objs h src dest" and pr: "probing c fs objs" and st: "obj_list st = objs"
    and rec: "\<And>ob p d. ob \<in> set objs \<Longrightarrow> (h, obj_handle ob) \<in> parent_rel objs \<Longrightarrow> path_of objs (obj_handle ob) = Some p \<Longrightarrow>
        fits objs (obj_handle ob) p d \<Longrightarrow> rec ob p d fs = Some (fs, True)"
    and "set hs \<subseteq> {x. (h, x) \<in> parent_rel objs}"
  shows "check_children c rec st src dest hs fs = Some (fs, True)"
  using assms(7)
proof (induction hs)
  case (Cons x hs)
  have d: "distinct (handles_of objs)" using t by (simp add: path_tree_def)
  have hx: "(h, x) \<in> parent_rel objs" using Cons.prems by simp
  obtain n where n: "path_of objs x = Some (src @ n)" using path_of_child[OF t hx h] by blast
  obtain ob where ob: "ob \<in> set objs" "obj_handle ob = x" using hx by (auto simp: parent_rel_def)
  have p: "file_path ob = Some (src @ n)" using path_of_handle[OF d ob(1)] ob(2) n by simp
  have look: "entity_get_object_from_store st x = Some ob" using find_handle[OF d, of x ob] ob st by (simp add: entity_get_object_from_store_def)
  have len: "length src + length n \<le> 1043" "length dest + length n \<le> 1043" "length dest \<le> 1043"
    using path_of_short[OF t n] fit hx n by (auto simp: fits_def subtree_def)
  obtain k where k: "k \<le> 1043" "wide_len c (src @ n) = Some k" using probingD[OF pr n] by auto
  obtain k' where k': "k' \<le> 1043" "wide_len c src = Some k'" using probingD[OF pr h] by auto
  have fit': "fits objs x (src @ n) (dest @ n)" using fits_child[OF t h fit hx n] .
  have "rec ob (src @ n) (dest @ n) fs = Some (fs, True)" using rec[OF ob(1)] hx n fit' ob(2) by simp
  with Cons look p k k' len probingD[OF pr n] show ?case
    by (simp add: child_dest_def after_first_prefix g_strlcpy_def)
qed simp

lemma check_child_path_ok:
  assumes t: "path_tree objs" and pr: "probing c fs objs" and dev: "device_get_store_containing_obj d = (\<lambda>x. if x \<in> set (handles_of objs) then Some i else None)"
    "obj_list (store_list d ! i) = objs"
  shows "ob \<in> set objs \<Longrightarrow> path_of objs (obj_handle ob) = Some src \<Longrightarrow> fits objs (obj_handle ob) src dest \<Longrightarrow>
    (\<forall>x\<in>set (handles_of objs). unat x < unat (obj_handle ob) + fuel) \<Longrightarrow> entity_check_child_obj_path fuel c d ob src dest fs = Some (fs, True)"
proof (induction fuel arbitrary: ob src dest)
  case (Suc fuel)
  let ?h = "obj_handle ob"
  let ?hs = "handles_of (filter (has_parent ?h) objs)"
  have rec: "entity_check_child_obj_path fuel c d ch p e fs = Some (fs, True)"
    if "ch \<in> set objs" "(?h, obj_handle ch) \<in> parent_rel objs" "path_of objs (obj_handle ch) = Some p" "fits objs (obj_handle ch) p e" for ch p e
    using Suc.prems(4) parent_older[OF t that(2)] by (intro Suc.IH[OF that(1,3,4)]) force
  have "check_children c (entity_check_child_obj_path fuel c d) (store_list d ! i) src dest ?hs fs = Some (fs, True)"
    using children_facts(2)[OF t, of ?h] by (intro check_children_ok[where objs = objs and h = ?h] t Suc.prems(2,3) pr dev(2) rec) simp_all
  moreover obtain a where "entity_get_child_handles (store_list d ! i) ?h (prop_alloc_ptparray UINT32_TYPE) = Some a" "ptparray_elems a = Some ?hs"
    using child_handles_length[of "store_list d ! i" ?h] t Suc.prems(1) dev(2) by (auto simp: path_tree_def)
  moreover have "length src \<le> 1043" "length dest \<le> 1043" using path_of_short[OF t Suc.prems(2)] Suc.prems(3) by (simp_all add: fits_def)
  ultimately show ?case using few_children[OF t, of ?h] dev(1) Suc.prems(1) by simp
qed auto

section \<open>The command\<close>

text \<open>A storage that is the only one of the device.\<close>

lemma only_store:
  assumes "stores d = [st]"
  shows "device_get_store_containing_obj d = (\<lambda>x. if x \<in> set (handles_of (obj_list st)) then Some 0 else None)"
    "store_list d ! 0 = st" "device_get_object_with_handle d = entity_get_object_from_store st" "0 < length (store_list d)"
proof -
  have "\<exists>rest. store_list d = st # rest" using assms by (cases "store_list d"; cases "unat (num_stores d)") auto
  then show "store_list d ! 0 = st" "0 < length (store_list d)" by auto
  show "device_get_store_containing_obj d = (\<lambda>x. if x \<in> set (handles_of (obj_list st)) then Some 0 else None)"
    using assms by (auto simp: device_get_store_containing_obj_def fun_eq_iff get_object_None)
  show "device_get_object_with_handle d = entity_get_object_from_store st"
    using assms by (auto simp: device_get_object_with_handle_def fun_eq_iff split: option.splits)
qed

lemma rename_object_ok:
  assumes t: "path_tree (obj_list st)" and pr: "probing c (g_fs s) (obj_list st)" and d: "stores (g_dev s) = [st]"
    and ob: "ob \<in> set (obj_list st)" "file_path ob = Some src"
    and fit: "fits (obj_list st) (obj_handle ob) src dest" and ext: "strcasecmp_eq (extension src) (extension dest)"
    and mv: "util_file_move (c_os c) (g_fs s) src dest = (fs', True, er)" and fuel: "\<forall>x\<in>set (handles_of (obj_list st)). unat x < c_fuel c"
  shows "rename_object c ob src dest s =
     Some (upd_store 0 (st\<lparr>obj_list := paths_by (rebase src dest (insert (obj_handle ob) (subtree (obj_list st) (obj_handle ob))) (path_of (obj_list st))) (obj_list st)\<rparr>)
       (s\<lparr>g_fs := fs', g_moved := src\<rparr>), MTP_ERROR_NONE)"
proof -
  let ?objs = "obj_list st" and ?h = "obj_handle ob"
  let ?f = "(path_of ?objs)(?h := Some dest)"
  note o = only_store[OF d]
  have dist: "distinct (handles_of ?objs)" using t by (simp add: path_tree_def)
  have h: "?h \<in> set (handles_of ?objs)" "path_of ?objs ?h = Some src" using ob path_of_handle[OF dist ob(1)] by simp_all
  have bound: "\<forall>x\<in>set (handles_of ?objs). unat x < unat ?h + c_fuel c" using fuel by force
  have self: "?h \<notin> subtree ?objs ?h" using subtree_younger[OF t] by blast
  have check: "entity_check_child_obj_path (c_fuel c) c (g_dev s) ob src dest (g_fs s) = Some (g_fs s, True)"
    by (rule check_child_path_ok[OF t pr o(1) _ ob(1) h(2) fit bound]) (simp add: o(2))
  have st1: "st\<lparr>obj_list := update_obj ?h (\<lambda>ob. entity_set_object_file_path ob dest) ?objs\<rparr> = st\<lparr>obj_list := paths_by ?f ?objs\<rparr>"
    using paths_by_update[OF dist, of ?h dest "path_of ?objs"] paths_by_self[OF dist] by simp
  have "\<forall>x\<in>subtree ?objs ?h. ?f x = path_of ?objs x" using self by auto
  from set_child_path_ok[OF t h fit this bound, of st]
  have "entity_set_child_object_path (c_fuel c) ?h src dest (st\<lparr>obj_list := paths_by ?f ?objs\<rparr>)
      = Some (st\<lparr>obj_list := paths_by (rebase src dest (subtree ?objs ?h) ?f) ?objs\<rparr>, True)" .
  moreover have "rebase src dest (subtree ?objs ?h) ?f = rebase src dest (insert ?h (subtree ?objs ?h)) (path_of ?objs)"
    using self h(2) by (auto simp: rebase_def fun_eq_iff)
  moreover have "g_strlcpy src (MTP_MAX_PATHNAME_SIZE + 1) = src" using path_of_short[OF t h(2)] by (simp add: g_strlcpy_def)
  ultimately show ?thesis
    using check st1 mv ext o h(1) by (simp add: rename_object_def Let_def)
qed

text \<open>C12: a SetObjectPropValue that names a new file name moves the file or folder to the path with this name in the
  same folder and answers OK.  Exactly the object and all objects below it get the new path in place of the old one
  as the front of their paths; all other objects, and everything but the paths, stay as they were.\<close>

theorem object_renamed:
  assumes "accepting c" "probing c (fst (os_remove (c_os c) (g_fs s) t)) (obj_list st)" "get_param s 0 = Some (obj_handle ob)" "get_param s 1 = Some (ucast MTP_OBJ_PROPERTYCODE_OBJECTFILENAME)"
    and "any_param s [2] = Some False" "phase_received s l t" "os_content (c_os c) (g_fs s) t = Inl (ptpstring_bytes nm, bad)"
    and "unat l = 12 + length (ptpstring_bytes nm)" "ptpstring_inv nm"
    and "e_to8 (c_env c) (takeWhile (\<lambda>u. u \<noteq> 0) (ptpstring_units nm)) = Some name" "length name \<le> 1024"
    and "stores (g_dev s) = [st]" "path_tree (obj_list st)" "ob \<in> set (obj_list st)" "file_path ob = Some src"
    and "src = dir @ ''/'' @ old" "CHR ''/'' \<notin> set old" "dest = dir @ ''/'' @ name" "util_is_path_len_valid dest"
    and "fits (obj_list st) (obj_handle ob) src dest" "\<not> strcasecmp_eq src dest" "strcasecmp_eq (extension src) (extension dest)"
    and "prop_get_obj_prop_desc (g_props s) (ucast MTP_OBJ_PROPERTYCODE_OBJECTFILENAME) = Some pd" "get_set (propinfo pd) \<noteq> PTP_PROPGETSET_GETONLY"
    and "util_file_move (c_os c) (fst (os_remove (c_os c) (g_fs s) t)) src dest = (fs', True, er)"
    and "\<forall>x\<in>set (handles_of (obj_list st)). unat x < c_fuel c"
  shows "\<exists>s'. set_object_prop_value c s = Some s' \<and> g_fs s' = fs'
     \<and> g_txq s' = g_txq s @ [resp_pkt PTP_RESPONSE_OK (tid (usb_cmd (g_hdlr s))) []] \<and> phase (g_dev s') = DEVICE_PHASE_IDLE
     \<and> store_list (g_dev s') = (store_list (g_dev s))[0 := st\<lparr>obj_list := paths_by (\<lambda>x.
          if x \<in> insert (obj_handle ob) (subtree (obj_list st) (obj_handle ob))
          then map_option (\<lambda>p. dest @ drop (length src) p) (path_of (obj_list st) x) else path_of (obj_list st) x) (obj_list st)\<rparr>]"
proof -
  let ?s0 = "set_phase DEVICE_PHASE_DATAOUT s"
  define s1 where "s1 = ?s0\<lparr>g_fs := fst (os_remove (c_os c) (g_fs s) t), g_ftemp := (g_ftemp s)\<lparr>filepath := None, data_size := 0, data_count := 0\<rparr>\<rparr>"
  have sel: "g_fs s1 = fst (os_remove (c_os c) (g_fs s) t)" "store_list (g_dev s1) = store_list (g_dev s)" "num_stores (g_dev s1) = num_stores (g_dev s)"
    "g_props s1 = g_props s" "g_txq s1 = g_txq s" "g_hdlr s1 = g_hdlr s" "s1\<lparr>g_fs := g_fs s1\<rparr> = s1"
    by (simp_all add: s1_def)
  have n: "unat (num_chars nm) \<le> 255" "length (str nm) = 255" using unat_u8_less[of "num_chars nm"] assms(9) by (simp_all add: ptpstring_inv_def)
  then have len: "length (ptpstring_bytes nm) = 2 * unat (num_chars nm) + 1" by (intro ptpstring_bytes_length) simp
  have "phase_received ?s0 l t" using assms(6) by (simp add: phase_received_def)
  from receive_data_ok[OF this _ _ assms(8), of c bad MTP_MAX_PROP_DATASIZE] assms(7) len n(1) obtain blk where
    blk: "receive_data c MTP_MAX_PROP_DATASIZE ?s0 = Some (s1, blk, True)" "hdlr_get_payload_data blk = Some (ptpstring_bytes nm)"
      "unat (hdlr_get_payload_size blk) = length (ptpstring_bytes nm)" by (auto simp: s1_def)
  obtain s' r where s': "prop_parse_rawstring zero_string (ptpstring_bytes nm) (hdlr_get_payload_size blk) = Some (s', r)"
    "num_chars s' = num_chars nm" "ptpstring_units s' = ptpstring_units nm" "length (str s') = 255"
    "drop (unat (num_chars nm)) (str s') = drop (unat (num_chars nm)) (replicate 255 0)"
    using parse_ptpstring_bytes[OF assms(9), of zero_string "hdlr_get_payload_size blk" "[]"] blk(3) len n(1) by (auto simp: zero_string_def)
  have scan: "scan_wstr 255 (str s') = Some (takeWhile (\<lambda>u. u \<noteq> 0) (ptpstring_units nm))"
    by (rule scan_parsed_name[OF assms(9) s'(3,2,4,5)])
  have src: "length src \<le> 1043" using path_of_short[OF assms(13)] path_of_handle[of "obj_list st" ob] assms(13-15) by (simp add: path_tree_def)
  have par: "util_get_parent_path src = Some dir" using strrchr_split[OF assms(17), of dir] src by (simp add: util_get_parent_path_def assms(16) g_strlcpy_def)
  have path: "util_create_path (MTP_MAX_PATHNAME_SIZE + 1) dir name = (Some dest, True)"
    using path_len_valid_length[OF assms(19)] assms(11,18,19) by (simp add: create_path_True)
  have st1: "stores (g_dev s1) = [st]" using assms(12) sel by simp
  have "rename_object c ob src dest s1 =
     Some (upd_store 0 (st\<lparr>obj_list := paths_by (rebase src dest (insert (obj_handle ob) (subtree (obj_list st) (obj_handle ob))) (path_of (obj_list st))) (obj_list st)\<rparr>)
       (s1\<lparr>g_fs := fs', g_moved := src\<rparr>), MTP_ERROR_NONE)"
    by (rule rename_object_ok[OF assms(13) _ st1 assms(14,15,20,22) _ assms(26)]) (simp_all add: assms(2,25) sel)
  then have upd: "update_file_name c ob (ptpstring_bytes nm) (hdlr_get_payload_size blk) s1 =
     Some (upd_store 0 (st\<lparr>obj_list := paths_by (rebase src dest (insert (obj_handle ob) (subtree (obj_list st) (obj_handle ob))) (path_of (obj_list st))) (obj_list st)\<rparr>)
       (s1\<lparr>g_fs := fs', g_moved := src\<rparr>), MTP_ERROR_NONE)"
    using s'(1) scan assms(10,11,15,21) src par path by (simp add: update_file_name_def util_utf16_to_utf8_def g_strlcpy_def)
  obtain info where info: "obj_info ob = Some info" using assms(13,14) by (fastforce simp: path_tree_def)
  have look: "device_get_object_with_handle (g_dev s1) (obj_handle ob) = Some ob"
    using only_store(3)[OF st1] find_handle[of "obj_list st" "obj_handle ob" ob] assms(13,14) by (simp add: entity_get_object_from_store_def path_tree_def)
  have "path_of (obj_list st) (obj_handle ob) = Some src" using path_of_handle[of "obj_list st" ob] assms(13-15) by (simp add: path_tree_def)
  from probingD[OF assms(2) this] have probe: "util_is_file_opened (c_os c) (g_fs s1) src = (g_fs s1, False)" by (simp add: sel)
  have "hutil_update_object_property c (obj_handle ob) (ucast MTP_OBJ_PROPERTYCODE_OBJECTFILENAME) (Some (ptpstring_bytes nm)) (hdlr_get_payload_size blk) s1 =
     Some (upd_store 0 (st\<lparr>obj_list := paths_by (rebase src dest (insert (obj_handle ob) (subtree (obj_list st) (obj_handle ob))) (path_of (obj_list st))) (obj_list st)\<rparr>)
       (s1\<lparr>g_fs := fs', g_moved := src\<rparr>), MTP_ERROR_NONE)"
    using look info assms(15,23,24) probe upd sel(4,7) by (simp add: hutil_update_object_property_def Let_def)
  then show ?thesis
    using assms(1,3-5) blk(1,2) sel by (simp add: set_object_prop_value_def prop_response_def rebase_def)
qed

section \<open>Witness\<close>

text \<open>The folder d of the sample storage is given the name a.\<close>

definition renaming_sys :: "ram sys" where
  "renaming_sys = (upload_sys MTP_OPCODE_SETOBJECTPROPVALUE [1, 0xDC07] zero_send_object (ptpstring_bytes demo_name))
     \<lparr>g_fs := [''/media/card/.mtptemp.tmp'' \<mapsto> ptpstring_bytes demo_name, ''/media/card/d'' \<mapsto> [], ''/media/card/d/e'' \<mapsto> [], ''/media/card/d/e/f'' \<mapsto> [7]],
      g_props := [zero_desc\<lparr>propinfo := (propinfo zero_desc)\<lparr>prop_code := MTP_OBJ_PROPERTYCODE_OBJECTFILENAME, get_set := 1\<rparr>\<rparr>]\<rparr>"

lemma wide_len_ascii:
  assumes "e_to16 (c_env c) p = Some ws" "0 \<notin> set ws" "length ws < 2091"
  shows "wide_len c p = Some (length ws)"
proof -
  obtain k where k: "2091 - length ws = Suc k" using assms(3) by (cases "2091 - length ws") auto
  from utf8_to_utf16_fits[where conv = "e_to16 (c_env c)" and s = p and n = 2091 and dest = "replicate 2091 0", OF assms(1-3)]
  have "util_utf8_to_utf16 (e_to16 (c_env c)) True (replicate 2091 0) 2091 p = Some (ws @ 0 # replicate k 0, length ws)" by (simp add: k)
  then show ?thesis by (simp add: wide_len_def wchar_len_prefix[OF assms(2)])
qed

abbreviation upload_objs :: "mtp_obj list" where
  "upload_objs \<equiv> obj_list upload_store"

lemma upload_objs_eq:
  "upload_objs = [sample_obj 1 0 PTP_FMT_ASSOCIATION ''/media/card/d'', sample_obj 2 1 PTP_FMT_ASSOCIATION ''/media/card/d/e'',
      sample_obj 3 2 PTP_FMT_UNDEF ''/media/card/d/e/f'']"
  by (simp add: upload_store_def sample_store_def)

lemma upload_path_of:
  "path_of upload_objs x = (if x = 1 then Some ''/media/card/d'' else if x = 2 then Some ''/media/card/d/e''
     else if x = 3 then Some ''/media/card/d/e/f'' else None)"
  by (simp add: path_of_def upload_objs_eq sample_obj_def)

lemma upload_tree: "path_tree upload_objs"
  by (simp add: path_tree_def upload_objs_eq sample_obj_def zero_info_def)

lemma upload_subtree: "2 \<in> subtree upload_objs 1" "3 \<in> subtree upload_objs 1"
proof -
  have "(1, 2) \<in> parent_rel upload_objs" "(2, 3) \<in> parent_rel upload_objs"
    using children_rel[of 1 upload_objs] children_rel[of 2 upload_objs] by (auto simp: upload_objs_eq sample_obj_def has_parent_def zero_info_def)
  then show "2 \<in> subtree upload_objs 1" "3 \<in> subtree upload_objs 1" by (auto simp: subtree_def)
qed

lemma ram_rename_self: "fs p \<noteq> None \<Longrightarrow> ram_rename fs p p = (fs, None)"
  by (auto simp: ram_rename_def fun_upd_idem)

lemma ram_wide:
  assumes "ascii_text p" "length p \<le> 1043"
  shows "wide_len ram_conf p = Some (length p)"
proof -
  have "e_to16 (c_env ram_conf) p = Some (map wchar_of p)" using assms(1) by (simp add: ram_conf_def ram_env_def ascii_to16_def)
  moreover have "0 \<notin> set (map wchar_of p)" using ascii_to16_conv(2)[unfolded utf16_conv_def, rule_format, of p "map wchar_of p"] assms(1) by (simp add: ascii_to16_def)
  ultimately show ?thesis using wide_len_ascii[of ram_conf p "map wchar_of p"] assms(2) by simp
qed

lemma upload_probing: "probing ram_conf (fst (os_remove (c_os ram_conf) (g_fs renaming_sys) ''/media/card/.mtptemp.tmp'')) upload_objs"
proof -
  have w: "\<exists>n\<le>1043. wide_len ram_conf p = Some n" if "p \<in> {''/media/card/d'', ''/media/card/d/e'', ''/media/card/d/e/f''}" for p
  proof -
    have "ascii_text p" "length p \<le> 1043" using that by (auto simp: ascii_text_def)
    then show ?thesis using ram_wide by blast
  qed
  let ?fs = "[''/media/card/d'' \<mapsto> [], ''/media/card/d/e'' \<mapsto> [], ''/media/card/d/e/f'' \<mapsto> [7]] :: ram"
  have fs: "fst (os_remove (c_os ram_conf) (g_fs renaming_sys) ''/media/card/.mtptemp.tmp'') = ?fs"
    by (simp add: ram_conf_def ram_env_def ram_os_def ram_remove_def renaming_sys_def)
  have r: "os_rename (c_os ram_conf) ?fs p p = (?fs, None)" if "p \<in> {''/media/card/d'', ''/media/card/d/e'', ''/media/card/d/e/f''}" for p
    using that ram_rename_self[of ?fs p] by (auto simp: ram_conf_def ram_env_def ram_os_def)
  have p: "p \<in> {''/media/card/d'', ''/media/card/d/e'', ''/media/card/d/e/f''}" if "path_of upload_objs x = Some p" for x p
    using that by (auto simp: upload_path_of split: if_splits)
  show ?thesis unfolding probing_def fs by (intro allI impI conjI) (rule r[OF p], assumption, rule w[OF p], assumption)
qed

theorem object_renamed_witness:
  "\<exists>s'. set_object_prop_value ram_conf renaming_sys = Some s' \<and> g_txq s' = [resp_pkt PTP_RESPONSE_OK 7 []]
     \<and> map file_path (obj_list (store_list (g_dev s') ! 0)) = [Some ''/media/card/a'', Some ''/media/card/a/e'', Some ''/media/card/a/e/f'']"
proof -
  let ?ob = "sample_obj 1 0 PTP_FMT_ASSOCIATION ''/media/card/d''"
  have len: "length (ptpstring_bytes demo_name) = 5" by (simp add: ptpstring_bytes_length demo_name_def)
  have par: "get_param renaming_sys 0 = Some (obj_handle ?ob)" "get_param renaming_sys 1 = Some (ucast MTP_OBJ_PROPERTYCODE_OBJECTFILENAME)"
    "any_param renaming_sys [2] = Some False"
    by (simp_all add: any_param_def get_param_def hdlr_get_param_cmd_container_def command_def renaming_sys_def sample_obj_def)
  have rcv: "phase_received renaming_sys 17 ''/media/card/.mtptemp.tmp''" "unat (17 :: u32) = 12 + length (ptpstring_bytes demo_name)"
    using upload_received[of MTP_OPCODE_SETOBJECTPROPVALUE "[1, 0xDC07]" zero_send_object "ptpstring_bytes demo_name"] len
    by (simp_all add: phase_received_def renaming_sys_def)
  have c: "os_content (c_os ram_conf) (g_fs renaming_sys) ''/media/card/.mtptemp.tmp'' = Inl (ptpstring_bytes demo_name, False)"
    by (simp add: ram_conf_def ram_env_def ram_os_def renaming_sys_def)
  have st: "stores (g_dev renaming_sys) = [upload_store]" "store_list (g_dev renaming_sys) = [upload_store]" by (simp_all add: renaming_sys_def)
  have ob: "?ob \<in> set upload_objs" "file_path ?ob = Some ''/media/card/d''" by (simp_all add: upload_objs_eq sample_obj_def)
  have fit: "fits upload_objs (obj_handle ?ob) ''/media/card/d'' ''/media/card/a''" by (auto simp: fits_def upload_path_of split: if_splits)
  have mv: "\<exists>fs'. util_file_move (c_os ram_conf) (fst (os_remove (c_os ram_conf) (g_fs renaming_sys) ''/media/card/.mtptemp.tmp'')) ''/media/card/d'' ''/media/card/a'' = (fs', True, None)"
    by (simp add: util_file_move_def ram_conf_def ram_env_def ram_os_def ram_rename_def ram_remove_def renaming_sys_def)
  then obtain fs' where mv: "util_file_move (c_os ram_conf) (fst (os_remove (c_os ram_conf) (g_fs renaming_sys) ''/media/card/.mtptemp.tmp'')) ''/media/card/d'' ''/media/card/a'' = (fs', True, None)" by blast
  have ext: "strcasecmp_eq (extension ''/media/card/d'') (extension ''/media/card/a'')" "\<not> strcasecmp_eq ''/media/card/d'' ''/media/card/a''"
    by code_simp+
  have pd: "prop_get_obj_prop_desc (g_props renaming_sys) (ucast MTP_OBJ_PROPERTYCODE_OBJECTFILENAME) = Some (zero_desc\<lparr>propinfo := (propinfo zero_desc)\<lparr>prop_code := MTP_OBJ_PROPERTYCODE_OBJECTFILENAME, get_set := 1\<rparr>\<rparr>)"
    by (simp add: prop_get_obj_prop_desc_def renaming_sys_def get_oma_drm_status_def)
  have "\<exists>s'. set_object_prop_value ram_conf renaming_sys = Some s' \<and> g_fs s' = fs'
     \<and> g_txq s' = g_txq renaming_sys @ [resp_pkt PTP_RESPONSE_OK (tid (usb_cmd (g_hdlr renaming_sys))) []] \<and> phase (g_dev s') = DEVICE_PHASE_IDLE
     \<and> store_list (g_dev s') = (store_list (g_dev renaming_sys))[0 := upload_store\<lparr>obj_list := paths_by (\<lambda>x.
          if x \<in> insert (obj_handle ?ob) (subtree upload_objs (obj_handle ?ob))
          then map_option (\<lambda>p. ''/media/card/a'' @ drop (length ''/media/card/d'') p) (path_of upload_objs x) else path_of upload_objs x) upload_objs\<rparr>]"
    by (rule object_renamed[where old = "''d''" and dir = "''/media/card''" and name = "''a''", OF ram_accepting upload_probing par rcv(1) c rcv(2) demo_facts(3) ram_plain_a(2) _ st(1) upload_tree ob _ _ _ _ fit ext(2,1) pd _ mv])
      (simp_all add: util_is_path_len_valid_def util_get_external_path_def ram_conf_def upload_objs_eq sample_obj_def)
  moreover have "map file_path (paths_by f upload_objs) = [f 1, f 2, f 3]" for f by (simp add: paths_by_def upload_objs_eq sample_obj_def)
  ultimately show ?thesis
    using st(2) upload_subtree by (auto simp: upload_path_of sample_obj_def renaming_sys_def command_def)
qed

end
