(* ===== verification/Listing.thy ===== *)
theory Listing
  imports Commands
begin

text \<open>
  GetObjectHandles from the command to the bytes on the wire: the selection of the
  objects in a storage (mtp_store.c), its packing as a PTP array (mtp_property.c) and the data phase of the command (mtp_cmd_handler.c).  The
  selection is specified as a filter of the storage, in storage order.
\<close>

section \<open>Specification of the selection\<close>

definition fmt_selects :: "u32 \<Rightarrow> obj_info \<Rightarrow> bool" where
  "fmt_selects fmt i \<longleftrightarrow> fmt = PTP_FORMATCODE_NOTUSED \<or> fmt = ucast (obj_fmt i)"

text \<open>
  Parent 0 asks for the whole storage, where the format 0xFFFFFFFF stands for all that
  is not a folder; parent 0xFFFFFFFF asks for the top level, any other for one folder.
\<close>

definition listed :: "u32 \<Rightarrow> u32 \<Rightarrow> obj_info \<Rightarrow> bool" where
  "listed parent fmt i \<longleftrightarrow>
     (if parent = PTP_OBJECTHANDLE_ROOT
      then fmt_selects fmt i \<or> fmt = PTP_FORMATCODE_ALL \<and> obj_fmt i \<noteq> PTP_FMT_ASSOCIATION
      else fmt_selects fmt i \<and> h_parent i = (if parent = PTP_OBJECTHANDLE_ALL then PTP_OBJECTHANDLE_ROOT else parent))"

definition listed_handles :: "u32 \<Rightarrow> u32 \<Rightarrow> mtp_obj list \<Rightarrow> u32 list" where
  "listed_handles parent fmt objs =
     handles_of (filter (\<lambda>obj. case obj_info obj of None \<Rightarrow> False | Some i \<Rightarrow> listed parent fmt i) objs)"

definition handles_dataset :: "u32 list \<Rightarrow> u8 list" where
  "handles_dataset hs = le_bytes 4 (of_nat (length hs) :: u32) @ concat (map (le_bytes 4) hs)"

lemma length_le_words [simp]: "length (concat (map (le_bytes 4) (hs :: u32 list))) = 4 * length hs"
  by (induction hs) simp_all

lemma length_handles_dataset [simp]: "length (handles_dataset hs) = 4 + 4 * length hs"
  by (simp add: handles_dataset_def)

text \<open>The storages that are asked: all of them only when no folder is named.\<close>

definition asked_stores :: "mtp_device \<Rightarrow> u32 \<Rightarrow> u32 \<Rightarrow> mtp_store list option" where
  "asked_stores d sid parent =
     (if sid = PTP_STORAGEID_ALL \<and> parent \<in> {PTP_OBJECTHANDLE_ALL, PTP_OBJECTHANDLE_ROOT} then Some (stores d)
      else map_option (\<lambda>st. [st]) (device_get_store d sid))"

definition stores_handles :: "u32 \<Rightarrow> u32 \<Rightarrow> mtp_store list \<Rightarrow> u32 list" where
  "stores_handles parent fmt sts = concat (map (\<lambda>st. listed_handles parent fmt (obj_list st)) sts)"

section \<open>The selection in the storages\<close>

abbreviation select_in :: "u32 \<Rightarrow> u32 \<Rightarrow> mtp_store \<Rightarrow> ptp_array \<Rightarrow> ptp_array option" where
  "select_in parent fmt st a \<equiv> (if parent = PTP_OBJECTHANDLE_ROOT then entity_get_objects_from_store_by_format st fmt a
     else entity_get_child_handles_with_same_format st
            (if parent = PTP_OBJECTHANDLE_ALL then PTP_OBJECTHANDLE_ROOT else parent) fmt a)"

lemma select_handles:
  assumes "handle_array_inv a" "length (handle_list a) + length (listed_handles parent fmt (obj_list st)) \<le> 2 ^ 29"
  shows "\<exists>a'. select_in parent fmt st a = Some a' \<and> handle_array_inv a'
     \<and> handle_list a' = handle_list a @ listed_handles parent fmt (obj_list st)"
proof -
  let ?Q = "\<lambda>obj. case obj_info obj of None \<Rightarrow> False | Some i \<Rightarrow> listed parent fmt i"
  have sel: "\<exists>a'. append_matching P (obj_list st) a = Some a' \<and> handle_array_inv a'
      \<and> handle_list a' = handle_list a @ listed_handles parent fmt (obj_list st)"
    if "\<And>obj. P obj = Some (?Q obj)" for P
    using append_matching_ok[of a ?Q "obj_list st" P] assms that by (simp add: listed_handles_def)
  show ?thesis
  proof (cases "parent = PTP_OBJECTHANDLE_ROOT")
    case True
    then show ?thesis
      unfolding entity_get_objects_from_store_by_format_def if_P[OF True]
      by (intro sel) (auto simp: listed_def fmt_selects_def split: option.split)
  next
    case False
    then show ?thesis
      unfolding entity_get_child_handles_with_same_format_def if_not_P[OF False]
      by (intro sel) (auto simp: listed_def fmt_selects_def split: option.split)
  qed
qed

lemma select_stores:
  assumes "handle_array_inv a" "length (handle_list a) + length (stores_handles parent fmt sts) \<le> 2 ^ 29"
  shows "\<exists>a'. foldM (select_in parent fmt) sts a = Some a' \<and> handle_array_inv a'
     \<and> handle_list a' = handle_list a @ stores_handles parent fmt sts"
  using assms
proof (induction sts arbitrary: a)
  case (Cons st sts)
  have "length (handle_list a) + length (listed_handles parent fmt (obj_list st)) \<le> 2 ^ 29"
    using Cons.prems(2) by (simp add: stores_handles_def)
  from select_handles[OF Cons.prems(1) this] obtain a1 where "select_in parent fmt st a = Some a1" "handle_array_inv a1"
    "handle_list a1 = handle_list a @ listed_handles parent fmt (obj_list st)" by blast
  with Cons.IH[of a1] Cons.prems(2) show ?case by (auto simp: stores_handles_def)
qed (simp add: stores_handles_def)

section \<open>The array as a dataset\<close>

lemma handles_packed:
  assumes "handle_array_inv a" "length (handle_list a) \<le> 2 ^ 29"
  shows "prop_pack_ptparray a (prop_get_size_ptparray a) = Some (handles_dataset (handle_list a), prop_get_size_ptparray a)"
    and "unat (prop_get_size_ptparray a) = length (handles_dataset (handle_list a))"
proof -
  let ?n = "4 + 4 * length (handle_list a)"
  have a: "ptparray_inv a" "pa_type a = UINT32_TYPE" "ptparray_elems a = Some (handle_list a)"
    using assms(1) handle_array_Some by (simp_all add: handle_array_inv_def)
  have "unat (of_nat ?n :: u32) = ?n" using assms(2) by (intro unat_of_nat_eq_small) simp
  moreover have "prop_get_size_ptparray a = of_nat ?n"
    using pack_ptparray_image[OF a(1) _ a(3), of "of_nat ?n"] calculation a(2) by (simp add: mult.commute)
  ultimately show "unat (prop_get_size_ptparray a) = length (handles_dataset (handle_list a))"
    "prop_pack_ptparray a (prop_get_size_ptparray a) = Some (handles_dataset (handle_list a), prop_get_size_ptparray a)"
    using pack_ptparray_image[OF a(1) _ a(3), of "of_nat ?n"] a(2) by (simp_all add: mult.commute handles_dataset_def)
qed

text \<open>The data phase of a payload that fills its container exactly.\<close>

lemma payload_sent:
  assumes "accepting c" "unat n = length bs" "length bs + 12 < 2 ^ 32"
  shows "\<exists>blk blk' ps. hdlr_alloc_buf_data_container (data_container_for s) n (ucast n) = Some (blk, True)
     \<and> fill_payload blk bs = Some blk'
     \<and> send_data_then_ok c blk' s = Some (set_phase DEVICE_PHASE_IDLE (set_phase DEVICE_PHASE_DATAIN
          (s\<lparr>g_txq := g_txq s @ ps @ [resp_pkt PTP_RESPONSE_OK (tid (usb_cmd (g_hdlr s))) []]\<rparr>)))
     \<and> payload ps = header_bytes (of_nat (length bs + 12)) CONTAINER_DATA_BLK (cmd_code s) (tid (usb_cmd (g_hdlr s))) @ bs"
proof -
  let ?hd = "header_bytes (of_nat (length bs + 12)) CONTAINER_DATA_BLK (cmd_code s) (tid (usb_cmd (g_hdlr s)))"
  have f: "unat n + 12 < 2 ^ 32" using assms(2,3) by simp
  have "unat (sat_len (ucast n)) = length bs + 12"
    using unat_sat_len[of "ucast n"] unat_ucast_up[of n, where ?'b = 64] assms(2,3) by simp
  then have l: "sat_len (ucast n) = of_nat (length bs + 12)" by (metis of_nat_unat_word)
  obtain blk where blk: "hdlr_alloc_buf_data_container (data_container_for s) n (ucast n) = Some (blk, True)"
    "cdata blk = Some (?hd @ replicate (length bs) 0)" "unat (len blk) = length bs + 12"
    using alloc_buf_ok(1)[OF f, of "data_container_for s" "ucast n"] alloc_buf_ok(2)[OF f] assms(2) l by auto
  let ?b = "blk\<lparr>cdata := Some (?hd @ bs)\<rparr>"
  have "fill_payload blk bs = Some ?b" using blk by (simp add: fill_payload_def)
  moreover obtain ps where "hdlr_send_data_container (c_snd c) (c_tx_size c) (g_txq s) ?b = Some (g_txq s @ ps, True)"
    "payload ps = ?hd @ bs"
    using send_block_exact[OF assms(1), of ?b "?hd @ bs" "g_txq s"] blk by auto
  moreover from this(1) assms(1) have "send_data_then_ok c ?b s = Some (set_phase DEVICE_PHASE_IDLE (set_phase DEVICE_PHASE_DATAIN
      (s\<lparr>g_txq := g_txq s @ ps @ [resp_pkt PTP_RESPONSE_OK (tid (usb_cmd (g_hdlr s))) []]\<rparr>)))"
    by (simp add: send_data_then_ok_def set_phase_def)
  ultimately show ?thesis using blk(1) by blast
qed

section \<open>The command\<close>

lemma enumerated_before:
  assumes "\<And>i. i \<in> set is \<Longrightarrow> obj_list (store_list (g_dev s) ! i) \<noteq> []"
  shows "foldM (enumerate_store c) is s = Some s"
  using assms by (induction "is") (simp_all add: enumerate_store_def Let_def)

lemma handles_selected:
  assumes "asked_stores (g_dev s) sid parent = Some sts" "length (stores_handles parent fmt sts) \<le> 2 ^ 29"
    and "parent \<in> {PTP_OBJECTHANDLE_ALL, PTP_OBJECTHANDLE_ROOT} \<Longrightarrow> \<forall>x\<in>set (stores (g_dev s)). obj_list x \<noteq> []"
  shows "\<exists>a e. hutil_get_object_handles c sid fmt parent (prop_alloc_ptparray UINT32_TYPE) s
       = Some (s\<lparr>g_full_enum := e\<rparr>, a, MTP_ERROR_NONE)
     \<and> handle_array_inv a \<and> handle_list a = stores_handles parent fmt sts"
proof -
  obtain a where a: "foldM (select_in parent fmt) sts (prop_alloc_ptparray UINT32_TYPE) = Some a" "handle_array_inv a"
    "handle_list a = stores_handles parent fmt sts"
    using select_stores[of "prop_alloc_ptparray UINT32_TYPE" parent fmt sts] alloc_handles assms(2) by auto
  have en: "foldM (enumerate_store c) [0..<length (stores (g_dev s))] s = Some s"
    if "parent \<in> {PTP_OBJECTHANDLE_ALL, PTP_OBJECTHANDLE_ROOT}"
    using assms(3)[OF that] by (intro enumerated_before) (force simp: set_conv_nth)
  define e where "e = (g_full_enum s \<or> parent \<in> {PTP_OBJECTHANDLE_ALL, PTP_OBJECTHANDLE_ROOT})"
  have "hutil_get_object_handles c sid fmt parent (prop_alloc_ptparray UINT32_TYPE) s
      = Some (s\<lparr>g_full_enum := e\<rparr>, a, MTP_ERROR_NONE)"
    using en a(1) assms(1) by (auto simp: hutil_get_object_handles_def asked_stores_def Let_def e_def split: if_splits option.splits Option.bind_splits)
  with a(2,3) show ?thesis by blast
qed

text \<open>C9: GetObjectHandles, for one storage or for all of them, answers with the handles of exactly the objects
  of these storages that the parent and the format select, in the order of the storages and preceded by
  their number: one data container whose announced length is that of its bytes, then OK; no object, file or session
  is changed.  The storages have been enumerated before when no folder is named.\<close>

theorem handles_listed:
  assumes "accepting c" "get_param s 0 = Some sid" "get_param s 1 = Some fmt" "get_param s 2 = Some parent"
    and "asked_stores (g_dev s) sid parent = Some sts" "hs = stores_handles parent fmt sts" "length hs \<le> 2 ^ 29"
    and "parent \<in> {PTP_OBJECTHANDLE_ALL, PTP_OBJECTHANDLE_ROOT} \<Longrightarrow> \<forall>x\<in>set (stores (g_dev s)). obj_list x \<noteq> []"
  shows "\<exists>s' ps. get_object_handles c s = Some s' \<and> phase (g_dev s') = DEVICE_PHASE_IDLE
     \<and> g_txq s' = g_txq s @ ps @ [resp_pkt PTP_RESPONSE_OK (tid (usb_cmd (g_hdlr s))) []]
     \<and> payload ps = header_bytes (of_nat (16 + 4 * length hs)) CONTAINER_DATA_BLK
          (cmd_code s) (tid (usb_cmd (g_hdlr s))) @ handles_dataset hs
     \<and> store_list (g_dev s') = store_list (g_dev s) \<and> g_fs s' = g_fs s \<and> g_hdlr s' = g_hdlr s"
proof -
  obtain a e where a: "hutil_get_object_handles c sid fmt parent (prop_alloc_ptparray UINT32_TYPE) s
      = Some (s\<lparr>g_full_enum := e\<rparr>, a, MTP_ERROR_NONE)" "handle_array_inv a" "handle_list a = hs"
    using handles_selected[OF assms(5) _ assms(8)] assms(6,7) by metis
  let ?s = "s\<lparr>g_full_enum := e\<rparr>"
  have pk: "prop_pack_ptparray a (prop_get_size_ptparray a) = Some (handles_dataset hs, prop_get_size_ptparray a)"
    "unat (prop_get_size_ptparray a) = length (handles_dataset hs)" using handles_packed[OF a(2)] a(3) assms(7) by auto
  obtain blk blk' ps where sent:
    "hdlr_alloc_buf_data_container (data_container_for ?s) (prop_get_size_ptparray a) (ucast (prop_get_size_ptparray a)) = Some (blk, True)"
    "fill_payload blk (handles_dataset hs) = Some blk'"
    "send_data_then_ok c blk' ?s = Some (set_phase DEVICE_PHASE_IDLE (set_phase DEVICE_PHASE_DATAIN
       (?s\<lparr>g_txq := g_txq ?s @ ps @ [resp_pkt PTP_RESPONSE_OK (tid (usb_cmd (g_hdlr ?s))) []]\<rparr>)))"
    "payload ps = header_bytes (of_nat (length (handles_dataset hs) + 12)) CONTAINER_DATA_BLK (cmd_code ?s) (tid (usb_cmd (g_hdlr ?s)))
       @ handles_dataset hs"
    using payload_sent[OF assms(1) pk(2), of ?s] assms(7) by auto
  have "get_object_handles c s = send_data_then_ok c blk' ?s"
    using assms(2-4) a(1) sent(1,2) pk(1) by (simp add: get_object_handles_def handles_response_def Let_def)
  with sent(3,4) show ?thesis by (auto simp: add.commute)
qed

text \<open>A storage that is not mounted is refused, and nothing is sent but the response.\<close>

lemma handles_of_unknown_store:
  assumes "accepting c" "get_param s 0 = Some sid" "get_param s 1 = Some fmt" "get_param s 2 = Some parent"
    and "sid \<noteq> PTP_STORAGEID_ALL" "device_get_store (g_dev s) sid = None" "parent \<notin> {PTP_OBJECTHANDLE_ALL, PTP_OBJECTHANDLE_ROOT}"
  shows "\<exists>s'. get_object_handles c s = Some s' \<and> g_dev s' = (g_dev s)\<lparr>phase := DEVICE_PHASE_IDLE\<rparr>
     \<and> g_txq s' = g_txq s @ [resp_pkt PTP_RESPONSE_INVALID_STORE_ID (tid (usb_cmd (g_hdlr s))) []]"
  using assms by (simp add: get_object_handles_def hutil_get_object_handles_def handles_response_def Let_def set_phase_def)

section \<open>Witness\<close>

lemma asked_folder:
  "device_get_store mounted_device 0x20001 = Some (card_store\<lparr>obj_list := [file_obj]\<rparr>)"
  "stores mounted_device = [card_store\<lparr>obj_list := [file_obj]\<rparr>]" "asked_stores mounted_device 0x20001 7 = Some [card_store\<lparr>obj_list := [file_obj]\<rparr>]"
  "stores_handles 7 0 [card_store\<lparr>obj_list := [file_obj]\<rparr>] = [9]"
  "handles_dataset [9] = [1, 0, 0, 0, 9, 0, 0, 0]"
  by (simp_all add: device_get_store_def mounted_device_def card_store_def listed_handles_def listed_def fmt_selects_def
    asked_stores_def stores_handles_def file_obj_def demo_obj_def demo_info_def handles_dataset_def le_bytes_unfold)

theorem handles_listed_witness:
  "\<exists>s' ps. get_object_handles ram_conf (asked PTP_OPCODE_GETOBJECTHANDLES [0x20001, 0, 7]) = Some s'
     \<and> g_txq s' = ps @ [resp_pkt PTP_RESPONSE_OK 7 []]
     \<and> payload ps = header_bytes 20 CONTAINER_DATA_BLK PTP_OPCODE_GETOBJECTHANDLES 7 @ [1, 0, 0, 0, 9, 0, 0, 0]"
  using handles_listed[of ram_conf "asked PTP_OPCODE_GETOBJECTHANDLES [0x20001, 0, 7]" "0x20001" 0 7
      "[card_store\<lparr>obj_list := [file_obj]\<rparr>]" "[9]", OF ram_accepting asked_param(3,4,5)]
  by (auto simp add: command_def asked_folder)

end
