(* ===== verification/Consistency.thy ===== *)
theory Consistency
  imports Watching
begin

text \<open>
  The objects of the whole program.  Every command that returns, and every
  event of the file system, keeps the invariant of all storages, together with
  the object that was announced and is not stored yet; so every state that
  packets and events can lead to is consistent.
\<close>

section \<open>Enumeration, however it ends\<close>

text \<open>
  The enumeration may be cut short and may meet a counter that is used up.
  What it does to a storage: objects are appended, and as long as their number
  fits into the counter, with new handles and under the invariant.
\<close>

definition enum_fits :: "u32 \<Rightarrow> enum_state \<Rightarrow> enum_state \<Rightarrow> bool" where
  "enum_fits parent s s' \<longleftrightarrow> objs_ok (unat (en_next s)) (obj_list (en_store s)) \<and> unat parent < unat (en_next s)
     \<and> unat (en_next s) + length (obj_list (en_store s')) \<le> 2 ^ 29 + length (obj_list (en_store s))"

definition enum_rel :: "u32 \<Rightarrow> enum_state \<Rightarrow> enum_state \<Rightarrow> bool" where
  "enum_rel parent s s' \<longleftrightarrow> length (obj_list (en_store s)) \<le> length (obj_list (en_store s'))
     \<and> (enum_fits parent s s' \<longrightarrow> objs_ok (unat (en_next s')) (obj_list (en_store s'))
          \<and> unat (en_next s') + length (obj_list (en_store s)) = unat (en_next s) + length (obj_list (en_store s'))
          \<and> set (handles_of (obj_list (en_store s'))) \<subseteq> set (handles_of (obj_list (en_store s))) \<union> {h. unat (en_next s) \<le> unat h})"

lemma enum_rel_refl: "obj_list (en_store s') = obj_list (en_store s) \<Longrightarrow> en_next s' = en_next s \<Longrightarrow> enum_rel parent s s'"
  by (auto simp: enum_rel_def enum_fits_def)

lemma enum_rel_upd [simp]:
  "enum_rel p (s\<lparr>en_clk := n\<rparr>) = enum_rel p s" "enum_rel p s (s'\<lparr>en_clk := n\<rparr>) = enum_rel p s s'"
  "enum_rel p s (s'\<lparr>en_watch := w\<rparr>) = enum_rel p s s'"
  by (simp_all add: fun_eq_iff enum_rel_def enum_fits_def)

lemma enum_rel_trans:
  assumes "enum_rel p s s1" "enum_rel q s1 s2" "enum_fits p s s1 \<Longrightarrow> unat q < unat (en_next s1)"
  shows "enum_rel p s s2"
proof -
  have len: "length (obj_list (en_store s)) \<le> length (obj_list (en_store s1))" "length (obj_list (en_store s1)) \<le> length (obj_list (en_store s2))"
    using assms(1,2) by (simp_all add: enum_rel_def)
  show ?thesis
    unfolding enum_rel_def
  proof (intro conjI impI)
    show "length (obj_list (en_store s)) \<le> length (obj_list (en_store s2))" using len by simp
    assume f: "enum_fits p s s2"
    then have f1: "enum_fits p s s1" using len by (simp add: enum_fits_def)
    then have r1: "objs_ok (unat (en_next s1)) (obj_list (en_store s1))"
      "unat (en_next s1) + length (obj_list (en_store s)) = unat (en_next s) + length (obj_list (en_store s1))"
      "set (handles_of (obj_list (en_store s1))) \<subseteq> set (handles_of (obj_list (en_store s))) \<union> {h. unat (en_next s) \<le> unat h}"
      using assms(1) by (simp_all add: enum_rel_def)
    then have "enum_fits q s1 s2" using f assms(3)[OF f1] by (simp add: enum_fits_def)
    then have r2: "objs_ok (unat (en_next s2)) (obj_list (en_store s2))"
      "unat (en_next s2) + length (obj_list (en_store s1)) = unat (en_next s1) + length (obj_list (en_store s2))"
      "set (handles_of (obj_list (en_store s2))) \<subseteq> set (handles_of (obj_list (en_store s1))) \<union> {h. unat (en_next s1) \<le> unat h}"
      using assms(2) by (simp_all add: enum_rel_def)
    show "objs_ok (unat (en_next s2)) (obj_list (en_store s2))" by (rule r2(1))
    show "unat (en_next s2) + length (obj_list (en_store s)) = unat (en_next s) + length (obj_list (en_store s2))"
      using r1(2) r2(2) by simp
    have "{h. unat (en_next s1) \<le> unat h} \<subseteq> {h :: u32. unat (en_next s) \<le> unat h}" using r1(2) len(1) by auto
    with r1(3) r2(3) show "set (handles_of (obj_list (en_store s2))) \<subseteq> set (handles_of (obj_list (en_store s))) \<union> {h. unat (en_next s) \<le> unat h}"
      by blast
  qed
qed

lemma enum_rel_fits:
  "enum_rel p s s1 \<Longrightarrow> enum_fits p s s1 \<Longrightarrow> unat p < unat (en_next s1)"
  by (simp add: enum_rel_def enum_fits_def)

lemma update_obj_length [simp]: "length (update_obj h f objs) = length objs"
  by (induction objs) auto

lemma add_object_length:
  "ensures (entity_add_object_to_store st obj) (\<lambda>(st', _). obj_info obj \<noteq> None \<longrightarrow> length (obj_list st') = Suc (length (obj_list st)))"
  by (auto simp: entity_add_object_to_store_def Let_def intro!: ensuresI split: option.splits)

text \<open>One entry becomes one object.\<close>

lemma add_entry_rel:
  assumes "add = entity_add_file_to_store \<or> add = entity_add_folder_to_store"
    "add (en_store s) (en_next s) parent path fname finfo = Some (st, n, obj)"
  shows "enum_rel parent s (s\<lparr>en_store := st, en_next := n\<rparr>)"
    "enum_fits parent s (s\<lparr>en_store := st, en_next := n\<rparr>) \<Longrightarrow> unat (obj_handle obj) < unat n"
proof -
  let ?s = "s\<lparr>en_store := st, en_next := n\<rparr>"
  have len: "length (obj_list st) = Suc (length (obj_list (en_store s)))"
    using assms ensuresD[OF add_object_length]
    by (fastforce simp: entity_add_file_to_store_def entity_add_folder_to_store_def entity_init_mtp_object_params_def Option.bind_eq_Some_conv)
  have add: "objs_ok (unat n) (obj_list st) \<and> unat n = Suc (unat (en_next s)) \<and> obj_handle obj = en_next s
      \<and> set (handles_of (obj_list st)) \<subseteq> set (handles_of (obj_list (en_store s))) \<union> {h. unat (en_next s) \<le> unat h}"
    if "enum_fits parent s ?s"
  proof -
    have "objs_ok (unat (en_next s)) (obj_list (en_store s))" "unat (en_next s) < 2 ^ 29" "unat parent < unat (en_next s)"
      using that len by (simp_all add: enum_fits_def)
    from add_entry_ok[OF this, of path fname finfo] assms obtain objs where r: "st = (en_store s)\<lparr>obj_list := objs\<rparr>"
      "objs_ok (Suc (unat (en_next s))) objs" "unat n = Suc (unat (en_next s))" "obj_handle obj = en_next s"
      "map obj_key objs = map obj_key (obj_list (en_store s)) @ [obj_key obj]" by auto
    have "fst ` set (map obj_key objs) = insert (en_next s) (fst ` set (map obj_key (obj_list (en_store s))))"
      unfolding r(5) using r(4) by simp
    then have "set (handles_of objs) = insert (en_next s) (set (handles_of (obj_list (en_store s))))" by (simp add: image_image)
    with r show ?thesis by auto
  qed
  then show "enum_rel parent s ?s" using len by (auto simp: enum_rel_def)
  show "enum_fits parent s ?s \<Longrightarrow> unat (obj_handle obj) < unat n" using add by simp
qed

lemma enum_entry_rel:
  assumes "\<And>obj t. ensures (rec obj t) (enum_rel (obj_handle obj) t)"
  shows "ensures (enum_entry rec parent entry s) (enum_rel parent s)"
proof -
  have folder: "ensures (rec obj (s\<lparr>en_store := st, en_next := n\<rparr>)) (enum_rel parent s)"
    if "entity_add_folder_to_store (en_store s) (en_next s) parent path fname entry = Some (st, n, obj)" for path fname st n obj
  proof (rule ensures_mono[OF assms])
    note new = add_entry_rel[of entity_add_folder_to_store, OF disjI2[OF refl] that]
    fix r assume "enum_rel (obj_handle obj) (s\<lparr>en_store := st, en_next := n\<rparr>) r"
    from enum_rel_trans[OF new(1) this] new(2) show "enum_rel parent s r" by simp
  qed
  show ?thesis
    using add_entry_rel(1)[of entity_add_file_to_store] folder
    by (auto simp: enum_entry_def Let_def intro!: enum_rel_refl ensuresI[of "entity_add_folder_to_store _ _ _ _ _ _"]
        ensuresI[of "entity_add_file_to_store _ _ _ _ _ _"] split: file_type.split)
qed

lemma enum_loop_rel:
  assumes "\<And>obj t. ensures (rec obj t) (enum_rel (obj_handle obj) t)"
  shows "ensures (enum_loop os fs stop rec dir parent names entry s) (enum_rel parent s)"
  using assms
proof (induction os fs stop rec dir parent names entry s rule: enum_loop.induct)
  case (1 os fs stop rec dir parent names entry s)
  let ?s = "s\<lparr>en_clk := Suc (en_clk s)\<rparr>"
  have e: "ensures (enum_entry rec parent entry ?s) (enum_rel parent s)"
    using enum_entry_rel[of rec parent entry ?s] "1.prems" by simp
  show ?case
  proof (cases "stop (en_clk s)")
    case True
    then show ?thesis by (simp add: enum_loop.simps[of os fs stop] enum_rel_refl)
  next
    case False
    have "ensures (enum_loop os fs stop rec dir parent names' entry' s1) (enum_rel parent s)"
      if s1: "enum_entry rec parent entry ?s = Some s1" and n: "util_ifind_next os fs dir names entry = Some (names', entry')" for s1 names' entry'
    proof (rule ensures_mono[OF "1.IH"[OF refl False s1 n refl "1.prems"]])
      note r1 = ensuresD[OF e s1]
      fix r assume "enum_rel parent s1 r"
      with r1 show "enum_rel parent s r" by (rule enum_rel_trans) (rule enum_rel_fits[OF r1])
    qed
    with False ensuresD[OF e] show ?thesis
      by (subst enum_loop.simps) (auto simp: Let_def intro!: ensuresI[of "enum_entry _ _ _ _"] split: option.split)
  qed
qed

lemma enum_folder_rel:
  "ensures (enum_folder fuel os fs stop pobj s) (enum_rel (case pobj of None \<Rightarrow> 0 | Some obj \<Rightarrow> obj_handle obj) s)"
proof (induction fuel arbitrary: pobj s)
  case (Suc fuel)
  have "ensures (enum_folder fuel os fs stop (Some obj) t) (enum_rel (obj_handle obj) t)" for obj t
    using Suc.IH[of "Some obj" t] by simp
  note loop = enum_loop_rel[of "\<lambda>obj. enum_folder fuel os fs stop (Some obj)", OF this]
  show ?case by (cases pobj) (auto intro!: enum_rel_refl loop split: option.split)
qed simp

section \<open>The objects of a state\<close>

text \<open>The object lists of the storages, the next handle and the object that is announced.\<close>

type_synonym objects = "mtp_obj list list \<times> u32 \<times> mtp_obj option"

definition objects :: "'fs sys \<Rightarrow> objects" where
  "objects s = (map obj_list (stores (g_dev s)), g_next s, so_obj (data4_send_obj (g_hdlr s)))"

fun objects_ok :: "objects \<Rightarrow> bool" where
  "objects_ok (ls, n, p) \<longleftrightarrow> 0 < unat n \<and> unat n \<le> 2 ^ 29 \<and> (\<forall>objs\<in>set ls. objs_ok (unat n) objs)
     \<and> (case p of None \<Rightarrow> True | Some obj \<Rightarrow> addable (unat n) (concat ls) obj)"

text \<open>The counter has room for the objects that a step adds, and for one more.\<close>

fun room :: "objects \<Rightarrow> objects \<Rightarrow> bool" where
  "room (ls, n, p) (ls', n', p') \<longleftrightarrow> unat n + length (concat ls') < 2 ^ 29 + length (concat ls)"

definition evolves :: "objects \<Rightarrow> objects \<Rightarrow> bool" where
  "evolves x y \<longleftrightarrow> (objects_ok x \<longrightarrow> room x y \<longrightarrow> objects_ok y)"

fun forget :: "objects \<Rightarrow> objects" where
  "forget (ls, n, p) = (ls, n, None)"

lemma evolves_refl [simp]: "evolves x x" "evolves x (forget x)"
  by (cases x; simp add: evolves_def)+

lemma objects_ok_forget [simp]: "objects_ok x \<Longrightarrow> objects_ok (forget x)" "room x (forget y) = room x y" "room (forget x) y = room x y"
  by (cases x; cases y; simp)+

lemma objects_stores_ok: "objects_ok (objects s) \<Longrightarrow> stores_ok s"
  by (simp add: objects_def stores_ok_def)

lemma objects_upd [simp]:
  "objects (s\<lparr>g_fs := fs\<rparr>) = objects s" "objects (s\<lparr>g_last := l\<rparr>) = objects s" "objects (s\<lparr>g_clk := k\<rparr>) = objects s"
  "objects (s\<lparr>g_ftemp := t\<rparr>) = objects s" "objects (s\<lparr>g_txq := q\<rparr>) = objects s" "objects (s\<lparr>g_ehq := e\<rparr>) = objects s"
  "objects (s\<lparr>g_op_state := st\<rparr>) = objects s" "objects (s\<lparr>g_ctrl := v\<rparr>) = objects s" "objects (s\<lparr>g_created := w\<rparr>) = objects s"
  "objects (s\<lparr>g_moved := w\<rparr>) = objects s" "objects (s\<lparr>g_copied := w\<rparr>) = objects s" "objects (s\<lparr>g_copy_src := w\<rparr>) = objects s"
  "objects (s\<lparr>g_copy_dst := w\<rparr>) = objects s" "objects (s\<lparr>g_full_enum := b\<rparr>) = objects s" "objects (s\<lparr>g_send_object := b\<rparr>) = objects s"
  "objects (s\<lparr>g_send_partial := b\<rparr>) = objects s" "objects (s\<lparr>g_watch := ws\<rparr>) = objects s" "objects (set_phase ph s) = objects s"
  "objects (eh_send_event_req_to_eh_thread a p1 p2 p3 s) = objects s" "objects (upd_ftemp f s) = objects s"
  "objects (mark_send_object s) = objects s"
  by (simp_all add: objects_def eh_send_event_req_to_eh_thread_def set_phase_def upd_ftemp_def mark_send_object_def split: option.split)

lemma objects_hdlr [simp]:
  "so_obj (data4_send_obj (f (g_hdlr s))) = so_obj (data4_send_obj (g_hdlr s)) \<Longrightarrow> objects (upd_hdlr f s) = objects s"
  "so_obj (data4_send_obj (f (g_hdlr s))) = None \<Longrightarrow> objects (upd_hdlr f s) = forget (objects s)"
  "so_obj (data4_send_obj (f (g_hdlr s))) = Some obj \<Longrightarrow> objects (upd_hdlr f s) = (fst (objects s), fst (snd (objects s)), Some obj)"
  by (simp_all add: objects_def upd_hdlr_def)

lemma objects_upd_store:
  "objects (upd_store i st s) = ((map obj_list (stores (g_dev s)))[i := obj_list st], g_next s, so_obj (data4_send_obj (g_hdlr s)))"
  by (simp add: objects_def take_update_swap map_update)

lemma objects_upd_from: "objects s = (ls, n, p) \<Longrightarrow> objects (upd_store i st s) = (ls[i := obj_list st], n, p)"
  by (subst objects_upd_store) (simp add: objects_def)

lemma objects_same_store [simp]:
  "obj_list st = obj_list (store_list (g_dev s) ! i) \<Longrightarrow> objects (upd_store i st s) = objects s"
proof -
  assume a: "obj_list st = obj_list (store_list (g_dev s) ! i)"
  let ?ls = "map obj_list (stores (g_dev s))"
  have "?ls[i := obj_list st] = ?ls"
  proof (cases "i < length ?ls")
    case True
    then have "obj_list st = ?ls ! i" using a by simp
    then show ?thesis by (simp only: list_update_id)
  qed (simp only: list_update_beyond not_less)
  then show ?thesis unfolding objects_upd_store by (simp add: objects_def)
qed

section \<open>Replacing one list\<close>

lemma objs_ok_mono: "objs_ok n objs \<Longrightarrow> n \<le> m \<Longrightarrow> m \<le> 2 ^ 29 \<Longrightarrow> objs_ok m objs"
  by (auto simp: objs_ok_def obj_ok_def)

lemma concat_update_length:
  "i < length ls \<Longrightarrow> length (concat (ls[i := x])) + length (ls ! i) = length (concat ls) + length x"
  by (induction ls arbitrary: i) (auto simp: nth_Cons split: nat.split)

lemma addable_mono:
  assumes "addable n objs obj" "n \<le> m" "set (handles_of objs') \<subseteq> set (handles_of objs) \<union> {h. n \<le> unat h}"
  shows "addable m objs' obj"
  using assms unfolding addable_def by fastforce

lemma handles_concat: "i < length ls \<Longrightarrow> set (handles_of (ls ! i)) \<subseteq> set (handles_of (concat ls))"
  using nth_mem by fastforce

lemma objects_replace:
  assumes "objects_ok (ls, n, p)" "i < length ls" "objs_ok (unat n') objs" "unat n \<le> unat n'"
    "p \<noteq> None \<Longrightarrow> set (handles_of objs) \<subseteq> set (handles_of (ls ! i)) \<union> {h. unat n \<le> unat h}"
  shows "objects_ok (ls[i := objs], n', p)"
proof -
  have n: "0 < unat n'" "unat n' \<le> 2 ^ 29" using assms(3) by (simp_all add: objs_ok_def)
  have "objs_ok (unat n') x" if "x \<in> set (ls[i := objs])" for x
  proof -
    from that have "x = objs \<or> x \<in> set ls" using set_update_subset_insert by fastforce
    with assms(1,3,4) n(2) show ?thesis by (auto intro: objs_ok_mono)
  qed
  moreover have "addable (unat n') (concat (ls[i := objs])) obj" if "p = Some obj" for obj
  proof (rule addable_mono[OF _ assms(4)])
    show "addable (unat n) (concat ls) obj" using assms(1) that by simp
    have "set (handles_of (concat (ls[i := objs]))) \<subseteq> set (handles_of objs) \<union> set (handles_of (concat ls))"
      using set_update_subset_insert[of ls i objs] by fastforce
    moreover note handles_concat[OF assms(2)]
    ultimately show "set (handles_of (concat (ls[i := objs]))) \<subseteq> set (handles_of (concat ls)) \<union> {h. unat n \<le> unat h}"
      using assms(5) that by blast
  qed
  ultimately show ?thesis using n by (cases p) auto
qed

lemma objects_store:
  assumes "objects_ok (objects s)"
    "i < length (stores (g_dev s)) \<Longrightarrow> objs_ok (unat (g_next s)) (obj_list st)
       \<and> set (handles_of (obj_list st)) \<subseteq> set (handles_of (obj_list (store_list (g_dev s) ! i)))"
  shows "objects_ok (objects (upd_store i st s))"
proof (cases "i < length (stores (g_dev s))")
  case True
  let ?ls = "map obj_list (stores (g_dev s))"
  have "?ls ! i = obj_list (store_list (g_dev s) ! i)" using True by simp
  moreover have "objects_ok (?ls, g_next s, so_obj (data4_send_obj (g_hdlr s)))" using assms(1) by (simp add: objects_def)
  ultimately show ?thesis
    unfolding objects_upd_store using assms(2)[OF True] True by (intro objects_replace) auto
next
  case False
  then have "(map obj_list (stores (g_dev s)))[i := obj_list st] = map obj_list (stores (g_dev s))"
    by (intro list_update_beyond) (simp only: length_map not_less)
  then have "objects (upd_store i st s) = objects s" unfolding objects_upd_store by (simp only: objects_def)
  with assms(1) show ?thesis by simp
qed

section \<open>The services\<close>

subsection \<open>Deletion\<close>

lemma delete_in_store_objects:
  fixes s :: "'fs sys"
  assumes "unat (g_next s) \<le> fuel" "objects_ok (objects s)"
  shows "ensures (delete_in_store fuel ff e stop h fmt i s) (\<lambda>(s', _). objects_ok (objects s') \<and> g_next s' = g_next s)"
proof (rule ensuresI, clarify)
  fix s' r assume r: "delete_in_store fuel ff e stop h fmt i s = Some (s', r)"
  let ?d = "\<lparr>d_store = store_list (g_dev s) ! i, d_fs = g_fs s, d_last = g_last s, d_resp = 0, d_one = False, d_clk = g_clk s\<rparr>"
  from r obtain d where d: "entity_delete_obj_mtp_store fuel ff e stop h fmt ?d = Some (d, r)"
    "s' = upd_store i (d_store d) (s\<lparr>g_fs := d_fs d, g_last := d_last d, g_clk := d_clk d\<rparr>)"
    by (auto simp: delete_in_store_def Option.bind_eq_Some_conv)
  have "objects_ok (objects s')"
    unfolding d(2)
  proof (rule objects_store)
    show "objects_ok (objects (s\<lparr>g_fs := d_fs d, g_last := d_last d, g_clk := d_clk d\<rparr>))" using assms(2) by simp
    assume "i < length (stores (g_dev (s\<lparr>g_fs := d_fs d, g_last := d_last d, g_clk := d_clk d\<rparr>)))"
    then have "store_list (g_dev s) ! i \<in> set (stores (g_dev s))" by (auto simp: in_set_conv_nth)
    then have ok: "objs_ok (unat (g_next s)) (obj_list (d_store ?d))"
      using objects_stores_ok[OF assms(2)] by (simp add: stores_ok_def)
    from delete_total[OF ok, of fuel ff e stop h fmt] objs_ok_length[OF ok] assms(1) d(1)
    have k: "objs_ok (unat (g_next s)) (obj_list (d_store d))" "keys d \<subseteq> keys ?d" by auto
    have "set (handles_of (obj_list (d_store d))) \<subseteq> set (handles_of (obj_list (d_store ?d)))"
      using image_mono[OF k(2), of fst] unfolding keys_handles .
    with k(1) show "objs_ok (unat (g_next (s\<lparr>g_fs := d_fs d, g_last := d_last d, g_clk := d_clk d\<rparr>))) (obj_list (d_store d))
       \<and> set (handles_of (obj_list (d_store d)))
         \<subseteq> set (handles_of (obj_list (store_list (g_dev (s\<lparr>g_fs := d_fs d, g_last := d_last d, g_clk := d_clk d\<rparr>)) ! i)))" by simp
  qed
  with d(2) show "objects_ok (objects s') \<and> g_next s' = g_next s" by simp
qed

lemma device_delete_objects:
  fixes s :: "'fs sys"
  assumes "unat (g_next s) \<le> fuel" "objects_ok (objects s)"
  shows "ensures (device_delete_object fuel ff e stop h fmt s) (\<lambda>(s', _). objects_ok (objects s') \<and> g_next s' = g_next s)"
proof (cases "h = PTP_OBJECTHANDLE_ALL")
  case False
  then show ?thesis
    using delete_in_store_objects[OF assms] assms(2) by (auto simp: device_delete_object_def split: option.split)
next
  case True
  have loop: "ensures (foldM (\<lambda>i (g :: 'fs sys, r :: u16, ao). do {
              (g', r') \<leftarrow> delete_in_store fuel ff e stop h fmt i g;
              Some (g', r', delete_outcome r' ao) })
            is (s, PTP_RESPONSE_OK, True, False)) (\<lambda>(s', _). objects_ok (objects s') \<and> g_next s' = g_next s)" for "is"
    using assms by (intro foldM_ensures) (auto intro!: ensures_mono[OF delete_in_store_objects])
  have "device_delete_object fuel ff e stop h fmt s = do {
        (g1, r, all_del, atlst_one) \<leftarrow>
          foldM (\<lambda>i (g, r, ao). do {
              (g', r') \<leftarrow> delete_in_store fuel ff e stop h fmt i g;
              Some (g', r', delete_outcome r' ao) })
            [0..<length (stores (g_dev s))] (s, PTP_RESPONSE_OK, True, False);
        Some (g1, if all_del then PTP_RESPONSE_OK
                  else if atlst_one then PTP_RESPONSE_PARTIAL_DELETION else r) }"
    using True by (simp add: device_delete_object_def)
  then show ?thesis by (auto intro!: ensures_mono[OF loop] simp del: length_take)
qed

lemma remove_entry_objects:
  assumes "unat (g_next s) \<le> c_fuel c"
  shows "ensures (hutil_remove_object_entry c h fmt s) (\<lambda>(s', _). evolves (objects s) (objects s'))"
proof (cases "objects_ok (objects s)")
  case True
  show ?thesis
    by (auto simp: hutil_remove_object_entry_def evolves_def intro!: ensures_mono[OF device_delete_objects[OF assms True]])
qed (auto simp: evolves_def intro!: ensuresI)

subsection \<open>Enumeration\<close>

text \<open>What the enumeration of storages does to the objects; the numbers add up.\<close>

fun grown :: "objects \<Rightarrow> objects \<Rightarrow> bool" where
  "grown (ls, n, p) (ls', n', p') \<longleftrightarrow> length ls' = length ls \<and> length (concat ls) \<le> length (concat ls')
     \<and> (objects_ok (ls, n, p) \<longrightarrow> room (ls, n, p) (ls', n', p') \<longrightarrow>
          objects_ok (ls', n', p') \<and> unat n' + length (concat ls) = unat n + length (concat ls'))"

lemma grown_refl [simp]: "grown x x"
  by (cases x) simp

lemma grown_trans: "grown x y \<Longrightarrow> grown y z \<Longrightarrow> grown x z"
  by (cases x; cases y; cases z) (auto simp del: objects_ok.simps)

lemma grown_evolves: "grown x y \<Longrightarrow> evolves x y"
  by (cases x; cases y) (simp add: evolves_def del: objects_ok.simps)

lemma enumerate_objects:
  assumes "i < length (stores (g_dev s))"
  shows "ensures (enumerate_store c i s) (\<lambda>s'. grown (objects s) (objects s'))"
proof -
  let ?st = "store_list (g_dev s) ! i" and ?ls = "map obj_list (stores (g_dev s))" and ?p = "so_obj (data4_send_obj (g_hdlr s))"
  let ?en = "\<lparr>en_store = ?st, en_next = g_next s, en_clk = g_clk s, en_watch = g_watch s\<rparr>"
  have nth: "?ls ! i = obj_list ?st" using assms by simp
  have "grown (?ls, g_next s, ?p) (?ls[i := obj_list (en_store e)], en_next e, ?p)" if r: "enum_rel 0 ?en e" for e
  proof -
    have len: "length (concat (?ls[i := obj_list (en_store e)])) + length (obj_list ?st) = length (concat ?ls) + length (obj_list (en_store e))"
      using concat_update_length[of i ?ls] assms nth by simp
    have le: "length (obj_list ?st) \<le> length (obj_list (en_store e))" using r by (simp add: enum_rel_def)
    have "objects_ok (?ls[i := obj_list (en_store e)], en_next e, ?p)
        \<and> unat (en_next e) + length (concat ?ls) = unat (g_next s) + length (concat (?ls[i := obj_list (en_store e)]))"
      if ok: "objects_ok (?ls, g_next s, ?p)" and fits: "unat (g_next s) + length (concat (?ls[i := obj_list (en_store e)])) < 2 ^ 29 + length (concat ?ls)"
    proof -
      have "objs_ok (unat (g_next s)) (obj_list ?st)" using ok assms nth nth_mem[of i ?ls] by auto
      then have "enum_fits 0 ?en e" using fits len ok by (simp add: enum_fits_def)
      with r have e: "objs_ok (unat (en_next e)) (obj_list (en_store e))"
        "unat (en_next e) + length (obj_list ?st) = unat (g_next s) + length (obj_list (en_store e))"
        "set (handles_of (obj_list (en_store e))) \<subseteq> set (handles_of (obj_list ?st)) \<union> {h. unat (g_next s) \<le> unat h}"
        by (simp_all add: enum_rel_def)
      show ?thesis using objects_replace[OF ok _ e(1)] e(2,3) nth assms le len by (simp del: objects_ok.simps)
    qed
    with len le show ?thesis by (simp del: objects_ok.simps)
  qed
  then have step: "grown (?ls, g_next s, ?p) (?ls[i := obj_list (en_store e)], en_next e, ?p)"
    if "enum_folder (c_fuel c) (c_os c) (g_fs s) (c_stop c) None ?en = Some e" for e
    using ensuresD[OF enum_folder_rel that] by simp
  have "objects (upd_store i st (s\<lparr>g_next := n, g_clk := k, g_watch := w\<rparr>)) = (?ls[i := obj_list st], n, ?p)" for st n k w
    by (simp add: objects_def take_update_swap map_update)
  with step show ?thesis
    unfolding enumerate_store_def entity_store_recursive_enum_folder_objects_def Let_def
    by (auto simp: objects_def[of s] simp del: grown.simps intro!: ensuresI[of "enum_folder _ _ _ _ _ _"])
qed

lemma enumerate_all_objects:
  assumes "\<forall>i\<in>set is. i < length (stores (g_dev s))"
  shows "ensures (foldM (enumerate_store c) is s) (\<lambda>s'. grown (objects s) (objects s'))"
proof (rule ensuresI)
  fix s' assume r: "foldM (enumerate_store c) is s = Some s'"
  let ?I = "\<lambda>t. grown (objects s) (objects t)"
  have "?I t'" if i: "i \<in> set is" and t: "?I t" and r: "enumerate_store c i t = Some t'" for i t t'
  proof -
    have "length (stores (g_dev t)) = length (stores (g_dev s))" using t by (simp add: objects_def)
    with assms i have "i < length (stores (g_dev t))" by simp
    from ensuresD[OF enumerate_objects[OF this] r] t show ?thesis using grown_trans by blast
  qed
  with foldM_kept[OF r, of ?I] show "?I s'" by simp
qed

lemma object_handles_objects:
  "ensures (hutil_get_object_handles c sid fmt par arr s) (\<lambda>(s1, _). evolves (objects s) (objects s1))"
proof -
  have "ensures (foldM (enumerate_store c) [0..<length (stores (g_dev s))] s) (\<lambda>s'. evolves (objects s) (objects s'))"
    by (rule ensures_mono[OF enumerate_all_objects]) (auto simp del: length_take intro: grown_evolves)
  then have "ensures (if par = PTP_OBJECTHANDLE_ALL \<or> par = PTP_OBJECTHANDLE_ROOT
        then map_option (\<lambda>s'. s'\<lparr>g_full_enum := True\<rparr>) (foldM (enumerate_store c) [0..<length (stores (g_dev s))] s)
        else Some s) (\<lambda>s'. evolves (objects s) (objects s'))" by simp
  then show ?thesis
    by (auto simp: hutil_get_object_handles_def Let_def intro!: ensuresI elim!: ensures_mono split: option.split simp del: ensures_simps(4))
qed

subsection \<open>Changes inside objects\<close>

text \<open>What the commands may change of a stored object: its path, its type and its values.\<close>

definition same_node :: "mtp_obj \<Rightarrow> mtp_obj \<Rightarrow> bool" where
  "same_node x y \<longleftrightarrow> obj_handle y = obj_handle x \<and> child_array y = child_array x
     \<and> map_option h_parent (obj_info y) = map_option h_parent (obj_info x) \<and> (file_path x \<noteq> None \<longrightarrow> file_path y \<noteq> None)"

lemma same_node_refl [simp]: "same_node x x"
  by (simp add: same_node_def)

lemma same_nodes_handles: "list_all2 same_node xs ys \<Longrightarrow> handles_of ys = handles_of xs"
  by (induction rule: list_all2_induct) (auto simp: same_node_def)

lemma same_node_parent: "same_node x y \<Longrightarrow> has_parent h y = has_parent h x"
  by (cases "obj_info x"; cases "obj_info y") (auto simp: same_node_def has_parent_def)

lemma same_nodes_child_set: "list_all2 same_node xs ys \<Longrightarrow> child_set ys h = child_set xs h"
proof (induction rule: list_all2_induct)
  case (Cons x xs y ys)
  have "child_set (z # zs) h = (if has_parent h z then insert (obj_handle z) (child_set zs h) else child_set zs h)" for z zs
    by (auto simp: child_set_def)
  with Cons show ?case using same_node_parent[OF Cons(1)] by (simp add: same_node_def)
qed simp

lemma same_node_ok: "same_node x y \<Longrightarrow> child_set ys = child_set xs \<Longrightarrow> obj_ok n xs x \<Longrightarrow> obj_ok n ys y"
  by (cases "obj_info x"; cases "obj_info y") (auto simp: obj_ok_def same_node_def)

lemma same_nodes_ok:
  assumes "list_all2 same_node xs ys" "objs_ok n xs"
  shows "objs_ok n ys"
proof -
  have c: "child_set ys = child_set xs" using same_nodes_child_set[OF assms(1)] by blast
  have "obj_ok n ys y" if "y \<in> set ys" for y
  proof -
    from that obtain i where "i < length ys" "y = ys ! i" by (auto simp: in_set_conv_nth)
    moreover from this assms(1) have "same_node (xs ! i) y" "xs ! i \<in> set xs" by (auto simp: list_all2_conv_all_nth)
    ultimately show ?thesis using same_node_ok[OF _ c] assms(2) by (auto simp: objs_ok_def)
  qed
  then show ?thesis using assms same_nodes_handles[OF assms(1)] by (simp add: objs_ok_def)
qed

lemma same_nodes_trans: "list_all2 same_node xs ys \<Longrightarrow> list_all2 same_node ys zs \<Longrightarrow> list_all2 same_node xs zs"
  by (rule list_all2_trans[of same_node same_node]) (auto simp: same_node_def)

lemma update_same_nodes: "(\<And>x. find (\<lambda>obj. obj_handle obj = h) objs = Some x \<Longrightarrow> same_node x (f x)) \<Longrightarrow> list_all2 same_node objs (update_obj h f objs)"
  by (induction objs) (auto simp: list_all2_refl)

definition relabelled :: "mtp_store \<Rightarrow> mtp_store \<Rightarrow> bool" where
  "relabelled st st' \<longleftrightarrow> list_all2 same_node (obj_list st) (obj_list st')"

lemma relabelled_refl [simp]: "relabelled st st"
  by (simp add: relabelled_def list_all2_refl)

lemma relabelled_objects:
  assumes "g_dev s' = (g_dev s)\<lparr>store_list := (store_list (g_dev s))[i := st]\<rparr>" "g_next s' = g_next s" "g_hdlr s' = g_hdlr s"
    "relabelled (store_list (g_dev s) ! i) st"
  shows "evolves (objects s) (objects s')"
  unfolding evolves_def
proof (intro impI)
  assume ok: "objects_ok (objects s)"
  have "objects s' = objects (upd_store i st s)" using assms(1-3) by (simp add: objects_def)
  moreover have "objects_ok (objects (upd_store i st s))"
  proof (rule objects_store[OF ok])
    assume "i < length (stores (g_dev s))"
    then have "store_list (g_dev s) ! i \<in> set (stores (g_dev s))" by (auto simp: in_set_conv_nth)
    then have "objs_ok (unat (g_next s)) (obj_list (store_list (g_dev s) ! i))"
      using objects_stores_ok[OF ok] by (simp add: stores_ok_def)
    then have "objs_ok (unat (g_next s)) (obj_list st)" by (rule same_nodes_ok[OF assms(4)[unfolded relabelled_def]])
    moreover have "handles_of (obj_list st) = handles_of (obj_list (store_list (g_dev s) ! i))"
      by (rule same_nodes_handles[OF assms(4)[unfolded relabelled_def]])
    ultimately show "objs_ok (unat (g_next s)) (obj_list st)
       \<and> set (handles_of (obj_list st)) \<subseteq> set (handles_of (obj_list (store_list (g_dev s) ! i)))" by simp
  qed
  ultimately show "objects_ok (objects s')" by simp
qed

lemma relabelled_trans: "relabelled a b \<Longrightarrow> relabelled b d \<Longrightarrow> relabelled a d"
  unfolding relabelled_def by (rule same_nodes_trans)

lemma set_path_relabelled: "relabelled st (st\<lparr>obj_list := update_obj h (\<lambda>ob. entity_set_object_file_path ob p) (obj_list st)\<rparr>)"
  by (auto simp: relabelled_def same_node_def entity_set_object_file_path_def intro!: update_same_nodes)

lemma set_children_relabelled:
  assumes "\<And>h src dest st. ensures (rec h src dest st) (\<lambda>(st', _). relabelled st st')"
  shows "ensures (set_children rec src dest hs st) (relabelled st)"
proof (induction hs arbitrary: st)
  case (Cons h hs)
  have path: "ensures (set_children rec src dest hs st2) (relabelled st)" if "relabelled st st2" for st2
    by (rule ensures_mono[OF Cons.IH]) (use that in \<open>auto intro: relabelled_trans\<close>)
  let ?set = "\<lambda>d. st\<lparr>obj_list := update_obj h (\<lambda>ob. entity_set_object_file_path ob d) (obj_list st)\<rparr>"
  have rec: "ensures (rec h src' d (?set d)) (\<lambda>(st2, _). relabelled st st2)" for src' d
    by (rule ensures_mono[OF assms]) (auto intro: relabelled_trans[OF set_path_relabelled])
  show ?case
    using Cons.IH path[OF set_path_relabelled] path
    by (auto simp: Let_def intro!: ensuresI[of "file_path _"] ensures_mono[OF rec] split: option.split)
qed simp

lemma set_child_paths_relabelled:
  "ensures (entity_set_child_object_path fuel h src dest st) (\<lambda>(st', _). relabelled st st')"
proof (induction fuel arbitrary: h src dest st)
  case (Suc fuel)
  show ?case
    by (auto intro!: ensuresI[of "entity_get_child_handles _ _ _"] ensuresI[of "ptparray_elems _"] ensures_mono[OF set_children_relabelled[OF Suc.IH]])
qed simp

lemma rename_objects:
  "ensures (rename_object c obj orig dest s) (\<lambda>(s1, _). evolves (objects s) (objects s1))"
proof -
  have move: "evolves (objects s) (objects (upd_store i st2 (s\<lparr>g_fs := fs, g_moved := m\<rparr>)))"
    if "entity_set_child_object_path (c_fuel c) (obj_handle obj) orig dest
          ((store_list (g_dev s) ! i)\<lparr>obj_list := update_obj h (\<lambda>ob. entity_set_object_file_path ob dest) (obj_list (store_list (g_dev s) ! i))\<rparr>)
        = Some (st2, ok)" for h i st2 ok fs m
    using ensuresD[OF set_child_paths_relabelled that] relabelled_trans[OF set_path_relabelled]
    by (intro relabelled_objects[where i = i and st = st2]) auto
  show ?thesis
    by (auto simp: rename_object_def Let_def intro!: ensuresI dest!: move split: prod.split bool.split)
qed

lemma first_some_index:
  "first_some f xs = Some y \<Longrightarrow> index_where (\<lambda>x. f x \<noteq> None) xs = Some i \<Longrightarrow> i < length xs \<and> f (xs ! i) = Some y"
  by (induction xs arbitrary: i) (auto split: if_splits option.splits)

lemma found_in_store:
  assumes "device_get_object_with_handle d h = Some obj" "device_get_store_containing_obj d h = Some i"
  shows "find (\<lambda>x. obj_handle x = h) (obj_list (store_list d ! i)) = Some obj"
  using first_some_index[of "\<lambda>st. entity_get_object_from_store st h" "stores d" obj i] assms
  by (auto simp: device_get_object_with_handle_def device_get_store_containing_obj_def entity_get_object_from_store_def)

lemma update_name_objects:
  "ensures (update_file_name c obj buf n s) (\<lambda>(s1, _). evolves (objects s) (objects s1))"
  by (auto simp: update_file_name_def Let_def intro!: ensuresI split: prod.split bool.split option.split
      dest: ensuresD[OF rename_objects])

lemma update_property_objects:
  "ensures (hutil_update_object_property c h pc mbuf n s) (\<lambda>(s1, _). evolves (objects s) (objects s1))"
proof -
  have name: "evolves (objects s) (objects s1)" if "update_file_name c obj buf n (s\<lparr>g_fs := fs\<rparr>) = Some (s1, r)" for obj buf fs s1 r
    using ensuresD[OF update_name_objects that] by simp
  have assoc: "evolves (objects s) (objects (s\<lparr>g_fs := fs, g_dev := (g_dev s)\<lparr>store_list := (store_list (g_dev s))[i := (store_list (g_dev s) ! i)\<lparr>obj_list := update_obj h
      (\<lambda>ob. ob\<lparr>obj_info := Some (info\<lparr>association_type := w\<rparr>)\<rparr>) (obj_list (store_list (g_dev s) ! i))\<rparr>]\<rparr>\<rparr>))"
    if "device_get_object_with_handle (g_dev s) h = Some obj" "device_get_store_containing_obj (g_dev s) h = Some i"
      "obj_info obj = Some info" for obj i info w fs
    using found_in_store[OF that(1,2)] that(3)
    by (intro relabelled_objects[where i = i]) (auto simp: relabelled_def same_node_def intro!: update_same_nodes)
  show ?thesis
    by (auto simp: hutil_update_object_property_def Let_def intro!: ensuresI split: prod.split bool.split option.split
        dest!: name intro: assoc)
qed

subsection \<open>New objects\<close>

lemma objects_bump: "objects_ok (ls, n, p) \<Longrightarrow> unat n < 2 ^ 29 \<Longrightarrow> objects_ok (ls, n + 1, p) \<and> unat (n + 1) = Suc (unat n)"
proof -
  assume a: "objects_ok (ls, n, p)" "unat n < 2 ^ 29"
  have "n < 0x20000000" using a(2) by (simp add: word_less_nat_alt)
  then have n: "unat (n + 1) = Suc (unat n)" by (rule unat_Suc_word)
  have "addable (Suc (unat n)) (concat ls) obj" if "p = Some obj" for obj
    using a(1) that by (auto intro: addable_mono)
  with a n show ?thesis by (auto intro: objs_ok_mono split: option.split)
qed

lemma write_file_objects:
  "ensures (hutil_write_file_data c sid (so_obj (data4_send_obj (g_hdlr s))) path s) (\<lambda>(s1, _). evolves (objects s) (forget (objects s1)))"
proof -
  let ?ls = "map obj_list (stores (g_dev s))"
  have add: "evolves (objects s) (forget (objects (s\<lparr>g_fs := fs, g_moved := m,
      g_dev := (g_dev s)\<lparr>store_list := (store_list (g_dev s))[i := st']\<rparr>\<rparr>)))"
    if obj: "so_obj (data4_send_obj (g_hdlr s)) = Some obj" and i: "store_index (g_dev s) sid = Some i"
      and st: "entity_add_object_to_store (store_list (g_dev s) ! i) obj = Some (st', b)" for obj i st' b fs m
    unfolding evolves_def
  proof (intro impI)
    assume ok: "objects_ok (objects s)"
    note li = store_indexD[OF i]
    have nth: "?ls ! i = obj_list (store_list (g_dev s) ! i)" using li by simp
    have o: "objs_ok (unat (g_next s)) (obj_list (store_list (g_dev s) ! i))"
      using objects_stores_ok[OF ok] li(2) by (simp add: stores_ok_def)
    have pend: "addable (unat (g_next s)) (concat ?ls) obj" using ok obj by (simp add: objects_def)
    have "set (handles_of (obj_list (store_list (g_dev s) ! i))) \<subseteq> set (handles_of (concat ?ls))"
      using handles_concat[of i ?ls] li(1) unfolding nth by simp
    then have "addable (unat (g_next s)) (obj_list (store_list (g_dev s) ! i)) obj"
      by (intro addable_mono[OF pend order_refl]) blast
    from add_addable_ok[OF o this] st have "objs_ok (unat (g_next s)) (obj_list st')" by auto
    moreover have "objects_ok (?ls, g_next s, None)" using ok by (simp add: objects_def)
    ultimately have "objects_ok (?ls[i := obj_list st'], g_next s, None)" using li(1) by (intro objects_replace[where n = "g_next s"]) simp_all
    then show "objects_ok (forget (objects (s\<lparr>g_fs := fs, g_moved := m,
        g_dev := (g_dev s)\<lparr>store_list := (store_list (g_dev s))[i := st']\<rparr>\<rparr>)))"
      by (simp add: objects_def take_update_swap map_update)
  qed
  show ?thesis
    by (auto simp: hutil_write_file_data_def intro!: ensuresI split: option.split bool.split prod.split intro: add)
qed

text \<open>A new entry: the objects evolve, and the object of a file is ready to be stored.\<close>

definition entered :: "'fs sys \<Rightarrow> 'fs sys \<times> mtp_err \<times> mtp_obj option \<Rightarrow> bool" where
  "entered s r \<longleftrightarrow> (case r of (s1, er, mobj) \<Rightarrow> objects_ok (objects s) \<longrightarrow> room (objects s) (objects s1) \<longrightarrow>
     objects_ok (objects s1) \<and> (\<forall>obj i. mobj = Some obj \<longrightarrow> obj_info obj = Some i \<longrightarrow> obj_fmt i \<noteq> PTP_FMT_ASSOCIATION \<longrightarrow>
       addable (unat (fst (snd (objects s1)))) (concat (fst (objects s1))) obj))"

lemma entered_none: "objects s1 = objects s \<Longrightarrow> entered s (s1, er, None)"
  by (simp add: entered_def)

lemma entered_cong: "objects s1 = objects s \<Longrightarrow> entered s1 = entered s"
  by (simp add: fun_eq_iff entered_def)

lemma next_unused:
  assumes "objects_ok (ls, n, p)"
  shows "n \<notin> set (handles_of (concat ls))"
proof
  assume "n \<in> set (handles_of (concat ls))"
  then obtain objs x where x: "objs \<in> set ls" "x \<in> set objs" "obj_handle x = n" by auto
  then have "objs_ok (unat n) objs" using assms by simp
  from objs_okD(4)[OF this x(2)] x(3) show False by simp
qed

text \<open>The object that is made for an entry.\<close>

definition made_for :: "obj_info \<Rightarrow> u32 \<Rightarrow> mtp_obj \<Rightarrow> bool" where
  "made_for info n obj \<longleftrightarrow> obj_handle obj = n \<and> file_path obj \<noteq> None \<and> child_array obj = zero_child_array
     \<and> (\<exists>j. obj_info obj = Some j \<and> h_parent j = h_parent info \<and> obj_fmt j = obj_fmt info)"

lemma new_object_made: "made_for info n (entity_set_object_file_path (new_object n info) path)"
  by (simp add: made_for_def new_object_def entity_set_object_file_path_def)

text \<open>A counted handle, with the object of a file or without one.\<close>

lemma bump_entered:
  assumes "objects s = (ls, n, p)" "objects s1 = (ls, n + 1, p)" "objects_ok (objects s) \<Longrightarrow> unat (h_parent info) < unat n"
  shows "entered s (s1, er, None)" "made_for info n obj \<Longrightarrow> entered s (s1, er, Some obj)"
proof -
  have b: "objects_ok (ls, n + 1, p) \<and> unat (n + 1) = Suc (unat n)" if "objects_ok (ls, n, p)" "room (objects s) (objects s1)"
    using objects_bump[OF that(1)] that(2) by (simp add: assms(1,2) del: objects_ok.simps)
  show "entered s (s1, er, None)" using b by (auto simp: entered_def assms(1,2) simp del: objects_ok.simps)
  assume m: "made_for info n obj"
  have "addable (unat (n + 1)) (concat ls) obj" if ok: "objects_ok (ls, n, p)" "room (objects s) (objects s1)"
    using next_unused[OF ok(1)] b[OF ok] m assms(1,3) ok(1) zero_child_array_inv by (auto simp: made_for_def addable_def simp del: objects_ok.simps)
  with b show "entered s (s1, er, Some obj)"
    by (auto simp: entered_def assms(1,2) simp del: objects_ok.simps)
qed

text \<open>A folder is stored at once.\<close>

lemma folder_entered:
  assumes obs: "objects s = (ls, n, p)" "objects s1 = (ls[i := obj_list st'], n + 1, p)" "i < length ls" "ls ! i = obj_list st"
    and par: "objects_ok (objects s) \<Longrightarrow> unat (h_parent info) < unat n"
    and new: "made_for info n obj" "entity_add_object_to_store st obj = Some (st', b)" "obj_fmt info = PTP_FMT_ASSOCIATION"
  shows "entered s (s1, er, Some obj)"
proof -
  obtain j path where j: "obj_info obj = Some j" "h_parent j = h_parent info" "obj_fmt j = PTP_FMT_ASSOCIATION" "file_path obj = Some path"
    using new(1,3) by (auto simp: made_for_def)
  have "objects_ok (ls[i := obj_list st'], n + 1, p)" if ok: "objects_ok (ls, n, p)" and r: "room (objects s) (objects s1)"
  proof -
    have "length (obj_list st') = Suc (length (obj_list st))" using ensuresD[OF add_object_length new(2)] j(1) by simp
    then have lt: "unat n < 2 ^ 29" using r concat_update_length[of i ls "obj_list st'"] obs by simp
    moreover have "objs_ok (unat n) (obj_list st)" using ok nth_mem[of i ls] obs(3,4) by auto
    ultimately obtain objs where o: "st' = st\<lparr>obj_list := objs\<rparr>" "objs_ok (Suc (unat n)) objs"
      "map obj_key objs = map obj_key (obj_list st) @ [obj_key obj]"
      using add_object_ok[of "unat n" st obj j path] new(1,2) j par ok obs(1) zero_child_array_inv by (auto simp: made_for_def simp del: objects_ok.simps)
    have u: "unat (n + 1) = Suc (unat n)" using objects_bump[OF ok lt] by simp
    have "fst ` set (map obj_key objs) = insert n (fst ` set (map obj_key (obj_list st)))"
      unfolding o(3) using new(1) by (simp add: made_for_def)
    then have "set (handles_of objs) = insert n (set (handles_of (obj_list st)))" by (simp add: image_image)
    then show ?thesis
      using o u obs(3,4) by (intro objects_replace[OF ok]) (auto simp del: objects_ok.simps)
  qed
  with j show ?thesis by (auto simp: entered_def obs(1,2) simp del: objects_ok.simps)
qed

lemma add_body_entered:
  assumes i: "i < length (stores (g_dev s))" and par: "objects_ok (objects s) \<Longrightarrow> unat (h_parent info) < unat (g_next s)"
  shows "ensures (add_object_body c info fname p i s) (entered s)"
proof -
  let ?ls = "map obj_list (stores (g_dev s))" and ?so = "so_obj (data4_send_obj (g_hdlr s))"
  have obs: "objects s = (?ls, g_next s, ?so)" by (simp add: objects_def)
  have nth: "i < length ?ls" "?ls ! i = obj_list (store_list (g_dev s) ! i)" using i by simp_all
  have assoc: "objects s3 = objects t" if "create_association c info path t = (s3, ok)" for path t s3 ok
    using that by (auto simp: create_association_def split: if_splits prod.splits bool.splits)
  note bump = bump_entered[OF obs _ par]
  note folder = folder_entered[OF obs _ nth par new_object_made]
  have n: "objects (s\<lparr>g_next := g_next s + 1\<rparr>) = (?ls, g_next s + 1, ?so)" by (simp add: objects_def)
  have stored: "entered s (upd_store i st' s3, er, Some (entity_set_object_file_path (new_object (g_next s) info) path))"
    if "create_association c info path (s\<lparr>g_next := g_next s + 1, g_ftemp := t\<rparr>) = (s3, True)" "obj_fmt info = PTP_FMT_ASSOCIATION"
      "entity_add_object_to_store (store_list (g_dev s) ! i) (entity_set_object_file_path (new_object (g_next s) info) path) = Some (st', b)"
    for st' s3 er path t b
    by (rule folder[OF objects_upd_from _ that(3,2)]) (use assoc[OF that(1)] n in simp_all)
  have failed: "entered s (s\<lparr>g_next := g_next s + 1\<rparr>, er, None)" "entered s (s\<lparr>g_next := g_next s + 1, g_ftemp := t\<rparr>, er, None)" for er t
    using n by (auto intro!: bump(1))
  have refused: "entered s (s3, er, None)" if "create_association c info path (s\<lparr>g_next := g_next s + 1, g_ftemp := t\<rparr>) = (s3, ok)" for path t s3 ok er
    using assoc[OF that] n by (auto intro!: bump(1))
  have plain: "entered s (s\<lparr>g_next := g_next s + 1, g_ftemp := t, g_dev := (g_dev s)\<lparr>store_list := (store_list (g_dev s))
      [i := (store_list (g_dev s) ! i)\<lparr>s_info := si\<rparr>]\<rparr>\<rparr>, er, Some (entity_set_object_file_path (new_object (g_next s) info) path))" for t si er path
    using objects_same_store[of "(store_list (g_dev s) ! i)\<lparr>s_info := si\<rparr>" "s\<lparr>g_next := g_next s + 1, g_ftemp := t\<rparr>" i] n
    by (intro bump(2) new_object_made) simp_all
  show ?thesis
    by (auto simp: add_object_body_def Let_def intro!: ensuresI failed plain split: prod.split bool.split intro: refused stored)
qed

lemma found_object_handle:
  assumes "device_get_object_with_handle d h = Some obj"
  obtains st where "st \<in> set (stores d)" "obj \<in> set (obj_list st)" "obj_handle obj = h"
proof -
  have "first_some f xs = Some y \<Longrightarrow> \<exists>x\<in>set xs. f x = Some y" for f and xs :: "mtp_store list" and y :: mtp_obj
    by (induction xs) (auto split: option.splits)
  from this[OF assms[unfolded device_get_object_with_handle_def]] that show thesis
    by (auto simp: entity_get_object_from_store_def find_Some_iff)
qed

lemma add_entry_entered: "ensures (hutil_add_object_entry c info fname s) (entered s)"
proof -
  have enter: "ensures (add_object_body c info fname p i s) (entered s)"
    if "store_index (g_dev s) (store_id info) = Some i" "h_parent info = 0 \<or> device_get_object_with_handle (g_dev s) (h_parent info) = Some par" for p i par
  proof (rule add_body_entered[OF store_indexD(1)[OF that(1)]])
    assume ok: "objects_ok (objects s)"
    show "unat (h_parent info) < unat (g_next s)"
    proof (cases "h_parent info = 0")
      case True
      with ok show ?thesis by (simp add: objects_def)
    next
      case False
      with that(2) obtain st where st: "st \<in> set (stores (g_dev s))" "par \<in> set (obj_list st)" "obj_handle par = h_parent info"
        using found_object_handle[of "g_dev s" "h_parent info" par] by auto
      then have "objs_ok (unat (g_next s)) (obj_list st)" using objects_stores_ok[OF ok] by (simp add: stores_ok_def)
      from objs_okD(4)[OF this st(2)] st(3) show ?thesis by simp
    qed
  qed
  show ?thesis
    by (auto simp: hutil_add_object_entry_def Let_def entered_none intro!: ensuresI[of "obj_info _"] enter split: option.split)
qed

lemma refresh_objects [simp]: "objects (refresh_store c i s) = objects s"
  unfolding refresh_store_def Let_def by (rule objects_same_store) simp

lemma construct_entered: "ensures (hutil_construct_object_entry c sid par prev bs n s) (entered s)"
proof -
  have err: "entered s (s1, er, mobj) \<Longrightarrow> entered s (s1, er', mobj)" for s1 :: "'a sys" and er er' mobj
    by (simp add: entered_def)
  have store: "ensures (construct_in_store c sid' par' bs n s) (entered s)" for sid' par' and s :: "'a sys"
    by (auto simp: construct_in_store_def Let_def entered_none intro!: ensuresI[of "entity_parse_raw_obj_info _ _ _ _ _"]
        ensures_mono[OF add_entry_entered] split: option.split prod.split) (simp_all add: entered_def)
  let ?s = "case Option.bind prev (store_index (g_dev s)) of None \<Rightarrow> s | Some j \<Rightarrow> refresh_store c j s"
  have "entered ?s = entered s" by (rule entered_cong) (simp split: option.split)
  with store[of _ _ ?s] show ?thesis by (simp add: hutil_construct_object_entry_def entered_none)
qed

section \<open>The handlers\<close>

text \<open>
  The contract of a handler: it evolves the objects, provided there is fuel
  for trees of all objects.  Most handlers only read them.
\<close>

locale object_handler =
  fixes run :: "'fs conf \<Rightarrow> 'fs sys \<Rightarrow> 'fs sys option"
  assumes evolved: "unat (g_next s) \<le> c_fuel c \<Longrightarrow> ensures (run c s) (\<lambda>s'. evolves (objects s) (objects s'))"
begin

lemma keeps_stores:
  "unat (g_next s) \<le> c_fuel c \<Longrightarrow> objects_ok (objects s) \<Longrightarrow>
     ensures (run c s) (\<lambda>s'. room (objects s) (objects s') \<longrightarrow> stores_ok s')"
  by (rule ensures_mono[OF evolved]) (auto simp: evolves_def intro: objects_stores_ok)

end

locale object_reader =
  fixes run :: "'fs conf \<Rightarrow> 'fs sys \<Rightarrow> 'fs sys option"
  assumes reads: "ensures (run c s) (\<lambda>s'. objects s' = objects s)"

sublocale object_reader \<subseteq> object_handler
  by unfold_locales (rule ensures_mono[OF reads], simp)

lemma response_objects [simp]: "ensures (cmd_hdlr_send_response c r n ps s) (\<lambda>x. objects (fst x) = objects s)"
  by (auto simp: cmd_hdlr_send_response_def
      intro!: ensuresI[of "hdlr_add_param_resp_container _ _ _"] ensuresI[of "hdlr_send_resp_container _ _ _ _"])

lemma response_code_objects [simp]: "ensures (cmd_hdlr_send_response_code c r s) (\<lambda>s'. objects s' = objects s)"
  by (simp add: cmd_hdlr_send_response_code_def)

lemma send_data_objects [simp]: "ensures (send_data_then_ok c blk s) (\<lambda>s'. objects s' = objects s)"
  by (auto simp: send_data_then_ok_def Let_def intro!: ensuresI[of "hdlr_send_data_container _ _ _ _"] ensures_mono[OF response_code_objects])

lemma send_dataset_objects [simp]: "ensures (send_dataset c n packed s) (\<lambda>s'. objects s' = objects s)"
  by (auto simp: send_dataset_def intro!: ensuresI[of "hdlr_alloc_buf_data_container _ _ _"] ensuresI[of "fill_payload _ _"])

text \<open>A response behind a step that leaves the objects alone.\<close>

lemma answer_objects:
  "objects s1 = objects s \<Longrightarrow> ensures (cmd_hdlr_send_response_code c r s1) (\<lambda>s'. objects s' = objects s)"
  "objects s1 = objects s \<Longrightarrow> ensures (cmd_hdlr_send_response c r n ps s1) (\<lambda>x. objects (fst x) = objects s)"
  "objects s1 = objects s \<Longrightarrow> ensures (send_data_then_ok c blk s1) (\<lambda>s'. objects s' = objects s)"
  "objects s1 = objects s \<Longrightarrow> ensures (send_dataset c k packed s1) (\<lambda>s'. objects s' = objects s)"
  by (metis response_code_objects response_objects send_data_objects send_dataset_objects)+

lemmas data_steps = ensuresI[of "hdlr_alloc_buf_data_container _ _ _"] ensuresI[of "fill_payload _ _"]
  ensuresI[of "hdlr_send_data_container _ _ _ _"]

interpretation open_session_objects: object_reader open_session
  by unfold_locales (auto simp: open_session_def simp del: send_response_code_ok intro!: pure_steps answer_objects)

interpretation close_session_objects: object_reader close_session
  by unfold_locales (auto simp: close_session_def intro!: pure_steps answer_objects)

interpretation reset_device_objects: object_reader reset_device
  by unfold_locales (auto simp: reset_device_def intro!: pure_steps answer_objects)

interpretation begin_end_edit_objects: object_reader begin_end_edit_object
  by unfold_locales (auto simp: begin_end_edit_object_def)

interpretation vendor_command1_objects: object_reader vendor_command1
  by unfold_locales (auto simp: vendor_command1_def intro!: pure_steps answer_objects)

interpretation get_object_prop_desc_objects: object_reader get_object_prop_desc
  by unfold_locales (auto simp: get_object_prop_desc_def intro!: pure_steps answer_objects split: option.split)

interpretation get_device_info_objects: object_reader get_device_info
  by unfold_locales (auto simp: get_device_info_def Let_def intro!: pure_steps answer_objects)

lemma storage_entry_objects: "ensures (hutil_get_storage_entry c sid s) (\<lambda>(s1, _). objects s1 = objects s)"
  by (auto simp: hutil_get_storage_entry_def Let_def intro!: ensuresI split: option.split)

interpretation get_storage_info_objects: object_reader get_storage_info
  by unfold_locales (auto simp: get_storage_info_def Let_def split: option.split
      intro!: pure_steps ensures_mono[OF storage_entry_objects] answer_objects)

interpretation get_object_info_objects: object_reader get_object_info
  by unfold_locales (auto simp: get_object_info_def Let_def split: option.split intro!: pure_steps answer_objects)

interpretation get_storage_ids_objects: object_reader get_storage_ids
  by unfold_locales (auto simp: get_storage_ids_def Let_def intro!: pure_steps data_steps answer_objects)

interpretation get_interdep_prop_desc_objects: object_reader get_interdep_prop_desc
  by unfold_locales (auto simp: get_interdep_prop_desc_def Let_def intro!: pure_steps data_steps answer_objects)

interpretation send_partial_object_objects: object_reader send_partial_object
  by unfold_locales (auto simp: send_partial_object_def intro!: pure_steps answer_objects)

lemma take_ctrl_objects [simp]: "objects (snd (take_ctrl c s)) = objects s"
  by (simp add: take_ctrl_def)

lemma get_object_loop_objects:
  "ensures (get_object_loop c total_len buf_len content n s) (\<lambda>(s1, _). objects s1 = objects s)"
proof (induction c total_len buf_len content n s rule: get_object_loop.induct)
  case (1 c total_len buf_len content n s)
  obtain ev s1 where t: "take_ctrl c s = (ev, s1)" by fastforce
  then have "objects s1 = objects s" using take_ctrl_objects[of c s] by simp
  with 1 t show ?case
    by (subst get_object_loop.simps) (auto simp: Let_def split: option.split)
qed

lemma transfer_file_objects: "ensures (transfer_file c blk n total_len content s) (\<lambda>(s1, _). objects s1 = objects s)"
proof -
  obtain ev s1 where t: "take_ctrl c s = (ev, s1)" by fastforce
  then have "objects s1 = objects s" using take_ctrl_objects[of c s] by simp
  with t show ?thesis
    using ensuresD[OF get_object_loop_objects]
    by (auto simp: transfer_file_def Let_def intro!: data_steps ensuresI[of "cdata _"] ensuresI[of "hdlr_send_bulk_data _ _ _ _ _"]
       ensures_mono[OF get_object_loop_objects])
qed

interpretation get_object_objects: object_reader get_object
  by unfold_locales (auto simp: get_object_def Let_def intro!: pure_steps data_steps answer_objects ensures_mono[OF transfer_file_objects]
    split: option.split sum.split)

lemma read_file_objects: "ensures (hutil_read_file_data_from_offset c h off n s) (\<lambda>(s1, _). objects s1 = objects s)"
  by (auto simp: hutil_read_file_data_from_offset_def Let_def intro!: ensuresI split: option.split sum.split)

interpretation get_partial_object_objects: object_reader get_partial_object
  by unfold_locales (auto simp: get_partial_object_def Let_def intro!: pure_steps data_steps answer_objects
    ensures_mono[OF read_file_objects] split: option.split sum.split)

text \<open>A response behind a step that evolves the objects.\<close>

lemma answer_evolves:
  "evolves x (objects s1) \<Longrightarrow> ensures (cmd_hdlr_send_response_code c r s1) (\<lambda>s'. evolves x (objects s'))"
  "evolves x (objects s1) \<Longrightarrow> ensures (cmd_hdlr_send_response c r n ps s1) (\<lambda>r. evolves x (objects (fst r)))"
  "evolves x (objects s1) \<Longrightarrow> ensures (send_data_then_ok c blk s1) (\<lambda>s'. evolves x (objects s'))"
  by (rule ensures_mono[OF response_code_objects] ensures_mono[OF response_objects] ensures_mono[OF send_data_objects]; simp)+

lemma reset_cmd_objects [simp]: "objects (cmd_hdlr_reset_cmd s) = forget (objects s)"
  by (simp add: cmd_hdlr_reset_cmd_def objects_def zero_send_object_def)

lemma evolves_forget: "evolves x y \<Longrightarrow> evolves x (forget y)"
  by (auto simp: evolves_def)

interpretation power_down_objects: object_handler power_down
  by unfold_locales (auto simp: power_down_def intro!: pure_steps evolves_forget answer_evolves ensures_mono[OF response_code_objects])

interpretation get_object_handles_objects: object_handler get_object_handles
  by unfold_locales (auto simp: get_object_handles_def Let_def intro!: pure_steps data_steps answer_evolves ensures_mono[OF object_handles_objects])

interpretation delete_object_objects: object_handler delete_object
proof
  fix c :: "'fs conf" and s :: "'fs sys"
  assume "unat (g_next s) \<le> c_fuel c"
  then have "ensures (hutil_remove_object_entry c h fmt (s\<lparr>g_op_state := MTP_STATE_DATA_PROCESSING\<rparr>))
      (\<lambda>(s', _). evolves (objects s) (objects s'))" for h fmt
    using remove_entry_objects[of "s\<lparr>g_op_state := MTP_STATE_DATA_PROCESSING\<rparr>" c h fmt] by simp
  note del = ensures_mono[OF this]
  show "ensures (delete_object c s) (\<lambda>s'. evolves (objects s) (objects s'))"
    by (auto simp: delete_object_def intro!: pure_steps del answer_evolves)
qed

lemma receive_data_objects: "ensures (receive_data c n s) (\<lambda>(s1, _). objects s1 = objects s)"
  by (auto simp: receive_data_def intro!: ensuresI)

interpretation set_object_prop_value_objects: object_handler set_object_prop_value
proof
  fix c :: "'fs conf" and s :: "'fs sys"
  have upd: "ensures (hutil_update_object_property c h pc mbuf n s1) (\<lambda>(s2, _). evolves (objects s) (objects s2))"
    if "objects s1 = objects s" for h pc mbuf n s1
    using update_property_objects[of c h pc mbuf n s1] that by simp
  show "ensures (set_object_prop_value c s) (\<lambda>s'. evolves (objects s) (objects s'))"
    by (auto simp: set_object_prop_value_def intro!: pure_steps answer_evolves ensures_mono[OF receive_data_objects] ensures_mono[OF upd])
qed

interpretation send_object_objects: object_handler send_object
proof
  fix c :: "'fs conf" and s :: "'fs sys"
  have wr: "ensures (hutil_write_file_data c sid (so_obj (data4_send_obj (g_hdlr s))) path s1) (\<lambda>(s2, _). evolves (objects s) (forget (objects s2)))"
    if "objects s1 = objects s" for sid path s1
    using write_file_objects[of c sid s1 path] that by (simp add: objects_def)
  have ans: "ensures (cmd_hdlr_send_response_code c r s2) (\<lambda>s3. evolves (objects s) (forget (objects s3)))"
    if "evolves (objects s) (forget (objects s2))" for r s2
    by (rule ensures_mono[OF response_code_objects]) (use that in simp)
  have rcv: "ensures m (\<lambda>(_, _, _, ft'). True)" for m :: "(data_container \<times> bool \<times> string option \<times> temp_file) option"
    by (simp add: ensures_def)
  show "ensures (send_object c s) (\<lambda>s'. evolves (objects s) (objects s'))"
    by (auto simp: send_object_def Let_def intro!: pure_steps answer_evolves ensures_mono[OF rcv] ensures_mono[OF wr] ans)
qed

lemma answer_info_objects:
  assumes "entered s2 (s3, er, mobj)" "objects s4 = objects s3" "objects s2 = objects s \<or> objects s2 = forget (objects s)"
  shows "ensures (answer_object_info c sid par er' mobj s4) (\<lambda>s'. evolves (objects s) (objects s'))"
proof -
  have ev: "evolves (objects s) (objects s3)"
    using assms(1,3) by (auto simp: entered_def evolves_def)
  have none: "evolves (objects s) (forget (objects s4))"
    using evolves_forget[OF ev] assms(2) by simp
  have some: "evolves (objects s) (fst (objects s4), fst (snd (objects s4)), Some obj)"
    if "mobj = Some obj" "obj_info obj = Some i" "obj_fmt i \<noteq> PTP_FMT_ASSOCIATION" for obj i
    using ev assms that by (cases "objects s3"; cases "objects s") (auto simp: entered_def evolves_def simp del: objects_ok.simps, auto)
  have "evolves (objects s) (objects (upd_hdlr (\<lambda>hd. hd\<lparr>data4_send_obj := announce sid par obj i (data4_send_obj hd), last_fmt_code := fc\<rparr>) s4))"
    if "mobj = Some obj" "obj_info obj = Some i" for obj i fc
    by (cases "obj_fmt i = PTP_FMT_ASSOCIATION") (use that in \<open>auto simp: announce_def intro!: none some\<close>)
  then show ?thesis
    using ev assms(2)
    by (auto simp: answer_object_info_def Let_def intro!: ensuresI[of mobj] pure_steps answer_evolves)
qed

interpretation send_object_info_objects: object_handler send_object_info
proof
  fix c :: "'fs conf" and s :: "'fs sys"
  let ?drop = "upd_hdlr (\<lambda>hd. hd\<lparr>data4_send_obj := (data4_send_obj hd)\<lparr>so_obj := None\<rparr>\<rparr>)"
  let ?inv = "upd_hdlr (\<lambda>hd. hd\<lparr>data4_send_obj := (data4_send_obj hd)\<lparr>so_is_valid := False\<rparr>\<rparr>)"
  have tail: "ensures (hutil_construct_object_entry c sid par prev bs n s2)
      (\<lambda>x. ensures (case x of (s3, er, mobj) \<Rightarrow> answer_object_info c sid par er mobj (?inv s3)) (\<lambda>s'. evolves (objects s) (objects s')))"
    if "objects s2 = objects s \<or> objects s2 = forget (objects s)" for sid par prev bs n s2
    by (rule ensures_mono[OF construct_entered]) (auto intro!: answer_info_objects[OF _ _ that])
  show "ensures (send_object_info c s) (\<lambda>s'. evolves (objects s) (objects s'))"
    by (auto simp: send_object_info_def Let_def intro!: pure_steps answer_evolves ensures_mono[OF receive_data_objects] tail)
qed

section \<open>The dispatcher\<close>

lemma finish_kept_objects: "objects (finish_command s) = objects s \<or> objects (finish_command s) = forget (objects s)"
  by (auto simp: finish_command_def Let_def zero_send_object_def split: option.split)

lemma finish_objects_evolve: "evolves x (objects s) \<Longrightarrow> evolves x (objects (finish_command s))"
  using finish_kept_objects[of s] by (auto simp: evolves_forget)

lemmas handler_evolves = close_session_objects.evolved get_storage_ids_objects.evolved get_storage_info_objects.evolved
  get_object_handles_objects.evolved get_object_info_objects.evolved get_object_objects.evolved delete_object_objects.evolved
  get_partial_object_objects.evolved reset_device_objects.evolved get_object_prop_desc_objects.evolved power_down_objects.evolved
  get_interdep_prop_desc_objects.evolved vendor_command1_objects.evolved begin_end_edit_objects.evolved
  send_object_info_objects.evolved send_object_objects.evolved set_object_prop_value_objects.evolved
  send_partial_object_objects.evolved get_device_info_objects.evolved open_session_objects.evolved

lemma session_command_objects:
  assumes "unat (g_next s) \<le> c_fuel c"
  shows "ensures (session_command c s) (\<lambda>(s', _). evolves (objects s) (objects s'))"
proof -
  note h = handler_evolves[OF assms]
  have run: "ensures (map_option (\<lambda>s1. (s1, True)) m) (\<lambda>(s', _). evolves (objects s) (objects s'))"
    if "ensures m (\<lambda>s'. evolves (objects s) (objects s'))" for m :: "'a sys option"
    using that by simp
  have get: "ensures (get_object c (eh_send_event_req_to_eh_thread a p q r s)) (\<lambda>s'. evolves (objects s) (objects s'))" for a p q r
    using get_object_objects.evolved[of "eh_send_event_req_to_eh_thread a p q r s" c] assms by simp
  have part: "ensures (send_partial_object c (s\<lparr>g_fs := fs\<rparr>)) (\<lambda>s'. evolves (objects s) (objects s'))" for fs
    using send_partial_object_objects.evolved[of "s\<lparr>g_fs := fs\<rparr>" c] assms by simp
  have "ensures (data_out_command c s) (\<lambda>(s', _). evolves (objects s) (objects s'))"
    using h by (auto simp: data_out_command_def Let_def)
  moreover have "ensures (send_partial_command c s) (\<lambda>(s', _). evolves (objects s) (objects s'))"
    using part by (auto simp: send_partial_command_def split: prod.split)
  moreover have "ensures (cmd_hdlr_send_response_code c r s) (\<lambda>s'. evolves (objects s) (objects s'))" for r
    by (rule answer_evolves) simp
  ultimately show ?thesis
    unfolding session_command_def Let_def by (intro ensures_if run h) (auto simp: get)
qed

lemma process_commands_objects:
  assumes "unat (g_next s) \<le> c_fuel c"
  shows "ensures (process_commands c cmd s) (\<lambda>s'. evolves (objects s) (objects s'))"
proof -
  let ?s = "\<lambda>ucmd. upd_hdlr (\<lambda>hd. hd\<lparr>usb_cmd := ucmd\<rparr>) s"
  have s0: "objects (?s ucmd) = objects s" "g_next (?s ucmd) = g_next s" for ucmd by (simp, simp add: upd_hdlr_def)
  have "ensures (session_command c (?s ucmd)) (\<lambda>(s', _). evolves (objects s) (objects s'))"
    "ensures (get_device_info c (?s ucmd)) (\<lambda>s'. evolves (objects s) (objects s'))"
    "ensures (open_session c (?s ucmd)) (\<lambda>s'. evolves (objects s) (objects s'))"
    "ensures (cmd_hdlr_send_response_code c r (?s ucmd)) (\<lambda>s'. evolves (objects s) (objects s'))" for ucmd r
    using session_command_objects[of "?s ucmd" c] get_device_info_objects.evolved[of "?s ucmd" c]
      open_session_objects.evolved[of "?s ucmd" c] answer_evolves(1)[of "objects s" "?s ucmd" c r] assms s0 by simp_all
  note steps = this[THEN ensures_mono]
  show ?thesis
    by (auto simp: process_commands_def Let_def intro!: ensuresI[of "hdlr_copy_cmd_container _ _"] steps finish_objects_evolve)
qed

section \<open>The callback\<close>

lemma process_commands_same:
  assumes "objects s1 = objects s" "unat (g_next s) \<le> c_fuel c"
  shows "ensures (process_commands c cmd s1) (\<lambda>s'. evolves (objects s) (objects s'))"
proof -
  have "g_next s1 = g_next s" using assms(1) by (simp add: objects_def)
  with process_commands_objects[of s1 c cmd] assms show ?thesis by simp
qed

lemma finish_receiving_objects:
  assumes "objects s1 = objects s" "unat (g_next s) \<le> c_fuel c"
  shows "ensures (finish_receiving_file_packets c pkt s1) (\<lambda>s'. evolves (objects s) (objects s'))"
  using assms by (auto simp: finish_receiving_file_packets_def Let_def
    intro!: ensuresI[of "hdlr_validate_cmd_container _ _"] ensuresI[of "hdlr_copy_cmd_container_unknown_params _ _"] process_commands_same)

lemma first_packet_objects:
  assumes "objects s1 = objects s" "unat (g_next s) \<le> c_fuel c"
  shows "ensures (receive_temp_file_first_packet c pkt s1) (\<lambda>s'. evolves (objects s) (objects s'))"
proof -
  have "ensures (store_first_packet c pkt path t) (\<lambda>s'. evolves (objects s) (objects s'))" if "objects t = objects s" for path t
    using that assms(2) by (auto simp: store_first_packet_def Let_def intro!: ensuresI[of "rd_header _"] ensuresI[of "over_write _ _"]
      finish_receiving_objects split: prod.split option.split)
  then show ?thesis
    using assms by (auto simp: receive_temp_file_first_packet_def Let_def intro!: ensuresI[of "filepath _"] finish_receiving_objects split: prod.split)
qed

lemma next_packets_objects:
  assumes "objects s1 = objects s" "unat (g_next s) \<le> c_fuel c"
  shows "ensures (receive_temp_file_next_packets c pkt s1) (\<lambda>s'. evolves (objects s) (objects s'))"
proof -
  have "ensures (flush_temp c t) (\<lambda>t'. objects t' = objects t)" for t
    by (auto simp: flush_temp_def Let_def intro!: ensuresI[of "fhandle _"])
  note flush = ensures_mono[OF this]
  show ?thesis
    using assms by (auto simp: receive_temp_file_next_packets_def Let_def intro!: flush ensuresI[of "put_temp _ _"] finish_receiving_objects)
qed

lemma process_control_objects: "ensures (process_control c pkt s) (\<lambda>(s1, _). objects s1 = objects s)"
proof -
  obtain ev s1 where t: "take_ctrl c s = (ev, s1)" by fastforce
  then have "objects s1 = objects s" using take_ctrl_objects[of c s] by simp
  moreover have "ensures (cancel_transfer c x) (\<lambda>y. objects y = objects x)" for x
    by (auto simp: cancel_transfer_def Let_def intro!: ensuresI[of "filepath _"] split: option.split)
  note cancel = ensures_mono[OF this]
  ultimately show ?thesis
    using t by (auto simp: process_control_def Let_def intro!: ensuresI[of "find_command _ _ _"] cancel)
qed

lemma callback_objects:
  assumes "unat (g_next s) \<le> c_fuel c"
  shows "ensures (receive_mq_data_cb c pkt s) (\<lambda>s'. evolves (objects s) (objects s'))"
proof -
  have "ensures (process_packet c pkt' s1) (\<lambda>s'. evolves (objects s) (objects s'))" if "objects s1 = objects s" for pkt' s1
    using that assms by (auto simp: process_packet_def intro!: ensuresI[of "hdlr_validate_cmd_container _ _"]
      ensuresI[of "transport_save_cmd_buffer _ _ _"] ensuresI[of "hdlr_copy_cmd_container_unknown_params _ _"]
      process_commands_same first_packet_objects next_packets_objects)
  then show ?thesis
    by (auto simp: receive_mq_data_cb_def intro!: ensures_mono[OF process_control_objects] split: option.split)
qed

section \<open>Packets and events\<close>

text \<open>
  The program between two steps: the callback works on a packet, the watcher
  on an event (the mutex keeps them apart), and the other threads and the
  kernel change files, queues and flags.  Folders that a command has enumerated
  are watched at once.
\<close>

definition powered :: "'fs conf \<Rightarrow> 'fs inoti \<Rightarrow> bool" where
  "powered c s \<longleftrightarrow> booted c (i_sys s) \<and> 0 < unat (g_next (i_sys s)) \<and> unat (g_next (i_sys s)) \<le> 2 ^ 29
     \<and> (\<forall>st\<in>set (stores (g_dev (i_sys s))). obj_list st = [])
     \<and> watches_ok (i_watches s) (i_cnt s) \<and> open_files_ok (i_open s) []"

definition outside :: "'fs sys \<Rightarrow> 'fs sys \<Rightarrow> bool" where
  "outside s t \<longleftrightarrow> g_dev t = g_dev s \<and> g_next t = g_next s \<and> g_hdlr t = g_hdlr s \<and> g_ftemp t = g_ftemp s"

inductive world :: "'fs conf \<Rightarrow> inoti_conf \<Rightarrow> 'fs inoti \<Rightarrow> bool" for c k where
  power: "powered c s \<Longrightarrow> world c k s"
| packet: "world c k s \<Longrightarrow> length pkt \<le> unat (c_rx_size c) \<Longrightarrow> unat (g_next (i_sys s)) \<le> c_fuel c \<Longrightarrow>
    receive_mq_data_cb c pkt (i_sys s) = Some t \<Longrightarrow> room (objects (i_sys s)) (objects t) \<Longrightarrow>
    world c k (install_watches k (s\<lparr>i_sys := t\<rparr>))"
| event: "world c k s \<Longrightarrow> roomy c 1 s \<Longrightarrow> process_inoti_event c k ev s = Some (s', b) \<Longrightarrow> world c k s'"
| other: "world c k s \<Longrightarrow> outside (i_sys s) t \<Longrightarrow> world c k (s\<lparr>i_sys := t\<rparr>)"

inductive_cases worldE: "world c k s"

definition world_inv :: "'fs conf \<Rightarrow> 'fs inoti \<Rightarrow> bool" where
  "world_inv c s \<longleftrightarrow> sys_inv c (i_sys s) \<and> inoti_inv s \<and> objects_ok (objects (i_sys s))"

lemma concat_handles: "set (handles_of (concat (map obj_list (stores (g_dev s))))) = store_handles s"
  by (auto simp: store_handles_def)

text \<open>An event of the file system does not disturb the object that is announced.\<close>

lemma event_objects:
  assumes "objects_ok (objects (i_sys s))" "one_step s s'" "roomy c 1 s"
  shows "objects_ok (objects (i_sys s'))"
proof -
  let ?s = "i_sys s" and ?t = "i_sys s'"
  have b: "g_hdlr ?t = g_hdlr ?s" "unat (g_next ?s) \<le> unat (g_next ?t)"
    "store_handles ?t \<subseteq> store_handles ?s \<union> {h. unat (g_next ?s) \<le> unat h}"
    using assms(2) by (simp_all add: one_step_def beside_def foreign_def)
  have "unat (g_next ?t) \<le> 2 ^ 29" "0 < unat (g_next ?t)"
    using assms b(2) by (auto simp: one_step_def roomy_def objects_def)
  moreover have "stores_ok ?t" using assms(2) by (simp add: one_step_def inoti_inv_def)
  moreover have "addable (unat (g_next ?t)) (concat (map obj_list (stores (g_dev ?t)))) obj"
    if "so_obj (data4_send_obj (g_hdlr ?s)) = Some obj" for obj
  proof (rule addable_mono[OF _ b(2)])
    show "addable (unat (g_next ?s)) (concat (map obj_list (stores (g_dev ?s)))) obj" using assms(1) that by (simp add: objects_def)
    show "set (handles_of (concat (map obj_list (stores (g_dev ?t)))))
        \<subseteq> set (handles_of (concat (map obj_list (stores (g_dev ?s))))) \<union> {h. unat (g_next ?s) \<le> unat h}"
      using b(3) unfolding concat_handles .
  qed
  ultimately show ?thesis using b(1) by (auto simp: objects_def stores_ok_def split: option.split)
qed

lemma add_watch_sys [simp]: "i_sys (inoti_add_watch_for_fs_events k p s) = i_sys s" "i_open (inoti_add_watch_for_fs_events k p s) = i_open s"
  by (simp_all add: inoti_add_watch_for_fs_events_def watch_folder_def split: option.split)

lemma install_watches_inv:
  assumes "inoti_inv s"
  shows "inoti_inv (install_watches k s) \<and> i_sys (install_watches k s) = (i_sys s)\<lparr>g_watch := []\<rparr>"
proof -
  have "inoti_inv t \<Longrightarrow> inoti_inv (foldl (\<lambda>s p. inoti_add_watch_for_fs_events k p s) t ps)
     \<and> i_sys (foldl (\<lambda>s p. inoti_add_watch_for_fs_events k p s) t ps) = i_sys t" for ps and t :: "'a inoti"
    by (induction ps arbitrary: t) (simp_all add: inoti_inv_def add_watch_ok)
  from this[of "s\<lparr>i_sys := (i_sys s)\<lparr>g_watch := []\<rparr>\<rparr>" "g_watch (i_sys s)"] assms show ?thesis
    by (simp add: install_watches_def inoti_inv_def stores_ok_def)
qed

lemma sys_inv_cong:
  "g_ftemp t = g_ftemp s \<Longrightarrow> g_hdlr t = g_hdlr s \<Longrightarrow> phase (g_dev t) = phase (g_dev s) \<Longrightarrow> sys_inv c t = sys_inv c s"
  by (simp add: sys_inv_def buffers_ok_def transfer_ok_def)

lemma world_kept:
  assumes "conf_ok c" "malloc_ok k" "world c k s"
  shows "world_inv c s"
  using assms(3)
proof (induction rule: world.induct)
  case (power s)
  then have "booted c (i_sys s)" by (simp add: powered_def)
  then have "sys_inv c (i_sys s)" by (intro reachable_inv[OF reachable.boot assms(1)])
  moreover have "objs_ok (unat (g_next (i_sys s))) []" using power by (simp add: powered_def objs_ok_def)
  ultimately show ?case
    using power by (auto simp: world_inv_def inoti_inv_def stores_ok_def objects_def powered_def booted_def zero_send_object_def)
next
  case (packet s pkt t)
  have t: "sys_inv c t"
    using ensuresD[OF callback_inv[OF assms(1) _ packet.hyps(2)] packet.hyps(4)] packet.IH by (simp add: world_inv_def)
  have "objects_ok (objects t)"
    using packet ensuresD[OF callback_objects[OF packet.hyps(3)]] by (auto simp: world_inv_def evolves_def)
  moreover from this have "inoti_inv (s\<lparr>i_sys := t\<rparr>)"
    using packet.IH objects_stores_ok by (simp add: world_inv_def inoti_inv_def)
  ultimately show ?case
    using install_watches_inv[of "s\<lparr>i_sys := t\<rparr>" k] t sys_inv_cong[of "t\<lparr>g_watch := []\<rparr>" t c] by (simp add: world_inv_def)
next
  case (event s ev s' b)
  then have "one_step s s'" using process_event_ok[of s c k ev] assms(2) by (auto simp: world_inv_def)
  moreover from this have "foreign (i_sys s) (i_sys s')" "inoti_inv s'" by (simp_all add: one_step_def beside_def)
  ultimately show ?case
    using event event_objects[of s s' c] sys_inv_cong[of "i_sys s'" "i_sys s" c] by (simp add: world_inv_def foreign_def)
next
  case (other s t)
  then have "objects t = objects (i_sys s)" "stores_ok t = stores_ok (i_sys s)"
    by (simp_all add: outside_def objects_def stores_ok_def)
  with other sys_inv_cong[of t "i_sys s" c] show ?case by (simp add: world_inv_def inoti_inv_def outside_def)
qed

section \<open>Deletion never fails to return\<close>

definition trimmed :: "'fs sys \<Rightarrow> 'fs sys \<Rightarrow> bool" where
  "trimmed s t \<longleftrightarrow> objects_ok (objects t) \<and> g_next t = g_next s \<and> g_hdlr t = g_hdlr s
     \<and> length (stores (g_dev t)) = length (stores (g_dev s)) \<and> store_handles t \<subseteq> store_handles s"

lemma trimmed_trans: "trimmed s t \<Longrightarrow> trimmed t u \<Longrightarrow> trimmed s u"
  by (auto simp: trimmed_def)

lemma delete_in_store_total:
  fixes s :: "'fs sys"
  assumes "unat (g_next s) \<le> fuel" "objects_ok (objects s)" "i < length (stores (g_dev s))"
  shows "\<exists>s' r. delete_in_store fuel ff e stop h fmt i s = Some (s', r) \<and> trimmed s s'"
proof -
  let ?d = "\<lparr>d_store = store_list (g_dev s) ! i, d_fs = g_fs s, d_last = g_last s, d_resp = 0, d_one = False, d_clk = g_clk s\<rparr>"
  from assms(3) have m: "store_list (g_dev s) ! i \<in> set (stores (g_dev s))" by (auto simp: in_set_conv_nth)
  then have ok: "objs_ok (unat (g_next s)) (obj_list (d_store ?d))"
    using objects_stores_ok[OF assms(2)] by (simp add: stores_ok_def)
  from delete_total[OF ok, of fuel ff e stop h fmt] objs_ok_length[OF ok] assms(1) obtain d r objs where
    d: "entity_delete_obj_mtp_store fuel ff e stop h fmt ?d = Some (d, r)" "keys d \<subseteq> keys ?d"
      "d_store d = (store_list (g_dev s) ! i)\<lparr>obj_list := objs\<rparr>" by auto
  let ?t = "upd_store i (d_store d) (s\<lparr>g_fs := d_fs d, g_last := d_last d, g_clk := d_clk d\<rparr>)"
  have run: "delete_in_store fuel ff e stop h fmt i s = Some (?t, r)" using d(1) by (simp add: delete_in_store_def)
  have "set (handles_of objs) \<subseteq> set (handles_of (obj_list (store_list (g_dev s) ! i)))"
    using image_mono[OF d(2), of fst] d(3) unfolding keys_handles by simp
  also have "\<dots> \<subseteq> store_handles s" using m by (auto simp: store_handles_def)
  finally have "store_handles ?t \<subseteq> store_handles s"
    using store_handles_upd[OF assms(3), of ?t objs] d(3) by simp blast
  moreover have "objects_ok (objects ?t)" "g_next ?t = g_next s"
    using ensuresD[OF delete_in_store_objects[OF assms(1,2)] run] by simp_all
  moreover have "g_hdlr ?t = g_hdlr s" "length (stores (g_dev ?t)) = length (stores (g_dev s))" by simp_all
  ultimately show ?thesis using run unfolding trimmed_def by blast
qed

lemma device_delete_total:
  fixes s :: "'fs sys"
  assumes "unat (g_next s) \<le> fuel" "objects_ok (objects s)"
  shows "\<exists>s' r. device_delete_object fuel ff e stop h fmt s = Some (s', r) \<and> trimmed s s'"
proof (cases "h = PTP_OBJECTHANDLE_ALL")
  case False
  have "i < length (stores (g_dev s))" if "device_get_store_containing_obj (g_dev s) h = Some i" for i
    using that index_where_Some(1) by (fastforce simp: device_get_store_containing_obj_def)
  with False assms delete_in_store_total[OF assms] show ?thesis
    by (auto simp: device_delete_object_def trimmed_def split: option.split)
next
  case True
  let ?body = "\<lambda>i (g :: 'fs sys, r :: u16, ao). do {
              (g', r') \<leftarrow> delete_in_store fuel ff e stop h fmt i g;
              Some (g', r', delete_outcome r' ao) }"
  let ?I = "\<lambda>is (g :: 'fs sys, _ :: u16 \<times> bool \<times> bool). trimmed s g \<and> set is \<subseteq> {..<length (stores (g_dev s))}"
  have "\<exists>x. foldM ?body [0..<length (stores (g_dev s))] (s, PTP_RESPONSE_OK, True, False) = Some x \<and> ?I [] x"
  proof (rule foldM_invar[where I = ?I])
    show "?I [0..<length (stores (g_dev s))] (s, PTP_RESPONSE_OK, True, False)" using assms(2) by (auto simp: trimmed_def)
    fix i "is" x assume a: "?I (i # is) x"
    obtain g r ao where x: "x = (g, r, ao)" by (cases x) auto
    with a assms(1) have "unat (g_next g) \<le> fuel" "objects_ok (objects g)" "i < length (stores (g_dev g))"
      by (auto simp: trimmed_def)
    from delete_in_store_total[OF this, of ff e stop h fmt] obtain g' r' where
      "delete_in_store fuel ff e stop h fmt i g = Some (g', r')" "trimmed g g'" by auto
    with a x show "\<exists>y. ?body i x = Some y \<and> ?I is y" by (auto intro: trimmed_trans)
  qed
  then obtain g1 r all_del one where
    "foldM ?body [0..<length (stores (g_dev s))] (s, PTP_RESPONSE_OK, True, False) = Some (g1, r, all_del, one)" "trimmed s g1"
    by auto
  with True show ?thesis by (auto simp: device_delete_object_def simp del: length_take)
qed

lemma finish_handles [simp]: "store_handles (finish_command s) = store_handles s"
proof -
  have "map obj_list (stores (g_dev (finish_command s))) = map obj_list (stores (g_dev s))"
    by (auto simp: finish_command_def upd_hdlr_def Let_def take_map[symmetric] map_update split: option.split)
  then have "concat (map obj_list (stores (g_dev (finish_command s)))) = concat (map obj_list (stores (g_dev s)))" by simp
  then show ?thesis by (metis concat_handles)
qed

lemma store_handles_same [simp]:
  "store_handles (set_phase ph s) = store_handles s" "store_handles (s\<lparr>g_txq := q\<rparr>) = store_handles s"
  "store_handles (s\<lparr>g_op_state := st\<rparr>) = store_handles s" "store_handles (upd_hdlr f s) = store_handles s"
  by (simp_all add: store_handles_def set_phase_def upd_hdlr_def)

text \<open>Whatever the parameters, the command is answered and objects can only disappear.\<close>

lemma delete_command:
  assumes "conf_ok c" "sys_inv c s" "objects_ok (objects s)" "unat (g_next s) \<le> c_fuel c" "session_id (g_hdlr s) \<noteq> 0"
    and cmd: "code cmd = PTP_OPCODE_DELETEOBJECT" "length (params cmd) = 5" "unat (no_param cmd) \<le> 5"
  shows "\<exists>s' r. process_commands c cmd s = Some s' \<and> objects_ok (objects s') \<and> store_handles s' \<subseteq> store_handles s
     \<and> g_txq s' = g_txq s @ [resp_pkt r (tid cmd) []]"
proof -
  have a: "accepting c" using assms(1) by (simp add: conf_ok_def)
  have "length (params (usb_cmd (g_hdlr s))) = 5" using assms(2) by (simp add: sys_inv_def buffers_ok_def)
  with cmd obtain ucmd where u: "hdlr_copy_cmd_container cmd (usb_cmd (g_hdlr s)) = Some ucmd"
    by (simp add: hdlr_copy_cmd_container_def Let_def)
  let ?s = "upd_hdlr (\<lambda>hd. hd\<lparr>usb_cmd := ucmd\<rparr>) s"
  let ?p = "?s\<lparr>g_op_state := MTP_STATE_DATA_PROCESSING\<rparr>"
  note copy = copied_command[OF u]
  have par: "get_param ?s i = Some (prm cmd (unat i))" for i using copy(3) by (simp add: get_param_def upd_hdlr_def)
  have ok: "unat (g_next ?p) \<le> c_fuel c" "objects_ok (objects ?p)"
    using assms(3,4) by (simp add: upd_hdlr_def) (use assms(3) in simp)
  have "\<exists>s1 r. delete_object c ?s = Some s1 \<and> objects_ok (objects s1) \<and> store_handles s1 \<subseteq> store_handles s \<and> g_txq s1 = g_txq s @ [resp_pkt r (tid cmd) []]"
  proof -
    obtain t r where t: "device_delete_object (c_fuel c) (c_ff c) (c_env c) (c_stop c) (prm cmd 0) (prm cmd 1) ?p = Some (t, r)"
      "trimmed ?p t" using device_delete_total[OF ok] by blast
    have "kept ?p t" using ensuresD[OF device_delete_kept t(1)] by simp
    moreover have "store_handles t \<subseteq> store_handles s" "objects_ok (objects t)" using t(2) by (simp_all add: trimmed_def)
    ultimately show ?thesis
      using assms(3) t(1) copy(2) a by (simp add: delete_object_def any_param_def par hutil_remove_object_entry_def kept_def) (auto simp: upd_hdlr_def)
  qed
  then obtain s1 r where s1: "delete_object c ?s = Some s1" "objects_ok (objects s1)" "store_handles s1 \<subseteq> store_handles s"
    "g_txq s1 = g_txq s @ [resp_pkt r (tid cmd) []]" by blast
  have "cmd_code ?s = PTP_OPCODE_DELETEOBJECT" "session_id (g_hdlr ?s) \<noteq> 0" using copy(1) cmd(1) assms(5) by (simp_all add: upd_hdlr_def)
  then have "process_commands c cmd s = Some (finish_command s1)"
    using u s1(1) by (simp add: process_commands_def session_command_def)
  moreover have "objects_ok (objects (finish_command s1))" using finish_kept_objects[of s1] s1(2) by auto
  ultimately show ?thesis using s1(3,4) by auto
qed

section \<open>Properties\<close>

text \<open>C4: whatever packets the host sends, whatever events the file system reports, in whatever order, and
  whatever the other threads do to files, queues and flags in between: as long as the program runs inside its memory and
  the handles below 2 to the power of 29 are not used up, every storage is a well-formed tree of objects with unique handles below the counter, an announced object can still be
  stored, the table of watches and the open files of the watcher are well formed and the buffers of the transport have their sizes.\<close>

theorem world_consistent:
  assumes "conf_ok c" "malloc_ok k" "world c k s"
  shows "stores_ok (i_sys s) \<and> objects_ok (objects (i_sys s)) \<and> inoti_inv s \<and> sys_inv c (i_sys s)"
  using world_kept[OF assms] objects_stores_ok by (auto simp: world_inv_def)


section \<open>A card that is plugged in\<close>

definition fresh_card :: "ram inoti" where
  "fresh_card = \<lparr>i_sys = boot_sys\<lparr>g_dev := mounted_device\<lparr>store_list := [card_store]\<rparr>, g_fs := [''/media/card/n'' \<mapsto> [1]]\<rparr>,
     i_watches = card_watches, i_cnt = 1, i_adds = 1, i_open = no_open_files, i_cookie = - 1\<rparr>"

lemma fresh_world: "world small_conf plain_kernel fresh_card"
proof (rule world.power)
  have "watches_ok card_watches 1" by (auto simp: watches_ok_def card_watches_def no_watch_def)
  moreover have "obj_list card_store = []" by (simp add: card_store_def)
  moreover have "booted small_conf (i_sys fresh_card)"
    by (simp add: fresh_card_def booted_def boot_sys_def ready_sys_def mounted_device_def idle_temp_def small_conf_def)
  ultimately show "powered small_conf fresh_card"
    using no_open_files_ok by (simp add: powered_def fresh_card_def boot_sys_def ready_sys_def mounted_device_def)
qed

lemma fresh_world_event:
  "\<exists>s b. process_inoti_event small_conf plain_kernel file_event fresh_card = Some (s, b) \<and> world small_conf plain_kernel s
     \<and> g_hdlr (i_sys s) = g_hdlr (i_sys fresh_card) \<and> unat (g_next (i_sys s)) \<le> c_fuel small_conf"
proof -
  have r: "roomy small_conf 1 fresh_card"
    by (simp add: roomy_def fresh_card_def boot_sys_def ready_sys_def small_conf_def ram_conf_def)
  have "inoti_inv fresh_card" using world_kept[OF small_conf_ok plain_kernel_malloc fresh_world] by (simp add: world_inv_def)
  from process_event_ok[OF this r plain_kernel_malloc, of file_event] obtain s b where
    s: "process_inoti_event small_conf plain_kernel file_event fresh_card = Some (s, b)" "one_step fresh_card s" by auto
  have "g_hdlr (i_sys s) = g_hdlr (i_sys fresh_card)" "unat (g_next (i_sys s)) \<le> c_fuel small_conf"
    using s(2) r by (simp_all add: one_step_def beside_def foreign_def roomy_def)
  with s(1) world.event[OF fresh_world r s(1)] show ?thesis by blast
qed

theorem world_consistent_witness:
  "\<exists>s b. process_inoti_event small_conf plain_kernel file_event fresh_card = Some (s, b) \<and> stores_ok (i_sys s)
     \<and> objects_ok (objects (i_sys s)) \<and> inoti_inv s \<and> sys_inv small_conf (i_sys s)"
  using fresh_world_event world_consistent[OF small_conf_ok plain_kernel_malloc] by blast


end
