(* ===== verification/Slist.thy ===== *)
theory Slist
  imports Prelude
begin

text \<open>
  The singly linked list of src/util/mtp_list.c.  Nodes live in a heap from
  addresses to cells; a null pointer is None and following a pointer to a
  missing cell is undefined (None as a result).  The values are the pointers
  the clients store, zero being NULL.  The function slist_values abstracts a
  list to the sequence of its values; the locale pointer_list at the end is
  the contract that lets the store components work with HOL lists.
\<close>

section \<open>Data and operations\<close>

record slist_node =
  node_value :: nat
  node_link :: "nat option"

record slist =
  start :: "nat option"
  last_node :: "nat option"
  nnodes :: u32

type_synonym node_heap = "nat \<rightharpoonup> slist_node"

definition util_init_list :: slist where
  "util_init_list = \<lparr>start = None, last_node = None, nnodes = 0\<rparr>"

text \<open>The first argument is the address g_malloc returns.\<close>

definition util_add_node :: "nat \<Rightarrow> node_heap \<Rightarrow> slist \<Rightarrow> nat \<Rightarrow> (node_heap \<times> slist) option" where
  "util_add_node node h l data =
     (let h1 = h(node \<mapsto> \<lparr>node_value = data, node_link = None\<rparr>)
      in case start l of
           None \<Rightarrow> Some (h1, l\<lparr>start := Some node, last_node := Some node, nnodes := nnodes l + 1\<rparr>)
         | Some _ \<Rightarrow> do {
             e \<leftarrow> last_node l;
             n \<leftarrow> h1 e;
             Some (h1(e \<mapsto> n\<lparr>node_link := Some node\<rparr>),
                   l\<lparr>last_node := Some node, nnodes := nnodes l + 1\<rparr>) })"

text \<open>The loop that looks for the node in front of the one to delete.\<close>

partial_function (option) find_prev :: "node_heap \<Rightarrow> nat \<Rightarrow> nat \<Rightarrow> nat option" where
  "find_prev h nptr data =
     Option.bind (h nptr)
       (\<lambda>n. case node_link n of
              None \<Rightarrow> Some nptr
            | Some q \<Rightarrow> Option.bind (h q)
                (\<lambda>m. if node_value m = data then Some nptr else find_prev h q data))"

definition util_del_first_node :: "node_heap \<Rightarrow> slist \<Rightarrow> (node_heap \<times> slist \<times> nat option) option" where
  "util_del_first_node h l = do {
     t \<leftarrow> start l;
     n \<leftarrow> h t;
     Some (h, l\<lparr>nnodes := nnodes l - 1, start := node_link n,
                last_node := (if Some t = last_node l then None else last_node l)\<rparr>, Some t) }"

definition util_delete_node ::
    "node_heap \<Rightarrow> slist \<Rightarrow> nat \<Rightarrow> (node_heap \<times> slist \<times> nat option) option" where
  "util_delete_node h l data =
     (if data = 0 then Some (h, l, None)
      else case start l of
        None \<Rightarrow> Some (h, l, None)
      | Some s \<Rightarrow> do {
          n \<leftarrow> h s;
          if node_value n = data then util_del_first_node h l
          else do {
            p \<leftarrow> find_prev h s data;
            np \<leftarrow> h p;
            case node_link np of
              None \<Rightarrow> Some (h, l, None)
            | Some t \<Rightarrow> do {
                nt \<leftarrow> h t;
                Some (h(p \<mapsto> np\<lparr>node_link := node_link nt\<rparr>),
                      l\<lparr>nnodes := nnodes l - 1,
                         last_node := (if Some t = last_node l then Some p else last_node l)\<rparr>, Some t) } } })"

text \<open>
  Iteration as the clients write it: an iterator on the first node, and
  _util_get_list_next while the iterator is not at the end.
\<close>

definition util_init_list_iterator :: "slist \<Rightarrow> nat option" where
  "util_init_list_iterator l = start l"

definition util_get_list_next :: "node_heap \<Rightarrow> nat option \<Rightarrow> (nat \<times> nat option) option" where
  "util_get_list_next h it = do {
     p \<leftarrow> it;
     n \<leftarrow> h p;
     Some (node_value n, node_link n) }"

partial_function (option) iterate :: "node_heap \<Rightarrow> nat option \<Rightarrow> nat list \<Rightarrow> nat list option" where
  "iterate h it acc =
     (case it of
        None \<Rightarrow> Some acc
      | Some _ \<Rightarrow> Option.bind (util_get_list_next h it) (\<lambda>(v, it'). iterate h it' (acc @ [v])))"

section \<open>Abstraction\<close>

fun lseg :: "node_heap \<Rightarrow> nat option \<Rightarrow> nat list \<Rightarrow> nat option \<Rightarrow> bool" where
  "lseg h s [] e \<longleftrightarrow> s = e"
| "lseg h s (a # as) e \<longleftrightarrow> s = Some a \<and> (case h a of None \<Rightarrow> False | Some n \<Rightarrow> lseg h (node_link n) as e)"

definition values_at :: "node_heap \<Rightarrow> nat list \<Rightarrow> nat list" where
  "values_at h as = map (\<lambda>a. node_value (the (h a))) as"

definition slist_at :: "node_heap \<Rightarrow> slist \<Rightarrow> nat list \<Rightarrow> bool" where
  "slist_at h l as \<longleftrightarrow>
     lseg h (start l) as None \<and> distinct as
   \<and> last_node l = (if as = [] then None else Some (last as))
   \<and> nnodes l = of_nat (length as)"

lemma lseg_append: "lseg h s (as @ bs) e \<longleftrightarrow> (\<exists>m. lseg h s as m \<and> lseg h m bs e)"
  by (induction as arbitrary: s) (auto split: option.splits)

lemma lseg_frame:
  "(\<And>a. a \<in> set as \<Longrightarrow> h' a = h a) \<Longrightarrow> lseg h' s as e = lseg h s as e"
  by (induction as arbitrary: s) (auto split: option.splits)

lemma lseg_cells: "lseg h s as e \<Longrightarrow> a \<in> set as \<Longrightarrow> \<exists>n. h a = Some n"
  by (induction as arbitrary: s) (auto split: option.splits)

lemma values_at_frame:
  "(\<And>a. a \<in> set as \<Longrightarrow> map_option node_value (h' a) = map_option node_value (h a)) \<Longrightarrow>
   lseg h s as e \<Longrightarrow> values_at h' as = values_at h as"
proof (induction as arbitrary: s)
  case (Cons a as)
  from Cons.prems obtain n where n: "h a = Some n" "lseg h (node_link n) as e" by (auto split: option.splits)
  moreover from Cons.prems(1)[of a] n obtain n' where "h' a = Some n'" "node_value n' = node_value n" by auto
  ultimately show ?case using Cons.IH[OF _ n(2)] Cons.prems(1) by (simp add: values_at_def)
qed (simp add: values_at_def)

lemma slist_at_determined: "lseg h s as None \<Longrightarrow> lseg h s bs None \<Longrightarrow> as = bs"
proof (induction as arbitrary: s bs)
  case Nil
  then show ?case by (cases bs) auto
next
  case (Cons a as)
  then show ?case by (cases bs) (auto split: option.splits)
qed

section \<open>Correctness of the operations\<close>

lemma add_node_spec:
  assumes at: "slist_at h l as" and fresh: "node \<notin> set as"
  shows "\<exists>h' l'. util_add_node node h l x = Some (h', l') \<and> slist_at h' l' (as @ [node])
     \<and> values_at h' (as @ [node]) = values_at h as @ [x] \<and> (\<forall>a. a \<notin> set as \<longrightarrow> a \<noteq> node \<longrightarrow> h' a = h a)"
proof (cases as rule: rev_cases)
  case Nil
  with at show ?thesis by (auto simp: slist_at_def util_add_node_def values_at_def)
next
  case (snoc bs e)
  from at snoc have seg: "lseg h (start l) (bs @ [e]) None" and d: "e \<notin> set bs" and db: "distinct bs"
    and l: "last_node l = Some e" and n: "nnodes l = of_nat (length bs + 1)"
    by (auto simp: slist_at_def)
  then obtain ne where ne: "h e = Some ne" "node_link ne = None" "lseg h (start l) bs (Some e)"
    by (auto simp: lseg_append split: option.splits)
  have "e \<noteq> node" "node \<notin> set bs" using fresh snoc by auto
  let ?h = "h(node \<mapsto> \<lparr>node_value = x, node_link = None\<rparr>, e \<mapsto> ne\<lparr>node_link := Some node\<rparr>)"
  have f: "lseg ?h (start l) bs (Some e)"
    using ne(3) d \<open>node \<notin> set bs\<close> by (subst lseg_frame) auto
  have v: "values_at ?h bs = values_at h bs"
    by (rule values_at_frame[OF _ ne(3)]) (use d \<open>node \<notin> set bs\<close> in auto)
  have "start l \<noteq> None" using seg by (cases bs) auto
  then have "util_add_node node h l x = Some (?h, l\<lparr>last_node := Some node, nnodes := nnodes l + 1\<rparr>)"
    using l ne \<open>e \<noteq> node\<close> by (auto simp: util_add_node_def)
  moreover have "slist_at ?h (l\<lparr>last_node := Some node, nnodes := nnodes l + 1\<rparr>) (as @ [node])"
    using f snoc fresh d db n ne \<open>e \<noteq> node\<close> by (simp add: slist_at_def lseg_append)
  moreover have "values_at ?h (as @ [node]) = values_at h as @ [x]"
    using v snoc ne \<open>e \<noteq> node\<close> by (simp add: values_at_def)
  ultimately show ?thesis using snoc by auto
qed

text \<open>The search stops in front of the first later node with the value, or at the last node.\<close>

lemma find_prev_spec:
  assumes "lseg h (Some p) (p # as) None" "data \<notin> set (values_at h bs)" "as = bs @ cs"
    "cs = [] \<or> node_value (the (h (hd cs))) = data"
  shows "find_prev h p data = Some (last (p # bs))"
  using assms
proof (induction bs arbitrary: p as)
  case Nil
  then show ?case
    by (subst find_prev.simps) (cases cs; auto split: option.splits)
next
  case (Cons b bs)
  then show ?case
    by (subst find_prev.simps) (auto simp: values_at_def split: option.splits)
qed

lemma iterate_spec: "lseg h s as None \<Longrightarrow> iterate h s acc = Some (acc @ values_at h as)"
proof (induction as arbitrary: s acc)
  case Nil
  then show ?case by (subst iterate.simps) (simp add: values_at_def)
next
  case (Cons a as)
  then obtain n where "h a = Some n" "lseg h (node_link n) as None" "s = Some a" by (auto split: option.splits)
  with Cons.IH[of "node_link n" "acc @ [node_value n]"] show ?case
    by (subst iterate.simps) (simp add: util_get_list_next_def values_at_def)
qed

lemma values_at_append [simp]: "values_at h (as @ bs) = values_at h as @ values_at h bs"
  by (simp add: values_at_def)

lemma values_at_Cons [simp]: "values_at h (a # as) = node_value (the (h a)) # values_at h as"
  by (simp add: values_at_def)

lemma split_at_value:
  assumes "x \<in> set (values_at h as)"
  shows "\<exists>bs t cs. as = bs @ t # cs \<and> x \<notin> set (values_at h bs) \<and> node_value (the (h t)) = x"
  using assms
proof (induction as)
  case (Cons a as)
  show ?case
  proof (cases "node_value (the (h a)) = x")
    case True
    then show ?thesis by (intro exI[of _ "[]"] exI[of _ a] exI[of _ as]) (simp add: values_at_def)
  next
    case False
    with Cons obtain bs t cs where "as = bs @ t # cs" "x \<notin> set (values_at h bs)" "node_value (the (h t)) = x"
      by auto
    with False show ?thesis by (intro exI[of _ "a # bs"] exI[of _ t] exI[of _ cs]) simp
  qed
qed (simp add: values_at_def)

lemma delete_absent:
  assumes at: "slist_at h l as" and x: "x \<notin> set (values_at h as)" "x \<noteq> 0"
  shows "util_delete_node h l x = Some (h, l, None)"
proof (cases as)
  case Nil
  with at x show ?thesis by (simp add: slist_at_def util_delete_node_def)
next
  case (Cons s bs)
  with at obtain n where n: "start l = Some s" "h s = Some n" "lseg h (node_link n) bs None"
    by (auto simp: slist_at_def split: option.splits)
  then have "lseg h (Some s) (s # bs) None" by simp
  from find_prev_spec[OF this, of x bs "[]"] x Cons have f: "find_prev h s x = Some (last as)" by simp
  have e: "butlast as @ [last as] = as" using Cons by simp
  have "lseg h (start l) (butlast as @ [last as]) None" unfolding e using at by (simp add: slist_at_def)
  then obtain ne where "h (last as) = Some ne" "node_link ne = None"
    unfolding lseg_append by (auto split: option.splits)
  with f n x Cons show ?thesis by (simp add: util_delete_node_def)
qed

lemma delete_first:
  assumes at: "slist_at h l (t # cs)" and x: "node_value (the (h t)) = x" "x \<noteq> 0"
  shows "\<exists>l'. util_delete_node h l x = Some (h, l', Some t) \<and> slist_at h l' cs"
proof -
  from at obtain n where n: "start l = Some t" "h t = Some n" "lseg h (node_link n) cs None"
    by (auto simp: slist_at_def split: option.splits)
  have "last cs \<noteq> t" if "cs \<noteq> []" using at that last_in_set[OF that] by (auto simp: slist_at_def)
  then show ?thesis
    using at x n by (auto simp: util_delete_node_def util_del_first_node_def slist_at_def)
qed

lemma delete_later:
  assumes at: "slist_at h l (bs @ t # cs)" and bs: "bs \<noteq> []" "x \<notin> set (values_at h bs)"
    and x: "node_value (the (h t)) = x" "x \<noteq> 0"
  shows "\<exists>h' l'. util_delete_node h l x = Some (h', l', Some t) \<and> slist_at h' l' (bs @ cs)
     \<and> values_at h' (bs @ cs) = values_at h (bs @ cs) \<and> (\<forall>a. a \<notin> set bs \<longrightarrow> h' a = h a)"
proof -
  define p where "p = last bs"
  obtain ds where ds: "bs = ds @ [p]" using bs(1) by (metis p_def append_butlast_last_id)
  have d: "distinct (bs @ t # cs)" and seg: "lseg h (start l) (bs @ t # cs) None" using at by (simp_all add: slist_at_def)
  then obtain np nt where np: "h p = Some np" "node_link np = Some t" "h t = Some nt"
    "lseg h (start l) ds (Some p)" "lseg h (node_link nt) cs None"
    by (auto simp: ds lseg_append split: option.splits)
  obtain s bs' where s: "bs = s # bs'" using bs(1) by (cases bs) auto
  with seg have "start l = Some s" "lseg h (Some s) (s # bs' @ t # cs) None" by auto
  from find_prev_spec[OF this(2), of x bs' "t # cs"] bs x s have f: "find_prev h s x = Some p"
    by (simp add: p_def)
  obtain n where ns: "h s = Some n" "node_value n \<noteq> x"
    using bs(2) s lseg_cells[OF seg, of s] by auto
  let ?h = "h(p \<mapsto> np\<lparr>node_link := node_link nt\<rparr>)"
  let ?l = "l\<lparr>nnodes := nnodes l - 1, last_node := (if Some t = last_node l then Some p else last_node l)\<rparr>"
  have "util_delete_node h l x = Some (?h, ?l, Some t)"
    using f np(1-3) x(2) \<open>start l = Some s\<close> ns by (simp add: util_delete_node_def split del: if_split)
  moreover have "lseg ?h (start l) ds (Some p)" using np(4) d ds by (subst lseg_frame) auto
  moreover have "lseg ?h (node_link nt) cs None" using np(5) d ds by (subst lseg_frame) auto
  moreover have "last_node ?l = Some (last (bs @ cs))"
  proof (cases cs)
    case Nil
    with at show ?thesis by (simp add: slist_at_def p_def)
  next
    case (Cons c cs')
    with d have "last cs \<noteq> t" using last_in_set[of cs] by auto
    with at Cons show ?thesis by (simp add: slist_at_def)
  qed
  ultimately have "slist_at ?h ?l (bs @ cs)" using d at ds bs(1) by (auto simp: slist_at_def lseg_append)
  moreover have "values_at ?h (bs @ cs) = values_at h (bs @ cs)"
    using np(1) by (auto simp: values_at_def)
  ultimately show ?thesis using \<open>util_delete_node h l x = _\<close> ds by auto
qed

section \<open>The list contract\<close>

text \<open>
  A list together with the heap and the next free address.  Adding takes a
  fresh cell, deleting frees the cell that was unlinked, as all callers do.
\<close>

type_synonym list_state = "node_heap \<times> nat \<times> slist"

definition list_empty :: list_state where
  "list_empty = (Map.empty, 1, util_init_list)"

definition list_add :: "list_state \<Rightarrow> nat \<Rightarrow> list_state option" where
  "list_add s x = (case s of (h, nxt, l) \<Rightarrow> map_option (\<lambda>(h', l'). (h', Suc nxt, l')) (util_add_node nxt h l x))"

definition list_delete :: "list_state \<Rightarrow> nat \<Rightarrow> (list_state \<times> bool) option" where
  "list_delete s x = (case s of (h, nxt, l) \<Rightarrow>
     map_option (\<lambda>(h', l', n). case n of None \<Rightarrow> ((h', nxt, l'), False) | Some t \<Rightarrow> ((h'(t := None), nxt, l'), True))
       (util_delete_node h l x))"

definition list_iterate :: "list_state \<Rightarrow> nat list option" where
  "list_iterate s = (case s of (h, nxt, l) \<Rightarrow> iterate h (util_init_list_iterator l) [])"

fun walk :: "nat \<Rightarrow> node_heap \<Rightarrow> nat option \<Rightarrow> nat list" where
  "walk n h None = []"
| "walk 0 h (Some a) = []"
| "walk (Suc n) h (Some a) = a # (case h a of None \<Rightarrow> [] | Some c \<Rightarrow> walk n h (node_link c))"

definition slist_values :: "list_state \<Rightarrow> nat list" where
  "slist_values s = (case s of (h, nxt, l) \<Rightarrow> values_at h (walk (unat (nnodes l)) h (start l)))"

definition slist_invar :: "list_state \<Rightarrow> bool" where
  "slist_invar s = (case s of (h, nxt, l) \<Rightarrow>
     (let as = walk (unat (nnodes l)) h (start l)
      in length as = unat (nnodes l) \<and> slist_at h l as \<and> (\<forall>a\<in>set as. a < nxt)))"

lemma walk_lseg: "lseg h s as None \<Longrightarrow> walk (length as) h s = as"
  by (induction as arbitrary: s) (auto split: option.splits)

lemma slist_invarI:
  assumes "slist_at h l as" "length as < 2 ^ 32" "\<And>a. a \<in> set as \<Longrightarrow> a < nxt"
  shows "slist_invar (h, nxt, l)" "slist_values (h, nxt, l) = values_at h as"
proof -
  have "unat (nnodes l) = length as"
    using assms(1,2) by (simp add: slist_at_def unat_of_nat_eq_small)
  moreover have "walk (length as) h (start l) = as" using assms(1) by (intro walk_lseg) (simp add: slist_at_def)
  ultimately show "slist_invar (h, nxt, l)" "slist_values (h, nxt, l) = values_at h as"
    using assms by (simp_all add: slist_invar_def slist_values_def)
qed

lemma slist_invarE:
  assumes "slist_invar (h, nxt, l)"
  obtains as where "slist_at h l as" "length as = unat (nnodes l)" "\<And>a. a \<in> set as \<Longrightarrow> a < nxt"
    "slist_values (h, nxt, l) = values_at h as"
  using assms by (auto simp: slist_invar_def slist_values_def Let_def)

lemma find_append: "find P (xs @ ys) = (case find P xs of None \<Rightarrow> find P ys | Some x \<Rightarrow> Some x)"
  by (induction xs) simp_all

locale pointer_list =
  fixes empty :: 's
    and add :: "'s \<Rightarrow> nat \<Rightarrow> 's option"
    and delete :: "'s \<Rightarrow> nat \<Rightarrow> ('s \<times> bool) option"
    and iter :: "'s \<Rightarrow> nat list option"
    and vals :: "'s \<Rightarrow> nat list"
    and invar :: "'s \<Rightarrow> bool"
    and cap :: nat
  assumes invar_empty: "invar empty"
    and vals_empty: "vals empty = []"
    and add_law: "invar s \<Longrightarrow> length (vals s) < cap \<Longrightarrow>
          \<exists>s'. add s x = Some s' \<and> invar s' \<and> vals s' = vals s @ [x]"
    and delete_law: "invar s \<Longrightarrow> x \<noteq> 0 \<Longrightarrow>
          \<exists>s'. delete s x = Some (s', x \<in> set (vals s)) \<and> invar s' \<and> vals s' = remove1 x (vals s)"
    and iter_law: "invar s \<Longrightarrow> iter s = Some (vals s)"
begin

text \<open>The lookups of the store: the first value that satisfies a test.\<close>

definition find_first :: "(nat \<Rightarrow> bool) \<Rightarrow> 's \<Rightarrow> nat option option" where
  "find_first P s = map_option (find P) (iter s)"

lemma find_first_spec: "invar s \<Longrightarrow> find_first P s = Some (find P (vals s))"
  by (simp add: find_first_def iter_law)

lemma find_added:
  assumes "invar s" "length (vals s) < cap" "find_first P s = Some None" "P x"
  shows "\<exists>s'. add s x = Some s' \<and> invar s' \<and> find_first P s' = Some (Some x)"
proof -
  from assms(1,3) have "find P (vals s) = None" by (simp add: find_first_spec)
  moreover from add_law[OF assms(1,2)] obtain s' where "add s x = Some s'" "invar s'" "vals s' = vals s @ [x]" by blast
  ultimately show ?thesis using assms(4) by (auto simp: find_first_spec find_append)
qed

lemma delete_added:
  assumes "invar s" "length (vals s) < cap" "x \<notin> set (vals s)" "x \<noteq> 0"
  shows "\<exists>s1 s2. add s x = Some s1 \<and> delete s1 x = Some (s2, True) \<and> invar s2 \<and> vals s2 = vals s"
proof -
  from add_law[OF assms(1,2)] obtain s1 where s1: "add s x = Some s1" "invar s1" "vals s1 = vals s @ [x]" by blast
  with delete_law[OF s1(2) assms(4)] assms(3) show ?thesis by (auto simp: remove1_append)
qed

end

interpretation slists: pointer_list list_empty list_add list_delete list_iterate slist_values slist_invar "2 ^ 32 - 1"
proof (unfold_locales, goal_cases)
  case 1
  show ?case by (simp add: list_empty_def util_init_list_def slist_invar_def slist_at_def)
next
  case 2
  show ?case by (simp add: list_empty_def util_init_list_def slist_values_def values_at_def)
next
  case (3 s x)
  obtain h nxt l where s: "s = (h, nxt, l)" by (cases s) auto
  from 3(1)[unfolded s] obtain as where as: "slist_at h l as" "length as = unat (nnodes l)" "\<And>a. a \<in> set as \<Longrightarrow> a < nxt"
    "slist_values (h, nxt, l) = values_at h as" by (rule slist_invarE) blast
  have fr: "nxt \<notin> set as" using as(3) by blast
  obtain h' l' where "util_add_node nxt h l x = Some (h', l')" "slist_at h' l' (as @ [nxt])"
    "values_at h' (as @ [nxt]) = values_at h as @ [x]" using add_node_spec[OF as(1) fr, of x] by blast
  moreover have "length (as @ [nxt]) < 2 ^ 32" using 3(2) s as(4) by (simp add: values_at_def)
  moreover have "a < Suc nxt" if "a \<in> set (as @ [nxt])" for a using that as(3) by (auto intro: less_SucI)
  ultimately show ?case
    using slist_invarI[of h' l' "as @ [nxt]" "Suc nxt"] as(4) s by (simp add: list_add_def)
next
  case (4 s x)
  obtain h nxt l where s: "s = (h, nxt, l)" by (cases s) auto
  from 4(1)[unfolded s] obtain as where as: "slist_at h l as" "length as = unat (nnodes l)" "\<And>a. a \<in> set as \<Longrightarrow> a < nxt"
    "slist_values (h, nxt, l) = values_at h as" by (rule slist_invarE) blast
  show ?case
  proof (cases "x \<in> set (values_at h as)")
    case False
    with delete_absent[OF as(1) False 4(2)] 4(1) as(4) s show ?thesis
      by (auto simp: list_delete_def remove1_idem)
  next
    case True
    then obtain bs t cs where sp: "as = bs @ t # cs" "x \<notin> set (values_at h bs)" "node_value (the (h t)) = x"
      using split_at_value by blast
    have "\<exists>h' l'. util_delete_node h l x = Some (h', l', Some t) \<and> slist_at h' l' (bs @ cs)
       \<and> values_at h' (bs @ cs) = values_at h (bs @ cs)"
      using delete_first[of h l t cs x] delete_later[of h l bs t cs x] as(1) sp 4(2) by (cases "bs = []") auto
    then obtain h' l' where d: "util_delete_node h l x = Some (h', l', Some t)" "slist_at h' l' (bs @ cs)"
      "values_at h' (bs @ cs) = values_at h (bs @ cs)" by blast
    have t: "t \<notin> set (bs @ cs)" using as(1) sp(1) by (auto simp: slist_at_def)
    have "lseg (h'(t := None)) (start l') (bs @ cs) None = lseg h' (start l') (bs @ cs) None"
      by (rule lseg_frame) (use t in auto)
    with d(2) have "slist_at (h'(t := None)) l' (bs @ cs)" by (simp add: slist_at_def)
    moreover have "values_at (h'(t := None)) (bs @ cs) = values_at h (bs @ cs)"
      unfolding d(3)[symmetric] using t by (auto simp: values_at_def)
    moreover have "length (bs @ cs) < 2 ^ 32"
    proof -
      have "length (bs @ cs) < length as" using sp(1) by simp
      also have "\<dots> < 2 ^ 32" using as(2) unat_u32_less[of "nnodes l"] by simp
      finally show ?thesis .
    qed
    moreover have "a < nxt" if "a \<in> set (bs @ cs)" for a using that as(3) sp(1) by auto
    moreover have "remove1 x (values_at h as) = values_at h (bs @ cs)" using sp by (simp add: remove1_append)
    ultimately show ?thesis
      using slist_invarI[of "h'(t := None)" l' "bs @ cs" nxt] d(1) as(4) s True by (simp add: list_delete_def)
  qed
next
  case (5 s)
  obtain h nxt l where s: "s = (h, nxt, l)" by (cases s) auto
  from 5[unfolded s] obtain as where as: "slist_at h l as" "slist_values (h, nxt, l) = values_at h as"
    by (rule slist_invarE) blast
  from as(1) have "iterate h (start l) [] = Some ([] @ values_at h as)" by (intro iterate_spec) (simp add: slist_at_def)
  with as(2) s show ?case by (simp add: list_iterate_def util_init_list_iterator_def)
qed

section \<open>Properties\<close>

text \<open>C34: a linked list keeps its structure under every operation: on a well-formed list, deleting a
  stored pointer terminates, never follows a null or freed pointer, reports whether the pointer was
  in the list, and leaves a well-formed list whose iteration yields the old sequence without the
  first occurrence of the pointer.\<close>

theorem slist_delete_refines:
  assumes "slist_invar s" "x \<noteq> 0"
  shows "\<exists>s'. list_delete s x = Some (s', x \<in> set (slist_values s)) \<and> slist_invar s'
     \<and> list_iterate s' = Some (remove1 x (slist_values s))"
  using slists.delete_law[OF assms] slists.iter_law by auto

theorem slist_delete_refines_witness:
  "\<exists>s. list_add list_empty 7 = Some s
     \<and> (\<exists>s'. list_delete s 7 = Some (s', 7 \<in> set (slist_values s)) \<and> slist_invar s'
          \<and> list_iterate s' = Some (remove1 7 (slist_values s)))"
proof -
  obtain s where "list_add list_empty 7 = Some s" "slist_invar s"
    using slists.add_law[OF slists.invar_empty, of 7] slists.vals_empty by auto
  then show ?thesis using slist_delete_refines[of s 7] by auto
qed

text \<open>adding a pointer to a well-formed list of fewer than 2^32 - 1 nodes never follows a null or
  freed pointer and leaves a well-formed list whose iteration ends with the new pointer.\<close>

lemma slist_add_refines:
  assumes "slist_invar s" "length (slist_values s) < 2 ^ 32 - 1"
  shows "\<exists>s'. list_add s x = Some s' \<and> slist_invar s' \<and> list_iterate s' = Some (slist_values s @ [x])"
  using slists.add_law[OF assms, of x] slists.iter_law by metis

lemma slist_add_refines_witness:
  "\<exists>s'. list_add list_empty 5 = Some s' \<and> slist_invar s' \<and> list_iterate s' = Some (slist_values list_empty @ [5])"
  by (rule slist_add_refines[OF slists.invar_empty]) (simp add: slists.vals_empty)

end
