(* ===== verification/Spec2Isabelle.thy ===== *)
theory Spec2Isabelle
  imports Events Prop_List Copying Renaming Listing Consistency Slist
begin

text \<open>
  Verification of the cmtp-responder, the daemon that serves the files of a
  device to an MTP host over USB.

  \<^bold>\<open>The program and its parts.\<close>  Packets of the host arrive at the USB driver
  (src/transport/mtp_usb_driver.c), whose reading thread puts them into a
  message queue (src/util/mtp_msgq.c).  The receiving thread of
  src/transport/mtp_transport.c takes them out and calls the packet callback of
  src/mtp_cmd_handler.c.  The callback collects the data phase of a command in
  a temporary file, or decodes a command block (src/ptp_container.c) and
  dispatches it to its handler.  Handlers call the services of
  src/mtp_cmd_handler_util.c, which work on the device, its storages and their
  objects (src/entity) and on the disk (src/util/mtp_fs.c).  Answers go back
  through a second queue to the writing thread.  The watcher
  (src/mtp_inoti_handler.c) turns file-system events into changes of the object
  lists and into requests to the event thread (src/mtp_event_handler.c), which
  also starts and ends the service (src/mtp_init.c).

  \<^bold>\<open>Conventions.\<close>  Machine integers are words of their width, structures are
  records, enumerations datatypes, global variables fields of the record sys
  (theory Hutil) and of the larger records inoti, io, usb and daemon around it.
  A result None is behaviour that C leaves undefined (an access outside a
  block, a read of memory never written, a use after a free, a signed
  overflow) or a loop or recursion that does not end; error codes of the
  program are values.  Theorems that an operation returns Some are therefore
  statements of memory safety and termination.  The build is that of the
  repository on a little-endian system: MTP_SUPPORT_SET_PROTECTION is off;
  OBJECTADDDELETE_EVENT, CONTROL_REQUEST, MTP_USE_RUNTIME_GETOBJECTPROPVALUE
  and the empty packet behind GetPartialObject are on.  Memory can always be
  allocated.

  \<^bold>\<open>Theories\<close>, each with the code it models:

  \<^item> Prelude, Codes: words, byte images, memory blocks; the codes of
    include/ptp_datacodes.h and include/mtp_config.h.
  \<^item> Ptp_Array, Ptp_String: arrays and strings of src/entity/mtp_property.c,
    with their packers and parsers; append, removal and round trip refine
    operations on lists.  The locale elem_seq is the contract of an array.
  \<^item> Slist: the linked list of src/util/mtp_list.c in a heap; the locale
    pointer_list lets its clients work with lists.
  \<^item> Support, Fs: src/util/mtp_support.c and src/util/mtp_fs.c over the
    operating system, a record of calls (os).
  \<^item> Transport, Container: the outgoing queue, containers and temporary file.
  \<^item> Property, Prop_Values, Prop_List: descriptions of properties, the
    table of supported ones, values of an object and their types, property
    lists to and from the host, references between objects.
  \<^item> Object, Store, Store_Inv, Store_Del: src/entity/mtp_object.c and
    src/entity/mtp_store.c.  The invariant objs_ok says that handles are
    unique and below the counter, that parents are older than their
    children and that reference arrays do not dangle; enumeration is
    the preorder of the directory tree, deletion ends and stays inside the
    subtree of the object.
  \<^item> Device: src/entity/mtp_device.c, with the dataset GetDeviceInfo sends.
  \<^item> Hutil, Handler, Dispatch: src/mtp_cmd_handler_util.c and
    src/mtp_cmd_handler.c, one definition per function.
  \<^item> Scenario: a file system in memory and a mounted storage, on which the
    witnesses are evaluated.
  \<^item> Protocol: every command is answered exactly once, and the session
    follows an abstract machine.  The locales command_handler and answering
    are the contract of a handler; every handler is an interpretation.
  \<^item> Commands, Listing, Uploading, Renaming: what GetObject, GetPartialObject,
    GetObjectHandles, SendObjectInfo, SendObject and SetObjectPropValue do, seen
    from the host.  A listing is a filter of the storages, in their order.
    A renamed folder takes the paths of its whole subtree with it.
  \<^item> Receiving, Reach: the reassembly of a data phase, and the states that
    packets and other threads can lead to (inductive predicate reachable),
    with the bounds of all transfer buffers as their invariant.
  \<^item> Open_Files, Inotify, Watching: the watcher, from the bytes of the kernel
    to the object lists; the locale open_registry is the contract of the list
    of open files.
  \<^item> Consistency: packets and file-system events together.  The states they
    can lead to, in any order, are the inductive predicate world; in all of
    them every storage is well formed and an announced object can be stored.
    The locale object_handler is what a handler promises about the objects,
    object_reader its special case for handlers that only look at them; all
    handlers are interpretations.  A DeleteObject command always returns.
  \<^item> Config: the configuration file.
  \<^item> Usb: the threads of the USB driver with their error paths, the opening
    and closing of the interfaces.
  \<^item> Events: event thread, start and end of the process.
  \<^item> Copying: the copying and moving of objects, which no command of this
    build reaches.

  \<^bold>\<open>What is assumed of code outside.\<close>  The UTF conversions of glib,
  localtime_r, the operating system, the kernel behind the USB endpoints and
  message queues and the addresses of malloc are parameters.  The hypotheses
  on them are named where they are used: ascii_conv and utf16_conv (a
  conversion keeps ASCII, and yields no zero units and no more units than
  bytes), plain_name (a name survives the conversion to UTF-16 and back),
  accepting (the queue takes its packets), reliable (the temporary file keeps
  what is written to it), probing (renaming a file to itself succeeds),
  malloc_ok (a new address is unused), kernel_event (the layout of an inotify
  event), conf_ok and buffers_ok (buffer sizes of the configuration), roomy
  and room (handles are left for new objects).

  \<^bold>\<open>Threads.\<close>  The mutex of the command handler and the watcher makes a packet
  callback and the handling of an event atomic.  Flags that other threads set
  are oracles over the looks at them (c_stop, c_ctrl), and other threads may
  change objects, files and queues between two callbacks.

  \<^bold>\<open>Fuel.\<close>  Recursions over object trees and directories take fuel (c_fuel,
  c_ff).  Under the invariant a tree of objects is no deeper than the number
  of handles given out, so that fuel of that size always suffices; the
  theorems state this bound and conclude that the operation returns.  The
  recursions of Prop_List and of most loops are structural.

  \<^bold>\<open>Not modelled.\<close>  Wrappers of the thread functions (src/util/mtp_thread.c),
  constant USB descriptors and the tool that prints them, logging, the branches
  for big-endian machines and for MTP_SUPPORT_SET_PROTECTION, and destructors
  that only free memory.  Freed memory that is used again is modelled where it
  happens (Prop_List, Hutil).

  The properties stand in the theory of the component they are about, each
  behind its statement in words, and next to the properties their witnesses.
\<close>

end
